(* ===== verification/Net_Prelude.thy ===== *)
theory Net_Prelude
  imports Main "HOL-Library.Word"
begin

unbundle bit_operations_syntax

text \<open>
  The prelude of the development: machine integers, undefined behaviour as a value,
  bounds-checked arrays, byte memories and the byte-order macros of
  \<^verbatim>\<open>arpa/inet.h\<close> on the little-endian hosts the sources are written for
  (\<^verbatim>\<open>handlers/arp/arp.h\<close> and \<^verbatim>\<open>handlers/ethernet/ethernet.h\<close> write
  network-order constants as byte-swapped integers, so the byte order is part of
  the code).

  A C operation that can run into undefined behaviour returns a value of
  \<open>fault + 'a\<close>: \<open>Inl\<close> names the first undefined operation it meets, \<open>Inr\<close> is the
  result. \<open>No_return\<close> stands for a call that never returns (a loop that does not end, or
  a call chain longer than the fuel it was given). \<open>sbind\<close> sequences two operations.
\<close>

section \<open>Machine integers\<close>

type_synonym u8 = "8 word"
type_synonym u16 = "16 word"
type_synonym u32 = "32 word"
type_synonym u64 = "64 word"

named_theorems byte_simps \<open>loads, stores and byte swaps\<close>

named_theorems c_simps \<open>unfolding of the checked C operations\<close>

section \<open>Undefined behaviour as a value\<close>

datatype fault =
    Null_deref
  | Dangling
  | Out_of_bounds
  | Bad_cast
  | Int_overflow
  | Division_by_zero
  | No_return

definition sbind :: "fault + 'a \<Rightarrow> ('a \<Rightarrow> fault + 'b) \<Rightarrow> fault + 'b" where
  "sbind m f = (case m of Inl e \<Rightarrow> Inl e | Inr x \<Rightarrow> f x)"

definition deref :: "'a option \<Rightarrow> fault + 'a" where
  "deref p = (case p of None \<Rightarrow> Inl Null_deref | Some x \<Rightarrow> Inr x)"

definition live :: "'a option \<Rightarrow> fault + 'a" where
  "live p = (case p of None \<Rightarrow> Inl Dangling | Some x \<Rightarrow> Inr x)"

definition idx :: "'a list \<Rightarrow> nat \<Rightarrow> fault + 'a" where
  "idx xs i = (if i < length xs then Inr (xs ! i) else Inl Out_of_bounds)"

definition upd :: "'a list \<Rightarrow> nat \<Rightarrow> 'a \<Rightarrow> fault + 'a list" where
  "upd xs i v = (if i < length xs then Inr (xs[i := v]) else Inl Out_of_bounds)"

section \<open>Byte memories\<close>

type_synonym mem8 = "nat \<Rightarrow> u8"

text \<open>
  A byte memory is a function from addresses (offsets into one allocation) to bytes.
  \<open>load16\<close> and \<open>load32\<close> are the host's little-endian loads of a \<^verbatim>\<open>uint16_t\<close> and a
  \<^verbatim>\<open>uint32_t\<close> struct field, \<open>bytes16\<close> and \<open>bytes32\<close> the bytes a store of one leaves in
  memory, \<open>store_bytes\<close> a \<^verbatim>\<open>memcpy\<close> into the memory.
\<close>

definition join16 :: "u8 \<Rightarrow> u8 \<Rightarrow> u16" where
  "join16 b1 b0 = push_bit 8 (ucast b1) OR ucast b0"

definition join32 :: "u8 \<Rightarrow> u8 \<Rightarrow> u8 \<Rightarrow> u8 \<Rightarrow> u32" where
  "join32 b3 b2 b1 b0 =
     push_bit 24 (ucast b3) OR push_bit 16 (ucast b2) OR push_bit 8 (ucast b1) OR ucast b0"

definition load16 :: "mem8 \<Rightarrow> nat \<Rightarrow> u16" where
  "load16 m a = join16 (m (a + 1)) (m a)"

definition load32 :: "mem8 \<Rightarrow> nat \<Rightarrow> u32" where
  "load32 m a = join32 (m (a + 3)) (m (a + 2)) (m (a + 1)) (m a)"

definition bytes16 :: "u16 \<Rightarrow> u8 list" where
  "bytes16 w = [ucast w, ucast (drop_bit 8 w)]"

definition bytes32 :: "u32 \<Rightarrow> u8 list" where
  "bytes32 w = [ucast w, ucast (drop_bit 8 w), ucast (drop_bit 16 w), ucast (drop_bit 24 w)]"

definition store_bytes :: "mem8 \<Rightarrow> nat \<Rightarrow> u8 list \<Rightarrow> mem8" where
  "store_bytes m a bs = (\<lambda>i. if a \<le> i \<and> i < a + length bs then bs ! (i - a) else m i)"

definition read_bytes :: "mem8 \<Rightarrow> nat \<Rightarrow> nat \<Rightarrow> u8 list" where
  "read_bytes m a n = map (\<lambda>i. m (a + i)) [0..<n]"

definition mem_of :: "u8 list \<Rightarrow> mem8" where
  "mem_of bs = (\<lambda>i. if i < length bs then bs ! i else 0)"

section \<open>Byte order\<close>

definition bswap16 :: "u16 \<Rightarrow> u16" where
  "bswap16 w = join16 (ucast w) (ucast (drop_bit 8 w))"

definition bswap32 :: "u32 \<Rightarrow> u32" where
  "bswap32 w =
     join32 (ucast w) (ucast (drop_bit 8 w)) (ucast (drop_bit 16 w)) (ucast (drop_bit 24 w))"

abbreviation ntohs :: "u16 \<Rightarrow> u16" where "ntohs \<equiv> bswap16"
abbreviation htons :: "u16 \<Rightarrow> u16" where "htons \<equiv> bswap16"
abbreviation ntohl :: "u32 \<Rightarrow> u32" where "ntohl \<equiv> bswap32"
abbreviation htonl :: "u32 \<Rightarrow> u32" where "htonl \<equiv> bswap32"

section \<open>Word lemmas\<close>

lemma unat_of_nat_u8 [simp]: "n \<le> 255 \<Longrightarrow> unat (word_of_nat n :: u8) = n"
  by (simp add: unat_of_nat)

lemma unat_u8_le: "unat (w :: u8) \<le> 255"
  using unsigned_less [of w, where ?'a = nat] by simp

lemma unat_u16_le: "unat (w :: u16) \<le> 65535"
  using unsigned_less [of w, where ?'a = nat] by simp

lemma unat_u32_less: "unat (w :: u32) < 2 ^ 32"
  using unsigned_less [of w, where ?'a = nat] by simp

lemma unat_ucast_u16_u32: "unat (ucast (w :: u16) :: u32) = unat w"
  by (simp add: unsigned_ucast_eq take_bit_nat_eq_self unat_u16_le [THEN le_less_trans])

text \<open>Addition at 32 bits wraps at most once.\<close>

lemma unat_add_u32:
  "unat (a + b :: u32) = (if unat a + unat b < 2 ^ 32 then unat a + unat b else unat a + unat b - 2 ^ 32)"
  using unat_u32_less [of a] unat_u32_less [of b]
  by (simp add: unat_word_ariths le_mod_geq)

section \<open>Sequencing lemmas\<close>

lemma sbind_Inr [simp]: "sbind (Inr x) f = f x"
  by (simp add: sbind_def)

lemma sbind_Inl [simp]: "sbind (Inl e) f = Inl e"
  by (simp add: sbind_def)

lemma sbind_eq_Inr: "sbind m f = Inr y \<longleftrightarrow> (\<exists>x. m = Inr x \<and> f x = Inr y)"
  by (cases m) simp_all

lemma sbind_eq_InrE [elim!]:
  assumes "sbind m f = Inr y"
  obtains x where "m = Inr x" and "f x = Inr y"
  using assms by (auto simp: sbind_eq_Inr)

lemma sbind_assoc: "sbind (sbind m f) g = sbind m (\<lambda>x. sbind (f x) g)"
  by (cases m) simp_all

lemma sbind_cong [fundef_cong]:
  assumes "m = m'" and "\<And>x. m' = Inr x \<Longrightarrow> f x = f' x"
  shows "sbind m f = sbind m' f'"
  using assms by (cases m') simp_all

lemma deref_simps [simp]: "deref None = Inl Null_deref" "deref (Some x) = Inr x"
  by (simp_all add: deref_def)

lemma deref_eq_Inr [simp]: "deref p = Inr x \<longleftrightarrow> p = Some x"
  by (cases p) simp_all

lemma live_simps [simp]: "live None = Inl Dangling" "live (Some x) = Inr x"
  by (simp_all add: live_def)

lemma live_eq_Inr [simp]: "live p = Inr x \<longleftrightarrow> p = Some x"
  by (cases p) simp_all

lemma idx_in [simp]: "i < length xs \<Longrightarrow> idx xs i = Inr (xs ! i)"
  by (simp add: idx_def)

lemma idx_out [simp]: "length xs \<le> i \<Longrightarrow> idx xs i = Inl Out_of_bounds"
  by (simp add: idx_def)

lemma idx_eq_Inr: "idx xs i = Inr x \<longleftrightarrow> i < length xs \<and> x = xs ! i"
  by (auto simp: idx_def)

lemma upd_in [simp]: "i < length xs \<Longrightarrow> upd xs i v = Inr (xs[i := v])"
  by (simp add: upd_def)

lemma upd_eq_Inr: "upd xs i v = Inr ys \<longleftrightarrow> i < length xs \<and> ys = xs[i := v]"
  by (auto simp: upd_def)

lemma replicate_numeral: "replicate (numeral k) x = x # replicate (pred_numeral k) x"
  by (simp add: numeral_eq_Suc)

section \<open>Byte lemmas\<close>

lemmas byte_defs [byte_simps] = load16_def load32_def bytes16_def bytes32_def

lemma bytes16_length [simp]: "length (bytes16 w) = 2"
  by (simp add: bytes16_def)

lemma bytes32_length [simp]: "length (bytes32 w) = 4"
  by (simp add: bytes32_def)

lemma read_bytes_length [simp]: "length (read_bytes m a n) = n"
  by (simp add: read_bytes_def)

lemma read_bytes_nth [simp]: "i < n \<Longrightarrow> read_bytes m a n ! i = m (a + i)"
  by (simp add: read_bytes_def)

lemma read_bytes_0 [simp]: "read_bytes m a 0 = []"
  by (simp add: read_bytes_def)

lemma read_bytes_add: "read_bytes m a (n + k) = read_bytes m a n @ read_bytes m (a + n) k"
  by (rule nth_equalityI) (auto simp: nth_append)

lemma read_bytes_cong: "(\<And>i. i < n \<Longrightarrow> m (a + i) = m' (a + i)) \<Longrightarrow> read_bytes m a n = read_bytes m' a n"
  by (rule nth_equalityI) auto

lemma read_store_same [simp]:
  "n = length bs \<Longrightarrow> read_bytes (store_bytes m a bs) a n = bs"
  by (rule nth_equalityI) (auto simp: store_bytes_def)

lemma read_store_above [simp]:
  "a + length bs \<le> b \<Longrightarrow> read_bytes (store_bytes m a bs) b n = read_bytes m b n"
  by (rule nth_equalityI) (auto simp: store_bytes_def)

lemma store_bytes_inside:
  "i < length bs \<Longrightarrow> store_bytes m a bs (a + i) = bs ! i"
  by (simp add: store_bytes_def)

lemma store_bytes_outside:
  "i < a \<or> a + length bs \<le> i \<Longrightarrow> store_bytes m a bs i = m i"
  by (auto simp: store_bytes_def)

lemma bit_lt_32_cases:
  fixes n :: nat
  assumes "n < 32"
  obtains (byte0) "n < 8"
    | (byte1) k where "n = 8 + k" "k < 8"
    | (byte2) k where "n = 16 + k" "k < 8"
    | (byte3) k where "n = 24 + k" "k < 8"
proof -
  have "n < 8 \<or> n = 8 + (n - 8) \<and> n - 8 < 8 \<or> n = 16 + (n - 16) \<and> n - 16 < 8
      \<or> n = 24 + (n - 24) \<and> n - 24 < 8"
    using assms by arith
  then show thesis using byte0 byte1 byte2 byte3 by blast
qed

lemma join16_bytes [simp]:
  "ucast (join16 b1 b0) = b0" "ucast (drop_bit 8 (join16 b1 b0)) = b1"
  unfolding join16_def
  by (rule bit_word_eqI, auto simp: bit_simps dest: bit_imp_le_length)+

lemma join16_split [simp]: "join16 (ucast (drop_bit 8 w)) (ucast w) = w"
  unfolding join16_def by (rule bit_word_eqI) (auto simp: bit_simps)

lemma join32_bytes [simp]:
  "ucast (join32 b3 b2 b1 b0) = b0"
  "ucast (drop_bit 8 (join32 b3 b2 b1 b0)) = b1"
  "ucast (drop_bit 16 (join32 b3 b2 b1 b0)) = b2"
  "ucast (drop_bit 24 (join32 b3 b2 b1 b0)) = b3"
  unfolding join32_def
  by (rule bit_word_eqI, auto simp: bit_simps dest: bit_imp_le_length)+

lemma join32_split [simp]:
  "join32 (ucast (drop_bit 24 w)) (ucast (drop_bit 16 w)) (ucast (drop_bit 8 w)) (ucast w) = w"
    (is "?j = w")
proof (rule bit_word_eqI)
  fix n
  assume "n < LENGTH(32)"
  then have "n < 32" by simp
  then show "bit ?j n = bit w n"
    by (cases rule: bit_lt_32_cases) (auto simp: join32_def bit_simps)
qed

lemma join16_halves [simp]:
  fixes w :: u32
  shows "join16 (ucast (drop_bit 8 w)) (ucast w) = ucast w"
    and "join16 (ucast (drop_bit 24 w)) (ucast (drop_bit 16 w)) = ucast (drop_bit 16 w)"
  unfolding join16_def by (rule bit_word_eqI, auto simp: bit_simps)+

lemma load16_bytes16:
  "m a = bytes16 w ! 0 \<Longrightarrow> m (a + 1) = bytes16 w ! 1 \<Longrightarrow> load16 m a = w"
  by (simp add: load16_def bytes16_def)

lemma load32_bytes32:
  "m a = bytes32 w ! 0 \<Longrightarrow> m (a + 1) = bytes32 w ! 1 \<Longrightarrow> m (a + 2) = bytes32 w ! 2 \<Longrightarrow>
   m (a + 3) = bytes32 w ! 3 \<Longrightarrow> load32 m a = w"
  by (simp add: load32_def bytes32_def)

lemma bswap16_bswap16 [simp]: "bswap16 (bswap16 w) = w"
  by (simp add: bswap16_def)

lemma bswap32_bswap32 [simp]: "bswap32 (bswap32 w) = w"
  by (simp add: bswap32_def)

lemma bswap16_inject [simp]: "bswap16 a = bswap16 b \<longleftrightarrow> a = b"
  by (metis bswap16_bswap16)

lemma bswap32_inject [simp]: "bswap32 a = bswap32 b \<longleftrightarrow> a = b"
  by (metis bswap32_bswap32)

text \<open>
  A struct at address \<open>a\<close> is read through its window: the bytes \<open>read_bytes m a n\<close> alone
  decide every load inside it, so a load can be evaluated on the list of bytes.
\<close>

lemma mem_of_nth [simp]: "i < length bs \<Longrightarrow> mem_of bs i = bs ! i"
  by (simp add: mem_of_def)

lemma byte_window: "k < n \<Longrightarrow> m (a + k) = mem_of (read_bytes m a n) k"
  by simp

lemma byte_window_0: "0 < n \<Longrightarrow> m a = mem_of (read_bytes m a n) 0"
  using byte_window [of 0 n m a] by simp

lemma load16_window: "k + 2 \<le> n \<Longrightarrow> load16 m (a + k) = load16 (mem_of (read_bytes m a n)) k"
  by (simp add: load16_def)

lemma load32_window: "k + 4 \<le> n \<Longrightarrow> load32 m (a + k) = load32 (mem_of (read_bytes m a n)) k"
  by (simp add: load32_def add.assoc add.commute [of 3])

lemma read_window: "k + j \<le> n \<Longrightarrow> read_bytes m (a + k) j = read_bytes (mem_of (read_bytes m a n)) k j"
  by (rule nth_equalityI) (simp_all add: add.assoc)

lemma read_mem_of: "k + j \<le> length bs \<Longrightarrow> read_bytes (mem_of bs) k j = take j (drop k bs)"
  by (rule nth_equalityI) simp_all

lemma read_mem_of_all: "length bs = n \<Longrightarrow> read_bytes (mem_of bs) 0 n = bs"
  by (simp add: read_mem_of)

end
