(* ===== verification/Packet_Stack.thy ===== *)
theory Packet_Stack
  imports Net_Prelude
begin

text \<open>
  \<^verbatim>\<open>handlers/handler.h\<close>, \<^verbatim>\<open>handlers/handler.c\<close>, \<^verbatim>\<open>handlers/types.h\<close>,
  \<^verbatim>\<open>handlers/interface.h\<close> and \<^verbatim>\<open>handlers/socket.h\<close>: the packet stacks every handler works
  on, and the memory they live in.

  A \<^verbatim>\<open>struct handler_t*\<close> is the constructor that names the handler object (one per
  protocol, as \<^verbatim>\<open>net_stack_init\<close> creates them; custom handlers are numbered); its
  \<^verbatim>\<open>operations.read\<close> and \<^verbatim>\<open>operations.write\<close> are reached through the parameters
  \<open>rd\<close> and \<open>wr\<close> of the operations below, which stand for the indirect calls. A
  \<^verbatim>\<open>void*\<close> argument is a value of \<open>write_args\<close> whose constructor is the type the
  pointer really has, so that a cast to another type is the fault \<open>Bad_cast\<close>.

  Packet stacks are shared by pointer (the TCP buffers keep them across calls), so they
  live in a store: \<open>in_stacks\<close> maps an address to an \<^verbatim>\<open>in_packet_stack_t\<close> while it is
  alive, \<open>out_stacks\<close> holds every \<^verbatim>\<open>out_packet_stack_t\<close> allocated so far (the code never
  frees one), and \<open>malloc_bytes\<close> gives the bytes that the allocator hands out with the
  i-th of them. Allocation is taken to succeed: the code does not test it.
  The store is an extensible record, which the components extend by their own state.
\<close>

section \<open>Data\<close>

datatype handler =
    H_ethernet
  | H_arp
  | H_ipv4
  | H_tcp
  | H_llc
  | H_custom nat

record ethernet_write_args_t =
  ea_destination :: "u8 list"
  ea_ethernet_type :: u16

record ipv4_write_args_t =
  ia_destination_ip :: u32
  ia_protocol :: u8

record arp_header_t =
  hdw_type :: u16
  pro_type :: u16
  hdw_addr_length :: u8
  pro_addr_length :: u8
  operation :: u16
  sender_hardware_addr :: "u8 list"
  sender_protocol_addr :: u32
  target_hardware_addr :: "u8 list"
  target_protocol_addr :: u32

record tcp_write_args_t =
  ta_connection_id :: u32
  ta_socket :: "nat option"
  ta_flags :: u8

record llc_write_args_t =
  la_destination_access_service_point :: u8
  la_source_access_service_point :: u8
  la_control :: u8

datatype write_args =
    Ethernet_args ethernet_write_args_t
  | Ipv4_args ipv4_write_args_t
  | Arp_args arp_header_t
  | Tcp_args tcp_write_args_t
  | Llc_args llc_write_args_t

record out_buffer_t =
  buffer :: mem8
  ob_size :: u64
  ob_offset :: u64

record in_packet_stack_t =
  in_handlers :: "handler option list"
  return_args :: "write_args option list"
  packet_pointers :: "nat option list"
  in_frame :: mem8
  in_stack_idx :: u8

record out_packet_stack_t =
  out_handlers :: "handler option list"
  out_args :: "write_args option list"
  out_buffer :: out_buffer_t
  out_stack_idx :: u8

record interface_t =
  if_port :: u16
  ipv4_addr :: u32
  mac :: "u8 list"

record socket_client_args =
  ca_handlers :: "handler option list"
  ca_handler_args :: "write_args option list"
  ca_depth :: u8

record net_mem =
  in_stacks :: "nat \<Rightarrow> in_packet_stack_t option"
  out_stacks :: "out_packet_stack_t list"
  malloc_bytes :: "nat \<Rightarrow> mem8"

type_synonym 's writer = "handler \<Rightarrow> nat \<Rightarrow> interface_t \<Rightarrow> 's \<Rightarrow> fault + (bool \<times> 's)"
type_synonym 's reader = "handler \<Rightarrow> nat \<Rightarrow> interface_t \<Rightarrow> 's \<Rightarrow> fault + (u16 option \<times> 's)"
type_synonym 's config_write = "nat \<Rightarrow> interface_t \<Rightarrow> 's \<Rightarrow> 's"

definition DEFAULT_PACKAGE_BUFFER_SIZE :: u64 where
  "DEFAULT_PACKAGE_BUFFER_SIZE = 0xFFFF"

section \<open>Access to the store\<close>

definition in_at :: "'a net_mem_scheme \<Rightarrow> nat \<Rightarrow> fault + in_packet_stack_t" where
  "in_at s p = live (in_stacks s p)"

definition put_in :: "nat \<Rightarrow> in_packet_stack_t \<Rightarrow> 'a net_mem_scheme \<Rightarrow> 'a net_mem_scheme" where
  "put_in p ps s = s\<lparr>in_stacks := (in_stacks s)(p := Some ps)\<rparr>"

definition out_at :: "'a net_mem_scheme \<Rightarrow> nat \<Rightarrow> fault + out_packet_stack_t" where
  "out_at s p = (if p < length (out_stacks s) then Inr (out_stacks s ! p) else Inl Dangling)"

definition put_out :: "nat \<Rightarrow> out_packet_stack_t \<Rightarrow> 'a net_mem_scheme \<Rightarrow> 'a net_mem_scheme" where
  "put_out p ps s = s\<lparr>out_stacks := (out_stacks s)[p := ps]\<rparr>"

text \<open>\<^verbatim>\<open>malloc\<close> of an \<^verbatim>\<open>out_packet_stack_t\<close> with its buffer behind it.\<close>

definition new_out_stack ::
  "handler option list \<Rightarrow> write_args option list \<Rightarrow> u64 \<Rightarrow> u8 \<Rightarrow> 'a net_mem_scheme \<Rightarrow> nat \<times> 'a net_mem_scheme" where
  "new_out_stack hs as offset i s =
     (let p = length (out_stacks s) in
      (p, s\<lparr>out_stacks := out_stacks s @
        [\<lparr>out_handlers = hs, out_args = as,
          out_buffer = \<lparr>buffer = malloc_bytes s p, ob_size = DEFAULT_PACKAGE_BUFFER_SIZE, ob_offset = offset\<rparr>,
          out_stack_idx = i\<rparr>]\<rparr>))"

definition handler_create_out_package_stack ::
  "nat \<Rightarrow> u8 \<Rightarrow> 'a net_mem_scheme \<Rightarrow> fault + (nat \<times> 'a net_mem_scheme)" where
  "handler_create_out_package_stack p package_depth s =
     sbind (in_at s p) (\<lambda>ps.
       Inr (new_out_stack (in_handlers ps) (return_args ps) DEFAULT_PACKAGE_BUFFER_SIZE package_depth s))"

section \<open>Writing headers in front of the payload\<close>

text \<open>The bytes a stack would send: from the offset to the end of the buffer.\<close>

definition frame_of :: "out_packet_stack_t \<Rightarrow> u8 list" where
  "frame_of ps = (let b = out_buffer ps in
     read_bytes (buffer b) (unat (ob_offset b)) (unat (ob_size b) - unat (ob_offset b)))"

text \<open>A \<^verbatim>\<open>memcpy\<close> right in front of the offset, which then moves down.\<close>

definition push_bytes :: "u8 list \<Rightarrow> out_packet_stack_t \<Rightarrow> out_packet_stack_t" where
  "push_bytes bs ps = (let b = out_buffer ps; off = ob_offset b - of_nat (length bs) in
     ps\<lparr>out_buffer := b\<lparr>buffer := store_bytes (buffer b) (unat off) bs, ob_offset := off\<rparr>\<rparr>)"

text \<open>
  The tail all \<^verbatim>\<open>write\<close> functions share: the bottom handler hands the buffer to
  \<^verbatim>\<open>handler_config->write\<close>, every other one calls the \<^verbatim>\<open>write\<close> of the handler below.
\<close>

definition pass_down ::
  "'a net_mem_scheme config_write \<Rightarrow> 'a net_mem_scheme writer \<Rightarrow> nat \<Rightarrow> interface_t \<Rightarrow>
   'a net_mem_scheme \<Rightarrow> fault + (bool \<times> 'a net_mem_scheme)" where
  "pass_down cw wr p ifc s =
     sbind (out_at s p) (\<lambda>ps.
       if out_stack_idx ps = 0 then Inr (True, cw p ifc s)
       else let i = out_stack_idx ps - 1 in
         sbind (idx (out_handlers ps) (unat i)) (\<lambda>h.
         sbind (deref h) (\<lambda>next_handler.
           wr next_handler p ifc (put_out p (ps\<lparr>out_stack_idx := i\<rparr>) s))))"

text \<open>The \<^verbatim>\<open>void*\<close> argument of the current layer.\<close>

definition current_args :: "out_packet_stack_t \<Rightarrow> fault + write_args option" where
  "current_args ps = idx (out_args ps) (unat (out_stack_idx ps))"

definition wf_out :: "out_packet_stack_t \<Rightarrow> bool" where
  "wf_out ps \<longleftrightarrow> length (out_handlers ps) = 10 \<and> length (out_args ps) = 10 \<and>
     ob_offset (out_buffer ps) \<le> ob_size (out_buffer ps)"

section \<open>Lemmas on the store\<close>

lemma out_at_put_same [simp]: "p < length (out_stacks s) \<Longrightarrow> out_at (put_out p ps s) p = Inr ps"
  by (simp add: out_at_def put_out_def)

lemma out_at_put_other [simp]: "p \<noteq> q \<Longrightarrow> out_at (put_out p ps s) q = out_at s q"
  by (simp add: out_at_def put_out_def)

lemma out_at_valid: "out_at s p = Inr ps \<Longrightarrow> p < length (out_stacks s)"
  by (simp add: out_at_def split: if_splits)

lemma put_out_put_out [simp]: "put_out p ps (put_out p ps' s) = put_out p ps s"
  by (simp add: put_out_def)

lemma put_out_id: "out_at s p = Inr ps \<Longrightarrow> put_out p ps s = s"
  by (auto simp: put_out_def out_at_def split: if_splits)

lemma put_out_frame [simp]:
  "in_stacks (put_out p ps s) = in_stacks s" "malloc_bytes (put_out p ps s) = malloc_bytes s"
  "length (out_stacks (put_out p ps s)) = length (out_stacks s)"
  by (simp_all add: put_out_def)

lemma in_at_put_same [simp]: "in_at (put_in p ps s) p = Inr ps"
  by (simp add: in_at_def put_in_def)

lemma in_at_put_other [simp]: "p \<noteq> q \<Longrightarrow> in_at (put_in p ps s) q = in_at s q"
  by (simp add: in_at_def put_in_def)

lemma put_in_put_in [simp]: "put_in p ps (put_in p ps' s) = put_in p ps s"
  by (simp add: put_in_def)

lemma put_in_frame [simp]:
  "out_stacks (put_in p ps s) = out_stacks s" "malloc_bytes (put_in p ps s) = malloc_bytes s"
  by (simp_all add: put_in_def)

lemma out_at_put_in [simp]: "out_at (put_in p ps s) q = out_at s q"
  by (simp add: out_at_def)

lemma in_at_put_out [simp]: "in_at (put_out p ps s) q = in_at s q"
  by (simp add: in_at_def)

section \<open>Lemmas on pushing headers\<close>

lemma unat_minus_of_nat:
  assumes "n \<le> unat (w :: u64)"
  shows "unat (w - of_nat n) = unat w - n"
proof -
  have n: "unat (of_nat n :: u64) = n" using assms by (rule le_unat_uoi)
  with assms have "of_nat n \<le> w" by (simp only: word_le_nat_alt)
  with n show ?thesis by (simp only: unat_sub)
qed

lemma push_bytes_simps [simp]:
  "out_handlers (push_bytes bs ps) = out_handlers ps" "out_args (push_bytes bs ps) = out_args ps"
  "out_stack_idx (push_bytes bs ps) = out_stack_idx ps"
  "ob_size (out_buffer (push_bytes bs ps)) = ob_size (out_buffer ps)"
  "ob_offset (out_buffer (push_bytes bs ps)) = ob_offset (out_buffer ps) - of_nat (length bs)"
  by (simp_all add: push_bytes_def Let_def)

lemma frame_of_stack_idx [simp]: "frame_of (ps\<lparr>out_stack_idx := i\<rparr>) = frame_of ps"
  by (simp add: frame_of_def)

lemma wf_out_stack_idx [simp]: "wf_out (ps\<lparr>out_stack_idx := i\<rparr>) = wf_out ps"
  by (simp add: wf_out_def)

lemma frame_of_push:
  assumes "wf_out ps" and "length bs \<le> unat (ob_offset (out_buffer ps))"
  shows "frame_of (push_bytes bs ps) = bs @ frame_of ps"
proof -
  let ?b = "out_buffer ps" and ?n = "length bs"
  have le: "unat (ob_offset ?b) \<le> unat (ob_size ?b)"
    using assms(1) by (simp add: wf_out_def word_le_nat_alt)
  have off: "unat (ob_offset ?b - of_nat ?n) = unat (ob_offset ?b) - ?n"
    using assms(2) by (rule unat_minus_of_nat)
  have "unat (ob_size ?b) - (unat (ob_offset ?b) - ?n)
      = ?n + (unat (ob_size ?b) - unat (ob_offset ?b))"
    using assms(2) le by simp
  with off assms(2) show ?thesis
    by (simp add: frame_of_def push_bytes_def Let_def read_bytes_add)
qed

lemma wf_out_push:
  assumes "wf_out ps" and "length bs \<le> unat (ob_offset (out_buffer ps))"
  shows "wf_out (push_bytes bs ps)"
  using assms by (auto simp: wf_out_def word_le_nat_alt unat_minus_of_nat)

lemma new_out_stack_frame_of:
  "wf_out \<lparr>out_handlers = hs, out_args = as,
      out_buffer = \<lparr>buffer = m, ob_size = z, ob_offset = z\<rparr>, out_stack_idx = i\<rparr> \<longleftrightarrow>
    length hs = 10 \<and> length as = 10"
  "frame_of \<lparr>out_handlers = hs, out_args = as,
      out_buffer = \<lparr>buffer = m, ob_size = z, ob_offset = z\<rparr>, out_stack_idx = i\<rparr> = []"
  by (auto simp: wf_out_def frame_of_def)

lemma new_out_stack_at:
  assumes "new_out_stack hs as DEFAULT_PACKAGE_BUFFER_SIZE i s = (out, s')"
    and "length hs = 10" and "length as = 10"
  obtains qs where "out_at s' out = Inr qs" and "wf_out qs" and "out_stack_idx qs = i"
    and "out_args qs = as" and "out_handlers qs = hs"
    and "ob_offset (out_buffer qs) = DEFAULT_PACKAGE_BUFFER_SIZE" and "frame_of qs = []"
    and "s' = s\<lparr>out_stacks := out_stacks s'\<rparr>"
    and "ob_size (out_buffer qs) = DEFAULT_PACKAGE_BUFFER_SIZE"
proof -
  let ?qs = "\<lparr>out_handlers = hs, out_args = as, out_buffer = \<lparr>buffer = malloc_bytes s (length (out_stacks s)),
    ob_size = DEFAULT_PACKAGE_BUFFER_SIZE, ob_offset = DEFAULT_PACKAGE_BUFFER_SIZE\<rparr>, out_stack_idx = i\<rparr>"
  have new: "out = length (out_stacks s)" "s' = s\<lparr>out_stacks := out_stacks s @ [?qs]\<rparr>"
    using assms(1) by (auto simp: new_out_stack_def Let_def)
  have "out_at s' out = Inr ?qs" by (simp add: new out_at_def)
  with assms(2,3) new that [of ?qs] show thesis by (simp add: new_out_stack_frame_of)
qed

section \<open>The contract of a header-writing layer\<close>

text \<open>
  What \<^verbatim>\<open>ethernet_write\<close>, \<^verbatim>\<open>ipv4_write\<close>, \<^verbatim>\<open>arp_write\<close>, \<^verbatim>\<open>llc_write\<close> and
  \<^verbatim>\<open>custom_write\<close> have in common: given arguments they can use, they refuse (with
  \<^verbatim>\<open>false\<close> and without effect) when the header does not fit in front of the payload,
  and otherwise put exactly their header in front of it and pass the stack down.
\<close>

locale header_layer =
  fixes write_op :: "'a net_mem_scheme config_write \<Rightarrow> 'a net_mem_scheme writer \<Rightarrow> nat \<Rightarrow>
      interface_t \<Rightarrow> 'a net_mem_scheme \<Rightarrow> fault + (bool \<times> 'a net_mem_scheme)"
    and header :: "'a net_mem_scheme \<Rightarrow> interface_t \<Rightarrow> out_packet_stack_t \<Rightarrow> u8 list option"
  assumes write_law: "out_at s p = Inr ps \<Longrightarrow> header s ifc ps = Some bs \<Longrightarrow>
      write_op cw wr p ifc s =
        (if unat (ob_offset (out_buffer ps)) < length bs then Inr (False, s)
         else pass_down cw wr p ifc (put_out p (push_bytes bs ps) s))"
begin

lemma write_no_room:
  assumes "out_at s p = Inr ps" and "header s ifc ps = Some bs"
    and "unat (ob_offset (out_buffer ps)) < length bs"
  shows "write_op cw wr p ifc s = Inr (False, s)"
  using write_law [OF assms(1,2)] assms(3) by simp

lemma write_bottom:
  assumes "out_at s p = Inr ps" and "header s ifc ps = Some bs" and "wf_out ps"
    and "length bs \<le> unat (ob_offset (out_buffer ps))" and "out_stack_idx ps = 0"
  shows "write_op cw wr p ifc s = Inr (True, cw p ifc (put_out p (push_bytes bs ps) s))"
    and "frame_of (push_bytes bs ps) = bs @ frame_of ps" and "wf_out (push_bytes bs ps)"
  using write_law [OF assms(1,2)] assms(4,5) out_at_valid [OF assms(1)]
    frame_of_push [OF assms(3,4)] wf_out_push [OF assms(3,4)]
  by (simp_all add: pass_down_def)

lemma write_down:
  assumes "out_at s p = Inr ps" and "header s ifc ps = Some bs" and "wf_out ps"
    and "length bs \<le> unat (ob_offset (out_buffer ps))"
    and "0 < out_stack_idx ps" and "out_stack_idx ps \<le> 10"
    and "out_handlers ps ! unat (out_stack_idx ps - 1) = Some h"
  shows "write_op cw wr p ifc s =
      wr h p ifc (put_out p ((push_bytes bs ps)\<lparr>out_stack_idx := out_stack_idx ps - 1\<rparr>) s)"
    and "frame_of (push_bytes bs ps) = bs @ frame_of ps" and "wf_out (push_bytes bs ps)"
proof -
  have "unat (out_stack_idx ps - 1) < 10"
    using assms(5,6) by (simp add: unat_sub word_le_nat_alt word_less_nat_alt)
  then have "idx (out_handlers ps) (unat (out_stack_idx ps - 1)) = Inr (Some h)"
    using assms(3,7) by (simp add: wf_out_def)
  then show "write_op cw wr p ifc s =
      wr h p ifc (put_out p ((push_bytes bs ps)\<lparr>out_stack_idx := out_stack_idx ps - 1\<rparr>) s)"
    using write_law [OF assms(1,2)] assms(4,5) out_at_valid [OF assms(1)]
    by (simp add: pass_down_def Let_def word_gt_0)
qed (use frame_of_push [OF assms(3,4)] wf_out_push [OF assms(3,4)] in simp_all)

end

end
