(* ===== verification/Protocol_Map.thy ===== *)
theory Protocol_Map
  imports Net_Prelude "HOL-Library.Multiset"
begin

text \<open>
  \<^verbatim>\<open>handlers/protocol_map.c\<close>: the tables that map a protocol number to the handler of the
  next layer (\<^verbatim>\<open>ethernet_type_to_handler\<close>, \<^verbatim>\<open>ip_type_to_handler\<close>,
  \<^verbatim>\<open>llc_type_to_handler\<close>). A slot with key 0 is free; \<^verbatim>\<open>add_value\<close> fills the first
  free slot, \<^verbatim>\<open>get_value\<close> scans up to the first free slot, counts the hit in the slot's
  priority and moves a slot that became more popular than its left neighbour one
  place to the front. The scan's index is a \<^verbatim>\<open>uint8_t\<close>, so the loop is a
  \<^theory_text>\<open>partial_function\<close>: on a table of more than 255 used slots it need not end.
\<close>

section \<open>Data\<close>

record 'v key_val_t =
  kv_key :: u64
  kv_priority :: u64
  kv_value :: "'v option"

record 'v priority_map_t =
  max_size :: u16
  kv_map :: "'v key_val_t list"

section \<open>Operations\<close>

function add_value_loop ::
  "'v priority_map_t \<Rightarrow> u64 \<Rightarrow> 'v option \<Rightarrow> nat \<Rightarrow> fault + (int \<times> 'v priority_map_t)" where
  "add_value_loop m k v i =
     (if i < unat (max_size m) then
        sbind (idx (kv_map m) i) (\<lambda>kv.
          if kv_key kv = 0 then
            Inr (0, m\<lparr>kv_map := (kv_map m)[i := \<lparr>kv_key = k, kv_priority = 0, kv_value = v\<rparr>]\<rparr>)
          else add_value_loop m k v (Suc i))
      else Inr (- 1, m))"
  by pat_completeness auto
termination
  by (relation "measure (\<lambda>(m, k, v, i). unat (max_size m) - i)") auto

declare add_value_loop.simps [simp del]

definition add_value :: "'v priority_map_t \<Rightarrow> u64 \<Rightarrow> 'v option \<Rightarrow> fault + (int \<times> 'v priority_map_t)" where
  "add_value m k v = add_value_loop m k v 0"

text \<open>The body of \<^verbatim>\<open>get_value\<close> on a hit in slot \<open>i\<close> (lines 31 to 43).\<close>

definition get_value_hit :: "'v priority_map_t \<Rightarrow> nat \<Rightarrow> 'v option \<times> 'v priority_map_t" where
  "get_value_hit m i =
     (let kvs = kv_map m;
          kv = (kvs ! i)\<lparr>kv_priority := kv_priority (kvs ! i) + 1\<rparr>;
          kvs1 = kvs[i := kv];
          previous = kvs1 ! (i - 1);
          kvs2 = (if 0 < i \<and> kv_priority previous < kv_priority kv
                  then kvs1[i - 1 := kv, i := previous] else kvs1)
      in (kv_value (kvs2 ! i), m\<lparr>kv_map := kvs2\<rparr>))"

partial_function (option) get_value_loop ::
  "'v priority_map_t \<Rightarrow> u16 \<Rightarrow> u8 \<Rightarrow> (fault + ('v option \<times> 'v priority_map_t)) option" where
  "get_value_loop m k i =
     (if unat i < unat (max_size m) then
        case idx (kv_map m) (unat i) of
          Inl e \<Rightarrow> Some (Inl e)
        | Inr kv \<Rightarrow>
            if kv_key kv \<noteq> 0 then
              if kv_key kv = ucast k then Some (Inr (get_value_hit m (unat i)))
              else get_value_loop m k (i + 1)
            else Some (Inr (None, m))
      else Some (Inr (None, m)))"

declare get_value_loop.simps [code]

definition get_value :: "'v priority_map_t \<Rightarrow> u16 \<Rightarrow> fault + ('v option \<times> 'v priority_map_t)" where
  "get_value m k = (case get_value_loop m k 0 of None \<Rightarrow> Inl No_return | Some r \<Rightarrow> r)"

text \<open>A table as the static initialisers of the handlers leave it: all slots zero.\<close>

definition empty_map :: "u16 \<Rightarrow> 'v priority_map_t" where
  "empty_map n = \<lparr>max_size = n,
     kv_map = replicate (unat n) \<lparr>kv_key = 0, kv_priority = 0, kv_value = None\<rparr>\<rparr>"

section \<open>Abstraction and well-formedness\<close>

definition wf_map :: "'v priority_map_t \<Rightarrow> bool" where
  "wf_map m \<longleftrightarrow> length (kv_map m) = unat (max_size m)"

text \<open>Used slots come first, as \<^verbatim>\<open>add_value\<close> fills the first free one.\<close>

definition packed :: "'v priority_map_t \<Rightarrow> bool" where
  "packed m \<longleftrightarrow> (\<forall>j < length (kv_map m). kv_key (kv_map m ! j) \<noteq> 0 \<longrightarrow>
     (\<forall>i < j. kv_key (kv_map m ! i) \<noteq> 0))"

definition kv_entry :: "'v key_val_t \<Rightarrow> u64 \<times> 'v option" where
  "kv_entry kv = (kv_key kv, kv_value kv)"

definition map_entries :: "'v priority_map_t \<Rightarrow> (u64 \<times> 'v option) multiset" where
  "map_entries m = {#e \<in># mset (map kv_entry (kv_map m)). fst e \<noteq> 0#}"

definition map_invar :: "'v priority_map_t \<Rightarrow> bool" where
  "map_invar m \<longleftrightarrow> wf_map m \<and> packed m"

text \<open>The slot a scan for \<open>k\<close> stops at: the first one that is free or holds \<open>k\<close>.\<close>

definition stops_at :: "'v priority_map_t \<Rightarrow> u64 \<Rightarrow> nat \<Rightarrow> bool" where
  "stops_at m k i \<longleftrightarrow> i < unat (max_size m) \<and>
     (kv_key (kv_map m ! i) = 0 \<or> kv_key (kv_map m ! i) = k)"

definition first_stop :: "'v priority_map_t \<Rightarrow> u64 \<Rightarrow> nat \<Rightarrow> bool" where
  "first_stop m k i \<longleftrightarrow> stops_at m k i \<and> (\<forall>j<i. \<not> stops_at m k j)"

section \<open>The scan\<close>

lemma get_value_loop_skip:
  assumes "wf_map m" and "unat i < unat (max_size m)" and "\<not> stops_at m (ucast k) (unat i)"
  shows "get_value_loop m k i = get_value_loop m k (i + 1)"
  using assms by (subst get_value_loop.simps) (simp add: wf_map_def stops_at_def)

lemma get_value_loop_reaches:
  assumes wf: "wf_map m" and n: "n \<le> 255" "n \<le> unat (max_size m)"
    and skip: "\<And>j. j < n \<Longrightarrow> \<not> stops_at m (ucast k) j"
  shows "get_value_loop m k 0 = get_value_loop m k (of_nat n)"
  using n skip
proof (induction n)
  case 0
  then show ?case by simp
next
  case (Suc n)
  then have "unat (of_nat n :: u8) = n" by simp
  with Suc have "get_value_loop m k (of_nat n) = get_value_loop m k (of_nat n + 1)"
    by (intro get_value_loop_skip [OF wf]) auto
  with Suc show ?case by (simp add: add.commute)
qed

lemma get_value_at_stop:
  assumes wf: "wf_map m" and stop: "first_stop m (ucast k) i" and "i \<le> 255"
  shows "get_value m k =
    Inr (if kv_key (kv_map m ! i) = 0 then (None, m) else get_value_hit m i)"
proof -
  have i: "i < unat (max_size m)" "unat (of_nat i :: u8) = i"
    using stop \<open>i \<le> 255\<close> by (simp_all add: first_stop_def stops_at_def)
  have "get_value_loop m k 0 = get_value_loop m k (of_nat i)"
    using stop i \<open>i \<le> 255\<close> by (intro get_value_loop_reaches [OF wf]) (auto simp: first_stop_def)
  also have "\<dots> = Some (Inr (if kv_key (kv_map m ! i) = 0 then (None, m) else get_value_hit m i))"
    using stop i wf
    by (subst get_value_loop.simps) (auto simp: wf_map_def first_stop_def stops_at_def)
  finally show ?thesis by (simp add: get_value_def)
qed

lemma get_value_no_stop:
  assumes wf: "wf_map m" and "unat (max_size m) \<le> 255"
    and none: "\<And>j. \<not> stops_at m (ucast k) j"
  shows "get_value m k = Inr (None, m)"
proof -
  obtain n where n: "n = unat (max_size m)" by simp
  with assms have "n \<le> 255" by simp
  then have "unat (of_nat n :: u8) = n" by (rule unat_of_nat_u8)
  have "get_value_loop m k 0 = get_value_loop m k (of_nat n)"
    using assms n by (intro get_value_loop_reaches) auto
  also have "\<dots> = Some (Inr (None, m))"
    using \<open>unat (of_nat n :: u8) = n\<close> n
    by (subst get_value_loop.simps) (simp del: unat_of_nat)
  finally show ?thesis by (simp add: get_value_def)
qed

lemma get_value_loop_diverges:
  assumes ret: "get_value_loop m k i = Some r" and wf: "wf_map m"
    and big: "256 \<le> unat (max_size m)"
  shows "\<exists>j \<le> 255. stops_at m (ucast k) j"
proof -
  have "wf_map m \<longrightarrow> 256 \<le> unat (max_size m) \<longrightarrow> (\<exists>j \<le> 255. stops_at m (ucast k) j)"
  proof (rule get_value_loop.raw_induct
      [where P = "\<lambda>m k i r. wf_map m \<longrightarrow> 256 \<le> unat (max_size m) \<longrightarrow>
         (\<exists>j \<le> 255. stops_at m (ucast k) j)", OF _ ret])
    fix f :: "'a priority_map_t \<Rightarrow> u16 \<Rightarrow> u8 \<Rightarrow> (fault + ('a option \<times> 'a priority_map_t)) option"
    fix m k i r
    assume IH: "\<And>m k i r. f m k i = Some r \<Longrightarrow> wf_map m \<longrightarrow> 256 \<le> unat (max_size m) \<longrightarrow>
         (\<exists>j \<le> 255. stops_at m (ucast k) j)"
      and step: "(if unat i < unat (max_size m) then
          case idx (kv_map m) (unat i) of
            Inl e \<Rightarrow> Some (Inl e)
          | Inr kv \<Rightarrow>
              if kv_key kv \<noteq> 0 then
                if kv_key kv = ucast k then Some (Inr (get_value_hit m (unat i)))
                else f m k (i + 1)
              else Some (Inr (None, m))
        else Some (Inr (None, m))) = Some r"
    have i: "unat i \<le> 255"
      by (rule unat_u8_le)
    show "wf_map m \<longrightarrow> 256 \<le> unat (max_size m) \<longrightarrow> (\<exists>j \<le> 255. stops_at m (ucast k) j)"
    proof (intro impI)
      assume wf: "wf_map m" and big: "256 \<le> unat (max_size m)"
      show "\<exists>j \<le> 255. stops_at m (ucast k) j"
      proof (cases "stops_at m (ucast k) (unat i)")
        case True
        with i show ?thesis by blast
      next
        case False
        have "unat i < unat (max_size m)" using i big by simp
        with False step wf have "f m k (i + 1) = Some r"
          by (simp add: stops_at_def wf_map_def)
        then show ?thesis using IH wf big by blast
      qed
    qed
  qed
  with wf big show ?thesis by blast
qed

section \<open>What a lookup returns\<close>

lemma get_value_no_return_iff:
  assumes wf: "wf_map m"
  shows "get_value m k = Inl No_return \<longleftrightarrow>
    256 \<le> unat (max_size m) \<and> (\<forall>j \<le> 255. \<not> stops_at m (ucast k) j)" (is "?d \<longleftrightarrow> ?r")
proof (cases "\<exists>j \<le> 255. stops_at m (ucast k) j")
  case True
  define i where "i = (LEAST j. stops_at m (ucast k) j)"
  from True have "first_stop m (ucast k) i" and "i \<le> 255"
    by (auto simp: first_stop_def i_def intro: LeastI dest: not_less_Least)
      (meson Least_le order_trans)
  from get_value_at_stop [OF wf this] True show ?thesis by auto
next
  case False
  show ?thesis
  proof (cases "256 \<le> unat (max_size m)")
    case True
    with False wf have "get_value_loop m k 0 = None"
      using get_value_loop_diverges [of m k 0] by (cases "get_value_loop m k 0") auto
    with False True show ?thesis by (auto simp: get_value_def)
  next
    case small: False
    then have "\<not> stops_at m (ucast k) j" for j
      using False by (cases "j \<le> 255") (auto simp: stops_at_def)
    with small show ?thesis using get_value_no_stop [OF wf] by simp
  qed
qed

lemma get_value_outcomes:
  assumes wf: "wf_map m"
  obtains (diverges) "get_value m k = Inl No_return"
    | (miss) "get_value m k = Inr (None, m)"
    | (hit) i where "i < unat (max_size m)" "kv_key (kv_map m ! i) = ucast k"
        "kv_key (kv_map m ! i) \<noteq> 0" "get_value m k = Inr (get_value_hit m i)"
proof (cases "\<exists>j \<le> 255. stops_at m (ucast k) j")
  case True
  define i where "i = (LEAST j. stops_at m (ucast k) j)"
  from True have stop: "first_stop m (ucast k) i" and "i \<le> 255"
    by (auto simp: first_stop_def i_def intro: LeastI dest: not_less_Least)
      (meson Least_le order_trans)
  from get_value_at_stop [OF wf this] stop miss hit show thesis
    by (cases "kv_key (kv_map m ! i) = 0") (auto simp: first_stop_def stops_at_def)
next
  case False
  show thesis
  proof (cases "256 \<le> unat (max_size m)")
    case True
    with False get_value_no_return_iff [OF wf] diverges show thesis by blast
  next
    case small: False
    then have "\<not> stops_at m (ucast k) j" for j
      using False by (cases "j \<le> 255") (auto simp: stops_at_def)
    with small miss show thesis using get_value_no_stop [OF wf] by simp
  qed
qed

text \<open>A hit only reorders the slots; keys and values stay together.\<close>

lemma mset_swap_adjacent:
  "0 < i \<Longrightarrow> i < length xs \<Longrightarrow> mset (xs[i - 1 := xs ! i, i := xs ! (i - 1)]) = mset xs"
  using mset_swap [of i xs "i - 1"] by simp

lemma get_value_hit_mset:
  assumes "i < length (kv_map m)" and "get_value_hit m i = (r, m')"
  shows "mset (map kv_entry (kv_map m')) = mset (map kv_entry (kv_map m))"
    and "max_size m' = max_size m" and "length (kv_map m') = length (kv_map m)"
proof -
  let ?kvs1 = "(kv_map m)[i := (kv_map m ! i)\<lparr>kv_priority := kv_priority (kv_map m ! i) + 1\<rparr>]"
  have "map kv_entry ?kvs1 = map kv_entry (kv_map m)"
    using assms(1) by (simp add: map_update kv_entry_def list_update_same_conv)
  then have same: "image_mset kv_entry (mset ?kvs1) = image_mset kv_entry (mset (kv_map m))"
    by (metis mset_map)
  have "mset (?kvs1[i - 1 := ?kvs1 ! i, i := ?kvs1 ! (i - 1)]) = mset ?kvs1" if "0 < i"
    using that assms(1) by (intro mset_swap_adjacent) auto
  then show "mset (map kv_entry (kv_map m')) = mset (map kv_entry (kv_map m))"
    using assms same by (auto simp: get_value_hit_def Let_def split: if_splits)
  show "max_size m' = max_size m" and "length (kv_map m') = length (kv_map m)"
    using assms by (auto simp: get_value_hit_def Let_def split: if_splits)
qed

lemma get_value_hit_used:
  assumes "packed m" and "i < length (kv_map m)" and "kv_key (kv_map m ! i) \<noteq> 0"
    and "get_value_hit m i = (r, m')" and "j < length (kv_map m)"
  shows "kv_key (kv_map m' ! j) = 0 \<longleftrightarrow> kv_key (kv_map m ! j) = 0"
proof -
  have previous: "0 < i \<Longrightarrow> kv_key (kv_map m ! (i - 1)) \<noteq> 0"
    using assms(1-3) by (simp add: packed_def)
  from assms(4) have "m' = snd (get_value_hit m i)" by simp
  with previous assms(2,3,5) show ?thesis
    by (cases "j = i"; cases "j = i - 1") (simp_all add: get_value_hit_def Let_def)
qed

lemma get_value_hit_packed:
  assumes "packed m" and "i < length (kv_map m)" and "kv_key (kv_map m ! i) \<noteq> 0"
    and "get_value_hit m i = (r, m')"
  shows "packed m'"
  using get_value_hit_used [OF assms] get_value_hit_mset(3) [OF assms(2,4)] assms(1)
  unfolding packed_def by (metis order.strict_trans)

lemma get_value_hit_value_member:
  assumes "i < length (kv_map m)" and "kv_key (kv_map m ! i) \<noteq> 0" and "packed m"
    and "get_value_hit m i = (Some v, m')"
  shows "\<exists>k'. (k', Some v) \<in># map_entries m"
proof -
  have "\<exists>j < length (kv_map m). kv_key (kv_map m ! j) \<noteq> 0 \<and> kv_value (kv_map m ! j) = Some v"
  proof (cases "kv_value (kv_map m ! i) = Some v")
    case True
    with assms show ?thesis by blast
  next
    case False
    with assms(1,4) have "0 < i" and "kv_value (kv_map m ! (i - 1)) = Some v"
      by (auto simp: get_value_hit_def Let_def split: if_splits)
    moreover from \<open>0 < i\<close> assms have "kv_key (kv_map m ! (i - 1)) \<noteq> 0"
      by (auto simp: packed_def)
    moreover from \<open>0 < i\<close> assms(1) have "i - 1 < length (kv_map m)" by simp
    ultimately show ?thesis by blast
  qed
  then show ?thesis
    by (force simp: map_entries_def kv_entry_def in_set_conv_nth)
qed

section \<open>Registration\<close>

lemma add_value_loop_reaches:
  assumes "wf_map m" and "i \<le> n" and "n \<le> unat (max_size m)"
    and "\<And>j. j < n \<Longrightarrow> kv_key (kv_map m ! j) \<noteq> 0"
  shows "add_value_loop m k v i = add_value_loop m k v n"
  using assms(2)
proof (induction "n - i" arbitrary: i)
  case 0
  then show ?case by simp
next
  case (Suc d)
  then have "i < n" by simp
  with assms have "i < unat (max_size m)" "i < length (kv_map m)" "kv_key (kv_map m ! i) \<noteq> 0"
    by (simp_all add: wf_map_def)
  then have "add_value_loop m k v i = add_value_loop m k v (Suc i)"
    by (subst add_value_loop.simps) simp
  also from Suc have "\<dots> = add_value_loop m k v n"
    by (intro Suc.hyps) auto
  finally show ?case .
qed

lemma add_value_at_free:
  assumes "wf_map m" and "n < unat (max_size m)" and "kv_key (kv_map m ! n) = 0"
    and "\<And>j. j < n \<Longrightarrow> kv_key (kv_map m ! j) \<noteq> 0"
  shows "add_value m k v =
    Inr (0, m\<lparr>kv_map := (kv_map m)[n := \<lparr>kv_key = k, kv_priority = 0, kv_value = v\<rparr>]\<rparr>)"
proof -
  have "add_value m k v = add_value_loop m k v n"
    using assms by (simp add: add_value_def add_value_loop_reaches)
  also have "\<dots> = Inr (0, m\<lparr>kv_map := (kv_map m)[n := \<lparr>kv_key = k, kv_priority = 0, kv_value = v\<rparr>]\<rparr>)"
    using assms by (subst add_value_loop.simps) (simp add: wf_map_def)
  finally show ?thesis .
qed

lemma add_value_full:
  assumes "wf_map m" and "\<And>j. j < unat (max_size m) \<Longrightarrow> kv_key (kv_map m ! j) \<noteq> 0"
  shows "add_value m k v = Inr (- 1, m)"
proof -
  have "add_value m k v = add_value_loop m k v (unat (max_size m))"
    using assms by (simp add: add_value_def add_value_loop_reaches)
  then show ?thesis by (subst (asm) add_value_loop.simps) simp
qed

lemma add_value_outcomes:
  assumes wf: "wf_map m"
  obtains (added) n where "n < unat (max_size m)" "kv_key (kv_map m ! n) = 0"
      "\<And>j. j < n \<Longrightarrow> kv_key (kv_map m ! j) \<noteq> 0"
      "add_value m k v =
        Inr (0, m\<lparr>kv_map := (kv_map m)[n := \<lparr>kv_key = k, kv_priority = 0, kv_value = v\<rparr>]\<rparr>)"
    | (full) "add_value m k v = Inr (- 1, m)"
proof (cases "\<exists>n < unat (max_size m). kv_key (kv_map m ! n) = 0")
  case True
  define n where "n = (LEAST n. n < unat (max_size m) \<and> kv_key (kv_map m ! n) = 0)"
  from True have n: "n < unat (max_size m) \<and> kv_key (kv_map m ! n) = 0"
    unfolding n_def by (rule LeastI_ex)
  have "kv_key (kv_map m ! j) \<noteq> 0" if "j < n" for j
    using not_less_Least [OF that [unfolded n_def]] that n by auto
  with n added show thesis using add_value_at_free [OF wf] by blast
next
  case False
  with full show thesis using add_value_full [OF wf] by blast
qed

lemma mset_map_update_free:
  assumes "n < length xs"
  shows "mset (map f (xs[n := y])) = mset (map f xs) - {#f (xs ! n)#} + {#f y#}"
  using assms by (simp add: map_update mset_update)

lemma map_entries_add:
  assumes "n < length (kv_map m)" and "kv_key (kv_map m ! n) = 0" and "k \<noteq> 0"
  shows "map_entries (m\<lparr>kv_map := (kv_map m)[n := \<lparr>kv_key = k, kv_priority = 0, kv_value = v\<rparr>]\<rparr>)
    = map_entries m + {#(k, v)#}"
proof -
  have "kv_entry (kv_map m ! n) \<in># mset (map kv_entry (kv_map m))"
    using assms(1) by (auto intro!: image_eqI)
  then show ?thesis
    using assms unfolding map_entries_def
    by (simp add: mset_map_update_free kv_entry_def multiset_eq_iff del: mset_map)
qed

lemma packed_add:
  assumes "packed m" and "n < length (kv_map m)" and "k \<noteq> 0"
    and "\<And>j. j < n \<Longrightarrow> kv_key (kv_map m ! j) \<noteq> 0"
  shows "packed (m\<lparr>kv_map := (kv_map m)[n := \<lparr>kv_key = k, kv_priority = 0, kv_value = v\<rparr>]\<rparr>)"
  unfolding packed_def
proof (intro allI impI)
  let ?m = "m\<lparr>kv_map := (kv_map m)[n := \<lparr>kv_key = k, kv_priority = 0, kv_value = v\<rparr>]\<rparr>"
  fix j i
  assume j: "j < length (kv_map ?m)" "kv_key (kv_map ?m ! j) \<noteq> 0" and "i < j"
  show "kv_key (kv_map ?m ! i) \<noteq> 0"
  proof (cases "i = n")
    case True
    with assms(2,3) show ?thesis by simp
  next
    case False
    have "kv_key (kv_map m ! i) \<noteq> 0"
    proof (cases "j = n")
      case True
      with \<open>i < j\<close> assms(4) show ?thesis by simp
    next
      case False
      with j \<open>i < j\<close> assms(1) show ?thesis by (simp add: packed_def)
    qed
    with False show ?thesis by simp
  qed
qed

section \<open>The contract of a protocol table\<close>

text \<open>
  What the read functions of the handlers rely on: registering a handler adds exactly one
  entry or changes nothing, a lookup changes no entry, and whatever handler a lookup
  returns was registered. (The lookup need not return the handler of the key it was
  asked for: see \<open>get_value_result\<close> below.)
\<close>

locale registry =
  fixes insert_op :: "'m \<Rightarrow> u64 \<Rightarrow> 'v option \<Rightarrow> fault + (int \<times> 'm)"
    and lookup_op :: "'m \<Rightarrow> u16 \<Rightarrow> fault + ('v option \<times> 'm)"
    and entries :: "'m \<Rightarrow> (u64 \<times> 'v option) multiset"
    and invar :: "'m \<Rightarrow> bool"
  assumes insert_added: "invar m \<Longrightarrow> k \<noteq> 0 \<Longrightarrow> insert_op m k v = Inr (0, m') \<Longrightarrow>
      invar m' \<and> entries m' = entries m + {#(k, v)#}"
    and insert_total: "invar m \<Longrightarrow> \<exists>c m'. insert_op m k v = Inr (c, m') \<and> (c = 0 \<or> m' = m)"
    and lookup_frame: "invar m \<Longrightarrow> lookup_op m q = Inr (r, m') \<Longrightarrow>
      invar m' \<and> entries m' = entries m"
    and lookup_registered: "invar m \<Longrightarrow> lookup_op m q = Inr (Some w, m') \<Longrightarrow>
      \<exists>k'. (k', Some w) \<in># entries m"
begin

primrec register_all :: "'m \<Rightarrow> (u64 \<times> 'v) list \<Rightarrow> fault + 'm" where
  "register_all m [] = Inr m"
| "register_all m (e # es) =
     sbind (insert_op m (fst e) (Some (snd e))) (\<lambda>(c, m'). register_all m' es)"

lemma insert_frame:
  assumes "invar m" and "k \<noteq> 0" and "insert_op m k v = Inr (c, m')"
  shows "invar m' \<and> entries m' \<subseteq># entries m + {#(k, v)#}"
  using insert_added [OF assms(1,2), of v m'] insert_total [OF assms(1), of k v] assms
  by (cases "c = 0") auto

lemma register_all_frame:
  assumes "invar m" and "\<forall>e \<in> set es. fst e \<noteq> 0" and "register_all m es = Inr m'"
  shows "invar m' \<and> entries m' \<subseteq># entries m + mset (map (\<lambda>e. (fst e, Some (snd e))) es)"
  using assms
proof (induction es arbitrary: m)
  case Nil
  then show ?case by simp
next
  case (Cons e es)
  then obtain c m1 where m1: "insert_op m (fst e) (Some (snd e)) = Inr (c, m1)"
    and rest: "register_all m1 es = Inr m'"
    by auto
  from insert_frame [OF Cons.prems(1) _ m1] Cons.prems(2)
  have "invar m1" and "entries m1 \<subseteq># entries m + {#(fst e, Some (snd e))#}"
    by auto
  moreover from Cons.IH [OF this(1) _ rest] Cons.prems(2)
  have "invar m'" and "entries m' \<subseteq># entries m1 + mset (map (\<lambda>e. (fst e, Some (snd e))) es)"
    by auto
  ultimately show ?case
    by (auto intro: subset_mset.order_trans subset_mset.add_right_mono)
qed

lemma lookup_after_register:
  assumes "invar m" and "entries m = {#}" and "\<forall>e \<in> set es. fst e \<noteq> 0"
    and "register_all m es = Inr m1" and "lookup_op m1 k = Inr (Some v, m2)"
  shows "v \<in> snd ` set es"
proof -
  from register_all_frame [OF assms(1,3,4)] assms(2)
  have inv: "invar m1" and sub: "entries m1 \<subseteq># mset (map (\<lambda>e. (fst e, Some (snd e))) es)"
    by auto
  from lookup_registered [OF inv assms(5)] obtain k' where "(k', Some v) \<in># entries m1" ..
  with sub have "(k', Some v) \<in># mset (map (\<lambda>e. (fst e, Some (snd e))) es)"
    by (rule mset_subset_eqD)
  then show ?thesis by force
qed

end

interpretation pmap: registry add_value get_value map_entries map_invar
proof unfold_locales
  fix m :: "'v priority_map_t" and k v m'
  assume m: "map_invar m" "k \<noteq> 0" "add_value m k v = Inr (0, m')"
  then have wf: "wf_map m" and "packed m" by (simp_all add: map_invar_def)
  from wf show "map_invar m' \<and> map_entries m' = map_entries m + {#(k, v)#}"
  proof (cases rule: add_value_outcomes [of m k v])
    case (added n)
    with m wf have n: "n < length (kv_map m)"
      and m': "m' = m\<lparr>kv_map := (kv_map m)[n := \<lparr>kv_key = k, kv_priority = 0, kv_value = v\<rparr>]\<rparr>"
      by (simp_all add: wf_map_def)
    show ?thesis
      using packed_add [OF \<open>packed m\<close> n m(2) added(3)] map_entries_add [OF n added(2) m(2)] wf m'
      by (simp add: map_invar_def wf_map_def)
  qed (use m in simp)
next
  fix m :: "'v priority_map_t" and k v
  assume "map_invar m"
  then have "wf_map m" by (simp add: map_invar_def)
  then show "\<exists>c m'. add_value m k v = Inr (c, m') \<and> (c = 0 \<or> m' = m)"
    by (cases rule: add_value_outcomes [of m k v]) auto
next
  fix m :: "'v priority_map_t" and k r m'
  assume m: "map_invar m" "get_value m k = Inr (r, m')"
  then have "wf_map m" by (simp add: map_invar_def)
  then show "map_invar m' \<and> map_entries m' = map_entries m"
  proof (cases rule: get_value_outcomes [of m k])
    case (hit i)
    with m have i: "i < length (kv_map m)" "get_value_hit m i = (r, m')" "packed m"
      by (auto simp: map_invar_def wf_map_def)
    with m hit show ?thesis
      using get_value_hit_mset [OF i(1,2)] get_value_hit_packed [OF i(3,1) hit(3) i(2)]
      by (auto simp: map_invar_def wf_map_def map_entries_def simp del: mset_map)
  qed (use m in auto)
next
  fix m :: "'v priority_map_t" and k v m'
  assume m: "map_invar m" "get_value m k = Inr (Some v, m')"
  then have "wf_map m" by (simp add: map_invar_def)
  then show "\<exists>k'. (k', Some v) \<in># map_entries m"
  proof (cases rule: get_value_outcomes [of m k])
    case (hit i)
    with m have "i < length (kv_map m)" "packed m" "get_value_hit m i = (Some v, m')"
      by (auto simp: map_invar_def wf_map_def)
    with hit(3) show ?thesis by (blast intro: get_value_hit_value_member)
  qed (use m in auto)
qed

section \<open>Tables by their used slots\<close>

definition table :: "u16 \<Rightarrow> 'v key_val_t list \<Rightarrow> 'v priority_map_t" where
  "table n kvs = \<lparr>max_size = n, kv_map = kvs @
     replicate (unat n - length kvs) \<lparr>kv_key = 0, kv_priority = 0, kv_value = None\<rparr>\<rparr>"

lemma empty_map_table: "empty_map n = table n []"
  by (simp add: empty_map_def table_def)

lemma wf_table: "length kvs \<le> unat n \<Longrightarrow> wf_map (table n kvs)"
  by (simp add: wf_map_def table_def)

lemma add_value_table:
  assumes "length kvs < unat n" and "\<And>kv. kv \<in> set kvs \<Longrightarrow> kv_key kv \<noteq> 0"
  shows "add_value (table n kvs) k v =
    Inr (0, table n (kvs @ [\<lparr>kv_key = k, kv_priority = 0, kv_value = v\<rparr>]))"
proof -
  let ?b = "\<lparr>kv_key = 0, kv_priority = 0, kv_value = None\<rparr> :: 'a key_val_t"
  have "replicate (unat n - length kvs) ?b = ?b # replicate (unat n - Suc (length kvs)) ?b"
    using assms(1) by (simp add: replicate_Suc [symmetric] Suc_diff_Suc del: replicate_Suc)
  then have tab: "table n kvs = \<lparr>max_size = n, kv_map = kvs @ ?b # replicate (unat n - Suc (length kvs)) ?b\<rparr>"
    by (simp add: table_def)
  have "add_value (table n kvs) k v = Inr (0, table n kvs\<lparr>kv_map := (kv_map (table n kvs))
      [length kvs := \<lparr>kv_key = k, kv_priority = 0, kv_value = v\<rparr>]\<rparr>)"
    by (rule add_value_at_free) (use assms wf_table [of kvs n] in \<open>auto simp: tab nth_append\<close>)
  then show ?thesis by (simp add: tab list_update_append) (simp add: table_def)
qed

lemma get_value_table:
  assumes "i < length kvs" and "length kvs \<le> unat n" and "i \<le> 255"
    and "kv_key (kvs ! i) = ucast k" and "(ucast k :: u64) \<noteq> 0"
    and "\<And>j. j < i \<Longrightarrow> kv_key (kvs ! j) \<noteq> 0 \<and> kv_key (kvs ! j) \<noteq> ucast k"
  shows "get_value (table n kvs) k = Inr (get_value_hit (table n kvs) i)"
proof -
  have "first_stop (table n kvs) (ucast k) i"
    using assms by (auto simp: first_stop_def stops_at_def table_def nth_append)
  from get_value_at_stop [OF wf_table [OF assms(2)] this assms(3)] assms(1,4,5) show ?thesis
    by (simp add: table_def nth_append)
qed

lemma get_value_hit_table:
  assumes "i < length kvs"
  shows "get_value_hit (table n kvs) i =
    (let kv = (kvs ! i)\<lparr>kv_priority := kv_priority (kvs ! i) + 1\<rparr> in
     if 0 < i \<and> kv_priority (kvs ! (i - 1)) < kv_priority kv
     then (kv_value (kvs ! (i - 1)), table n (kvs[i - 1 := kv, i := kvs ! (i - 1)]))
     else (kv_value (kvs ! i), table n (kvs[i := kv])))"
proof -
  have "i - 1 \<noteq> i" if "0 < i" using that by simp
  with assms show ?thesis
    by (auto simp: get_value_hit_def table_def Let_def nth_append list_update_append
        list_update_swap [of "i - Suc 0" i])
qed

section \<open>Properties\<close>

text \<open>C33: the exact result of a lookup and the exact table it leaves, for the first slot \<open>i\<close> that is free
  or holds the key. If the slot is free, nothing is found and nothing changes. Otherwise the entry's
  priority is counted up in the table, and if it then exceeds the priority of the slot to the left the
  two entries are exchanged and the value returned is the one of the left neighbour, not the one that
  was asked for (\<^verbatim>\<open>return key_vals[i].value\<close> reads the slot after the exchange); no other slot
  changes.\<close>

theorem get_value_result:
  fixes m :: "'v priority_map_t"
  assumes "wf_map m" and "first_stop m (ucast k) i" and "i \<le> 255"
  shows "let kv = (kv_map m ! i)\<lparr>kv_priority := kv_priority (kv_map m ! i) + 1\<rparr>; left = kv_map m ! (i - 1) in
    \<exists>r m'. get_value m k = Inr (r, m') \<and> max_size m' = max_size m \<and> length (kv_map m') = length (kv_map m) \<and>
      (if kv_key (kv_map m ! i) = 0 then r = None \<and> m' = m
       else if 0 < i \<and> kv_priority left < kv_priority kv
       then r = kv_value left \<and> kv_map m' ! (i - 1) = kv \<and> kv_map m' ! i = left \<and>
         (\<forall>j. j \<noteq> i \<longrightarrow> j \<noteq> i - 1 \<longrightarrow> kv_map m' ! j = kv_map m ! j)
       else r = kv_value kv \<and> kv_map m' ! i = kv \<and> (\<forall>j. j \<noteq> i \<longrightarrow> kv_map m' ! j = kv_map m ! j))"
proof -
  have "i < length (kv_map m)"
    using assms(1,2) by (simp add: wf_map_def first_stop_def stops_at_def)
  with get_value_at_stop [OF assms] show ?thesis
    by (auto simp: get_value_hit_def Let_def)
qed

theorem get_value_result_witness:
  "let m = \<lparr>max_size = 3, kv_map = [\<lparr>kv_key = 0x608, kv_priority = 0, kv_value = Some ''arp''\<rparr>,
       \<lparr>kv_key = 8, kv_priority = 0, kv_value = Some ''ipv4''\<rparr>,
       \<lparr>kv_key = 0, kv_priority = 0, kv_value = None\<rparr>]\<rparr>
   in (\<exists>m'. get_value m 8 = Inr (Some ''arp'', m') \<and>
     kv_map m' ! 0 = \<lparr>kv_key = 8, kv_priority = 1, kv_value = Some ''ipv4''\<rparr> \<and>
     kv_map m' ! 1 = \<lparr>kv_key = 0x608, kv_priority = 0, kv_value = Some ''arp''\<rparr>)"
proof -
  define m where "m = \<lparr>max_size = 3, kv_map = [\<lparr>kv_key = 0x608, kv_priority = 0, kv_value = Some ''arp''\<rparr>,
       \<lparr>kv_key = 8, kv_priority = 0, kv_value = Some ''ipv4''\<rparr>,
       \<lparr>kv_key = 0, kv_priority = 0, kv_value = None\<rparr>]\<rparr>"
  have wf: "wf_map m" by (simp add: m_def wf_map_def)
  have stop: "first_stop m (ucast (8 :: u16)) 1"
    by (simp add: first_stop_def stops_at_def m_def)
  have "kv_map m ! 0 = \<lparr>kv_key = 0x608, kv_priority = 0, kv_value = Some ''arp''\<rparr>"
    "kv_map m ! 1 = \<lparr>kv_key = 8, kv_priority = 0, kv_value = Some ''ipv4''\<rparr>"
    by (simp_all add: m_def)
  with get_value_result [OF wf stop] show ?thesis unfolding Let_def m_def [symmetric] by auto
qed

text \<open>C39: a lookup terminates on every well-formed table except one with at least 256 slots whose
  first 256 slots are all in use by other keys; there the \<^verbatim>\<open>uint8_t\<close> index wraps around
  and the scan never ends. The Ethernet table has 512 slots.\<close>

theorem get_value_terminates_iff:
  assumes "wf_map m"
  shows "(\<exists>r m'. get_value m k = Inr (r, m')) \<longleftrightarrow>
    unat (max_size m) \<le> 255 \<or> (\<exists>j \<le> 255. stops_at m (ucast k) j)"
proof -
  have "get_value m k \<noteq> Inl No_return \<longleftrightarrow> (\<exists>r m'. get_value m k = Inr (r, m'))"
    using get_value_outcomes [OF assms, of k] by (metis Inl_Inr_False surj_pair)
  with get_value_no_return_iff [OF assms, of k] show ?thesis by auto
qed

theorem get_value_terminates_iff_witness:
  "\<not> (\<exists>r m'. get_value \<lparr>max_size = 256, kv_map = replicate 256
      \<lparr>kv_key = 7, kv_priority = 0, kv_value = Some ()\<rparr>\<rparr> 8 = Inr (r, m'))"
proof -
  let ?m = "\<lparr>max_size = 256, kv_map = replicate 256
      \<lparr>kv_key = 7, kv_priority = 0, kv_value = Some ()\<rparr>\<rparr>"
  have "wf_map ?m" by (simp add: wf_map_def)
  from get_value_terminates_iff [OF this, of 8] show ?thesis
    by (simp add: stops_at_def)
qed

text \<open>After any registrations into an empty table, every handler that a lookup returns is one
  of the registered ones, and the lookup leaves the registered entries as they were.\<close>

theorem lookup_only_registered:
  assumes "map_invar m" and "map_entries m = {#}" and "\<forall>e \<in> set es. fst e \<noteq> 0"
    and "pmap.register_all m es = Inr m1" and "get_value m1 k = Inr (Some v, m2)"
  shows "v \<in> snd ` set es \<and> map_entries m2 = map_entries m1"
  using pmap.lookup_after_register [OF assms] pmap.register_all_frame [OF assms(1,3,4)]
    pmap.lookup_frame [OF _ assms(5)]
  by blast

theorem lookup_only_registered_witness:
  "\<exists>m1 m2. pmap.register_all (empty_map 4 :: nat priority_map_t) [(0x608, 1), (8, 2)] = Inr m1 \<and>
     get_value m1 0x608 = Inr (Some 1, m2) \<and>
     (1 \<in> snd ` set [(0x608 :: u64, 1 :: nat), (8, 2)] \<and> map_entries m2 = map_entries m1)"
proof -
  have inv: "map_invar (empty_map 4 :: nat priority_map_t)" "map_entries (empty_map 4 :: nat priority_map_t) = {#}"
    by (auto simp: map_invar_def wf_map_def packed_def map_entries_def kv_entry_def
        empty_map_def)
  let ?m1 = "\<lparr>max_size = 4, kv_map = [\<lparr>kv_key = 0x608, kv_priority = 0, kv_value = Some 1\<rparr>,
      \<lparr>kv_key = 8, kv_priority = 0, kv_value = Some 2\<rparr>,
      \<lparr>kv_key = 0, kv_priority = 0, kv_value = None\<rparr>,
      \<lparr>kv_key = 0, kv_priority = 0, kv_value = None\<rparr>]\<rparr> :: nat priority_map_t"
  have reg: "pmap.register_all (empty_map 4) [(0x608, 1), (8, 2)] = Inr ?m1"
    by (simp add: empty_map_def replicate_numeral add_value_def add_value_loop.simps)
  have wf: "wf_map ?m1" by (simp add: wf_map_def)
  have stop: "first_stop ?m1 (ucast (0x608 :: u16)) 0"
    by (simp add: first_stop_def stops_at_def)
  from get_value_at_stop [OF wf stop] obtain m2 where g: "get_value ?m1 0x608 = Inr (Some 1, m2)"
    by (simp add: get_value_hit_def)
  from lookup_only_registered [OF inv _ reg g] reg g show ?thesis by auto
qed

end
