(* ===== verification/Ethernet.thy ===== *)
theory Ethernet
  imports Packet_Stack Protocol_Map
begin

text \<open>
  \<^verbatim>\<open>handlers/ethernet/ethernet.c\<close>: the Ethernet layer. Its table of upper handlers
  \<^verbatim>\<open>ethernet_type_to_handler\<close> is keyed by the EtherType as the host loads it (byte
  swapped), and extends the store.
\<close>

section \<open>Data\<close>

record eth_mem = net_mem +
  ethernet_type_to_handler :: "handler priority_map_t"

definition ETHERNET_MAC_SIZE :: nat where "ETHERNET_MAC_SIZE = 6"
definition ETHERNET_TYPE_ARP :: u16 where "ETHERNET_TYPE_ARP = 0x0806"
definition ETHERNET_TYPE_IPV6 :: u16 where "ETHERNET_TYPE_IPV6 = 0x8"
definition ETHERNET_TYPE_IPV4 :: u16 where "ETHERNET_TYPE_IPV4 = 0x0800"

record ethernet_header_t =
  eh_destination :: "u8 list"
  eh_source :: "u8 list"
  eh_ethernet_type :: u16

definition sizeof_ethernet_header :: nat where "sizeof_ethernet_header = 14"

text \<open>The struct as it is read from memory and as a store leaves it there.\<close>

definition load_ethernet_header :: "mem8 \<Rightarrow> nat \<Rightarrow> ethernet_header_t" where
  "load_ethernet_header m a =
     \<lparr>eh_destination = read_bytes m a 6, eh_source = read_bytes m (a + 6) 6,
      eh_ethernet_type = load16 m (a + 12)\<rparr>"

definition ethernet_header_bytes :: "ethernet_header_t \<Rightarrow> u8 list" where
  "ethernet_header_bytes h = eh_destination h @ eh_source h @ bytes16 (eh_ethernet_type h)"

section \<open>Operations\<close>

definition ethernet_write ::
  "'a net_mem_scheme config_write \<Rightarrow> 'a net_mem_scheme writer \<Rightarrow> nat \<Rightarrow> interface_t \<Rightarrow>
   'a net_mem_scheme \<Rightarrow> fault + (bool \<times> 'a net_mem_scheme)" where
  "ethernet_write cw wr p ifc s =
     sbind (out_at s p) (\<lambda>ps.
     sbind (current_args ps) (\<lambda>a.
       if unat (ob_offset (out_buffer ps)) < sizeof_ethernet_header then Inr (False, s)
       else sbind (deref a) (\<lambda>a. case a of
           Ethernet_args ethernet_args \<Rightarrow>
             pass_down cw wr p ifc (put_out p (push_bytes (ethernet_header_bytes
               \<lparr>eh_destination = take 6 (ea_destination ethernet_args),
                eh_source = take 6 (mac ifc),
                eh_ethernet_type = ea_ethernet_type ethernet_args\<rparr>) ps) s)
         | _ \<Rightarrow> Inl Bad_cast)))"

text \<open>
  The function has no return statement: its callers ignore the value, which the model
  gives as \<open>None\<close>.
\<close>

definition ethernet_read ::
  "'a eth_mem_scheme reader \<Rightarrow> handler \<Rightarrow> nat \<Rightarrow> interface_t \<Rightarrow> 'a eth_mem_scheme \<Rightarrow>
   fault + (u16 option \<times> 'a eth_mem_scheme)" where
  "ethernet_read rd h p ifc s =
     sbind (in_at s p) (\<lambda>ps.
     let packet_idx = unat (in_stack_idx ps);
         stack_idx = in_stack_idx ps + 1 in
     sbind (upd (in_handlers ps) packet_idx (Some h)) (\<lambda>hs.
     sbind (idx (packet_pointers ps) packet_idx) (\<lambda>ptr.
     sbind (deref ptr) (\<lambda>header_at.
     let header = load_ethernet_header (in_frame ps) header_at;
         ps1 = ps\<lparr>in_handlers := hs, in_stack_idx := stack_idx\<rparr> in
     if ntohs 0x0600 < eh_ethernet_type header then
       sbind (get_value (ethernet_type_to_handler s) (eh_ethernet_type header)) (\<lambda>(next_handler, m).
       let s1 = (put_in p ps1 s)\<lparr>ethernet_type_to_handler := m\<rparr> in
       case next_handler of
         None \<Rightarrow> Inr (None, s1)
       | Some next_handler \<Rightarrow>
           sbind (upd (packet_pointers ps) (unat stack_idx)
               (Some (header_at + sizeof_ethernet_header))) (\<lambda>pps.
           sbind (upd (return_args ps) packet_idx (Some (Ethernet_args
               \<lparr>ea_destination = eh_source header, ea_ethernet_type = eh_ethernet_type header\<rparr>))) (\<lambda>ras.
           sbind (rd next_handler p ifc
               (put_in p (ps1\<lparr>packet_pointers := pps, return_args := ras\<rparr>) s1)) (\<lambda>(_, s2).
             Inr (None, s2)))))
     else Inr (None, put_in p ps1 s)))))"

section \<open>Lemmas on the store\<close>

lemma eth_mem_select [simp]:
  "ethernet_type_to_handler (put_in p ps s) = ethernet_type_to_handler s"
  "ethernet_type_to_handler (put_out p qs s) = ethernet_type_to_handler s"
  by (simp_all add: put_in_def put_out_def)

lemma eth_mem_update [simp]:
  "in_at (ethernet_type_to_handler_update g_ethernet_type_to_handler s) p = in_at s p"
  "out_at (ethernet_type_to_handler_update g_ethernet_type_to_handler s) p = out_at s p"
  "put_in p ps (ethernet_type_to_handler_update g_ethernet_type_to_handler s) = ethernet_type_to_handler_update g_ethernet_type_to_handler (put_in p ps s)"
  "put_out p qs (ethernet_type_to_handler_update g_ethernet_type_to_handler s) = ethernet_type_to_handler_update g_ethernet_type_to_handler (put_out p qs s)"
  by (simp_all add: put_in_def put_out_def in_at_def out_at_def)

section \<open>The header in front of the payload\<close>

definition ethernet_layer_bytes :: "'a net_mem_scheme \<Rightarrow> interface_t \<Rightarrow> out_packet_stack_t \<Rightarrow> u8 list option" where
  "ethernet_layer_bytes s ifc ps =
     (case current_args ps of
        Inr (Some (Ethernet_args a)) \<Rightarrow>
          if length (ea_destination a) = 6 \<and> length (mac ifc) = 6
          then Some (ethernet_header_bytes
            \<lparr>eh_destination = ea_destination a, eh_source = mac ifc, eh_ethernet_type = ea_ethernet_type a\<rparr>)
          else None
      | _ \<Rightarrow> None)"

lemma ethernet_layer_bytes_SomeE:
  assumes "ethernet_layer_bytes s ifc ps = Some bs"
  obtains a where "current_args ps = Inr (Some (Ethernet_args a))"
    "length (ea_destination a) = 6" "length (mac ifc) = 6" "length bs = 14"
    "bs = ethernet_header_bytes
       \<lparr>eh_destination = ea_destination a, eh_source = mac ifc, eh_ethernet_type = ea_ethernet_type a\<rparr>"
  using assms
  by (auto simp: ethernet_layer_bytes_def ethernet_header_bytes_def
      split: sum.splits option.splits write_args.splits if_splits)

interpretation eth: header_layer ethernet_write ethernet_layer_bytes
proof
  fix s :: "'a net_mem_scheme" and p ps ifc bs cw wr
  assume "out_at s p = Inr ps" and "ethernet_layer_bytes s ifc ps = Some bs"
  then show "ethernet_write cw wr p ifc s =
      (if unat (ob_offset (out_buffer ps)) < length bs then Inr (False, s)
       else pass_down cw wr p ifc (put_out p (push_bytes bs ps) s))"
    by (auto simp: ethernet_write_def sizeof_ethernet_header_def elim!: ethernet_layer_bytes_SomeE)
qed

lemma load_ethernet_header_window:
  "load_ethernet_header m a = load_ethernet_header (mem_of (read_bytes m a 14)) 0"
  using read_window [of 0 6 14 m a]
  by (simp add: load_ethernet_header_def load16_window [of _ 14 m a] read_window [of _ _ 14 m a])

lemma load_ethernet_header_bytes:
  assumes "length (eh_destination h) = 6" and "length (eh_source h) = 6"
    and "read_bytes m a 14 = ethernet_header_bytes h"
  shows "load_ethernet_header m a = h"
  unfolding load_ethernet_header_window [of m a] assms(3)
  using assms(1,2)
  by (simp add: load_ethernet_header_def ethernet_header_bytes_def read_mem_of byte_simps nth_append)

end
