(* ===== verification/Ones_Complement.thy ===== *)
theory Ones_Complement
  imports Net_Prelude
begin

text \<open>
  The arithmetic behind both Internet checksums: \<open>oc n\<close> is the 16-bit one's complement
  representative of a sum \<open>n\<close> (0 only for 0, otherwise the residue modulo 65535 in
  1 to 65535). \<open>oc_add\<close> is the 16-bit addition with the carry added back of
  \<^verbatim>\<open>ipv4_calculate_checksum\<close>; \<open>fold_carries\<close> is the 32-bit accumulator's final loop in
  \<^verbatim>\<open>tcp_calculate_checksum\<close>. Both compute \<open>oc\<close> of the plain sum of the words.
\<close>

section \<open>Definitions\<close>

definition oc :: "nat \<Rightarrow> nat" where
  "oc n = (if n = 0 then 0 else (n - 1) mod 65535 + 1)"

definition oc_add :: "u16 \<Rightarrow> u16 \<Rightarrow> u16" where
  "oc_add s w = (let s' = s + w in if s' < w then s' + 1 else s')"

function fold_carries :: "u32 \<Rightarrow> u32" where
  "fold_carries s = (if drop_bit 16 s \<noteq> 0 then fold_carries ((s AND 0xFFFF) + drop_bit 16 s) else s)"
  by pat_completeness auto
termination
proof (relation "measure unat")
  fix s :: u32
  assume "drop_bit 16 s \<noteq> 0"
  then have "0 < unat (drop_bit 16 s)" by (simp add: unat_gt_0)
  then have "0 < unat s div 65536" by (simp add: unat_drop_bit_eq drop_bit_nat_def)
  have "(0xFFFF :: u32) = mask 16" by (simp add: mask_eq_exp_minus_1)
  then have low: "s AND 0xFFFF = take_bit 16 s" by (simp only: take_bit_eq_mask)
  have "unat (take_bit 16 s + drop_bit 16 s) \<le> unat (take_bit 16 s) + unat (drop_bit 16 s)"
    by (simp add: unat_word_ariths)
  also have "\<dots> = unat s mod 65536 + unat s div 65536"
    by (simp add: unsigned_take_bit_eq unat_drop_bit_eq take_bit_nat_def drop_bit_nat_def)
  also have "\<dots> < unat s"
    using \<open>0 < unat s div 65536\<close> div_mult_mod_eq [of "unat s" 65536] by linarith
  finally show "((s AND 0xFFFF) + drop_bit 16 s, s) \<in> measure unat"
    by (simp add: low)
qed simp

declare fold_carries.simps [simp del]

section \<open>The residue\<close>

lemma oc_0 [simp]: "oc 0 = 0"
  by (simp add: oc_def)

lemma oc_le: "oc n \<le> 65535"
proof -
  have "(n - 1) mod 65535 < 65535" by simp
  then have "(n - 1) mod 65535 + 1 \<le> 65535" by linarith
  then show ?thesis by (cases "n = 0") (simp_all only: oc_def if_True if_False le0 refl)
qed

lemma oc_eq_0_iff [simp]: "oc n = 0 \<longleftrightarrow> n = 0"
  by (simp add: oc_def)

lemma oc_small: "n \<le> 65535 \<Longrightarrow> oc n = n"
  by (auto simp: oc_def)

lemma oc_step: "0 < n \<Longrightarrow> oc (n + 65535) = oc n"
proof -
  assume "0 < n"
  then have "n + 65535 - 1 = (n - 1) + 65535" by simp
  then have "(n + 65535 - 1) mod 65535 = (n - 1) mod 65535" by (simp only: mod_add_self2)
  with \<open>0 < n\<close> show ?thesis by (simp add: oc_def)
qed

lemma oc_steps: "0 < n \<Longrightarrow> oc (n + 65535 * k) = oc n"
proof (induction k)
  case 0
  then show ?case by simp
next
  case (Suc k)
  have "oc (n + 65535 * Suc k) = oc ((n + 65535 * k) + 65535)"
    by (simp add: algebra_simps)
  also have "\<dots> = oc (n + 65535 * k)" using Suc.prems by (intro oc_step) simp
  finally show ?case using Suc by simp
qed

lemma oc_decompose: "\<exists>k. n = oc n + 65535 * k"
proof (cases "n = 0")
  case True
  then show ?thesis by simp
next
  case False
  have "n - 1 = (n - 1) mod 65535 + 65535 * ((n - 1) div 65535)" by simp
  moreover from False have "oc n = (n - 1) mod 65535 + 1" by (simp add: oc_def)
  ultimately have "n = oc n + 65535 * ((n - 1) div 65535)" using False by linarith
  then show ?thesis ..
qed

lemma oc_add_left: "oc (oc a + b) = oc (a + b)"
proof (cases "a = 0")
  case False
  obtain k where "a = oc a + 65535 * k" using oc_decompose by blast
  then have "a + b = (oc a + b) + 65535 * k" by simp
  then show ?thesis using False by (metis oc_eq_0_iff oc_steps add_gr_0 not_gr0)
qed simp

lemma oc_multiple: "0 < k \<Longrightarrow> oc (65535 * k) = 65535"
proof -
  assume "0 < k"
  then obtain j where "k = Suc j" by (cases k) auto
  then have "oc (65535 * k) = oc (65535 + 65535 * j)" by simp
  also have "\<dots> = oc 65535" by (rule oc_steps) simp
  finally show ?thesis by (simp add: oc_small)
qed

text \<open>Adding the complement of the residue gives all ones: what a receiver checks.\<close>

lemma oc_complement: "oc (a + (65535 - oc a)) = 65535"
proof (cases "a = 0")
  case True
  then show ?thesis by (simp add: oc_small)
next
  case False
  have "oc (a + (65535 - oc a)) = oc (oc a + (65535 - oc a))"
    by (simp only: oc_add_left)
  also have "\<dots> = 65535"
    using oc_le [of a] by (simp add: oc_small)
  finally show ?thesis .
qed

section \<open>The 16-bit loop\<close>

lemma unat_oc_add: "unat (oc_add s w) = oc (unat s + unat w)"
proof -
  note bounds = unat_u16_le [of s] unat_u16_le [of w]
  show ?thesis
  proof (cases "unat s + unat w < 65536")
    case True
    then have sum: "unat (s + w) = unat s + unat w"
      by (simp add: unat_word_ariths)
    with True show ?thesis
      by (simp add: oc_add_def Let_def word_less_nat_alt oc_small)
  next
    case False
    with bounds have sum: "unat (s + w) = unat s + unat w - 65536"
      by (simp add: unat_word_ariths mod_if)
    with False bounds have "unat (s + w + 1) = unat s + unat w - 65535"
      by (simp add: unat_word_ariths)
    moreover have "oc (unat s + unat w) = oc ((unat s + unat w - 65535) + 65535)"
      using False by simp
    then have "oc (unat s + unat w) = unat s + unat w - 65535"
      using False bounds by (simp only: oc_step) (simp add: oc_step oc_small)
    ultimately show ?thesis
      using False bounds sum by (simp add: oc_add_def Let_def word_less_nat_alt)
  qed
qed

lemma unat_foldl_oc_add: "unat (foldl oc_add s ws) = oc (unat s + sum_list (map unat ws))"
proof (induction ws arbitrary: s)
  case Nil
  then show ?case using unat_u16_le [of s] by (simp add: oc_small)
next
  case (Cons w ws)
  then show ?case by (simp add: unat_oc_add oc_add_left add.assoc)
qed

lemma unat_not_u16: "unat (NOT (w :: u16)) = 65535 - unat w"
proof -
  have ones: "(- 1 :: u16) = 65535" by simp
  have "NOT w = - 1 - w" by (simp add: not_eq_complement)
  moreover have "unat (- 1 - w) = unat (- 1 :: u16) - unat w"
    by (rule unat_sub) (rule word_order.extremum)
  ultimately show ?thesis unfolding ones by simp
qed

lemma oc_full_iff: "oc n = 65535 \<longleftrightarrow> 0 < n \<and> 65535 dvd n"
proof
  assume full: "oc n = 65535"
  obtain k where "n = oc n + 65535 * k" using oc_decompose by blast
  with full have "n = 65535 * (k + 1)" by simp
  then show "0 < n \<and> 65535 dvd n" by simp
qed (auto elim!: dvdE simp: oc_multiple)

lemma oc_full_dvd: "oc n = 65535 \<Longrightarrow> 65535 dvd n"
  by (simp add: oc_full_iff)

section \<open>The 32-bit loop\<close>

lemma unat_low_half: "unat ((s :: u32) AND 0xFFFF) = unat s mod 65536"
proof -
  have "(0xFFFF :: u32) = mask 16" by (simp add: mask_eq_exp_minus_1)
  then have "s AND 0xFFFF = take_bit 16 s" by (simp only: take_bit_eq_mask)
  then show ?thesis by (simp only: unsigned_take_bit_eq) (simp add: take_bit_nat_def)
qed

lemma unat_high_half: "unat (drop_bit 16 (s :: u32)) = unat s div 65536"
  by (simp add: unat_drop_bit_eq drop_bit_nat_def)

lemma unat_fold_step:
  "unat (((s :: u32) AND 0xFFFF) + drop_bit 16 s) = unat s mod 65536 + unat s div 65536"
proof -
  have "unat s < 4294967296" using unsigned_less [of s, where ?'a = nat] by simp
  then have "unat s mod 65536 + unat s div 65536 < 4294967296" by linarith
  then show ?thesis by (simp add: unat_word_ariths unat_low_half unat_high_half)
qed

lemma unat_fold_carries: "unat (fold_carries s) = oc (unat s)"
proof (induction s rule: fold_carries.induct)
  case (1 s)
  show ?case
  proof (cases "drop_bit 16 s = 0")
    case True
    then have "unat (drop_bit 16 s) = 0" by simp
    then have "unat s \<le> 65535"
      using div_mult_mod_eq [of "unat s" 65536] mod_less_divisor [of 65536 "unat s"]
      unfolding unat_high_half by linarith
    with True show ?thesis by (simp add: fold_carries.simps [of s] oc_small)
  next
    case False
    let ?n = "unat s mod 65536 + unat s div 65536"
    from False have "0 < unat (drop_bit 16 s)" by (simp add: unat_gt_0)
    then have "0 < unat s div 65536" unfolding unat_high_half .
    then have "0 < ?n" and "unat s = ?n + 65535 * (unat s div 65536)"
      using div_mult_mod_eq [of "unat s" 65536] by linarith+
    then have "oc (unat s) = oc ?n" by (metis oc_steps)
    with False "1.IH" show ?thesis
      by (simp add: fold_carries.simps [of s] unat_fold_step)
  qed
qed

end
