(* ===== verification/Ipv4.thy ===== *)
theory Ipv4
  imports Ethernet Ones_Complement
begin

text \<open>
  \<^verbatim>\<open>handlers/ipv4/ipv4.c\<close>: the header checksum, the writer that puts a 20-byte header in
  front of the payload, and the reader that validates a header and dispatches on its
  protocol. Multi-byte fields hold what the host loads, so addresses are compared in
  network representation, as the code does.
\<close>

section \<open>Data\<close>

record ip_mem = eth_mem +
  ip_type_to_handler :: "handler priority_map_t"

record ipv4_header_t =
  ih_flags_1 :: u8
  ih_flags_2 :: u8
  ih_total_length :: u16
  ih_identification :: u16
  ih_flags_3 :: u16
  ih_time_to_live :: u8
  ih_protocol :: u8
  ih_header_checksum :: u16
  ih_source_ip :: u32
  ih_destination_ip :: u32

definition IPV4_IHL_MASK :: u8 where "IPV4_IHL_MASK = 0x0F"

definition sizeof_ipv4_header :: nat where "sizeof_ipv4_header = 20"

definition load_ipv4_header :: "mem8 \<Rightarrow> nat \<Rightarrow> ipv4_header_t" where
  "load_ipv4_header m a =
     \<lparr>ih_flags_1 = m a, ih_flags_2 = m (a + 1), ih_total_length = load16 m (a + 2),
      ih_identification = load16 m (a + 4), ih_flags_3 = load16 m (a + 6),
      ih_time_to_live = m (a + 8), ih_protocol = m (a + 9),
      ih_header_checksum = load16 m (a + 10),
      ih_source_ip = load32 m (a + 12), ih_destination_ip = load32 m (a + 16)\<rparr>"

definition ipv4_header_bytes :: "ipv4_header_t \<Rightarrow> u8 list" where
  "ipv4_header_bytes h =
     [ih_flags_1 h, ih_flags_2 h] @ bytes16 (ih_total_length h) @ bytes16 (ih_identification h)
       @ bytes16 (ih_flags_3 h) @ [ih_time_to_live h, ih_protocol h]
       @ bytes16 (ih_header_checksum h) @ bytes32 (ih_source_ip h) @ bytes32 (ih_destination_ip h)"

section \<open>Operations\<close>

text \<open>
  The header is read as an array of 16-bit words; its length in words is a \<^verbatim>\<open>uint8_t\<close>
  taken from the header itself.
\<close>

definition ipv4_calculate_checksum :: "mem8 \<Rightarrow> nat \<Rightarrow> u16" where
  "ipv4_calculate_checksum m a =
     (let length = (m a AND IPV4_IHL_MASK) * 2 in
      NOT (foldl (\<lambda>sum i.
        let byte = load16 m (a + 2 * i); sum = sum + byte
        in if sum < byte then sum + 1 else sum) 0 [0..<unat length]))"

text \<open>
  The header that \<^verbatim>\<open>ipv4_write\<close> stores, with the checksum it computes over the header
  as stored with checksum 0 (lines 77 to 88).
\<close>

definition ipv4_fill_header :: "interface_t \<Rightarrow> ipv4_write_args_t \<Rightarrow> u16 \<Rightarrow> ipv4_header_t" where
  "ipv4_fill_header ifc ipv4_args total_length =
     (let h = \<lparr>ih_flags_1 = 0x45, ih_flags_2 = 0, ih_total_length = total_length,
               ih_identification = 0, ih_flags_3 = 64, ih_time_to_live = 64,
               ih_protocol = ia_protocol ipv4_args, ih_header_checksum = 0,
               ih_source_ip = ipv4_addr ifc, ih_destination_ip = ia_destination_ip ipv4_args\<rparr>
      in h\<lparr>ih_header_checksum := ipv4_calculate_checksum (mem_of (ipv4_header_bytes h)) 0\<rparr>)"

definition ipv4_write ::
  "'a net_mem_scheme config_write \<Rightarrow> 'a net_mem_scheme writer \<Rightarrow> nat \<Rightarrow> interface_t \<Rightarrow>
   'a net_mem_scheme \<Rightarrow> fault + (bool \<times> 'a net_mem_scheme)" where
  "ipv4_write cw wr p ifc s =
     sbind (out_at s p) (\<lambda>ps.
     sbind (current_args ps) (\<lambda>a.
       if unat (ob_offset (out_buffer ps)) < sizeof_ipv4_header then Inr (False, s)
       else sbind (deref a) (\<lambda>a. case a of
           Ipv4_args ipv4_args \<Rightarrow>
             let offset = ob_offset (out_buffer ps) - of_nat sizeof_ipv4_header;
                 total_length = htons (ucast (ob_size (out_buffer ps) - offset))
             in pass_down cw wr p ifc (put_out p (push_bytes (ipv4_header_bytes
                  (ipv4_fill_header ifc ipv4_args total_length)) ps) s)
         | _ \<Rightarrow> Inl Bad_cast)))"

definition ipv4_read ::
  "'a ip_mem_scheme reader \<Rightarrow> handler \<Rightarrow> nat \<Rightarrow> interface_t \<Rightarrow> 'a ip_mem_scheme \<Rightarrow>
   fault + (u16 option \<times> 'a ip_mem_scheme)" where
  "ipv4_read rd h p ifc s =
     sbind (in_at s p) (\<lambda>ps.
     let packet_idx = unat (in_stack_idx ps);
         stack_idx = in_stack_idx ps + 1 in
     sbind (upd (in_handlers ps) packet_idx (Some h)) (\<lambda>hs.
     sbind (idx (packet_pointers ps) packet_idx) (\<lambda>ptr.
     sbind (deref ptr) (\<lambda>header_at.
     let header = load_ipv4_header (in_frame ps) header_at;
         ps1 = ps\<lparr>in_handlers := hs, in_stack_idx := stack_idx\<rparr>;
         s1 = put_in p ps1 s in
     if ipv4_calculate_checksum (in_frame ps) header_at \<noteq> 0 then Inr (Some 1, s1)
     else if ih_flags_1 header AND IPV4_IHL_MASK \<noteq> 5 then Inr (Some 2, s1)
     else if ih_time_to_live header = 0 then Inr (Some 3, s1)
     else if ih_destination_ip header = ipv4_addr ifc then
       sbind (get_value (ip_type_to_handler s) (ucast (ih_protocol header))) (\<lambda>(next_handler, m).
       let s2 = s1\<lparr>ip_type_to_handler := m\<rparr> in
       case next_handler of
         None \<Rightarrow> Inr (Some 4, s2)
       | Some next_handler \<Rightarrow>
           sbind (upd (packet_pointers ps) (unat stack_idx)
               (Some (header_at + sizeof_ipv4_header))) (\<lambda>pps.
           sbind (upd (return_args ps) packet_idx (Some (Ipv4_args
               \<lparr>ia_destination_ip = ih_source_ip header, ia_protocol = ih_protocol header\<rparr>))) (\<lambda>ras.
           sbind (rd next_handler p ifc
               (put_in p (ps1\<lparr>packet_pointers := pps, return_args := ras\<rparr>) s2)) (\<lambda>(_, s3).
             Inr (Some 0, s3)))))
     else Inr (Some 0, s1)))))"

text \<open>\<^verbatim>\<open>ipv4_create_handler\<close> registers the handler with the Ethernet layer.\<close>

definition ipv4_create_handler :: "'a eth_mem_scheme \<Rightarrow> fault + (handler \<times> 'a eth_mem_scheme)" where
  "ipv4_create_handler s =
     sbind (add_value (ethernet_type_to_handler s) (ucast (htons ETHERNET_TYPE_IPV4)) (Some H_ipv4))
       (\<lambda>(_, m). Inr (H_ipv4, s\<lparr>ethernet_type_to_handler := m\<rparr>))"

text \<open>A small datagram to evaluate the definitions on.\<close>

definition example_interface :: interface_t where
  "example_interface = \<lparr>if_port = 0, ipv4_addr = 0x0200000A, mac = [2, 0, 0, 0, 0, 1]\<rparr>"

definition example_ipv4_out :: out_packet_stack_t where
  "example_ipv4_out =
     \<lparr>out_handlers = replicate 10 None,
      out_args = (replicate 10 None)[0 := Some (Ipv4_args \<lparr>ia_destination_ip = 0x0100000A, ia_protocol = 6\<rparr>)],
      out_buffer = \<lparr>buffer = (\<lambda>_. 0xAB), ob_size = 40, ob_offset = 30\<rparr>, out_stack_idx = 0\<rparr>"

definition example_ipv4_mem :: net_mem where
  "example_ipv4_mem =
     \<lparr>in_stacks = (\<lambda>_. None), out_stacks = [example_ipv4_out], malloc_bytes = (\<lambda>_ _. 0)\<rparr>"

text \<open>The same header as it is received, with its fifth word (time to live) corrupted.\<close>

definition example_ipv4_header :: "u8 list" where
  "example_ipv4_header = ipv4_header_bytes (ipv4_fill_header example_interface
     \<lparr>ia_destination_ip = 0x0100000A, ia_protocol = 6\<rparr> 0x2800)"

definition example_ipv4_in :: in_packet_stack_t where
  "example_ipv4_in =
     \<lparr>in_handlers = replicate 10 None, return_args = replicate 10 None,
      packet_pointers = (replicate 10 None)[0 := Some 0],
      in_frame = mem_of (example_ipv4_header[8 := 63]), in_stack_idx = 0\<rparr>"

definition example_ipv4_in_mem :: ip_mem where
  "example_ipv4_in_mem =
     \<lparr>in_stacks = (\<lambda>_. None)(0 := Some example_ipv4_in), out_stacks = [], malloc_bytes = (\<lambda>_ _. 0),
      ethernet_type_to_handler = empty_map 4, ip_type_to_handler = empty_map 4\<rparr>"

section \<open>Lemmas on the store\<close>

lemma ip_mem_select [simp]:
  "ip_type_to_handler (put_in p ps s) = ip_type_to_handler s"
  "ip_type_to_handler (put_out p qs s) = ip_type_to_handler s"
  by (simp_all add: put_in_def put_out_def)

lemma ip_mem_update [simp]:
  "in_at (ip_type_to_handler_update g_ip_type_to_handler s) p = in_at s p"
  "out_at (ip_type_to_handler_update g_ip_type_to_handler s) p = out_at s p"
  "put_in p ps (ip_type_to_handler_update g_ip_type_to_handler s) = ip_type_to_handler_update g_ip_type_to_handler (put_in p ps s)"
  "put_out p qs (ip_type_to_handler_update g_ip_type_to_handler s) = ip_type_to_handler_update g_ip_type_to_handler (put_out p qs s)"
  by (simp_all add: put_in_def put_out_def in_at_def out_at_def)

section \<open>The checksum is the one's complement sum\<close>

definition words_at :: "mem8 \<Rightarrow> nat \<Rightarrow> nat \<Rightarrow> u16 list" where
  "words_at m a n = map (\<lambda>i. load16 m (a + 2 * i)) [0..<n]"

lemma ipv4_calculate_checksum_fold:
  "ipv4_calculate_checksum m a =
     NOT (foldl oc_add 0 (words_at m a (unat ((m a AND IPV4_IHL_MASK) * 2))))"
  by (simp add: ipv4_calculate_checksum_def words_at_def foldl_map oc_add_def Let_def)

lemma unat_ipv4_calculate_checksum:
  "unat (ipv4_calculate_checksum m a) =
     65535 - oc (sum_list (map unat (words_at m a (unat ((m a AND IPV4_IHL_MASK) * 2)))))"
  by (simp add: ipv4_calculate_checksum_fold unat_not_u16 unat_foldl_oc_add)

lemma ipv4_header_bytes_length [simp]: "length (ipv4_header_bytes h) = 20"
  by (simp add: ipv4_header_bytes_def)

lemma load_ipv4_header_window:
  "load_ipv4_header m a = load_ipv4_header (mem_of (read_bytes m a 20)) 0"
  using load16_window [of 2 20 m a]
  by (simp add: load_ipv4_header_def load16_window [of _ 20 m a] load32_window [of _ 20 m a]
      numeral_2_eq_2)

lemma load_ipv4_header_bytes:
  assumes "read_bytes m a 20 = ipv4_header_bytes h"
  shows "load_ipv4_header m a = h"
  unfolding load_ipv4_header_window [of m a] assms
  by (simp add: load_ipv4_header_def ipv4_header_bytes_def byte_simps)

lemma words_window:
  "2 * n \<le> k \<Longrightarrow> words_at m a n = words_at (mem_of (read_bytes m a k)) 0 n"
  using load16_window [of _ k m a] by (simp add: words_at_def)

definition header_words :: "ipv4_header_t \<Rightarrow> u16 list" where
  "header_words h = words_at (mem_of (ipv4_header_bytes h)) 0 10"

lemma header_words_eq:
  "header_words h =
     [join16 (ih_flags_2 h) (ih_flags_1 h), ih_total_length h, ih_identification h, ih_flags_3 h,
      join16 (ih_protocol h) (ih_time_to_live h), ih_header_checksum h,
      ucast (ih_source_ip h), ucast (drop_bit 16 (ih_source_ip h)),
      ucast (ih_destination_ip h), ucast (drop_bit 16 (ih_destination_ip h))]"
  unfolding header_words_def words_at_def ipv4_header_bytes_def
  by (simp add: byte_simps upt_rec)

text \<open>A header written with its checksum verifies, wherever in memory it is read back.\<close>

lemma ipv4_checksum_of_header:
  assumes "read_bytes m a 20 = ipv4_header_bytes h" and "ih_flags_1 h = 0x45"
  shows "unat (ipv4_calculate_checksum m a) = 65535 - oc (sum_list (map unat (header_words h)))"
proof -
  have "m a = 0x45"
    using assms byte_window [of 0 20 m a] by (simp add: ipv4_header_bytes_def)
  then have "unat ((m a AND IPV4_IHL_MASK) * 2) = 10" by (simp add: IPV4_IHL_MASK_def)
  then show ?thesis
    using words_window [of 10 20 m a] assms(1)
    by (simp only: unat_ipv4_calculate_checksum header_words_def)
qed

lemma header_words_sum:
  "sum_list (map unat (header_words h)) =
     sum_list (map unat (header_words (h\<lparr>ih_header_checksum := 0\<rparr>))) + unat (ih_header_checksum h)"
  by (simp add: header_words_eq)

lemma ipv4_fill_header_simps [simp]:
  "ih_flags_1 (ipv4_fill_header ifc a n) = 0x45"
  "ih_total_length (ipv4_fill_header ifc a n) = n"
  "ih_time_to_live (ipv4_fill_header ifc a n) = 64"
  "ih_protocol (ipv4_fill_header ifc a n) = ia_protocol a"
  "ih_source_ip (ipv4_fill_header ifc a n) = ipv4_addr ifc"
  "ih_destination_ip (ipv4_fill_header ifc a n) = ia_destination_ip a"
  by (simp_all add: ipv4_fill_header_def Let_def)

lemma ipv4_fill_header_checksum:
  "unat (ih_header_checksum (ipv4_fill_header ifc a n)) =
     65535 - oc (sum_list (map unat (header_words
       ((ipv4_fill_header ifc a n)\<lparr>ih_header_checksum := 0\<rparr>))))"
proof -
  define h where "h = (ipv4_fill_header ifc a n)\<lparr>ih_header_checksum := 0\<rparr>"
  have "read_bytes (mem_of (ipv4_header_bytes h)) 0 20 = ipv4_header_bytes h"
    by (simp add: read_mem_of)
  then have "unat (ipv4_calculate_checksum (mem_of (ipv4_header_bytes h)) 0) =
      65535 - oc (sum_list (map unat (header_words h)))"
    by (rule ipv4_checksum_of_header) (simp add: h_def)
  moreover have "ih_header_checksum (ipv4_fill_header ifc a n) =
      ipv4_calculate_checksum (mem_of (ipv4_header_bytes h)) 0"
    by (simp add: h_def ipv4_fill_header_def Let_def)
  ultimately show ?thesis unfolding h_def by simp
qed

lemma ipv4_fill_header_verifies:
  assumes "read_bytes m a 20 = ipv4_header_bytes (ipv4_fill_header ifc args n)"
  shows "ipv4_calculate_checksum m a = 0"
proof -
  let ?h = "ipv4_fill_header ifc args n"
  have "unat (ipv4_calculate_checksum m a) = 65535 - oc (sum_list (map unat (header_words ?h)))"
    by (rule ipv4_checksum_of_header [OF assms]) simp
  also have "oc (sum_list (map unat (header_words ?h))) = 65535"
    by (subst header_words_sum) (simp only: ipv4_fill_header_checksum oc_complement)
  finally show ?thesis by (simp add: unat_eq_0)
qed

section \<open>The layer\<close>

definition ipv4_layer_bytes :: "'a net_mem_scheme \<Rightarrow> interface_t \<Rightarrow> out_packet_stack_t \<Rightarrow> u8 list option" where
  "ipv4_layer_bytes s ifc ps =
     (case current_args ps of
        Inr (Some (Ipv4_args a)) \<Rightarrow> Some (ipv4_header_bytes (ipv4_fill_header ifc a
          (htons (ucast (ob_size (out_buffer ps) - (ob_offset (out_buffer ps) - 20))))))
      | _ \<Rightarrow> None)"

interpretation ip: header_layer ipv4_write ipv4_layer_bytes
proof
  fix s :: "'a net_mem_scheme" and p ps ifc bs cw wr
  assume "out_at s p = Inr ps" and "ipv4_layer_bytes s ifc ps = Some bs"
  then show "ipv4_write cw wr p ifc s =
      (if unat (ob_offset (out_buffer ps)) < length bs then Inr (False, s)
       else pass_down cw wr p ifc (put_out p (push_bytes bs ps) s))"
    by (auto simp: ipv4_write_def ipv4_layer_bytes_def sizeof_ipv4_header_def Let_def
        split: sum.splits option.splits write_args.splits)
qed

section \<open>What the reader does with a good header\<close>

text \<open>The packet stack when \<^verbatim>\<open>ipv4_read\<close> has entered its handler, and when it calls the next one.\<close>

definition ip_entered :: "handler \<Rightarrow> in_packet_stack_t \<Rightarrow> in_packet_stack_t" where
  "ip_entered h qs = qs\<lparr>in_handlers := (in_handlers qs)[unat (in_stack_idx qs) := Some h],
     in_stack_idx := in_stack_idx qs + 1\<rparr>"

definition ip_delivers :: "handler \<Rightarrow> nat \<Rightarrow> u32 \<Rightarrow> u8 \<Rightarrow> in_packet_stack_t \<Rightarrow> in_packet_stack_t" where
  "ip_delivers h at src protocol qs = (ip_entered h qs)
     \<lparr>packet_pointers := (packet_pointers qs)[Suc (unat (in_stack_idx qs)) := Some (at + 20)],
      return_args := (return_args qs)[unat (in_stack_idx qs) :=
        Some (Ipv4_args \<lparr>ia_destination_ip = src, ia_protocol = protocol\<rparr>)]\<rparr>"

definition ip_slot_free :: "in_packet_stack_t \<Rightarrow> bool" where
  "ip_slot_free qs \<longleftrightarrow> length (in_handlers qs) = 10 \<and> length (packet_pointers qs) = 10 \<and>
     length (return_args qs) = 10 \<and> unat (in_stack_idx qs) < 9"

lemma ipv4_read_good:
  assumes "in_at t q = Inr qs" and "ip_slot_free qs" and "packet_pointers qs ! unat (in_stack_idx qs) = Some at"
    and "ipv4_calculate_checksum (in_frame qs) at = 0"
    and "load_ipv4_header (in_frame qs) at = hdr"
    and "ih_flags_1 hdr AND IPV4_IHL_MASK = 5" and "ih_time_to_live hdr \<noteq> 0"
  shows "ipv4_read rd h q ifc t =
    (if ih_destination_ip hdr \<noteq> ipv4_addr ifc then Inr (Some 0, put_in q (ip_entered h qs) t)
     else sbind (get_value (ip_type_to_handler t) (ucast (ih_protocol hdr))) (\<lambda>(next_handler, m).
       case next_handler of
         None \<Rightarrow> Inr (Some 4, (put_in q (ip_entered h qs) t)\<lparr>ip_type_to_handler := m\<rparr>)
       | Some next_handler \<Rightarrow>
           sbind (rd next_handler q ifc ((put_in q (ip_delivers h at (ih_source_ip hdr) (ih_protocol hdr) qs) t)
               \<lparr>ip_type_to_handler := m\<rparr>)) (\<lambda>(_, t'). Inr (Some 0, t'))))"
proof -
  have "unat (in_stack_idx qs + 1) = Suc (unat (in_stack_idx qs))"
    using assms(2) by (simp add: ip_slot_free_def unat_word_ariths)
  then show ?thesis
    using assms
    by (simp add: ipv4_read_def Let_def ip_slot_free_def ip_entered_def ip_delivers_def sizeof_ipv4_header_def
        cong: if_cong option.case_cong)
qed

section \<open>Corrupted headers\<close>

lemma unat_checksum_ihl5:
  assumes "m a AND IPV4_IHL_MASK = 5"
  shows "ipv4_calculate_checksum m a = 0 \<longleftrightarrow> oc (sum_list (map unat (words_at m a 10))) = 65535"
proof -
  have "unat ((m a AND IPV4_IHL_MASK) * 2) = 10" by (simp add: assms)
  then have "unat (ipv4_calculate_checksum m a) = 65535 - oc (sum_list (map unat (words_at m a 10)))"
    by (simp only: unat_ipv4_calculate_checksum)
  then show ?thesis
    using oc_le [of "sum_list (map unat (words_at m a 10))"] by (auto simp: unat_eq_0 [symmetric])
qed

lemma sum_list_map_update:
  fixes f :: "'a \<Rightarrow> nat"
  assumes "k < length xs"
  shows "sum_list (map f (xs[k := w])) + f (xs ! k) = sum_list (map f xs) + f w"
  using assms by (induction xs arbitrary: k) (auto split: nat.split)

lemma same_residue_u16:
  fixes x y :: u16
  assumes "65535 dvd A + unat x" and "65535 dvd B" and "B + unat x = A + unat x + unat y"
    and "x \<noteq> y"
  shows "{y, x} = {0, 0xFFFF}"
proof -
  have x: "unat x \<le> 65535" and y: "unat y \<le> 65535" by (rule unat_u16_le)+
  have ne: "unat x \<noteq> unat y" using assms(4) by (simp add: word_eq_iff_unsigned [where ?'a = nat])
  obtain i j where i: "A + unat x = 65535 * i" and j: "B = 65535 * j"
    using assms(1,2) by (auto elim!: dvdE)
  have eq: "65535 * j + unat x = 65535 * i + unat y" using assms(3) i j by simp
  have "unat x = 0 \<and> unat y = 65535 \<or> unat x = 65535 \<and> unat y = 0"
    by (cases i j rule: linorder_cases) (use eq x y ne in linarith)+
  then have "x = 0 \<and> y = 0xFFFF \<or> x = 0xFFFF \<and> y = 0"
    by (auto simp: word_eq_iff_unsigned [where ?'a = nat])
  then show ?thesis by auto
qed

lemma ipv4_checksum_single_word:
  assumes "ipv4_calculate_checksum m a = 0" and "m a AND IPV4_IHL_MASK = 5"
    and "m' b AND IPV4_IHL_MASK = 5" and "k < 10"
    and "words_at m' b 10 = (words_at m a 10)[k := w]" and "w \<noteq> words_at m a 10 ! k"
    and "{w, words_at m a 10 ! k} \<noteq> {0, 0xFFFF}"
  shows "ipv4_calculate_checksum m' b \<noteq> 0"
proof
  assume "ipv4_calculate_checksum m' b = 0"
  then have d': "65535 dvd sum_list (map unat (words_at m' b 10))"
    using unat_checksum_ihl5 [of m' b, OF assms(3)] by (simp add: oc_full_dvd)
  have d: "65535 dvd sum_list (map unat (words_at m a 10))"
    using unat_checksum_ihl5 [of m a, OF assms(2)] assms(1) by (simp add: oc_full_dvd)
  let ?ws = "words_at m a 10"
  have len: "k < length ?ws" using assms(4) by (simp add: words_at_def)
  have "sum_list (map unat ?ws) = (sum_list (map unat ?ws) - unat (?ws ! k)) + unat (?ws ! k)"
    using elem_le_sum_list [of k "map unat ?ws"] len by simp
  with same_residue_u16 [of "sum_list (map unat ?ws) - unat (?ws ! k)" "?ws ! k"
      "sum_list (map unat (words_at m' b 10))" w] d d' sum_list_map_update [OF len, of unat w]
    assms(5-7)
  show False by simp
qed

section \<open>Properties\<close>

text \<open>C20: \<^verbatim>\<open>ipv4_write\<close> puts a 20-byte header in front of the unchanged payload and hands the buffer on
  (to the driver or to the layer below). Whichever host reads these bytes back with \<^verbatim>\<open>ipv4_read\<close>
  verifies the checksum and sees the addresses, the protocol and the length that were written: a
  packet for another address is passed over with 0, one for a protocol without handler gives 4, and
  otherwise the handler of the protocol is called exactly once, with the pointer to the first byte of
  the payload as the next packet pointer and the sender's address and the protocol as return arguments,
  and the result is 0.\<close>

theorem ipv4_write_read_roundtrip:
  fixes s :: "'a net_mem_scheme"
  assumes "out_at s p = Inr ps" and "wf_out ps" and "current_args ps = Inr (Some (Ipv4_args a))"
    and "20 \<le> unat (ob_offset (out_buffer ps))" and "unat (ob_size (out_buffer ps)) < 65536"
  shows "\<exists>ps'. ipv4_write cw wr p ifc s = pass_down cw wr p ifc (put_out p ps' s) \<and>
    ps' = ps\<lparr>out_buffer := out_buffer ps'\<rparr> \<and> drop 20 (frame_of ps') = frame_of ps \<and>
    (\<forall>(t :: 'b ip_mem_scheme) q qs at rd h ifc'. in_at t q = Inr qs \<longrightarrow> ip_slot_free qs \<longrightarrow>
       packet_pointers qs ! unat (in_stack_idx qs) = Some at \<longrightarrow>
       read_bytes (in_frame qs) at (length (frame_of ps')) = frame_of ps' \<longrightarrow>
       ipv4_calculate_checksum (in_frame qs) at = 0 \<and>
       unat (ntohs (ih_total_length (load_ipv4_header (in_frame qs) at))) = length (frame_of ps') \<and>
       read_bytes (in_frame qs) (at + 20) (length (frame_of ps)) = frame_of ps \<and>
       ipv4_read rd h q ifc' t =
         (if ia_destination_ip a \<noteq> ipv4_addr ifc' then Inr (Some 0, put_in q (ip_entered h qs) t)
          else sbind (get_value (ip_type_to_handler t) (ucast (ia_protocol a))) (\<lambda>(next_handler, m).
            case next_handler of
              None \<Rightarrow> Inr (Some 4, (put_in q (ip_entered h qs) t)\<lparr>ip_type_to_handler := m\<rparr>)
            | Some next_handler \<Rightarrow>
                sbind (rd next_handler q ifc' ((put_in q (ip_delivers h at (ipv4_addr ifc) (ia_protocol a) qs) t)
                    \<lparr>ip_type_to_handler := m\<rparr>)) (\<lambda>(_, t'). Inr (Some 0, t')))))"
proof -
  let ?b = "out_buffer ps"
  define n :: u16 where "n = htons (ucast (ob_size ?b - (ob_offset ?b - 20)))"
  define hdr where "hdr = ipv4_fill_header ifc a n"
  define ps' where "ps' = push_bytes (ipv4_header_bytes hdr) ps"
  have header: "ipv4_layer_bytes s ifc ps = Some (ipv4_header_bytes hdr)"
    using assms(3) by (simp add: ipv4_layer_bytes_def hdr_def n_def)
  have frame: "frame_of ps' = ipv4_header_bytes hdr @ frame_of ps" and wf: "wf_out ps'"
    using frame_of_push [OF assms(2), of "ipv4_header_bytes hdr"] wf_out_push [OF assms(2), of "ipv4_header_bytes hdr"]
      assms(4) by (simp_all add: ps'_def)
  have wr: "ipv4_write cw wr p ifc s = pass_down cw wr p ifc (put_out p ps' s)"
    using ip.write_law [OF assms(1) header] assms(4) by (simp add: ps'_def)
  have "ob_offset ?b - 20 \<le> ob_size ?b"
    using wf by (simp add: wf_out_def ps'_def)
  then have "unat (ob_size ?b - (ob_offset ?b - 20)) = unat (ob_size ?b) - unat (ob_offset ?b - 20)"
    by (rule unat_sub)
  then have len: "unat (ob_size ?b - (ob_offset ?b - 20)) = length (frame_of ps')"
    by (simp add: frame_of_def Let_def ps'_def)
  moreover have "\<dots> < 65536"
    using assms(5) by (simp add: frame_of_def Let_def ps'_def)
  ultimately have total: "unat (ntohs n) = length (frame_of ps')"
    by (simp add: n_def unsigned_ucast_eq take_bit_nat_eq_self)
  have split: "read_bytes m at 20 = ipv4_header_bytes hdr" "read_bytes m (at + 20) (length (frame_of ps)) = frame_of ps"
    if "read_bytes m at (length (frame_of ps')) = frame_of ps'" for m at
    using that read_bytes_add [of m at 20 "length (frame_of ps)"] by (simp_all add: frame append_eq_append_conv)
  have recv: "ipv4_calculate_checksum m at = 0" "load_ipv4_header m at = hdr"
    if "read_bytes m at (length (frame_of ps')) = frame_of ps'" for m at
    using split(1) [OF that] ipv4_fill_header_verifies [of m at ifc a n] load_ipv4_header_bytes [of m at hdr]
    by (simp_all add: hdr_def)
  have vals: "ih_flags_1 hdr AND IPV4_IHL_MASK = 5" "ih_time_to_live hdr \<noteq> 0" "ih_destination_ip hdr = ia_destination_ip a"
    "ih_protocol hdr = ia_protocol a" "ih_source_ip hdr = ipv4_addr ifc" "ih_total_length hdr = n"
    by (simp_all add: hdr_def IPV4_IHL_MASK_def)
  have "ps' = ps\<lparr>out_buffer := out_buffer ps'\<rparr>" by (simp add: ps'_def push_bytes_def Let_def)
  with wr total show ?thesis
    by (intro exI [of _ ps'] conjI allI impI)
      (simp_all add: frame recv split ipv4_read_good [OF _ _ _ recv vals(1,2), unfolded vals] vals(6))
qed

text \<open>The example, with a host that knows protocol 6 and receives the datagram.\<close>

definition example_ipv4_receiver :: "u8 list \<Rightarrow> ip_mem" where
  "example_ipv4_receiver frame = example_ipv4_in_mem
     \<lparr>in_stacks := (\<lambda>_. None)(0 := Some (example_ipv4_in\<lparr>in_frame := mem_of frame\<rparr>)),
      ip_type_to_handler := (case add_value (empty_map 4) 6 (Some H_tcp) of Inr (_, m) \<Rightarrow> m | Inl _ \<Rightarrow> empty_map 4)\<rparr>"

lemma example_ipv4_protocol:
  "\<exists>m. get_value (ip_type_to_handler (example_ipv4_receiver frame)) 6 = Inr (Some H_tcp, m)"
proof -
  let ?m = "case add_value (empty_map 4) 6 (Some H_tcp) of Inr (_, m) \<Rightarrow> m | Inl _ \<Rightarrow> empty_map 4"
  have "case get_value ?m 6 of Inr (v, _) \<Rightarrow> v = Some H_tcp | Inl _ \<Rightarrow> False" by code_simp
  then show ?thesis by (auto simp: example_ipv4_receiver_def split: sum.splits)
qed

theorem ipv4_write_read_roundtrip_witness:
  "\<exists>ps' qs t. ipv4_write (\<lambda>p ifc s. s) (\<lambda>h p ifc s. Inr (True, s)) 0 example_interface example_ipv4_mem
     = Inr (True, put_out 0 ps' example_ipv4_mem) \<and> drop 20 (frame_of ps') = replicate 10 0xAB \<and>
   ipv4_read (\<lambda>h p ifc s. Inr (None, s)) H_ipv4 0 (example_interface\<lparr>ipv4_addr := 0x0100000A\<rparr>)
     (example_ipv4_receiver (frame_of ps')) = Inr (Some 0, t) \<and>
   in_at t 0 = Inr qs \<and> packet_pointers qs ! 1 = Some 20 \<and> read_bytes (in_frame qs) 20 10 = replicate 10 0xAB \<and>
   return_args qs ! 0 = Some (Ipv4_args \<lparr>ia_destination_ip = 0x0200000A, ia_protocol = 6\<rparr>)"
proof -
  let ?a = "\<lparr>ia_destination_ip = 0x0100000A, ia_protocol = 6\<rparr>" and ?ifc = "example_interface\<lparr>ipv4_addr := 0x0100000A\<rparr>"
  let ?rd = "\<lambda>h p ifc s. Inr (None, s) :: fault + (u16 option \<times> ip_mem)"
  have 1: "out_at example_ipv4_mem 0 = Inr example_ipv4_out"
    by (simp add: example_ipv4_mem_def out_at_def)
  have 2: "wf_out example_ipv4_out" and 3: "out_stack_idx example_ipv4_out = 0"
    and 5: "20 \<le> unat (ob_offset (out_buffer example_ipv4_out))"
    and 6: "unat (ob_size (out_buffer example_ipv4_out)) < 65536"
    by (simp_all add: example_ipv4_out_def wf_out_def)
  have 4: "current_args example_ipv4_out = Inr (Some (Ipv4_args ?a))"
    by (simp add: example_ipv4_out_def current_args_def)
  have pay: "frame_of example_ipv4_out = replicate 10 0xAB"
    by (simp add: example_ipv4_out_def frame_of_def read_bytes_def map_replicate_const)
  from ipv4_write_read_roundtrip [where 'b = unit, OF 1 2 4 5 6, of "\<lambda>p ifc s. s" "\<lambda>h p ifc s. Inr (True, s)" example_interface, unfolded pay]
  show ?thesis
  proof (elim exE conjE, goal_cases)
    case (1 ps')
    note w = 1(1-3) and r = 1(4) [rule_format]
    have "out_stack_idx ps' = 0" by (subst w(2)) (simp add: 3)
    moreover have "out_at (put_out 0 ps' example_ipv4_mem) 0 = Inr ps'"
      by (simp add: example_ipv4_mem_def out_at_def put_out_def)
    ultimately have wrote: "ipv4_write (\<lambda>p ifc s. s) (\<lambda>h p ifc s. Inr (True, s)) 0 example_interface example_ipv4_mem =
        Inr (True, put_out 0 ps' example_ipv4_mem)"
      using w(1) by (simp add: pass_down_def)
    let ?t = "example_ipv4_receiver (frame_of ps')" and ?qs = "example_ipv4_in\<lparr>in_frame := mem_of (frame_of ps')\<rparr>"
    have in0: "in_at ?t 0 = Inr ?qs" "ip_slot_free ?qs" "packet_pointers ?qs ! unat (in_stack_idx ?qs) = Some 0"
      "read_bytes (in_frame ?qs) 0 (length (frame_of ps')) = frame_of ps'"
      by (simp_all add: example_ipv4_receiver_def in_at_def ip_slot_free_def example_ipv4_in_def read_mem_of_all)
    obtain m where m: "get_value (ip_type_to_handler ?t) 6 = Inr (Some H_tcp, m)"
      using example_ipv4_protocol by blast
    note read = r [OF in0, of ?rd H_ipv4 ?ifc]
    have call: "ipv4_read ?rd H_ipv4 0 ?ifc ?t =
        Inr (Some 0, (put_in 0 (ip_delivers H_ipv4 0 (ipv4_addr example_interface) 6 ?qs) ?t)\<lparr>ip_type_to_handler := m\<rparr>)"
      using read m by simp
    show ?thesis
      by (rule exI [of _ ps'], rule exI [of _ "ip_delivers H_ipv4 0 (ipv4_addr example_interface) 6 ?qs"],
          rule exI, intro conjI, rule wrote, rule w(3), rule call)
        (use read in \<open>simp_all add: ip_delivers_def ip_entered_def example_ipv4_in_def example_interface_def in_at_def put_in_def\<close>)
  qed
qed

text \<open>C34: the checksum protects the header: when one 16-bit word of a valid 20-byte header is
  changed in transit (other than between 0x0000 and 0xFFFF, which are the same number in
  one's complement), \<^verbatim>\<open>ipv4_read\<close> rejects the packet with a checksum or header length error
  and calls no other handler, whatever the payload and the tables are.\<close>

theorem ipv4_word_corruption_rejected:
  assumes "ipv4_calculate_checksum m a = 0" and "m a AND IPV4_IHL_MASK = 5"
    and "k < 10" and "words_at (in_frame qs) at 10 = (words_at m a 10)[k := w]"
    and "w \<noteq> words_at m a 10 ! k"
    and "{w, words_at m a 10 ! k} \<noteq> {0, 0xFFFF}"
    and "in_at t q = Inr qs" and "unat (in_stack_idx qs) < length (packet_pointers qs)"
    and "length (in_handlers qs) = length (packet_pointers qs)"
    and "packet_pointers qs ! unat (in_stack_idx qs) = Some at"
  shows "\<exists>r. (r = 1 \<or> r = 2) \<and> ipv4_read rd h q ifc t =
    Inr (Some r, put_in q (qs\<lparr>in_handlers := (in_handlers qs)[unat (in_stack_idx qs) := Some h],
                              in_stack_idx := in_stack_idx qs + 1\<rparr>) t)"
proof -
  have "ipv4_calculate_checksum (in_frame qs) at \<noteq> 0" if "in_frame qs at AND IPV4_IHL_MASK = 5"
    using ipv4_checksum_single_word [OF assms(1,2) that assms(3-6)] .
  moreover have "ih_flags_1 (load_ipv4_header (in_frame qs) at) = in_frame qs at"
    by (simp add: load_ipv4_header_def)
  ultimately show ?thesis
    using assms(7-10) by (simp add: ipv4_read_def Let_def)
qed

theorem ipv4_word_corruption_rejected_witness:
  "\<exists>r s. (r = 1 \<or> r = 2) \<and>
     ipv4_read (\<lambda>h p ifc s. Inr (None, s)) H_ipv4 0 example_interface example_ipv4_in_mem = Inr (Some r, s)"
proof -
  let ?m = "mem_of example_ipv4_header"
  have "ipv4_calculate_checksum ?m 0 = 0" and "?m 0 AND IPV4_IHL_MASK = 5"
    and "words_at (in_frame example_ipv4_in) 0 10 = (words_at ?m 0 10)[4 := 0x063F]"
    and "words_at ?m 0 10 ! 4 = 0x0640"
    by code_simp+
  with ipv4_word_corruption_rejected [of ?m 0 4 example_ipv4_in 0 "0x063F" example_ipv4_in_mem 0
      "\<lambda>h p ifc s. Inr (None, s)" H_ipv4 example_interface]
  show ?thesis
    by (auto simp: example_ipv4_in_mem_def example_ipv4_in_def in_at_def doubleton_eq_iff)
qed

end
