(* ===== verification/Arp.thy ===== *)
theory Arp
  imports Ipv4
begin

text \<open>
  \<^verbatim>\<open>handlers/arp/arp.c\<close> and \<^verbatim>\<open>handlers/arp/socket.c\<close>: the address resolution list, the
  handler that learns from and answers ARP packets, and the socket through which a
  program watches and sends them.

  The resolution list is the array of 256 entry pointers (a pointer is the entry or
  \<open>None\<close>) with the index of the next slot to fill. An entry is only reached through its
  slot, so a lookup returns the slot, and writing through the returned pointer is an update
  of the slot. The increment \<^verbatim>\<open>i = ++i % 256\<close> is read as \<^verbatim>\<open>i = (i + 1) % 256\<close>. The
  locks, which order different threads, have no counterpart. \<^verbatim>\<open>arp_init_handler\<close> leaves
  \<^verbatim>\<open>insert_idx\<close> as \<^verbatim>\<open>malloc\<close> delivered it, which is an argument of the model.
\<close>

section \<open>Data\<close>

record arp_entry_t =
  ae_ipv4 :: u32
  ae_mac :: "u8 list"

record arp_resoltion_list_t =
  rl_list :: "arp_entry_t option list"
  rl_insert_idx :: u16

record arp_socket_t =
  as_next_handler :: "handler option"
  as_passthrough :: bool
  as_interface :: interface_t

record arp_status_t =
  st_entries :: "arp_entry_t list"
  st_num_arp_entries :: "u16 option"

record arp_mem = ip_mem +
  arp_socket :: "arp_socket_t option"
  resolution_list :: arp_resoltion_list_t

definition ARP_OPERATION_REQUEST :: u16 where "ARP_OPERATION_REQUEST = 256"
definition ARP_OPERATION_RESPONSE :: u16 where "ARP_OPERATION_RESPONSE = 512"
definition ARP_HDW_TYPE_ETHERNET :: u16 where "ARP_HDW_TYPE_ETHERNET = 256"
definition ARP_RESOLUTION_LIST_SIZE :: nat where "ARP_RESOLUTION_LIST_SIZE = 256"

definition sizeof_arp_header :: nat where "sizeof_arp_header = 28"

definition load_arp_header :: "mem8 \<Rightarrow> nat \<Rightarrow> arp_header_t" where
  "load_arp_header m a =
     \<lparr>hdw_type = load16 m a, pro_type = load16 m (a + 2),
      hdw_addr_length = m (a + 4), pro_addr_length = m (a + 5), operation = load16 m (a + 6),
      sender_hardware_addr = read_bytes m (a + 8) 6, sender_protocol_addr = load32 m (a + 14),
      target_hardware_addr = read_bytes m (a + 18) 6, target_protocol_addr = load32 m (a + 24)\<rparr>"

definition arp_header_bytes :: "arp_header_t \<Rightarrow> u8 list" where
  "arp_header_bytes h =
     bytes16 (hdw_type h) @ bytes16 (pro_type h) @ [hdw_addr_length h, pro_addr_length h]
       @ bytes16 (operation h) @ sender_hardware_addr h @ bytes32 (sender_protocol_addr h)
       @ target_hardware_addr h @ bytes32 (target_protocol_addr h)"

section \<open>The resolution list\<close>

definition arp_insert_mapping ::
  "arp_resoltion_list_t \<Rightarrow> arp_entry_t \<Rightarrow> fault + arp_resoltion_list_t" where
  "arp_insert_mapping l entry =
     sbind (upd (rl_list l) (unat (rl_insert_idx l)) (Some entry)) (\<lambda>es.
       Inr (l\<lparr>rl_list := es,
              rl_insert_idx := (rl_insert_idx l + 1) mod of_nat ARP_RESOLUTION_LIST_SIZE\<rparr>))"

text \<open>The scan for an address, from slot \<open>i\<close> on: it ends at the first empty slot.\<close>

fun arp_mapping_scan :: "arp_entry_t option list \<Rightarrow> u32 \<Rightarrow> nat \<Rightarrow> nat option" where
  "arp_mapping_scan [] ipv4 i = None"
| "arp_mapping_scan (None # es) ipv4 i = None"
| "arp_mapping_scan (Some entry # es) ipv4 i =
     (if ipv4 = ae_ipv4 entry then Some i else arp_mapping_scan es ipv4 (Suc i))"

definition arp_get_ip_mapping :: "arp_resoltion_list_t \<Rightarrow> u32 \<Rightarrow> nat option" where
  "arp_get_ip_mapping l ipv4 = arp_mapping_scan (rl_list l) ipv4 0"

definition arp_init_handler :: "u16 \<Rightarrow> 'a arp_mem_scheme \<Rightarrow> 'a arp_mem_scheme" where
  "arp_init_handler raw_insert_idx s =
     s\<lparr>arp_socket := None,
       resolution_list := \<lparr>rl_list = replicate ARP_RESOLUTION_LIST_SIZE None,
                           rl_insert_idx = raw_insert_idx\<rparr>\<rparr>"

section \<open>The handler\<close>

definition arp_write ::
  "'a net_mem_scheme config_write \<Rightarrow> 'a net_mem_scheme writer \<Rightarrow> nat \<Rightarrow> interface_t \<Rightarrow>
   'a net_mem_scheme \<Rightarrow> fault + (bool \<times> 'a net_mem_scheme)" where
  "arp_write cw wr p ifc s =
     sbind (out_at s p) (\<lambda>ps.
     sbind (current_args ps) (\<lambda>a.
       if unat (ob_offset (out_buffer ps)) < sizeof_arp_header then Inr (False, s)
       else sbind (deref a) (\<lambda>a. case a of
           Arp_args header \<Rightarrow>
             pass_down cw wr p ifc (put_out p (push_bytes (arp_header_bytes header) ps) s)
         | _ \<Rightarrow> Inl Bad_cast)))"

text \<open>
  The update of an existing mapping (lines 127 to 130), the insertion of a new one
  (lines 133 to 138), the header of the reply (lines 141 to 156) and the part of
  \<^verbatim>\<open>arp_read\<close> that uses them (lines 123 to 170).
\<close>

definition arp_refresh_mapping ::
  "nat option \<Rightarrow> arp_header_t \<Rightarrow> arp_resoltion_list_t \<Rightarrow> fault + arp_resoltion_list_t" where
  "arp_refresh_mapping mapping header l =
     (case mapping of
        None \<Rightarrow> Inr l
      | Some i \<Rightarrow>
          sbind (upd (rl_list l) i (Some \<lparr>ae_ipv4 = sender_protocol_addr header,
                                         ae_mac = sender_hardware_addr header\<rparr>)) (\<lambda>es.
            Inr (l\<lparr>rl_list := es\<rparr>)))"

definition arp_learn_mapping ::
  "nat option \<Rightarrow> arp_header_t \<Rightarrow> arp_resoltion_list_t \<Rightarrow> fault + arp_resoltion_list_t" where
  "arp_learn_mapping mapping header l =
     (if mapping = None
      then arp_insert_mapping l \<lparr>ae_ipv4 = sender_protocol_addr header,
                                 ae_mac = sender_hardware_addr header\<rparr>
      else Inr l)"

definition arp_reply :: "interface_t \<Rightarrow> arp_header_t \<Rightarrow> arp_header_t" where
  "arp_reply ifc header =
     \<lparr>hdw_type = hdw_type header, pro_type = pro_type header,
      hdw_addr_length = hdw_addr_length header, pro_addr_length = pro_addr_length header,
      operation = ARP_OPERATION_RESPONSE,
      sender_hardware_addr = take 6 (mac ifc), sender_protocol_addr = target_protocol_addr header,
      target_hardware_addr = sender_hardware_addr header,
      target_protocol_addr = sender_protocol_addr header\<rparr>"

definition arp_process ::
  "'a arp_mem_scheme writer \<Rightarrow> handler \<Rightarrow> nat \<Rightarrow> u8 \<Rightarrow> nat \<Rightarrow> interface_t \<Rightarrow> 'a arp_mem_scheme \<Rightarrow>
   fault + (u16 option \<times> 'a arp_mem_scheme)" where
  "arp_process wr h p packet_idx header_at ifc s =
     sbind (in_at s p) (\<lambda>ps.
     let header = load_arp_header (in_frame ps) header_at in
     if hdw_type header = ARP_HDW_TYPE_ETHERNET \<and> pro_type header = ETHERNET_TYPE_IPV6 then
       let mapping = arp_get_ip_mapping (resolution_list s) (sender_protocol_addr header) in
       sbind (arp_refresh_mapping mapping header (resolution_list s)) (\<lambda>l.
       if target_protocol_addr header = ipv4_addr ifc then
         sbind (arp_learn_mapping mapping header l) (\<lambda>l.
         let s = s\<lparr>resolution_list := l\<rparr> in
         if operation header = ARP_OPERATION_REQUEST then
           sbind (upd (return_args ps) (unat packet_idx)
               (Some (Arp_args (arp_reply ifc header)))) (\<lambda>ras.
           sbind (handler_create_out_package_stack p packet_idx
               (put_in p (ps\<lparr>return_args := ras\<rparr>) s)) (\<lambda>(out, s).
           sbind (wr h out ifc s) (\<lambda>(ok, s).
             Inr (Some (if ok then 0 else - 1), s))))
         else Inr (Some 0, s))
       else Inr (Some 0, s\<lparr>resolution_list := l\<rparr>))
     else Inr (Some 0, s))"

definition arp_read ::
  "'a arp_mem_scheme reader \<Rightarrow> 'a arp_mem_scheme writer \<Rightarrow> handler \<Rightarrow> nat \<Rightarrow> interface_t \<Rightarrow>
   'a arp_mem_scheme \<Rightarrow> fault + (u16 option \<times> 'a arp_mem_scheme)" where
  "arp_read rd wr h p ifc s =
     sbind (in_at s p) (\<lambda>ps.
     let packet_idx = in_stack_idx ps in
     sbind (upd (in_handlers ps) (unat packet_idx) (Some h)) (\<lambda>hs.
     sbind (idx (packet_pointers ps) (unat packet_idx)) (\<lambda>ptr.
     sbind (deref ptr) (\<lambda>header_at.
     let ps1 = ps\<lparr>in_handlers := hs\<rparr>; s1 = put_in p ps1 s in
     case Option.bind (arp_socket s) as_next_handler of
       Some next_handler \<Rightarrow>
         let stack_idx = packet_idx + 1 in
         sbind (upd (packet_pointers ps) (unat stack_idx)
             (Some (header_at + sizeof_arp_header))) (\<lambda>pps.
         sbind (upd (return_args ps) (unat stack_idx) None) (\<lambda>ras.
         sbind (rd next_handler p ifc (put_in p
             (ps1\<lparr>in_stack_idx := stack_idx, packet_pointers := pps, return_args := ras\<rparr>) s)) (\<lambda>(result, s2).
         sbind (deref (arp_socket s2)) (\<lambda>socket.
         if as_passthrough socket then Inr (result, s2)
         else sbind (in_at s2 p) (\<lambda>ps2.
           arp_process wr h p packet_idx header_at ifc
             (put_in p (ps2\<lparr>in_stack_idx := packet_idx\<rparr>) s2))))))
     | None \<Rightarrow> arp_process wr h p packet_idx header_at ifc s1))))"

definition arp_create_handler :: "'a eth_mem_scheme \<Rightarrow> fault + (handler \<times> 'a eth_mem_scheme)" where
  "arp_create_handler s =
     sbind (add_value (ethernet_type_to_handler s) (ucast (htons ETHERNET_TYPE_ARP)) (Some H_arp))
       (\<lambda>(_, m). Inr (H_arp, s\<lparr>ethernet_type_to_handler := m\<rparr>))"

section \<open>The socket\<close>

definition arp_socket_send ::
  "'a net_mem_scheme writer \<Rightarrow> handler \<Rightarrow> arp_socket_t \<Rightarrow> socket_client_args \<Rightarrow> 'a net_mem_scheme \<Rightarrow>
   fault + (bool \<times> 'a net_mem_scheme)" where
  "arp_socket_send wr h socket protocol_stack s =
     (let (out, s) = new_out_stack (ca_handlers protocol_stack) (ca_handler_args protocol_stack)
            DEFAULT_PACKAGE_BUFFER_SIZE (ca_depth protocol_stack - 1) s
      in wr h out (as_interface socket) s)"

text \<open>
  \<^verbatim>\<open>status\<close> copies the entries up to the first empty slot; it sets the count only when it
  meets one, so the count of a full list is left undefined (\<open>None\<close>).
\<close>

fun arp_status_scan :: "arp_entry_t option list \<Rightarrow> u16 \<Rightarrow> arp_status_t" where
  "arp_status_scan [] i = \<lparr>st_entries = [], st_num_arp_entries = None\<rparr>"
| "arp_status_scan (None # es) i = \<lparr>st_entries = [], st_num_arp_entries = Some i\<rparr>"
| "arp_status_scan (Some entry # es) i =
     (let st = arp_status_scan es (i + 1) in st\<lparr>st_entries := entry # st_entries st\<rparr>)"

definition arp_socket_status :: "'a arp_mem_scheme \<Rightarrow> arp_status_t" where
  "arp_socket_status s = arp_status_scan (rl_list (resolution_list s)) 0"

definition arp_create_socket :: "handler option \<Rightarrow> interface_t \<Rightarrow> bool \<Rightarrow> arp_socket_t" where
  "arp_create_socket next_handler ifc passthrough =
     \<lparr>as_next_handler = next_handler, as_passthrough = passthrough, as_interface = ifc\<rparr>"

definition arp_set_socket :: "arp_socket_t option \<Rightarrow> 'a arp_mem_scheme \<Rightarrow> 'a arp_mem_scheme" where
  "arp_set_socket socket s = s\<lparr>arp_socket := socket\<rparr>"

text \<open>A request for the example interface, as it is received.\<close>

definition example_arp_request :: arp_header_t where
  "example_arp_request =
     \<lparr>hdw_type = 256, pro_type = 8, hdw_addr_length = 6, pro_addr_length = 4, operation = 256,
      sender_hardware_addr = [2, 0, 0, 0, 0, 9], sender_protocol_addr = 0x0900000A,
      target_hardware_addr = [0, 0, 0, 0, 0, 0], target_protocol_addr = 0x0200000A\<rparr>"

definition example_arp_in :: in_packet_stack_t where
  "example_arp_in =
     \<lparr>in_handlers = replicate 10 None, return_args = replicate 10 None,
      packet_pointers = (replicate 10 None)[0 := Some 0],
      in_frame = mem_of (arp_header_bytes example_arp_request), in_stack_idx = 0\<rparr>"

definition example_arp_mem :: arp_mem where
  "example_arp_mem = arp_init_handler 0
     \<lparr>in_stacks = (\<lambda>_. None)(0 := Some example_arp_in), out_stacks = [], malloc_bytes = (\<lambda>_ _. 0),
      ethernet_type_to_handler = empty_map 4, ip_type_to_handler = empty_map 4,
      arp_socket = None, resolution_list = \<lparr>rl_list = [], rl_insert_idx = 0\<rparr>\<rparr>"

text \<open>A list with all slots taken.\<close>

definition example_full_entries :: "arp_entry_t list" where
  "example_full_entries = map (\<lambda>i. \<lparr>ae_ipv4 = of_nat i, ae_mac = [2, 0, 0, 0, 0, of_nat i]\<rparr>) [0..<256]"

definition example_full_list :: arp_resoltion_list_t where
  "example_full_list = \<lparr>rl_list = map Some example_full_entries, rl_insert_idx = 3\<rparr>"

section \<open>Abstraction\<close>

text \<open>
  The entries are the filled slots in front of the first empty one, and the table they
  stand for maps an address to the hardware address last learnt for it. \<open>rfc826_merge\<close> is the
  packet reception rule of RFC 826: refresh a known sender, add an unknown one only when
  the packet is addressed to this host.
\<close>

definition arp_entries :: "arp_resoltion_list_t \<Rightarrow> arp_entry_t list" where
  "arp_entries l = map the (takeWhile (\<lambda>e. e \<noteq> None) (rl_list l))"

definition entry_pair :: "arp_entry_t \<Rightarrow> u32 \<times> u8 list" where
  "entry_pair e = (ae_ipv4 e, ae_mac e)"

definition arp_table :: "arp_resoltion_list_t \<Rightarrow> u32 \<Rightarrow> u8 list option" where
  "arp_table l = map_of (map entry_pair (arp_entries l))"

definition arp_invar :: "arp_resoltion_list_t \<Rightarrow> bool" where
  "arp_invar l \<longleftrightarrow>
     rl_list l = map Some (arp_entries l) @ replicate (256 - length (arp_entries l)) None \<and>
     length (arp_entries l) \<le> 256 \<and> unat (rl_insert_idx l) < 256 \<and>
     (length (arp_entries l) < 256 \<longrightarrow> unat (rl_insert_idx l) = length (arp_entries l)) \<and>
     distinct (map ae_ipv4 (arp_entries l))"

definition rfc826_merge :: "bool \<Rightarrow> arp_header_t \<Rightarrow> (u32 \<Rightarrow> u8 list option) \<Rightarrow> u32 \<Rightarrow> u8 list option" where
  "rfc826_merge for_me header tbl =
     (if for_me \<or> tbl (sender_protocol_addr header) \<noteq> None
      then tbl(sender_protocol_addr header \<mapsto> sender_hardware_addr header) else tbl)"

text \<open>What \<^verbatim>\<open>arp_read\<close> does to the list for a packet addressed to this host.\<close>

definition arp_learn :: "arp_resoltion_list_t \<Rightarrow> arp_header_t \<Rightarrow> fault + arp_resoltion_list_t" where
  "arp_learn l header =
     (let mapping = arp_get_ip_mapping l (sender_protocol_addr header) in
      sbind (arp_refresh_mapping mapping header l) (arp_learn_mapping mapping header))"

section \<open>Lemmas on the store\<close>

lemma arp_mem_select [simp]:
  "arp_socket (put_in p ps s) = arp_socket s"
  "arp_socket (put_out p qs s) = arp_socket s"
  "resolution_list (put_in p ps s) = resolution_list s"
  "resolution_list (put_out p qs s) = resolution_list s"
  by (simp_all add: put_in_def put_out_def)

lemma arp_mem_update [simp]:
  "in_at (arp_socket_update g_arp_socket s) p = in_at s p"
  "out_at (arp_socket_update g_arp_socket s) p = out_at s p"
  "put_in p ps (arp_socket_update g_arp_socket s) = arp_socket_update g_arp_socket (put_in p ps s)"
  "put_out p qs (arp_socket_update g_arp_socket s) = arp_socket_update g_arp_socket (put_out p qs s)"
  "in_at (resolution_list_update g_resolution_list s) p = in_at s p"
  "out_at (resolution_list_update g_resolution_list s) p = out_at s p"
  "put_in p ps (resolution_list_update g_resolution_list s) = resolution_list_update g_resolution_list (put_in p ps s)"
  "put_out p qs (resolution_list_update g_resolution_list s) = resolution_list_update g_resolution_list (put_out p qs s)"
  by (simp_all add: put_in_def put_out_def in_at_def out_at_def)

section \<open>Lemmas on the resolution list\<close>

lemma entries_rep:
  "rl_list l = map Some es @ replicate n None \<Longrightarrow> arp_entries l = es"
  by (cases n) (simp_all add: arp_entries_def takeWhile_append takeWhile_map o_def map_idI)

lemma map_of_update:
  assumes "distinct (map fst xs)" and "j < length xs"
    and "\<And>i. i < length xs \<Longrightarrow> i \<noteq> j \<Longrightarrow> fst (xs ! i) \<noteq> k"
  shows "map_of (xs[j := (k, v)]) = (map_of xs)(fst (xs ! j) := None, k \<mapsto> v)"
  using assms
proof (induction xs arbitrary: j)
  case (Cons x xs)
  have "map_of xs (fst x) = None" using Cons.prems(1) by (simp add: map_of_eq_None_iff)
  show ?case
  proof (cases j)
    case 0
    with \<open>map_of xs (fst x) = None\<close> show ?thesis by (auto simp: fun_eq_iff)
  next
    case (Suc i)
    have "fst x \<noteq> k" using Cons.prems(3) [of 0] Suc by simp
    moreover have "fst x \<noteq> fst (xs ! i)" using Cons.prems(1,2) Suc by auto
    moreover have "map_of (xs[i := (k, v)]) = (map_of xs)(fst (xs ! i) := None, k \<mapsto> v)"
    proof (rule Cons.IH)
      show "fst (xs ! n) \<noteq> k" if "n < length xs" "n \<noteq> i" for n
        using Cons.prems(3) [of "Suc n"] that Suc by simp
    qed (use Cons.prems(1,2) Suc in auto)
    ultimately show ?thesis using Suc by (auto simp: fun_eq_iff)
  qed
qed simp

lemma scan_Some:
  "arp_mapping_scan (map Some es @ replicate n None) ip i = Some j \<Longrightarrow>
     i \<le> j \<and> j - i < length es \<and> ae_ipv4 (es ! (j - i)) = ip"
proof (induction es arbitrary: i)
  case Nil
  then show ?case by (cases n) simp_all
next
  case (Cons e es)
  show ?case
  proof (cases "ip = ae_ipv4 e")
    case True
    with Cons.prems show ?thesis by auto
  next
    case False
    with Cons.prems Cons.IH [of "Suc i"] have "Suc i \<le> j \<and> j - Suc i < length es \<and> ae_ipv4 (es ! (j - Suc i)) = ip"
      by simp
    moreover from this have "j - i = Suc (j - Suc i)" by arith
    ultimately show ?thesis by simp
  qed
qed

lemma scan_None:
  "arp_mapping_scan (map Some es @ replicate n None) ip i = None \<longleftrightarrow> ip \<notin> ae_ipv4 ` set es"
proof (induction es arbitrary: i)
  case Nil
  then show ?case by (cases n) simp_all
next
  case (Cons e es)
  then show ?case by auto
qed

lemma arp_invarI:
  assumes "rl_list l = map Some es @ replicate (256 - length es) None" and "length es \<le> 256"
    and "unat (rl_insert_idx l) < 256" and "length es < 256 \<Longrightarrow> unat (rl_insert_idx l) = length es"
    and "distinct (map ae_ipv4 es)"
  shows "arp_invar l" and "arp_entries l = es"
  using assms entries_rep [OF assms(1)] by (simp_all add: arp_invar_def)

lemma fst_entry_pair [simp]: "fst (entry_pair e) = ae_ipv4 e"
  by (simp add: entry_pair_def)

lemma arp_table_dom: "arp_table l ip = None \<longleftrightarrow> ip \<notin> ae_ipv4 ` set (arp_entries l)"
  by (auto simp: arp_table_def map_of_eq_None_iff image_iff)

lemma card_dom_arp_table: "arp_invar l \<Longrightarrow> card (dom (arp_table l)) = length (arp_entries l)"
proof -
  assume "arp_invar l"
  then have "distinct (map ae_ipv4 (arp_entries l))" by (simp add: arp_invar_def)
  then have "card (set (map ae_ipv4 (arp_entries l))) = length (map ae_ipv4 (arp_entries l))"
    by (rule distinct_card)
  moreover have "dom (arp_table l) = set (map ae_ipv4 (arp_entries l))"
    by (simp add: set_eq_iff domIff arp_table_dom image_iff del: not_None_eq)
  ultimately show ?thesis by simp
qed

lemma arp_get_ip_mapping_None:
  assumes "arp_invar l"
  shows "arp_get_ip_mapping l ip = None \<longleftrightarrow> arp_table l ip = None"
  using assms scan_None [of "arp_entries l" _ ip 0]
  by (simp add: arp_get_ip_mapping_def arp_invar_def arp_table_dom)

lemma arp_get_ip_mapping_Some:
  assumes "arp_invar l" and "arp_get_ip_mapping l ip = Some j"
  shows "j < length (arp_entries l)" and "ae_ipv4 (arp_entries l ! j) = ip"
  using assms scan_Some [of "arp_entries l" _ ip 0 j]
  by (simp_all add: arp_get_ip_mapping_def arp_invar_def)

text \<open>Replacing the entry in slot \<open>j\<close>: by one for the same address or for a new one.\<close>

lemma replace_entry:
  assumes inv: "arp_invar l" and j: "j < length (arp_entries l)" and i: "unat i < 256"
    and new: "ae_ipv4 e = ae_ipv4 (arp_entries l ! j) \<or> arp_table l (ae_ipv4 e) = None"
    and idx: "length (arp_entries l) < 256 \<Longrightarrow> i = rl_insert_idx l"
  defines "l' \<equiv> l\<lparr>rl_list := (rl_list l)[j := Some e], rl_insert_idx := i\<rparr>"
  shows "arp_invar l'" and
    "arp_table l' = (arp_table l)(ae_ipv4 (arp_entries l ! j) := None, ae_ipv4 e \<mapsto> ae_mac e)"
proof -
  let ?es = "arp_entries l"
  from inv have rep: "rl_list l = map Some ?es @ replicate (256 - length ?es) None"
    and d: "distinct (map ae_ipv4 ?es)" by (auto simp: arp_invar_def)
  have other: "ae_ipv4 (?es ! n) \<noteq> ae_ipv4 e" if "n < length ?es" "n \<noteq> j" for n
    using new
  proof
    assume "ae_ipv4 e = ae_ipv4 (?es ! j)"
    with nth_eq_iff_index_eq [OF d, of n j] that j show ?thesis by simp
  next
    assume "arp_table l (ae_ipv4 e) = None"
    with nth_mem [OF that(1)] show ?thesis by (metis arp_table_dom imageI)
  qed
  have rep': "rl_list l' = map Some (?es[j := e]) @ replicate (256 - length (?es[j := e])) None"
    using j by (simp add: l'_def rep list_update_append map_update)
  have d': "distinct (map ae_ipv4 (?es[j := e]))"
    using j d other by (force simp: map_update in_set_conv_nth intro!: distinct_list_update)
  show "arp_invar l'"
    by (rule arp_invarI [OF rep' _ _ _ d'])
      (use inv i idx in \<open>auto simp: arp_invar_def l'_def\<close>)
  have "arp_entries l' = ?es[j := e]" using rep' by (rule entries_rep)
  moreover have "map_of ((map entry_pair ?es)[j := (ae_ipv4 e, ae_mac e)]) =
      (map_of (map entry_pair ?es))(ae_ipv4 (?es ! j) := None, ae_ipv4 e \<mapsto> ae_mac e)"
    using map_of_update [of "map entry_pair ?es" j "ae_ipv4 e" "ae_mac e"] j d other
    by (simp add: o_def)
  ultimately show "arp_table l' = (arp_table l)(ae_ipv4 (?es ! j) := None, ae_ipv4 e \<mapsto> ae_mac e)"
    by (simp add: arp_table_def map_update entry_pair_def)
qed

lemma append_entry:
  assumes inv: "arp_invar l" and room: "length (arp_entries l) < 256"
    and new: "arp_table l (ae_ipv4 e) = None"
  defines "l' \<equiv> l\<lparr>rl_list := (rl_list l)[unat (rl_insert_idx l) := Some e],
                  rl_insert_idx := (rl_insert_idx l + 1) mod 256\<rparr>"
  shows "arp_invar l'" and "arp_table l' = (arp_table l)(ae_ipv4 e \<mapsto> ae_mac e)"
proof -
  let ?es = "arp_entries l" and ?i = "unat (rl_insert_idx l)"
  from inv room have rep: "rl_list l = map Some ?es @ replicate (256 - length ?es) None"
    and i: "?i = length ?es" and d: "distinct (map ae_ipv4 ?es)" by (auto simp: arp_invar_def)
  have next_i: "unat ((rl_insert_idx l + 1) mod 256) = Suc ?i mod 256"
    using room i by (simp add: unat_mod unat_word_ariths)
  have "replicate (256 - length ?es) None = (None :: arp_entry_t option) # replicate (255 - length ?es) None"
    using room by (simp add: replicate_Suc [symmetric] Suc_diff_le del: replicate_Suc)
  then have rep': "rl_list l' = map Some (?es @ [e]) @ replicate (256 - length (?es @ [e])) None"
    by (simp add: l'_def rep i list_update_append)
  have d': "distinct (map ae_ipv4 (?es @ [e]))" using d new by (auto simp: arp_table_dom)
  show "arp_invar l'"
    by (rule arp_invarI [OF rep' _ _ _ d']) (use room i next_i in \<open>auto simp: l'_def\<close>)
  have "arp_entries l' = ?es @ [e]" using rep' by (rule entries_rep)
  moreover have "map_of (map entry_pair ?es) ++ [ae_ipv4 e \<mapsto> ae_mac e] =
      [ae_ipv4 e \<mapsto> ae_mac e] ++ map_of (map entry_pair ?es)"
    using new by (intro map_add_comm) (auto simp: arp_table_def domIff)
  ultimately show "arp_table l' = (arp_table l)(ae_ipv4 e \<mapsto> ae_mac e)"
    by (simp add: arp_table_def entry_pair_def map_of_append [symmetric])
qed

lemma arp_refresh_known:
  assumes "arp_invar l" and "arp_get_ip_mapping l (sender_protocol_addr header) = Some j"
  obtains l' where "arp_refresh_mapping (Some j) header l = Inr l'" and "arp_invar l'"
    and "arp_table l' = (arp_table l)(sender_protocol_addr header \<mapsto> sender_hardware_addr header)"
proof -
  let ?e = "\<lparr>ae_ipv4 = sender_protocol_addr header, ae_mac = sender_hardware_addr header\<rparr>"
  note j = arp_get_ip_mapping_Some [OF assms]
  have len: "j < length (rl_list l)" using j(1) assms(1) by (simp add: arp_invar_def)
  have "unat (rl_insert_idx l) < 256" using assms(1) by (simp add: arp_invar_def)
  from replace_entry [OF assms(1) j(1) this, of ?e] j(2) len that show thesis
    by (simp add: arp_refresh_mapping_def)
qed

lemma arp_learn_unknown:
  assumes "arp_invar l" and "arp_table l (sender_protocol_addr header) = None"
  obtains l' where "arp_learn_mapping None header l = Inr l'" and "arp_invar l'"
    and "arp_table l' = (if length (arp_entries l) < 256 then arp_table l
        else (arp_table l)(ae_ipv4 (arp_entries l ! unat (rl_insert_idx l)) := None))
          (sender_protocol_addr header \<mapsto> sender_hardware_addr header)"
proof -
  let ?e = "\<lparr>ae_ipv4 = sender_protocol_addr header, ae_mac = sender_hardware_addr header\<rparr>"
  let ?i = "rl_insert_idx l"
  have i: "unat ?i < 256" and len: "length (rl_list l) = 256" and le: "length (arp_entries l) \<le> 256"
    using assms(1) by (simp_all add: arp_invar_def)
  define l' where "l' = l\<lparr>rl_list := (rl_list l)[unat ?i := Some ?e], rl_insert_idx := (?i + 1) mod 256\<rparr>"
  have ins: "arp_learn_mapping None header l = Inr l'"
    using i len by (simp add: arp_learn_mapping_def arp_insert_mapping_def ARP_RESOLUTION_LIST_SIZE_def l'_def)
  have mod: "unat ((?i + 1) mod 256) < 256" by (simp add: unat_mod)
  show thesis
  proof (cases "length (arp_entries l) < 256")
    case True
    with append_entry [OF assms(1), of ?e] assms(2) ins that show thesis by (simp add: l'_def)
  next
    case False
    with i have "unat ?i < length (arp_entries l)" by simp
    from replace_entry [OF assms(1) this mod, of ?e] assms(2) ins that False show thesis
      by (simp add: l'_def)
  qed
qed

lemma arp_learn_correct:
  assumes "arp_invar l"
    and "arp_table l (sender_protocol_addr header) \<noteq> None \<or> length (arp_entries l) < 256"
  obtains l' where "arp_learn l header = Inr l'" and "arp_invar l'"
    and "arp_table l' = (arp_table l)(sender_protocol_addr header \<mapsto> sender_hardware_addr header)"
proof (cases "arp_get_ip_mapping l (sender_protocol_addr header)")
  case None
  with arp_get_ip_mapping_None [OF assms(1)] have new: "arp_table l (sender_protocol_addr header) = None"
    by blast
  with assms(2) have room: "length (arp_entries l) < 256" by simp
  obtain l' where l': "arp_learn_mapping None header l = Inr l'" "arp_invar l'"
    "arp_table l' = (if length (arp_entries l) < 256 then arp_table l
        else (arp_table l)(ae_ipv4 (arp_entries l ! unat (rl_insert_idx l)) := None))
          (sender_protocol_addr header \<mapsto> sender_hardware_addr header)"
    by (rule arp_learn_unknown [OF assms(1) new])
  from l'(3) room have "arp_table l' = (arp_table l)(sender_protocol_addr header \<mapsto> sender_hardware_addr header)"
    by (simp only: if_True)
  with l'(1,2) None that show thesis by (simp add: arp_learn_def arp_refresh_mapping_def)
next
  case (Some j)
  obtain l' where "arp_refresh_mapping (Some j) header l = Inr l'"
    "arp_invar l'" "arp_table l' = (arp_table l)(sender_protocol_addr header \<mapsto> sender_hardware_addr header)"
    by (rule arp_refresh_known [OF assms(1) Some])
  with Some that show thesis by (simp add: arp_learn_def arp_learn_mapping_def)
qed

section \<open>The contract of an address cache\<close>

locale address_cache =
  fixes learn :: "'c \<Rightarrow> 'm \<Rightarrow> fault + 'c"
    and lookup :: "'c \<Rightarrow> 'k \<Rightarrow> 'v option"
    and invar :: "'c \<Rightarrow> bool"
    and key_of :: "'m \<Rightarrow> 'k"
    and val_of :: "'m \<Rightarrow> 'v"
    and capacity :: nat
  assumes cache_finite: "invar c \<Longrightarrow> finite (dom (lookup c))"
    and cache_learn: "invar c \<Longrightarrow> lookup c (key_of m) \<noteq> None \<or> card (dom (lookup c)) < capacity \<Longrightarrow>
      \<exists>c'. learn c m = Inr c' \<and> invar c' \<and> lookup c' = (lookup c)(key_of m \<mapsto> val_of m)"
begin

fun learn_all :: "'c \<Rightarrow> 'm list \<Rightarrow> fault + 'c" where
  "learn_all c [] = Inr c"
| "learn_all c (m # ms) = sbind (learn c m) (\<lambda>c. learn_all c ms)"

lemma learn_all_lookup:
  assumes "invar c" and "card (dom (lookup c) \<union> key_of ` set ms) \<le> capacity"
  shows "\<exists>c'. learn_all c ms = Inr c' \<and> invar c' \<and>
    lookup c' = lookup c ++ map_of (rev (map (\<lambda>m. (key_of m, val_of m)) ms))"
  using assms
proof (induction ms arbitrary: c)
  case (Cons m ms)
  have fin: "finite (dom (lookup c) \<union> key_of ` set (m # ms))"
    using cache_finite [OF Cons.prems(1)] by simp
  have "lookup c (key_of m) \<noteq> None \<or> card (dom (lookup c)) < capacity"
  proof (cases "key_of m \<in> dom (lookup c)")
    case False
    then have "dom (lookup c) \<subset> dom (lookup c) \<union> key_of ` set (m # ms)" by auto
    from psubset_card_mono [OF fin this] Cons.prems(2) show ?thesis by simp
  qed (simp add: domIff)
  from cache_learn [OF Cons.prems(1) this] obtain c1 where c1: "learn c m = Inr c1" "invar c1"
    "lookup c1 = (lookup c)(key_of m \<mapsto> val_of m)" by blast
  have "dom (lookup c1) \<union> key_of ` set ms = dom (lookup c) \<union> key_of ` set (m # ms)"
    by (auto simp: c1(3))
  with Cons.IH [OF c1(2)] Cons.prems(2) obtain c2 where "learn_all c1 ms = Inr c2" "invar c2"
    "lookup c2 = lookup c1 ++ map_of (rev (map (\<lambda>m. (key_of m, val_of m)) ms))" by auto
  with c1 show ?case by simp
qed simp

end

interpretation arp_cache: address_cache arp_learn arp_table arp_invar
  sender_protocol_addr sender_hardware_addr 256
proof
  fix c :: arp_resoltion_list_t and m :: arp_header_t
  assume inv: "arp_invar c"
  show "finite (dom (arp_table c))" by (simp add: arp_table_def finite_dom_map_of)
  assume "arp_table c (sender_protocol_addr m) \<noteq> None \<or> card (dom (arp_table c)) < 256"
  with card_dom_arp_table [OF inv] arp_learn_correct [OF inv, of m]
  show "\<exists>c'. arp_learn c m = Inr c' \<and> arp_invar c' \<and>
      arp_table c' = (arp_table c)(sender_protocol_addr m \<mapsto> sender_hardware_addr m)" by metis
qed

section \<open>The layer\<close>

definition arp_layer_bytes :: "'a net_mem_scheme \<Rightarrow> interface_t \<Rightarrow> out_packet_stack_t \<Rightarrow> u8 list option" where
  "arp_layer_bytes s ifc ps =
     (case current_args ps of
        Inr (Some (Arp_args h)) \<Rightarrow>
          if length (sender_hardware_addr h) = 6 \<and> length (target_hardware_addr h) = 6
          then Some (arp_header_bytes h) else None
      | _ \<Rightarrow> None)"

lemma arp_header_bytes_length [simp]:
  "length (sender_hardware_addr h) = 6 \<Longrightarrow> length (target_hardware_addr h) = 6 \<Longrightarrow>
   length (arp_header_bytes h) = 28"
  by (simp add: arp_header_bytes_def)

interpretation arp_layer: header_layer arp_write arp_layer_bytes
proof
  fix s :: "'a net_mem_scheme" and p ps ifc bs cw wr
  assume "out_at s p = Inr ps" and "arp_layer_bytes s ifc ps = Some bs"
  then show "arp_write cw wr p ifc s =
      (if unat (ob_offset (out_buffer ps)) < length bs then Inr (False, s)
       else pass_down cw wr p ifc (put_out p (push_bytes bs ps) s))"
    by (auto simp: arp_write_def arp_layer_bytes_def sizeof_arp_header_def
        split: sum.splits option.splits write_args.splits if_splits)
qed

lemma load_arp_header_window:
  "load_arp_header m a = load_arp_header (mem_of (read_bytes m a 28)) 0"
  using load16_window [of 0 28 m a] load16_window [of 2 28 m a]
  by (simp add: load_arp_header_def load16_window [of _ 28 m a] load32_window [of _ 28 m a]
      read_window [of _ _ 28 m a] numeral_2_eq_2)

lemma load_arp_header_bytes:
  assumes "length (sender_hardware_addr h) = 6" and "length (target_hardware_addr h) = 6"
    and "read_bytes m a 28 = arp_header_bytes h"
  shows "load_arp_header m a = h"
  unfolding load_arp_header_window [of m a] assms(3)
  using assms(1,2)
  by (simp add: load_arp_header_def arp_header_bytes_def read_mem_of byte_simps nth_append)

section \<open>Reading\<close>

lemma arp_read_no_watcher:
  assumes "Option.bind (arp_socket s) as_next_handler = None" and "in_at s p = Inr ps"
    and "unat (in_stack_idx ps) < length (packet_pointers ps)"
    and "length (in_handlers ps) = length (packet_pointers ps)"
    and "packet_pointers ps ! unat (in_stack_idx ps) = Some at"
  shows "arp_read rd wr h p ifc s = arp_process wr h p (in_stack_idx ps) at ifc
    (put_in p (ps\<lparr>in_handlers := (in_handlers ps)[unat (in_stack_idx ps) := Some h]\<rparr>) s)"
  using assms by (simp add: arp_read_def Let_def)

lemma arp_process_request:
  assumes at: "in_at s p = Inr ps" and h: "load_arp_header (in_frame ps) header_at = header"
    and types: "hdw_type header = ARP_HDW_TYPE_ETHERNET" "pro_type header = ETHERNET_TYPE_IPV6"
    and op: "operation header = ARP_OPERATION_REQUEST" and own: "target_protocol_addr header = ipv4_addr ifc"
    and len: "unat i < length (return_args ps)"
  shows "arp_process wr h p i header_at ifc s =
    sbind (arp_learn (resolution_list s) header) (\<lambda>l.
      let ras = (return_args ps)[unat i := Some (Arp_args (arp_reply ifc header))];
          (out, s') = new_out_stack (in_handlers ps) ras DEFAULT_PACKAGE_BUFFER_SIZE i
            (put_in p (ps\<lparr>return_args := ras\<rparr>) (s\<lparr>resolution_list := l\<rparr>))
      in sbind (wr h out ifc s') (\<lambda>(ok, s). Inr (Some (if ok then 0 else - 1), s)))"
proof -
  have "in_at (put_in p ps' s') p = Inr ps'" for ps' and s' :: "'a arp_mem_scheme"
    by (rule in_at_put_same)
  with types op own at h len show ?thesis
    by (auto simp: arp_process_def arp_learn_def Let_def sbind_assoc
        handler_create_out_package_stack_def split: prod.splits)
qed

lemma arp_process_merge:
  assumes inv: "arp_invar (resolution_list s)" and at: "in_at s p = Inr ps"
    and h: "load_arp_header (in_frame ps) header_at = header"
    and types: "hdw_type header = ARP_HDW_TYPE_ETHERNET" "pro_type header = ETHERNET_TYPE_IPV6"
    and room: "arp_table (resolution_list s) (sender_protocol_addr header) \<noteq> None \<or>
      length (arp_entries (resolution_list s)) < 256"
    and len: "unat i < length (return_args ps)"
  shows "\<exists>l. arp_invar l \<and>
    arp_table l = rfc826_merge (target_protocol_addr header = ipv4_addr ifc) header
      (arp_table (resolution_list s)) \<and>
    arp_process wr h p i header_at ifc s =
      (if target_protocol_addr header = ipv4_addr ifc \<and> operation header = ARP_OPERATION_REQUEST
       then let ras = (return_args ps)[unat i := Some (Arp_args (arp_reply ifc header))];
                (out, s') = new_out_stack (in_handlers ps) ras DEFAULT_PACKAGE_BUFFER_SIZE i
                  (put_in p (ps\<lparr>return_args := ras\<rparr>) (s\<lparr>resolution_list := l\<rparr>))
            in sbind (wr h out ifc s') (\<lambda>(ok, s). Inr (Some (if ok then 0 else - 1), s))
       else Inr (Some 0, s\<lparr>resolution_list := l\<rparr>))"
proof (cases "target_protocol_addr header = ipv4_addr ifc")
  case True
  obtain l where l: "arp_learn (resolution_list s) header = Inr l" "arp_invar l"
    "arp_table l = (arp_table (resolution_list s))(sender_protocol_addr header \<mapsto> sender_hardware_addr header)"
    by (rule arp_learn_correct [OF inv room])
  have "in_at (put_in p ps' s') p = Inr ps'" for ps' and s' :: "'a arp_mem_scheme"
    by (rule in_at_put_same)
  then show ?thesis
    using True types at h len l
    by (intro exI [of _ l])
      (auto simp: arp_process_def arp_learn_def rfc826_merge_def Let_def sbind_assoc
        handler_create_out_package_stack_def split: prod.splits)
next
  case False
  show ?thesis
  proof (cases "arp_get_ip_mapping (resolution_list s) (sender_protocol_addr header)")
    case None
    with arp_get_ip_mapping_None [OF inv] have "arp_table (resolution_list s) (sender_protocol_addr header) = None"
      by blast
    with None False types at h inv show ?thesis
      by (intro exI [of _ "resolution_list s"])
        (simp add: arp_process_def Let_def arp_refresh_mapping_def rfc826_merge_def)
  next
    case (Some j)
    obtain l where l: "arp_refresh_mapping (Some j) header (resolution_list s) = Inr l" "arp_invar l"
      "arp_table l = (arp_table (resolution_list s))(sender_protocol_addr header \<mapsto> sender_hardware_addr header)"
      by (rule arp_refresh_known [OF inv Some])
    from Some arp_get_ip_mapping_None [OF inv, of "sender_protocol_addr header"]
    have "arp_table (resolution_list s) (sender_protocol_addr header) \<noteq> None" by simp
    with Some False types at h l show ?thesis
      by (intro exI [of _ l]) (simp add: arp_process_def Let_def rfc826_merge_def)
  qed
qed

lemma arp_init_invar:
  "arp_invar (resolution_list (arp_init_handler 0 s))"
  "arp_table (resolution_list (arp_init_handler 0 s)) = Map.empty"
  by (simp_all add: arp_init_handler_def arp_invar_def arp_table_def arp_entries_def
      ARP_RESOLUTION_LIST_SIZE_def takeWhile_replicate)

lemma load_example_arp: "load_arp_header (in_frame example_arp_in) 0 = example_arp_request"
  by (rule load_arp_header_bytes)
    (simp_all add: example_arp_in_def example_arp_request_def read_mem_of)

section \<open>Properties\<close>

text \<open>C19: without a watching socket, \<^verbatim>\<open>arp_read\<close> implements the packet reception rule of RFC 826
  on the resolution list: the sender of an IPv4-over-Ethernet packet is refreshed when
  it is known and added when the packet asks for this host, all other mappings stay,
  and a request for this host (and nothing else) makes it call its writer once, on a
  fresh stack whose arguments are the reply header with the roles swapped.\<close>

theorem arp_read_refines_rfc826:
  assumes "arp_invar (resolution_list s)" and "Option.bind (arp_socket s) as_next_handler = None"
    and "in_at s p = Inr ps" and "in_stack_idx ps = i" and "unat i < 10"
    and "length (in_handlers ps) = 10" and "length (return_args ps) = 10"
    and "length (packet_pointers ps) = 10" and "packet_pointers ps ! unat i = Some at"
    and "load_arp_header (in_frame ps) at = header"
    and "hdw_type header = ARP_HDW_TYPE_ETHERNET" and "pro_type header = ETHERNET_TYPE_IPV6"
    and "arp_table (resolution_list s) (sender_protocol_addr header) \<noteq> None \<or>
      card (dom (arp_table (resolution_list s))) < 256"
  shows "\<exists>l. arp_invar l \<and>
    arp_table l = rfc826_merge (target_protocol_addr header = ipv4_addr ifc) header
      (arp_table (resolution_list s)) \<and>
    arp_read rd wr h p ifc s =
      (let hs = (in_handlers ps)[unat i := Some h];
           ras = (return_args ps)[unat i := Some (Arp_args (arp_reply ifc header))];
           s1 = put_in p (ps\<lparr>in_handlers := hs\<rparr>) s\<lparr>resolution_list := l\<rparr>;
           (out, s2) = new_out_stack hs ras DEFAULT_PACKAGE_BUFFER_SIZE i
             (put_in p (ps\<lparr>in_handlers := hs, return_args := ras\<rparr>) s1)
       in if target_protocol_addr header = ipv4_addr ifc \<and> operation header = ARP_OPERATION_REQUEST
          then sbind (wr h out ifc s2) (\<lambda>(ok, s). Inr (Some (if ok then 0 else - 1), s))
          else Inr (Some 0, s1))"
proof -
  let ?hs = "(in_handlers ps)[unat i := Some h]"
  let ?s = "put_in p (ps\<lparr>in_handlers := ?hs\<rparr>) s"
  have read: "arp_read rd wr h p ifc s = arp_process wr h p i at ifc ?s"
    using arp_read_no_watcher [OF assms(2,3), of at rd wr h ifc] assms(4-9) by simp
  have rl: "resolution_list ?s = resolution_list s" by (simp add: put_in_def)
  have at: "in_at ?s p = Inr (ps\<lparr>in_handlers := ?hs\<rparr>)" by simp
  have "arp_table (resolution_list ?s) (sender_protocol_addr header) \<noteq> None \<or>
      length (arp_entries (resolution_list ?s)) < 256"
    using assms(13) card_dom_arp_table [OF assms(1)] by (simp add: rl)
  note M = arp_process_merge [OF _ at _ assms(11,12) this, of at i ifc wr h]
  show ?thesis
    by (rule ex_forward [OF M]) (use assms(1,5,7,10) in \<open>auto simp: rl read Let_def\<close>)
qed

theorem arp_read_refines_rfc826_witness:
  "\<exists>l s'. arp_table l 0x0900000A = Some [2, 0, 0, 0, 0, 9] \<and>
     arp_read (\<lambda>h p ifc s. Inr (None, s)) (\<lambda>h p ifc s. Inr (True, s)) H_arp 0 example_interface
       example_arp_mem = Inr (Some 0, s')"
proof -
  have inv: "arp_invar (resolution_list example_arp_mem)"
    "arp_table (resolution_list example_arp_mem) = Map.empty"
    by (simp_all add: example_arp_mem_def arp_init_invar)
  have at: "in_at example_arp_mem 0 = Inr example_arp_in"
    and sock: "Option.bind (arp_socket example_arp_mem) as_next_handler = None"
    by (simp_all add: example_arp_mem_def arp_init_handler_def in_at_def)
  have req: "hdw_type example_arp_request = ARP_HDW_TYPE_ETHERNET"
    "pro_type example_arp_request = ETHERNET_TYPE_IPV6"
    "target_protocol_addr example_arp_request = ipv4_addr example_interface"
    "operation example_arp_request = ARP_OPERATION_REQUEST"
    by (simp_all add: example_arp_request_def example_interface_def ARP_HDW_TYPE_ETHERNET_def
        ETHERNET_TYPE_IPV6_def ARP_OPERATION_REQUEST_def)
  note M = arp_read_refines_rfc826 [OF inv(1) sock at _ _ _ _ _ _ load_example_arp req(1,2), of 0
      example_interface "\<lambda>h p ifc s. Inr (None, s)" "\<lambda>h p ifc s. Inr (True, s)" H_arp]
  show ?thesis
    by (rule ex_forward [OF M])
      (simp_all add: inv(2) req example_arp_in_def rfc826_merge_def new_out_stack_def Let_def,
        simp add: example_arp_request_def)
qed

text \<open>Learning from an unknown sender when all 256 slots are taken replaces exactly the entry
  under the insert index, keeps all others and the invariant.\<close>

theorem arp_full_replaces_one:
  assumes "arp_invar l" and "length (arp_entries l) = 256"
    and "arp_table l (sender_protocol_addr header) = None"
  shows "\<exists>l'. arp_learn l header = Inr l' \<and> arp_invar l' \<and>
    arp_table l' = (arp_table l)(ae_ipv4 (arp_entries l ! unat (rl_insert_idx l)) := None,
      sender_protocol_addr header \<mapsto> sender_hardware_addr header)"
proof -
  obtain l' where "arp_learn_mapping None header l = Inr l'" "arp_invar l'"
    "arp_table l' = (if length (arp_entries l) < 256 then arp_table l
        else (arp_table l)(ae_ipv4 (arp_entries l ! unat (rl_insert_idx l)) := None))
          (sender_protocol_addr header \<mapsto> sender_hardware_addr header)"
    by (rule arp_learn_unknown [OF assms(1,3)])
  moreover have "arp_get_ip_mapping l (sender_protocol_addr header) = None"
    using arp_get_ip_mapping_None [OF assms(1)] assms(3) by blast
  ultimately show ?thesis
    using assms(2) by (simp add: arp_learn_def arp_refresh_mapping_def)
qed

theorem arp_full_replaces_one_witness:
  "\<exists>l'. arp_learn example_full_list example_arp_request = Inr l' \<and> arp_table l' 3 = None \<and>
     arp_table l' 0x0900000A = Some [2, 0, 0, 0, 0, 9]"
proof -
  have "inj_on (\<lambda>i. of_nat i :: u32) {0..<256}"
  proof (rule inj_onI)
    fix i j
    assume ij: "i \<in> {0..<256}" "j \<in> {0..<256}" and eq: "(of_nat i :: u32) = of_nat j"
    from ij have "unat (of_nat i :: u32) = i" "unat (of_nat j :: u32) = j" by (simp_all add: unat_of_nat)
    with eq show "i = j" by metis
  qed
  then have "distinct (map ae_ipv4 example_full_entries)"
    by (simp add: example_full_entries_def distinct_map o_def)
  note inv = arp_invarI [of example_full_list example_full_entries, OF _ _ _ _ this]
  have len: "length example_full_entries = 256" by (simp add: example_full_entries_def)
  have rep: "arp_invar example_full_list" "arp_entries example_full_list = example_full_entries"
    by (rule inv; simp add: example_full_list_def len)+
  have "ae_ipv4 e \<noteq> sender_protocol_addr example_arp_request" if e: "e \<in> set example_full_entries" for e
  proof -
    from e obtain i where "i < 256" "ae_ipv4 e = of_nat i" by (auto simp: example_full_entries_def)
    then have "unat (ae_ipv4 e) = i" by (simp add: unat_of_nat)
    with \<open>i < 256\<close> have "unat (ae_ipv4 e) < 256" by simp
    then show ?thesis by (auto simp: example_arp_request_def)
  qed
  then have new: "arp_table example_full_list (sender_protocol_addr example_arp_request) = None"
    by (simp only: arp_table_dom rep(2)) force
  have "ae_ipv4 (arp_entries example_full_list ! unat (rl_insert_idx example_full_list)) = 3"
    unfolding rep(2) by (simp add: example_full_entries_def example_full_list_def)
  moreover have "length (arp_entries example_full_list) = 256" by (simp add: rep(2) len)
  moreover have "sender_protocol_addr example_arp_request = 0x0900000A"
    "sender_hardware_addr example_arp_request = [2, 0, 0, 0, 0, 9]"
    by (simp_all add: example_arp_request_def)
  ultimately show ?thesis using arp_full_replaces_one [OF rep(1) _ new] by auto
qed

text \<open>\<^verbatim>\<open>arp_init_handler\<close> does not set the insert index. When the memory it is allocated in
  holds 256 or more there, the first packet that has to be learnt writes outside the
  list.\<close>

lemma arp_uninitialised_index_faults:
  assumes "256 \<le> unat raw"
  shows "arp_learn (resolution_list (arp_init_handler raw s)) header = Inl Out_of_bounds"
  using assms
  by (simp add: arp_learn_def arp_init_handler_def arp_get_ip_mapping_def ARP_RESOLUTION_LIST_SIZE_def
      arp_refresh_mapping_def arp_learn_mapping_def arp_insert_mapping_def replicate_numeral upd_def)

end
