(* ===== verification/Tcp_Shared.thy ===== *)
theory Tcp_Shared
  imports Ipv4
begin

text \<open>
  \<^verbatim>\<open>handlers/tcp/tcp_shared.c\<close> and \<^verbatim>\<open>tcp_shared.h\<close>: the TCP header, the states and flags,
  connection identifiers, initial sequence numbers and the checksum. Ports, sequence
  numbers, windows and checksums in a header hold what the host loads, that is, they are in
  network order.
\<close>

section \<open>Data\<close>

definition TCP_SYN_FLAG :: u8 where "TCP_SYN_FLAG = 2"
definition TCP_ACK_FLAG :: u8 where "TCP_ACK_FLAG = 16"
definition TCP_RST_FLAG :: u8 where "TCP_RST_FLAG = 4"
definition TCP_FIN_FLAG :: u8 where "TCP_FIN_FLAG = 1"
definition TCP_PSH_FLAG :: u8 where "TCP_PSH_FLAG = 8"

definition SOCKET_BUFFER_SIZE :: nat where "SOCKET_BUFFER_SIZE = 64"
definition TCP_DATA_OFFSET_MASK :: u8 where "TCP_DATA_OFFSET_MASK = 0xF0"
definition sizeof_tcp_header :: nat where "sizeof_tcp_header = 20"

lemmas tcp_flag_defs = TCP_SYN_FLAG_def TCP_ACK_FLAG_def TCP_RST_FLAG_def TCP_FIN_FLAG_def TCP_PSH_FLAG_def

record tcp_pseudo_header_t =
  ph_source_ip :: u32
  ph_destination_ip :: u32
  ph_zero :: u8
  ph_ptcl :: u8
  ph_tcp_length :: u16

record tcp_header_t =
  th_source_port :: u16
  th_destination_port :: u16
  th_sequence_num :: u32
  th_acknowledgement_num :: u32
  th_data_offset :: u8
  th_control_bits :: u8
  th_window :: u16
  th_checksum :: u16
  th_urgent_pointer :: u16

datatype TCP_STATE =
    LISTEN
  | SYN_SENT
  | SYN_RECEIVED
  | ESTABLISHED
  | FIN_WAIT_1
  | FIN_WAIT_2
  | CLOSE_WAIT
  | CLOSING
  | CLOSED
  | LAST_ACK
  | TIME_WAIT

definition load_tcp_header :: "mem8 \<Rightarrow> nat \<Rightarrow> tcp_header_t" where
  "load_tcp_header m a =
     \<lparr>th_source_port = load16 m a, th_destination_port = load16 m (a + 2),
      th_sequence_num = load32 m (a + 4), th_acknowledgement_num = load32 m (a + 8),
      th_data_offset = m (a + 12), th_control_bits = m (a + 13), th_window = load16 m (a + 14),
      th_checksum = load16 m (a + 16), th_urgent_pointer = load16 m (a + 18)\<rparr>"

definition tcp_header_bytes :: "tcp_header_t \<Rightarrow> u8 list" where
  "tcp_header_bytes h =
     bytes16 (th_source_port h) @ bytes16 (th_destination_port h) @ bytes32 (th_sequence_num h)
       @ bytes32 (th_acknowledgement_num h) @ [th_data_offset h, th_control_bits h]
       @ bytes16 (th_window h) @ bytes16 (th_checksum h) @ bytes16 (th_urgent_pointer h)"

definition tcp_pseudo_header_bytes :: "tcp_pseudo_header_t \<Rightarrow> u8 list" where
  "tcp_pseudo_header_bytes h =
     bytes32 (ph_source_ip h) @ bytes32 (ph_destination_ip h) @ [ph_zero h, ph_ptcl h]
       @ bytes16 (ph_tcp_length h)"

section \<open>Operations\<close>

text \<open>The file-static \<^verbatim>\<open>int x\<close> is passed in and out; its signed addition must not overflow.\<close>

definition tcp_shared_generate_sequence_number :: "int \<Rightarrow> fault + (u32 \<times> int)" where
  "tcp_shared_generate_sequence_number x =
     (if x + 142 < 2 ^ 31 then Inr (of_int (42 + (x + 100)), x + 100) else Inl Int_overflow)"

definition tcp_shared_calculate_connection_id :: "u32 \<Rightarrow> u16 \<Rightarrow> u16 \<Rightarrow> u32" where
  "tcp_shared_calculate_connection_id remote_ip remote_port host_port =
     (let id = push_bit 32 (ucast remote_ip :: u64);
          id = id OR ucast (push_bit 16 (ucast remote_port :: u32));
          id = id OR ucast host_port
      in ucast id)"

definition tcp_calculate_checksum :: "tcp_pseudo_header_t \<Rightarrow> mem8 \<Rightarrow> nat \<Rightarrow> u16" where
  "tcp_calculate_checksum pseudo_header m a =
     (let length = ntohs (ph_tcp_length pseudo_header) div 2;
          sum = foldl (\<lambda>sum i. sum + ucast (load16 (mem_of (tcp_pseudo_header_bytes pseudo_header)) (2 * i)))
            0 [0..<6];
          sum = foldl (\<lambda>sum i. sum + ucast (load16 m (a + 2 * i))) sum [0..<unat length]
      in NOT (ucast (fold_carries sum)))"

definition calculate_tcp_checksum :: "mem8 \<Rightarrow> nat \<Rightarrow> u32 \<Rightarrow> u32 \<Rightarrow> u16 \<Rightarrow> u16" where
  "calculate_tcp_checksum m a source_ip destination_ip payload_size =
     (let tcp_header_size = ucast (drop_bit 4 (m (a + 12))) * 4 in
      tcp_calculate_checksum
        \<lparr>ph_source_ip = source_ip, ph_destination_ip = destination_ip, ph_zero = 0, ph_ptcl = 6,
         ph_tcp_length = htons (tcp_header_size + payload_size)\<rparr> m a)"

definition tcp_get_payload_length :: "ipv4_header_t \<Rightarrow> tcp_header_t \<Rightarrow> u16" where
  "tcp_get_payload_length ipv4_header tcp_header =
     ntohs (ih_total_length ipv4_header) -
       (ucast (drop_bit 4 (th_data_offset tcp_header AND TCP_DATA_OFFSET_MASK))
         + ucast (ih_flags_1 ipv4_header AND IPV4_IHL_MASK)) * 4"

definition tcp_get_payload :: "mem8 \<Rightarrow> nat \<Rightarrow> nat" where
  "tcp_get_payload m a = a + unat (drop_bit 4 (m (a + 12) AND TCP_DATA_OFFSET_MASK)) * 4"

definition tcb_header_to_connection_id :: "ipv4_header_t \<Rightarrow> tcp_header_t \<Rightarrow> u32" where
  "tcb_header_to_connection_id ipv4_header tcp_header =
     tcp_shared_calculate_connection_id (ih_source_ip ipv4_header) (th_source_port tcp_header)
       (th_destination_port tcp_header)"

text \<open>A header whose checksum field still holds the checksum of an earlier segment.\<close>

definition example_tcp_header :: tcp_header_t where
  "example_tcp_header =
     \<lparr>th_source_port = 0x5000, th_destination_port = 0x3930, th_sequence_num = 0x82020000,
      th_acknowledgement_num = 0x01000000, th_data_offset = 0x50, th_control_bits = 16,
      th_window = 0x0010, th_checksum = 0x1234, th_urgent_pointer = 0\<rparr>"

section \<open>The header in memory\<close>

lemma tcp_header_bytes_length [simp]: "length (tcp_header_bytes h) = 20"
  by (simp add: tcp_header_bytes_def)

lemma load_tcp_header_window:
  "load_tcp_header m a = load_tcp_header (mem_of (read_bytes m a 20)) 0"
  using load16_window [of 0 20 m a] load16_window [of 2 20 m a]
  by (simp add: load_tcp_header_def load16_window [of _ 20 m a] load32_window [of _ 20 m a]
      numeral_2_eq_2)

lemma load_tcp_header_bytes:
  assumes "read_bytes m a 20 = tcp_header_bytes h"
  shows "load_tcp_header m a = h"
  unfolding load_tcp_header_window [of m a] assms
  by (simp add: load_tcp_header_def tcp_header_bytes_def byte_simps)

section \<open>Connection identifiers\<close>

lemma connection_id_ports:
  "tcp_shared_calculate_connection_id ip remote_port host_port =
     push_bit 16 (ucast remote_port) OR ucast host_port"
  unfolding tcp_shared_calculate_connection_id_def Let_def
  by (rule bit_word_eqI) (auto simp: bit_simps)

lemma connection_id_halves:
  "ucast (drop_bit 16 (tcp_shared_calculate_connection_id ip remote_port host_port)) = remote_port"
  "ucast (tcp_shared_calculate_connection_id ip remote_port host_port) = host_port"
  unfolding connection_id_ports
  by (rule bit_word_eqI, auto simp: bit_simps dest: bit_imp_le_length)+

section \<open>The checksum\<close>

lemma foldl_sum_words:
  assumes "unat (s :: u32) + 65535 * length xs < 2 ^ 32"
  shows "unat (foldl (\<lambda>sum i. sum + ucast (w i :: u16)) s xs) = unat s + sum_list (map (\<lambda>i. unat (w i)) xs)"
  using assms
proof (induction xs arbitrary: s)
  case (Cons x xs)
  have "unat (ucast (w x) :: u32) = unat (w x)" by (simp add: unsigned_ucast_eq take_bit_nat_eq_self
        unat_u16_le [THEN le_less_trans])
  moreover have "unat (w x) \<le> 65535" by (rule unat_u16_le)
  ultimately have step: "unat (s + ucast (w x)) = unat s + unat (w x)"
    using Cons.prems by (simp add: unat_word_ariths)
  with Cons.prems \<open>unat (w x) \<le> 65535\<close> have "unat (s + ucast (w x)) + 65535 * length xs < 2 ^ 32" by simp
  from Cons.IH [OF this] step show ?case by simp
qed simp

definition pseudo_sum :: "tcp_pseudo_header_t \<Rightarrow> nat" where
  "pseudo_sum ph = sum_list (map unat (words_at (mem_of (tcp_pseudo_header_bytes ph)) 0 6))"

lemma sum_words_bound: "sum_list (map unat (ws :: u16 list)) \<le> 65535 * length ws"
proof (induction ws)
  case (Cons w ws)
  then show ?case using unat_u16_le [of w] by simp
qed simp

lemma unat_tcp_calculate_checksum:
  "unat (tcp_calculate_checksum ph m a) =
     65535 - oc (pseudo_sum ph + sum_list (map unat (words_at m a (unat (ntohs (ph_tcp_length ph) div 2)))))"
proof -
  let ?n = "unat (ntohs (ph_tcp_length ph) div 2)"
  let ?p = "foldl (\<lambda>sum i. sum + ucast (load16 (mem_of (tcp_pseudo_header_bytes ph)) (2 * i))) (0 :: u32) [0..<6]"
  let ?s = "foldl (\<lambda>sum i. sum + ucast (load16 m (a + 2 * i))) ?p [0..<?n]"
  have n: "?n \<le> 32767"
    using unat_u16_le [of "ntohs (ph_tcp_length ph)"] by (simp add: unat_div)
  have p: "unat ?p = pseudo_sum ph"
    using foldl_sum_words [of 0 "[0..<6]" "\<lambda>i. load16 (mem_of (tcp_pseudo_header_bytes ph)) (2 * i)"]
    by (simp add: pseudo_sum_def words_at_def o_def)
  have "pseudo_sum ph \<le> 393210"
    using sum_words_bound [of "words_at (mem_of (tcp_pseudo_header_bytes ph)) 0 6"]
    by (simp add: pseudo_sum_def words_at_def)
  with p n have "unat ?p + 65535 * length [0..<?n] < 2 ^ 32" by simp
  from foldl_sum_words [OF this, of "\<lambda>i. load16 m (a + 2 * i)"] p
  have "unat ?s = pseudo_sum ph + sum_list (map unat (words_at m a ?n))"
    by (simp add: words_at_def o_def)
  then have "unat (fold_carries ?s) = oc (pseudo_sum ph + sum_list (map unat (words_at m a ?n)))"
    by (simp add: unat_fold_carries)
  moreover from this have "unat (fold_carries ?s) \<le> 65535" by (simp add: oc_le)
  ultimately show ?thesis
    by (simp add: tcp_calculate_checksum_def Let_def unat_not_u16 unsigned_ucast_eq take_bit_nat_eq_self)
qed

lemma tcp_header_words:
  assumes "read_bytes m a 20 = tcp_header_bytes h"
  shows "sum_list (map unat (words_at m a 10)) =
    sum_list (map unat [th_source_port h, th_destination_port h,
      ucast (th_sequence_num h), ucast (drop_bit 16 (th_sequence_num h)),
      ucast (th_acknowledgement_num h), ucast (drop_bit 16 (th_acknowledgement_num h)),
      join16 (th_control_bits h) (th_data_offset h), th_window h, th_urgent_pointer h])
    + unat (th_checksum h)"
proof -
  have "words_at m a 10 = words_at (mem_of (tcp_header_bytes h)) 0 10"
    using words_window [of 10 20 m a] assms by simp
  then show ?thesis
    by (simp add: words_at_def tcp_header_bytes_def byte_simps upt_rec)
qed

lemma stale_checksum_arith:
  assumes "0 < P" and "st \<le> 65535"
  shows "oc (P + (65535 - oc (P + st))) = 65535 \<longleftrightarrow> st = 0 \<or> st = 65535"
proof -
  let ?c = "65535 - oc (P + st)"
  obtain k where "P + st = oc (P + st) + 65535 * k" using oc_decompose by blast
  with oc_le [of "P + st"] have eq: "P + ?c + st = 65535 * (k + 1)" by simp
  have "oc (P + ?c) = 65535 \<longleftrightarrow> 65535 dvd P + ?c" using assms(1) by (simp add: oc_full_iff)
  also have "\<dots> \<longleftrightarrow> 65535 dvd st"
    using eq by (metis dvd_add_right_iff dvd_add_left_iff dvd_triv_left)
  also have "\<dots> \<longleftrightarrow> st = 0 \<or> st = 65535"
    using assms(2) by (auto elim!: dvdE)
  finally show ?thesis .
qed

section \<open>Properties\<close>

text \<open>A connection identifier is built from the two ports alone: it determines them, and the
  remote address has no influence on it, so two hosts that use the same remote port share
  one identifier on a socket.\<close>

theorem connection_id_is_ports:
  "tcp_shared_calculate_connection_id ip1 remote_port1 host_port1 =
     tcp_shared_calculate_connection_id ip2 remote_port2 host_port2 \<longleftrightarrow>
   remote_port1 = remote_port2 \<and> host_port1 = host_port2"
  using connection_id_halves by (metis connection_id_ports)

text \<open>C40: the checksum that \<^verbatim>\<open>_tcp_calculate_checksum\<close> computes for a segment without payload is
  computed over the header including its current checksum field. The header with the
  computed value stored in that field verifies (recomputing over it gives 0) exactly when
  the field held 0 (or 0xFFFF, the other zero) before.\<close>

theorem tcp_checksum_verifies_iff_field_zero:
  assumes "read_bytes m a 20 = tcp_header_bytes h" and "th_data_offset h = 0x50"
    and "read_bytes m' b 20 = tcp_header_bytes (h\<lparr>th_checksum := calculate_tcp_checksum m a src dst 0\<rparr>)"
  shows "calculate_tcp_checksum m' b src dst 0 = 0 \<longleftrightarrow> th_checksum h = 0 \<or> th_checksum h = 0xFFFF"
proof -
  let ?ph = "\<lparr>ph_source_ip = src, ph_destination_ip = dst, ph_zero = 0, ph_ptcl = 6, ph_tcp_length = htons 20\<rparr>"
  define S where "S = sum_list (map unat [th_source_port h, th_destination_port h,
      ucast (th_sequence_num h), ucast (drop_bit 16 (th_sequence_num h)),
      ucast (th_acknowledgement_num h), ucast (drop_bit 16 (th_acknowledgement_num h)),
      join16 (th_control_bits h) (th_data_offset h), th_window h, th_urgent_pointer h])"
  let ?P = "pseudo_sum ?ph + S" and ?st = "unat (th_checksum h)"
  have off: "m (a + 12) = 0x50" "m' (b + 12) = 0x50"
    using byte_window [of 12 20 m a] byte_window [of 12 20 m' b] assms
    by (simp_all add: tcp_header_bytes_def byte_simps)
  have half: "unat (ntohs (htons 20) div 2 :: u16) = 10" by simp
  have c: "unat (calculate_tcp_checksum m a src dst 0) = 65535 - oc (?P + ?st)"
    unfolding S_def using tcp_header_words [OF assms(1)] half
    by (simp add: calculate_tcp_checksum_def off unat_tcp_calculate_checksum add.assoc)
  have "unat (calculate_tcp_checksum m' b src dst 0) = 65535 - oc (?P + (65535 - oc (?P + ?st)))"
    unfolding S_def using tcp_header_words [OF assms(3)] half c [unfolded S_def]
    by (simp add: calculate_tcp_checksum_def [of m' b] off unat_tcp_calculate_checksum add.assoc)
  moreover have "0 < ?P"
    by (simp add: pseudo_sum_def words_at_def tcp_pseudo_header_bytes_def byte_simps upt_rec join16_def)
  ultimately show ?thesis
    using stale_checksum_arith [OF _ unat_u16_le, of ?P "th_checksum h"] oc_le [of "?P + (65535 - oc (?P + ?st))"]
    by (auto simp: word_eq_iff_unsigned [where ?'a = nat])
qed

theorem tcp_checksum_verifies_iff_field_zero_witness:
  "calculate_tcp_checksum (mem_of (tcp_header_bytes (example_tcp_header\<lparr>th_checksum :=
       calculate_tcp_checksum (mem_of (tcp_header_bytes example_tcp_header)) 0 0x0200000A 0x0100000A 0\<rparr>)))
     0 0x0200000A 0x0100000A 0 \<noteq> 0"
proof -
  have bytes: "read_bytes (mem_of (tcp_header_bytes h)) 0 20 = tcp_header_bytes h" for h
    by (simp add: read_mem_of)
  show ?thesis
    using tcp_checksum_verifies_iff_field_zero [OF bytes [of example_tcp_header] _ bytes,
        of "0x0200000A" "0x0100000A"]
    by (simp add: example_tcp_header_def)
qed

end
