(* ===== verification/Tcp_Block_Buffer.thy ===== *)
theory Tcp_Block_Buffer
  imports Net_Prelude "HOL-Library.Multiset"
begin

text \<open>
  \<^verbatim>\<open>handlers/tcp/tcp_block_buffer.c\<close>: the queue of segments, sorted by sequence number, that
  every connection keeps for received and for outgoing packets. Its blocks are cells of
  one array, linked into a list of used blocks and a free list; a pointer to a block is
  the index of its cell. The \<^verbatim>\<open>void*\<close> in a block is the address of a packet stack.

  \<^verbatim>\<open>create_tcp_block_buffer\<close> allocates 10 cells and links 11 of them: its first store goes to the
  cell behind the allocation. An allocation may be followed by memory that nothing else uses; how
  many whole cells fit there is the argument \<open>slack\<close> of the model. With \<open>slack = 0\<close>, the
  allocation as it is requested, that store is the fault \<open>Out_of_bounds\<close>. Every theorem about
  opening a connection states both cases; nothing is assumed about \<open>slack\<close>.

  A walk along the list that takes more steps than there are cells has met a cell
  twice and never ends; this bounds the fuel of the loops.
\<close>

section \<open>Data\<close>

record tcp_block_t =
  blk_payload_size :: u32
  blk_sequence_num :: u32
  blk_data :: "nat option"
  next_block :: "nat option"

record tcp_block_buffer_t =
  cells :: "tcp_block_t list"
  free_list :: "nat option"
  blocks :: "nat option"
  bb_max_size :: u32

definition TCP_BLOCK_BUFFER_DEFAULT_SIZE :: nat where "TCP_BLOCK_BUFFER_DEFAULT_SIZE = 10"

text \<open>A cell as allocated; its fields are written before they are read.\<close>

definition raw_block :: tcp_block_t where
  "raw_block = \<lparr>blk_payload_size = 0, blk_sequence_num = 0, blk_data = None, next_block = None\<rparr>"

section \<open>Operations\<close>

definition set_next :: "tcp_block_t list \<Rightarrow> nat \<Rightarrow> nat option \<Rightarrow> fault + tcp_block_t list" where
  "set_next cs i p = sbind (idx cs i) (\<lambda>b. upd cs i (b\<lparr>next_block := p\<rparr>))"

text \<open>The search loop of \<^verbatim>\<open>tcp_block_buffer_add\<close>; it returns \<^verbatim>\<open>block\<close> and \<^verbatim>\<open>previous_block\<close>.\<close>

fun find_place ::
  "nat \<Rightarrow> tcp_block_t list \<Rightarrow> u32 \<Rightarrow> nat option \<Rightarrow> nat option \<Rightarrow> fault + (nat option \<times> nat option)" where
  "find_place fuel cs s None previous = Inr (None, previous)"
| "find_place 0 cs s (Some block) previous = Inl No_return"
| "find_place (Suc fuel) cs s (Some block) previous =
     sbind (idx cs block) (\<lambda>b.
       if blk_sequence_num b \<le> s then find_place fuel cs s (next_block b) (Some block)
       else Inr (Some block, previous))"

definition tcp_block_buffer_add ::
  "tcp_block_buffer_t \<Rightarrow> nat \<Rightarrow> u32 \<Rightarrow> u16 \<Rightarrow> fault + (nat option \<times> tcp_block_buffer_t)" where
  "tcp_block_buffer_add bb dat seq tcp_payload_size =
     (case free_list bb of
        None \<Rightarrow> Inr (None, bb)
      | Some new_block \<Rightarrow>
          sbind (idx (cells bb) new_block) (\<lambda>b.
          sbind (upd (cells bb) new_block
              \<lparr>blk_payload_size = ucast tcp_payload_size, blk_sequence_num = ntohl seq,
               blk_data = Some dat, next_block = None\<rparr>) (\<lambda>cs.
          case blocks bb of
            None \<Rightarrow> Inr (Some new_block,
                bb\<lparr>free_list := next_block b, cells := cs, blocks := Some new_block\<rparr>)
          | Some block \<Rightarrow>
              sbind (find_place (Suc (length cs)) cs (ntohl seq) (Some block) None) (\<lambda>(block, previous).
              sbind (set_next cs new_block block) (\<lambda>cs.
              sbind (deref previous) (\<lambda>previous.
              sbind (set_next cs previous (Some new_block)) (\<lambda>cs.
                Inr (Some new_block, bb\<lparr>free_list := next_block b, cells := cs\<rparr>))))))))"

primrec remove_front :: "nat \<Rightarrow> tcp_block_buffer_t \<Rightarrow> fault + tcp_block_buffer_t" where
  "remove_front 0 bb = Inr bb"
| "remove_front (Suc n) bb =
     (case blocks bb of
        None \<Rightarrow> Inr bb
      | Some block \<Rightarrow>
          sbind (idx (cells bb) block) (\<lambda>b.
            remove_front n (bb\<lparr>blocks := next_block b,
              cells := (cells bb)[block := b\<lparr>next_block := free_list bb\<rparr>],
              free_list := Some block\<rparr>)))"

definition tcp_block_buffer_remove_front ::
  "tcp_block_buffer_t \<Rightarrow> u16 \<Rightarrow> fault + tcp_block_buffer_t" where
  "tcp_block_buffer_remove_front bb num_to_remove = remove_front (unat num_to_remove) bb"

fun num_ready_loop :: "nat \<Rightarrow> tcp_block_t list \<Rightarrow> nat option \<Rightarrow> u32 \<Rightarrow> u16 \<Rightarrow> fault + u16" where
  "num_ready_loop fuel cs None start num_ready = Inr num_ready"
| "num_ready_loop 0 cs (Some block) start num_ready = Inl No_return"
| "num_ready_loop (Suc fuel) cs (Some block) start num_ready =
     sbind (idx cs block) (\<lambda>b.
       if blk_sequence_num b = start \<or> blk_sequence_num b = start + 1
       then num_ready_loop fuel cs (next_block b) (blk_sequence_num b + blk_payload_size b) (num_ready + 1)
       else Inr num_ready)"

definition tcp_block_buffer_num_ready :: "tcp_block_buffer_t \<Rightarrow> u32 \<Rightarrow> fault + u16" where
  "tcp_block_buffer_num_ready bb start_sequence_num =
     num_ready_loop (Suc (length (cells bb))) (cells bb) (blocks bb) start_sequence_num 0"

definition tcp_block_buffer_get_head :: "tcp_block_buffer_t \<Rightarrow> nat option" where
  "tcp_block_buffer_get_head bb = blocks bb"

text \<open>Linking cell \<open>k - 1\<close> to cell \<open>k\<close>, down to cell 0.\<close>

fun init_free_list :: "nat \<Rightarrow> tcp_block_t list \<Rightarrow> fault + tcp_block_t list" where
  "init_free_list 0 cs = Inr cs"
| "init_free_list (Suc k) cs = sbind (set_next cs k (Some (Suc k))) (init_free_list k)"

text \<open>The memory at the allocated pointer: the ten cells of the request, and what lies behind them.\<close>

definition create_tcp_block_buffer :: "nat \<Rightarrow> u16 \<Rightarrow> fault + tcp_block_buffer_t" where
  "create_tcp_block_buffer slack max_size =
     sbind (set_next (replicate (TCP_BLOCK_BUFFER_DEFAULT_SIZE + slack) raw_block)
         TCP_BLOCK_BUFFER_DEFAULT_SIZE None) (\<lambda>cs.
     sbind (init_free_list TCP_BLOCK_BUFFER_DEFAULT_SIZE cs) (\<lambda>cs.
       Inr \<lparr>cells = cs, free_list = Some 0, blocks = None, bb_max_size = ucast max_size\<rparr>))"

section \<open>Abstraction\<close>

text \<open>
  \<open>lseg cs p xs q\<close>: following the \<^verbatim>\<open>next\<close> pointers from \<open>p\<close> visits exactly the cells \<open>xs\<close>
  and arrives at \<open>q\<close>; a \<open>chain\<close> ends with a null pointer.
  A buffer stands for the list of its used blocks; \<open>queue_insert\<close>, \<open>queue_ready\<close> are what
  adding and counting mean on that list.
\<close>

type_synonym block = "u32 \<times> u32 \<times> nat option"

fun lseg :: "tcp_block_t list \<Rightarrow> nat option \<Rightarrow> nat list \<Rightarrow> nat option \<Rightarrow> bool" where
  "lseg cs p [] q \<longleftrightarrow> p = q"
| "lseg cs p (x # xs) q \<longleftrightarrow> p = Some x \<and> x < length cs \<and> lseg cs (next_block (cs ! x)) xs q"

abbreviation chain :: "tcp_block_t list \<Rightarrow> nat option \<Rightarrow> nat list \<Rightarrow> bool" where
  "chain cs p xs \<equiv> lseg cs p xs None"

fun walk :: "nat \<Rightarrow> tcp_block_t list \<Rightarrow> nat option \<Rightarrow> nat list" where
  "walk fuel cs None = []"
| "walk 0 cs (Some i) = []"
| "walk (Suc fuel) cs (Some i) = i # walk fuel cs (next_block (cs ! i))"

definition block_of :: "tcp_block_t \<Rightarrow> block" where
  "block_of b = (blk_sequence_num b, blk_payload_size b, blk_data b)"

definition used :: "tcp_block_buffer_t \<Rightarrow> nat list" where
  "used bb = walk 11 (cells bb) (blocks bb)"

definition free :: "tcp_block_buffer_t \<Rightarrow> nat list" where
  "free bb = walk 11 (cells bb) (free_list bb)"

definition bb_list :: "tcp_block_buffer_t \<Rightarrow> block list" where
  "bb_list bb = map (\<lambda>i. block_of (cells bb ! i)) (used bb)"

text \<open>
  A well-formed buffer has the 11 blocks that \<^verbatim>\<open>create_tcp_block_buffer\<close> links, each either in use or
  free. One of them is not among the ten allocated: in the order in which they are linked it is the
  last free one, and it is taken only when the ten others are in use (\<open>within_alloc\<close>).
\<close>

definition bb_invar :: "tcp_block_buffer_t \<Rightarrow> bool" where
  "bb_invar bb \<longleftrightarrow> chain (cells bb) (blocks bb) (used bb) \<and> chain (cells bb) (free_list bb) (free bb) \<and>
     distinct (used bb @ free bb) \<and> length (used bb) + length (free bb) = 11"

definition within_alloc :: "tcp_block_buffer_t \<Rightarrow> bool" where
  "within_alloc bb \<longleftrightarrow> (\<forall>i \<in> set (used bb @ butlast (free bb)). i < TCP_BLOCK_BUFFER_DEFAULT_SIZE)"

definition queue_insert :: "block \<Rightarrow> block list \<Rightarrow> block list" where
  "queue_insert b bs = takeWhile (\<lambda>c. fst c \<le> fst b) bs @ b # dropWhile (\<lambda>c. fst c \<le> fst b) bs"

fun queue_ready :: "block list \<Rightarrow> u32 \<Rightarrow> nat" where
  "queue_ready [] start = 0"
| "queue_ready ((s, n, d) # bs) start =
     (if s = start \<or> s = start + 1 then Suc (queue_ready bs (s + n)) else 0)"

text \<open>A buffer with the blocks 1 and 5 in the first two cells.\<close>

definition example_buffer :: tcp_block_buffer_t where
  "example_buffer =
     \<lparr>cells = [\<lparr>blk_payload_size = 1, blk_sequence_num = 1, blk_data = Some 3, next_block = Some 1\<rparr>,
               \<lparr>blk_payload_size = 1, blk_sequence_num = 5, blk_data = Some 4, next_block = None\<rparr>]
         @ map (\<lambda>i. raw_block\<lparr>next_block := if i = 10 then None else Some (Suc i)\<rparr>) [2..<11],
      free_list = Some 2, blocks = Some 0, bb_max_size = 10\<rparr>"

section \<open>Lemmas on chains\<close>

lemma chain_walk: "chain cs p xs \<Longrightarrow> length xs \<le> n \<Longrightarrow> walk n cs p = xs"
proof (induction xs arbitrary: n p)
  case (Cons x xs)
  then show ?case by (cases n) auto
qed simp

lemma lseg_in_range: "lseg cs p xs q \<Longrightarrow> x \<in> set xs \<Longrightarrow> x < length cs"
  by (induction xs arbitrary: p) auto

lemma lseg_cong:
  "length cs' = length cs \<Longrightarrow> (\<And>x. x \<in> set xs \<Longrightarrow> next_block (cs' ! x) = next_block (cs ! x)) \<Longrightarrow>
   lseg cs' p xs q = lseg cs p xs q"
  by (induction xs arbitrary: p) auto

lemma lseg_update [simp]: "i \<notin> set xs \<Longrightarrow> lseg (cs[i := b]) p xs q = lseg cs p xs q"
  by (rule lseg_cong) (simp_all, metis nth_list_update_neq)

lemma map_cells_update [simp]:
  "i \<notin> set xs \<Longrightarrow> map (\<lambda>j. f (cs[i := b] ! j)) xs = map (\<lambda>j. f (cs ! j)) xs"
  by (simp, metis nth_list_update_neq)

lemma lseg_append: "lseg cs p (xs @ ys) q \<longleftrightarrow> (\<exists>r. lseg cs p xs r \<and> lseg cs r ys q)"
  by (induction xs arbitrary: p) auto

lemma lseg_length: "lseg cs p xs q \<Longrightarrow> distinct xs \<Longrightarrow> length xs \<le> length cs"
proof -
  assume "lseg cs p xs q" and "distinct xs"
  then have "card (set xs) = length xs" and "set xs \<subseteq> {..<length cs}"
    using distinct_card lseg_in_range by blast+
  with card_mono [of "{..<length cs}" "set xs"] show ?thesis by simp
qed

lemma lseg_insert:
  assumes "chain cs p (pre @ l # post)" and "distinct (pre @ l # post)"
    and "i \<notin> set (pre @ l # post)" and "i < length cs"
  shows "chain (cs[i := b\<lparr>next_block := next_block (cs ! l)\<rparr>, l := c\<lparr>next_block := Some i\<rparr>]) p
    (pre @ l # i # post)"
proof -
  from assms(1) have "lseg cs p pre (Some l)" "l < length cs" "chain cs (next_block (cs ! l)) post"
    by (auto simp: lseg_append)
  with assms(2-4) show ?thesis by (auto simp: lseg_append)
qed

lemma bb_rep:
  assumes "chain (cells bb) (blocks bb) xs" and "chain (cells bb) (free_list bb) fs"
    and "distinct (xs @ fs)" and "length xs + length fs = 11"
  shows "bb_invar bb" and "used bb = xs" and "free bb = fs"
    and "bb_list bb = map (\<lambda>i. block_of (cells bb ! i)) xs"
proof -
  show u: "used bb = xs" and f: "free bb = fs"
    using assms(4) chain_walk [OF assms(1), of 11] chain_walk [OF assms(2), of 11]
    by (simp_all add: used_def free_def)
  show "bb_invar bb" using assms by (simp add: bb_invar_def u f)
  show "bb_list bb = map (\<lambda>i. block_of (cells bb ! i)) xs" by (simp add: bb_list_def u)
qed

lemma bb_invarE:
  assumes "bb_invar bb"
  obtains xs fs where "chain (cells bb) (blocks bb) xs" and "chain (cells bb) (free_list bb) fs"
    and "distinct (xs @ fs)" and "length xs + length fs = 11" and "used bb = xs" and "free bb = fs"
    and "bb_list bb = map (\<lambda>i. block_of (cells bb ! i)) xs" and "length xs \<le> length (cells bb)"
  using assms lseg_length [of "cells bb" "blocks bb" "used bb" None]
  by (auto simp: bb_invar_def bb_list_def)

section \<open>The loops\<close>

definition ptr_of :: "nat list \<Rightarrow> nat option" where
  "ptr_of xs = (case xs of [] \<Rightarrow> None | x # _ \<Rightarrow> Some x)"

lemma ptr_of_simps [simp]: "ptr_of [] = None" "ptr_of (x # xs) = Some x"
  by (simp_all add: ptr_of_def)

lemma chain_ptr: "chain cs p xs \<Longrightarrow> p = ptr_of xs"
  by (cases xs) auto

lemma find_place_chain:
  assumes "chain cs p xs" and "length xs \<le> fuel"
  shows "find_place fuel cs s p previous =
    (let pre = takeWhile (\<lambda>i. blk_sequence_num (cs ! i) \<le> s) xs in
     Inr (ptr_of (dropWhile (\<lambda>i. blk_sequence_num (cs ! i) \<le> s) xs),
          if pre = [] then previous else Some (last pre)))"
  using assms
proof (induction xs arbitrary: p previous fuel)
  case (Cons x xs)
  then show ?case by (cases fuel) (auto simp: Let_def)
qed simp

lemma num_ready_chain:
  assumes "chain cs p xs" and "length xs \<le> fuel"
  shows "num_ready_loop fuel cs p start n =
    Inr (n + of_nat (queue_ready (map (\<lambda>i. block_of (cs ! i)) xs) start))"
  using assms
proof (induction xs arbitrary: p start n fuel)
  case (Cons x xs)
  then show ?case by (cases fuel) (auto simp: block_of_def)
qed simp

section \<open>The operations on the abstract queue\<close>

lemma num_ready_correct:
  assumes "bb_invar bb"
  shows "tcp_block_buffer_num_ready bb start = Inr (of_nat (queue_ready (bb_list bb) start))"
  using assms
proof (rule bb_invarE)
  fix xs fs
  assume "chain (cells bb) (blocks bb) xs" "length xs \<le> length (cells bb)"
    and abs: "bb_list bb = map (\<lambda>i. block_of (cells bb ! i)) xs"
  then show ?thesis
    unfolding tcp_block_buffer_num_ready_def abs
    by (subst num_ready_chain) auto
qed

lemma remove_front_correct:
  assumes "bb_invar bb"
  shows "\<exists>bb'. remove_front n bb = Inr bb' \<and> bb_invar bb' \<and> bb_list bb' = drop n (bb_list bb) \<and>
    length (cells bb') = length (cells bb)"
  using assms
proof (induction n arbitrary: bb)
  case (Suc n)
  from Suc.prems obtain xs fs where rep: "chain (cells bb) (blocks bb) xs"
    "chain (cells bb) (free_list bb) fs" "distinct (xs @ fs)" "length xs + length fs = 11"
    and abs: "bb_list bb = map (\<lambda>i. block_of (cells bb ! i)) xs"
    by (auto elim: bb_invarE)
  show ?case
  proof (cases xs)
    case Nil
    with rep abs Suc.prems show ?thesis by simp
  next
    case (Cons x ys)
    let ?b = "cells bb ! x"
    let ?bb = "bb\<lparr>blocks := next_block ?b, cells := (cells bb)[x := ?b\<lparr>next_block := free_list bb\<rparr>],
      free_list := Some x\<rparr>"
    have step: "remove_front (Suc n) bb = remove_front n ?bb" using rep Cons by simp
    have new: "chain (cells ?bb) (blocks ?bb) ys" "chain (cells ?bb) (free_list ?bb) (x # fs)"
      "distinct (ys @ x # fs)" "length ys + length (x # fs) = 11"
      using rep Cons by auto
    note new_rep = bb_rep [OF new]
    have "bb_list ?bb = tl (bb_list bb)"
      using rep(3) Cons by (simp add: new_rep(4) abs map_cells_update)
    with Suc.IH [OF new_rep(1)] step abs Cons show ?thesis by simp
  qed
qed auto

lemma add_full:
  assumes "bb_invar bb" and "length (bb_list bb) = 11"
  shows "tcp_block_buffer_add bb dat seq n = Inr (None, bb)"
  using assms by (auto simp: tcp_block_buffer_add_def elim!: bb_invarE)

text \<open>The decomposition that the proofs about adding share.\<close>

lemma add_splitE:
  assumes "bb_invar bb" and "length (bb_list bb) < 11"
  obtains xs f fs where "chain (cells bb) (blocks bb) xs" and "free_list bb = Some f"
    and "f < length (cells bb)" and "chain (cells bb) (next_block (cells bb ! f)) fs"
    and "distinct (xs @ f # fs)" and "length xs + length fs = 10"
    and "bb_list bb = map (\<lambda>i. block_of (cells bb ! i)) xs" and "length xs \<le> length (cells bb)"
  using assms(1)
proof (rule bb_invarE)
  fix xs fs'
  assume a: "chain (cells bb) (blocks bb) xs" "chain (cells bb) (free_list bb) fs'"
    "distinct (xs @ fs')" "length xs + length fs' = 11"
    "bb_list bb = map (\<lambda>i. block_of (cells bb ! i)) xs" "length xs \<le> length (cells bb)"
  with assms(2) obtain f fs where "fs' = f # fs" by (cases fs') auto
  with a that show thesis by auto
qed

lemma queue_insert_map:
  "queue_insert b (map g xs) =
     map g (takeWhile (\<lambda>i. fst (g i) \<le> fst b) xs) @ b # map g (dropWhile (\<lambda>i. fst (g i) \<le> fst b) xs)"
  by (simp add: queue_insert_def takeWhile_map dropWhile_map o_def)

lemma blocks_after_insert:
  fixes cs :: "tcp_block_t list" and new :: tcp_block_t
  defines "g \<equiv> \<lambda>i. block_of (cs ! i)"
  assumes f: "f \<notin> set xs" "f < length cs" "l \<noteq> f" and xs: "xs = p @ l # post"
    and pre: "takeWhile (\<lambda>i. blk_sequence_num (cs[f := new] ! i) \<le> blk_sequence_num new) xs = p @ [l]"
    and l: "l < length cs"
  shows "map (\<lambda>i. block_of (cs[f := new, f := new\<lparr>next_block := q\<rparr>,
      l := (cs[f := new] ! l)\<lparr>next_block := r\<rparr>] ! i)) (p @ l # f # post) =
    queue_insert (block_of new) (map g xs)"
proof -
  let ?cs = "cs[f := new, f := new\<lparr>next_block := q\<rparr>, l := (cs[f := new] ! l)\<lparr>next_block := r\<rparr>]"
  have other: "block_of (?cs ! j) = g j" if "j \<noteq> f" for j
    using that l f(3) by (cases "j = l") (simp_all add: block_of_def g_def)
  have same: "blk_sequence_num (cs[f := new] ! i) = fst (g i)" if "i \<in> set xs" for i
  proof -
    have "f \<noteq> i" using that f(1) by auto
    then show ?thesis by (simp add: g_def block_of_def)
  qed
  have "takeWhile (\<lambda>i. fst (g i) \<le> blk_sequence_num new) xs = p @ [l]"
    using pre by (subst takeWhile_cong [OF refl, of xs]) (simp_all add: same)
  moreover from this have "dropWhile (\<lambda>i. fst (g i) \<le> blk_sequence_num new) xs = post"
    using takeWhile_dropWhile_id [of "\<lambda>i. fst (g i) \<le> blk_sequence_num new" xs] xs by simp
  moreover have "block_of (?cs ! f) = block_of new" using f by (simp add: block_of_def)
  moreover have "map (\<lambda>i. block_of (?cs ! i)) ys = map g ys" if "f \<notin> set ys" for ys
    by (rule map_cong [OF refl], rule other) (use that in auto)
  moreover have "f \<notin> set p" "f \<notin> set post" using f xs by auto
  moreover have "fst (block_of new) = blk_sequence_num new" by (simp add: block_of_def)
  ultimately show ?thesis
    unfolding queue_insert_map using other [OF f(3)] by (simp only: map_append list.map) simp
qed

lemma add_correct:
  assumes inv: "bb_invar bb" and room: "length (bb_list bb) < 11"
    and order: "bb_list bb = [] \<or> fst (hd (bb_list bb)) \<le> ntohl seq"
  shows "\<exists>i bb'. tcp_block_buffer_add bb dat seq n = Inr (Some i, bb') \<and> bb_invar bb' \<and>
    bb_list bb' = queue_insert (ntohl seq, ucast n, Some dat) (bb_list bb) \<and>
    free bb = i # free bb' \<and> set (used bb') = insert i (set (used bb))"
proof -
  obtain xs f fs where used: "chain (cells bb) (blocks bb) xs" and free: "free_list bb = Some f"
    "f < length (cells bb)" "chain (cells bb) (next_block (cells bb ! f)) fs"
    and d: "distinct (xs @ f # fs)" and len: "length xs + length fs = 10"
    and abs: "bb_list bb = map (\<lambda>i. block_of (cells bb ! i)) xs" and le: "length xs \<le> length (cells bb)"
    using add_splitE [OF inv room] .
  have old: "used bb = xs" "free bb = f # fs" using bb_rep(2,3) [of bb xs "f # fs"] used free d len by auto
  let ?new = "\<lparr>blk_payload_size = ucast n, blk_sequence_num = ntohl seq, blk_data = Some dat, next_block = None\<rparr>"
  let ?cs = "(cells bb)[f := ?new]"
  show ?thesis
  proof (cases xs)
    case Nil
    let ?bb = "bb\<lparr>free_list := next_block (cells bb ! f), cells := ?cs, blocks := Some f\<rparr>"
    have "tcp_block_buffer_add bb dat seq n = Inr (Some f, ?bb)"
      using used free Nil by (simp add: tcp_block_buffer_add_def)
    moreover have "bb_invar ?bb" "bb_list ?bb = [block_of ?new]" "used ?bb = [f]" "free ?bb = fs"
      using bb_rep [of ?bb "[f]" fs] free d len Nil by auto
    ultimately show ?thesis
      using abs Nil old by (simp add: queue_insert_def block_of_def)
  next
    case (Cons x ys)
    define pre where "pre = takeWhile (\<lambda>i. blk_sequence_num (?cs ! i) \<le> ntohl seq) xs"
    define post where "post = dropWhile (\<lambda>i. blk_sequence_num (?cs ! i) \<le> ntohl seq) xs"
    have xs: "xs = pre @ post" by (simp add: pre_def post_def)
    have "x \<noteq> f" using d Cons by auto
    then have "pre \<noteq> []" using order Cons abs by (simp add: pre_def block_of_def)
    then obtain p l where pre: "pre = p @ [l]" by (metis rev_exhaust)
    have cs0: "chain ?cs (blocks bb) xs" using used d by simp
    then have cs: "chain ?cs (blocks bb) (p @ l # post)" using xs pre by simp
    then have ptr: "ptr_of post = next_block (?cs ! l)"
      by (auto simp: lseg_append dest: chain_ptr)
    have neq: "l \<noteq> f" "l < length ?cs" using d xs pre lseg_in_range [OF cs, of l] by auto
    let ?cs' = "?cs[f := ?new\<lparr>next_block := next_block (?cs ! l)\<rparr>, l := (?cs ! l)\<lparr>next_block := Some f\<rparr>]"
    let ?bb = "bb\<lparr>free_list := next_block (cells bb ! f), cells := ?cs'\<rparr>"
    have "find_place (Suc (length ?cs)) ?cs (ntohl seq) (blocks bb) None = Inr (ptr_of post, Some l)"
      using find_place_chain [OF cs0, of "Suc (length ?cs)" "ntohl seq" None,
          folded pre_def post_def] le pre by simp
    then have add: "tcp_block_buffer_add bb dat seq n = Inr (Some f, ?bb)"
      using used free Cons ptr neq
      by (simp add: tcp_block_buffer_add_def set_next_def del: find_place.simps)
    have new: "chain ?cs' (blocks bb) (p @ l # f # post)"
      by (rule lseg_insert [OF cs]) (use d xs pre free in auto)
    have d': "distinct ((p @ l # f # post) @ fs)" using d xs pre by auto
    have "chain ?cs' (next_block (cells bb ! f)) fs"
      using free(3) d xs pre by (subst lseg_update, simp)+ simp
    then have "bb_invar ?bb" and list: "bb_list ?bb = map (\<lambda>i. block_of (?cs' ! i)) (p @ l # f # post)"
      and "used ?bb = p @ l # f # post" "free ?bb = fs"
      using bb_rep [of ?bb "p @ l # f # post" fs] new d' len xs pre by auto
    moreover have "bb_list ?bb = queue_insert (ntohl seq, ucast n, Some dat) (bb_list bb)"
    proof -
      have b: "block_of ?new = (ntohl seq, ucast n, Some dat)" by (simp add: block_of_def)
      show ?thesis unfolding list abs b [symmetric]
        by (rule blocks_after_insert) (use d xs pre pre_def free neq in auto)
    qed
    ultimately show ?thesis using add old xs pre by auto
  qed
qed

lemma add_before_head:
  assumes inv: "bb_invar bb" and room: "length (bb_list bb) < 11" and ne: "bb_list bb \<noteq> []"
    and order: "ntohl seq < fst (hd (bb_list bb))"
  shows "tcp_block_buffer_add bb dat seq n = Inl Null_deref"
proof -
  obtain xs f fs where used: "chain (cells bb) (blocks bb) xs" and free: "free_list bb = Some f"
    "f < length (cells bb)" and d: "distinct (xs @ f # fs)"
    and abs: "bb_list bb = map (\<lambda>i. block_of (cells bb ! i)) xs"
    by (rule add_splitE [OF inv room])
  from ne abs obtain x ys where xs: "xs = x # ys" by (cases xs) auto
  with d order abs have "x \<noteq> f" "\<not> blk_sequence_num (cells bb ! x) \<le> ntohl seq"
    by (auto simp: block_of_def)
  with used free xs show ?thesis
    by (auto simp: tcp_block_buffer_add_def set_next_def)
qed

lemma init_free_list_correct:
  assumes "k \<le> 10" and "11 \<le> length cs" and "chain cs (Some k) [k..<11]"
  shows "\<exists>cs'. init_free_list k cs = Inr cs' \<and> length cs' = length cs \<and> chain cs' (Some 0) [0..<11]"
  using assms
proof (induction k arbitrary: cs)
  case (Suc k)
  let ?cs = "cs[k := (cs ! k)\<lparr>next_block := Some (Suc k)\<rparr>]"
  have "[k..<11] = k # [Suc k..<11]" using Suc.prems(1) by (simp add: upt_rec)
  then have "chain ?cs (Some k) [k..<11]" using Suc.prems by simp
  with Suc.IH [of ?cs] Suc.prems show ?case by (simp add: set_next_def)
qed auto

lemma create_correct:
  assumes "0 < n"
  shows "\<exists>bb. create_tcp_block_buffer n m = Inr bb \<and> bb_invar bb \<and> bb_list bb = [] \<and> within_alloc bb"
proof -
  let ?cs = "(replicate (10 + n) raw_block)[10 := raw_block]"
  have "chain ?cs (Some 10) [10..<11]" using assms by (simp add: raw_block_def upt_rec)
  with init_free_list_correct [of 10 ?cs] assms obtain cs where
    cs: "init_free_list 10 ?cs = Inr cs" "chain cs (Some 0) [0..<11]" by auto
  let ?bb = "\<lparr>cells = cs, free_list = Some 0, blocks = None, bb_max_size = ucast m\<rparr>"
  have "raw_block\<lparr>next_block := None\<rparr> = raw_block" by (simp add: raw_block_def)
  then have "create_tcp_block_buffer n m = Inr ?bb"
    using assms cs(1)
    by (simp add: create_tcp_block_buffer_def set_next_def TCP_BLOCK_BUFFER_DEFAULT_SIZE_def)
  with bb_rep [of ?bb "[]" "[0..<11]"] cs show ?thesis
    by (auto simp: within_alloc_def TCP_BLOCK_BUFFER_DEFAULT_SIZE_def butlast_conv_take)
qed

lemma create_overflows: "create_tcp_block_buffer 0 m = Inl Out_of_bounds"
  by (simp add: create_tcp_block_buffer_def set_next_def TCP_BLOCK_BUFFER_DEFAULT_SIZE_def)

lemma head_data:
  assumes "bb_invar bb" and "bb_list bb = (sq, n, Some d) # bs"
  shows "\<exists>i b. tcp_block_buffer_get_head bb = Some i \<and> idx (cells bb) i = Inr b \<and> block_of b = (sq, n, Some d)"
  using assms(1)
proof (rule bb_invarE)
  fix xs fs
  assume "chain (cells bb) (blocks bb) xs" "bb_list bb = map (\<lambda>i. block_of (cells bb ! i)) xs"
  with assms(2) show ?thesis by (cases xs) (auto simp: tcp_block_buffer_get_head_def)
qed

lemma queue_insert_simps [simp]:
  "queue_insert b [] = [b]"
  "queue_insert b (c # bs) = (if fst c \<le> fst b then c # queue_insert b bs else b # c # bs)"
  by (simp_all add: queue_insert_def)

lemma mset_queue_insert: "mset (queue_insert b bs) = add_mset b (mset bs)"
  by (induction bs) auto

lemma set_queue_insert: "set (queue_insert b bs) = insert b (set bs)"
  by (induction bs) auto

lemma sorted_queue_insert: "sorted (map fst bs) \<Longrightarrow> sorted (map fst (queue_insert b bs))"
  by (induction bs) (auto simp: set_queue_insert)

section \<open>The contract of a segment queue\<close>

text \<open>
  What the TCP code relies on: a buffer stands for a list of at most \<open>cap\<close> blocks, adding
  inserts by sequence number behind the blocks that are not larger, removing drops from
  the front, counting counts the prefix that is contiguous with the expected sequence number.
\<close>

locale segment_queue =
  fixes add :: "'q \<Rightarrow> nat \<Rightarrow> u32 \<Rightarrow> u16 \<Rightarrow> fault + (nat option \<times> 'q)"
    and remove :: "'q \<Rightarrow> u16 \<Rightarrow> fault + 'q"
    and ready :: "'q \<Rightarrow> u32 \<Rightarrow> fault + u16"
    and qlist :: "'q \<Rightarrow> block list"
    and qinvar :: "'q \<Rightarrow> bool"
    and cap :: nat
  assumes q_add: "qinvar q \<Longrightarrow> length (qlist q) < cap \<Longrightarrow>
      qlist q = [] \<or> fst (hd (qlist q)) \<le> ntohl seq \<Longrightarrow>
      \<exists>i q'. add q d seq n = Inr (Some i, q') \<and> qinvar q' \<and>
        qlist q' = queue_insert (ntohl seq, ucast n, Some d) (qlist q)"
    and q_full: "qinvar q \<Longrightarrow> length (qlist q) = cap \<Longrightarrow> add q d seq n = Inr (None, q)"
    and q_before: "qinvar q \<Longrightarrow> length (qlist q) < cap \<Longrightarrow> qlist q \<noteq> [] \<Longrightarrow>
      ntohl seq < fst (hd (qlist q)) \<Longrightarrow> add q d seq n = Inl Null_deref"
    and q_bound: "qinvar q \<Longrightarrow> length (qlist q) \<le> cap"
    and q_remove: "qinvar q \<Longrightarrow>
      \<exists>q'. remove q k = Inr q' \<and> qinvar q' \<and> qlist q' = drop (unat k) (qlist q)"
    and q_ready: "qinvar q \<Longrightarrow> ready q st = Inr (of_nat (queue_ready (qlist q) st))"
    and cap_pos: "0 < cap"
begin

lemma q_add_empty:
  assumes "qinvar q" and "qlist q = []"
  shows "\<exists>i q'. add q d seq n = Inr (Some i, q') \<and> qinvar q' \<and> qlist q' = [(ntohl seq, ucast n, Some d)]"
  using q_add [OF assms(1), of seq d n] assms(2) cap_pos by (simp add: queue_insert_def)

text \<open>A segment that arrives at an empty queue in order is alone and ready, and removing it
  empties the queue again.\<close>

lemma q_ready_single:
  assumes "qinvar q" and "qlist q = [(s, k, d)]" and "s = st \<or> s = st + 1"
  shows "ready q st = Inr 1"
  using q_ready [OF assms(1), of st] assms(2,3) by auto

lemma q_remove_single:
  assumes "qinvar q" and "qlist q = [b]"
  shows "\<exists>q'. remove q 1 = Inr q' \<and> qinvar q' \<and> qlist q' = []"
  using q_remove [OF assms(1), of 1] assms(2) by simp

lemma q_sorted:
  assumes "sorted (map fst (qlist q))" and "qinvar q" and "add q d seq n = Inr (r, q')"
  shows "sorted (map fst (qlist q')) \<and> qinvar q'"
proof (cases "length (qlist q) = cap")
  case True
  with q_full [OF assms(2)] assms show ?thesis by simp
next
  case False
  with q_bound [OF assms(2)] have room: "length (qlist q) < cap" by simp
  have "qlist q = [] \<or> fst (hd (qlist q)) \<le> ntohl seq"
    using q_before [OF assms(2) room, of seq d n] assms(3)
    by (cases "ntohl seq < fst (hd (qlist q))") (auto simp: not_less)
  from q_add [OF assms(2) room this, of d n] assms(1,3) show ?thesis
    by (auto simp: sorted_queue_insert)
qed

end

interpretation bq: segment_queue tcp_block_buffer_add tcp_block_buffer_remove_front
  tcp_block_buffer_num_ready bb_list bb_invar 11
proof
  fix q :: tcp_block_buffer_t and seq st :: u32 and d :: nat and n k :: u16
  assume inv: "bb_invar q"
  show "length (bb_list q) \<le> 11" using inv by (auto elim!: bb_invarE)
  show "tcp_block_buffer_num_ready q st = Inr (of_nat (queue_ready (bb_list q) st))"
    using inv by (rule num_ready_correct)
  show "\<exists>q'. tcp_block_buffer_remove_front q k = Inr q' \<and> bb_invar q' \<and>
      bb_list q' = drop (unat k) (bb_list q)"
    using remove_front_correct [OF inv, of "unat k"] by (auto simp: tcp_block_buffer_remove_front_def)
  {
    assume "length (bb_list q) = 11"
    with inv show "tcp_block_buffer_add q d seq n = Inr (None, q)" by (rule add_full)
  }
  assume room: "length (bb_list q) < 11"
  {
    assume "bb_list q = [] \<or> fst (hd (bb_list q)) \<le> ntohl seq"
    from add_correct [OF inv room this, of d n]
    show "\<exists>i q'. tcp_block_buffer_add q d seq n = Inr (Some i, q') \<and> bb_invar q' \<and>
        bb_list q' = queue_insert (ntohl seq, ucast n, Some d) (bb_list q)" by blast
  }
  assume "bb_list q \<noteq> []" and "ntohl seq < fst (hd (bb_list q))"
  with inv room show "tcp_block_buffer_add q d seq n = Inl Null_deref" by (rule add_before_head)
qed simp

section \<open>The allocation\<close>

lemma eleven_blocks_spill:
  assumes "bb_invar bb" and "length (bb_list bb) = 11"
  shows "\<exists>i \<in> set (used bb). TCP_BLOCK_BUFFER_DEFAULT_SIZE \<le> i"
proof (rule ccontr)
  assume "\<not> ?thesis"
  then have "set (used bb) \<subseteq> {..<10}" by (auto simp: TCP_BLOCK_BUFFER_DEFAULT_SIZE_def not_le)
  with card_mono [of "{..<10}" "set (used bb)"] have "card (set (used bb)) \<le> 10" by simp
  moreover have "distinct (used bb)" "length (used bb) = 11" using assms by (auto simp: bb_invar_def bb_list_def)
  ultimately show False using distinct_card by fastforce
qed

lemma within_alloc_add:
  assumes "bb_invar bb'" and "within_alloc bb"
    and "free bb = i # free bb'" and "set (used bb') = insert i (set (used bb))"
  shows "i < TCP_BLOCK_BUFFER_DEFAULT_SIZE \<longleftrightarrow> length (bb_list bb') < 11"
    and "length (bb_list bb') < 11 \<Longrightarrow> within_alloc bb'"
proof -
  have len: "length (bb_list bb') + length (free bb') = 11" using assms(1) by (simp add: bb_invar_def bb_list_def)
  have in_alloc: "i < TCP_BLOCK_BUFFER_DEFAULT_SIZE" if "length (bb_list bb') < 11"
    using that len assms(2,3) by (cases "free bb'") (auto simp: within_alloc_def)
  then show "length (bb_list bb') < 11 \<Longrightarrow> within_alloc bb'"
    using len assms(2-4) by (cases "free bb'") (auto simp: within_alloc_def)
  have "\<not> i < TCP_BLOCK_BUFFER_DEFAULT_SIZE" if "length (bb_list bb') = 11"
    using eleven_blocks_spill [OF assms(1) that] assms(2,4) by (fastforce simp: within_alloc_def not_le [symmetric])
  with in_alloc len show "i < TCP_BLOCK_BUFFER_DEFAULT_SIZE \<longleftrightarrow> length (bb_list bb') < 11"
    by (cases "length (bb_list bb') = 11") auto
qed

lemma length_queue_insert [simp]: "length (queue_insert b bs) = Suc (length bs)"
  by (induction bs) auto

section \<open>Properties\<close>

text \<open>C21: on every well-formed buffer, \<^verbatim>\<open>tcp_block_buffer_add\<close> refuses when all 11 linked blocks are
  in use, dereferences a null pointer when the new sequence number is smaller than that of
  the first block, and otherwise inserts the block in sequence order behind all blocks
  that are not larger, losing and changing no other block. Only ten blocks are allocated: with ten
  in use, a block outside the allocation is in use afterwards; and as long as no more than ten
  have been in use at once (\<open>within_alloc\<close>, which \<^verbatim>\<open>create_tcp_block_buffer\<close> establishes) the block
  that is written is inside the allocation exactly when fewer than ten were in use.\<close>

theorem block_add_all_cases:
  assumes "bb_invar bb"
  shows "(if length (bb_list bb) = 11 then tcp_block_buffer_add bb dat seq n = Inr (None, bb)
     else if bb_list bb \<noteq> [] \<and> ntohl seq < fst (hd (bb_list bb))
     then tcp_block_buffer_add bb dat seq n = Inl Null_deref
     else \<exists>i bb'. tcp_block_buffer_add bb dat seq n = Inr (Some i, bb') \<and> bb_invar bb' \<and>
       bb_list bb' = queue_insert (ntohl seq, ucast n, Some dat) (bb_list bb) \<and>
       mset (bb_list bb') = add_mset (ntohl seq, ucast n, Some dat) (mset (bb_list bb)) \<and>
       (sorted (map fst (bb_list bb)) \<longrightarrow> sorted (map fst (bb_list bb'))) \<and>
       (length (bb_list bb) = TCP_BLOCK_BUFFER_DEFAULT_SIZE \<longrightarrow>
         (\<exists>j \<in> set (used bb'). TCP_BLOCK_BUFFER_DEFAULT_SIZE \<le> j)) \<and>
       (within_alloc bb \<longrightarrow>
         (i < TCP_BLOCK_BUFFER_DEFAULT_SIZE \<longleftrightarrow> length (bb_list bb) < TCP_BLOCK_BUFFER_DEFAULT_SIZE) \<and>
         (length (bb_list bb) < TCP_BLOCK_BUFFER_DEFAULT_SIZE \<longrightarrow> within_alloc bb')))"
proof (cases "length (bb_list bb) = 11")
  case True
  with bq.q_full [OF assms] show ?thesis by simp
next
  case False
  with bq.q_bound [OF assms] have room: "length (bb_list bb) < 11" by simp
  show ?thesis
  proof (cases "bb_list bb \<noteq> [] \<and> ntohl seq < fst (hd (bb_list bb))")
    case True
    with bq.q_before [OF assms room] False show ?thesis by simp
  next
    case order: False
    then have "bb_list bb = [] \<or> fst (hd (bb_list bb)) \<le> ntohl seq" by auto
    from add_correct [OF assms room this, of dat n] obtain i bb' where
      add: "tcp_block_buffer_add bb dat seq n = Inr (Some i, bb')" "bb_invar bb'"
        "bb_list bb' = queue_insert (ntohl seq, ucast n, Some dat) (bb_list bb)"
      and cell: "free bb = i # free bb'" "set (used bb') = insert i (set (used bb))" by blast
    have "TCP_BLOCK_BUFFER_DEFAULT_SIZE = 10" by (simp add: TCP_BLOCK_BUFFER_DEFAULT_SIZE_def)
    then show ?thesis
      using add False order room eleven_blocks_spill [OF add(2)] within_alloc_add [OF add(2) _ cell]
      by (auto simp: sorted_queue_insert mset_queue_insert)
  qed
qed

theorem block_add_all_cases_witness:
  "\<exists>i bb'. tcp_block_buffer_add example_buffer 7 0x02000000 4 = Inr (Some i, bb') \<and>
     bb_list bb' = [(1, 1, Some 3), (2, 4, Some 7), (5, 1, Some 4)] \<and> i < 10 \<and> within_alloc bb'"
proof -
  have "bb_invar example_buffer" "bb_list example_buffer = [(1, 1, Some 3), (5, 1, Some 4)]"
    "ntohl 0x02000000 = 2" "within_alloc example_buffer" "TCP_BLOCK_BUFFER_DEFAULT_SIZE = 10"
    by code_simp+
  with block_add_all_cases [of example_buffer 7 "0x02000000" 4] show ?thesis by auto
qed

text \<open>C36: \<^verbatim>\<open>tcp_block_buffer_num_ready\<close> and \<^verbatim>\<open>tcp_block_buffer_remove_front\<close> always return on a
  well-formed buffer: the first gives the length of the prefix of blocks that continue the
  expected sequence number (each one exactly, or one further, as the code allows), the
  second drops blocks from the front and returns their cells to the free list.\<close>

theorem block_ready_and_remove:
  assumes "bb_invar bb"
  shows "tcp_block_buffer_num_ready bb start = Inr (of_nat (queue_ready (bb_list bb) start)) \<and>
    (\<exists>bb'. tcp_block_buffer_remove_front bb k = Inr bb' \<and> bb_invar bb' \<and>
       bb_list bb' = drop (unat k) (bb_list bb))"
  using bq.q_ready [OF assms] bq.q_remove [OF assms] by simp

theorem block_ready_and_remove_witness:
  "tcp_block_buffer_num_ready example_buffer 0 = Inr 1 \<and>
   (\<exists>bb'. tcp_block_buffer_remove_front example_buffer 1 = Inr bb' \<and> bb_list bb' = [(5, 1, Some 4)])"
proof -
  have "bb_invar example_buffer" "bb_list example_buffer = [(1, 1, Some 3), (5, 1, Some 4)]"
    by code_simp+
  with block_ready_and_remove [of example_buffer 0 1] show ?thesis by auto
qed

text \<open>With the allocation as requested the first store of \<^verbatim>\<open>create_tcp_block_buffer\<close> is outside it; if
  there is unused memory for a block behind it, the result is an empty buffer whose free list ends
  with the block outside.\<close>

theorem block_buffer_needs_slack:
  "if slack = 0 then create_tcp_block_buffer slack m = Inl Out_of_bounds
   else \<exists>bb. create_tcp_block_buffer slack m = Inr bb \<and> bb_invar bb \<and> bb_list bb = [] \<and> within_alloc bb"
  using create_correct [of slack m] by (simp add: create_overflows)

end
