(* ===== verification/Tcp_Socket.thy ===== *)
theory Tcp_Socket
  imports Arp Tcp_Shared Tcp_Block_Buffer
begin

text \<open>
  \<^verbatim>\<open>handlers/tcp/socket.c\<close> and the data of \<^verbatim>\<open>handlers/tcp/socket.h\<close>: sockets, transmission
  control blocks and the operations on them.

  Sockets and control blocks are shared by pointer, so both live in stores: \<open>sockets\<close> (never
  freed by the code) and \<open>tcbs\<close>, where a freed block is \<open>None\<close> and every later access to it is
  the fault \<open>Dangling\<close>. \<open>client_args\<close> holds the \<^verbatim>\<open>socket_client_args\<close> objects of the
  programs. What \<^verbatim>\<open>malloc\<close> leaves in a fresh control block is \<open>malloc_tcb\<close>, so a field that
  the code does not initialise (\<^verbatim>\<open>active_mode\<close>, the bytes of \<^verbatim>\<open>out_header\<close>) keeps that
  content. \<open>malloc_slack\<close> is the number of blocks that fit behind the allocation of a block buffer.
  The \<^verbatim>\<open>on_connect\<close> and \<^verbatim>\<open>on_close\<close> callbacks belong to the programs: a call is recorded
  in \<open>callbacks\<close>. Locks have no counterpart, as one worker runs at a time.
\<close>

section \<open>Data\<close>

datatype state_fun = Tcp_close | Tcp_listen | Tcp_syn_sent | Tcp_others

record tcb_t =
  tcb_id :: u32
  remote_ipv4 :: u32
  own_ipv4 :: u32
  tcb_remote_port :: u16
  own_port :: u16
  send_unacknowledged :: u32
  send_next :: u32
  send_window :: u16
  send_urgent_pointer :: u16
  send_initial_sequence_num :: u32
  send_last_update_sequence_num :: u32
  send_last_update_acknowledgement_num :: u32
  receive_next :: u32
  receive_window :: u16
  receive_urgent_pointer :: u16
  receive_initial_sequence_num :: u32
  fin_num :: u32
  tcb_state :: TCP_STATE
  active_mode :: bool
  active_mode_args :: "nat option"
  tcb_out_buffer :: tcp_block_buffer_t
  tcb_in_buffer :: tcp_block_buffer_t
  out_header :: mem8
  state_function :: state_fun

record tcp_socket_t =
  sk_port :: u16
  sk_ipv4 :: u32
  trans_control_block :: "nat option list"
  sk_on_connect :: "nat option"
  sk_on_close :: "nat option"
  sk_interface :: interface_t
  sk_next_handler :: "handler option"

record tcp_mem = arp_mem +
  tcp_window :: int
  tcp_sockets :: "nat option list"
  sockets :: "tcp_socket_t list"
  tcbs :: "tcb_t option list"
  client_args :: "nat \<Rightarrow> socket_client_args option"
  seq_x :: int
  malloc_slack :: nat
  malloc_tcb :: "nat \<Rightarrow> tcb_t"
  callbacks :: "nat list"

definition TCP_SOCKET_NUM_TCB :: nat where "TCP_SOCKET_NUM_TCB = 32"

section \<open>Access to the stores\<close>

definition sock_at :: "'a tcp_mem_scheme \<Rightarrow> nat \<Rightarrow> fault + tcp_socket_t" where
  "sock_at s k = (if k < length (sockets s) then Inr (sockets s ! k) else Inl Dangling)"

definition put_sock :: "nat \<Rightarrow> tcp_socket_t \<Rightarrow> 'a tcp_mem_scheme \<Rightarrow> 'a tcp_mem_scheme" where
  "put_sock k sk s = s\<lparr>sockets := (sockets s)[k := sk]\<rparr>"

definition tcb_at :: "'a tcp_mem_scheme \<Rightarrow> nat \<Rightarrow> fault + tcb_t" where
  "tcb_at s t = (if t < length (tcbs s) then live (tcbs s ! t) else Inl Dangling)"

definition put_tcb :: "nat \<Rightarrow> tcb_t \<Rightarrow> 'a tcp_mem_scheme \<Rightarrow> 'a tcp_mem_scheme" where
  "put_tcb t tcb s = s\<lparr>tcbs := (tcbs s)[t := Some tcb]\<rparr>"

text \<open>An assignment through a pointer to a control block.\<close>

definition mod_tcb :: "nat \<Rightarrow> (tcb_t \<Rightarrow> tcb_t) \<Rightarrow> 'a tcp_mem_scheme \<Rightarrow> fault + 'a tcp_mem_scheme" where
  "mod_tcb t f s = sbind (tcb_at s t) (\<lambda>tcb. Inr (put_tcb t (f tcb) s))"

section \<open>Control blocks\<close>

definition delete_transmission_control_block ::
  "nat \<Rightarrow> 'a tcp_mem_scheme \<Rightarrow> fault + 'a tcp_mem_scheme" where
  "delete_transmission_control_block t s =
     sbind (tcb_at s t) (\<lambda>_. Inr (s\<lparr>tcbs := (tcbs s)[t := None]\<rparr>))"

definition state_function_of :: "TCP_STATE \<Rightarrow> state_fun" where
  "state_function_of state =
     (case state of LISTEN \<Rightarrow> Tcp_listen | SYN_SENT \<Rightarrow> Tcp_syn_sent | CLOSED \<Rightarrow> Tcp_close | _ \<Rightarrow> Tcp_others)"

definition tcp_create_transmission_control_block ::
  "u32 \<Rightarrow> tcp_header_t option \<Rightarrow> u32 \<Rightarrow> TCP_STATE \<Rightarrow> 'a tcp_mem_scheme \<Rightarrow>
   fault + (nat \<times> 'a tcp_mem_scheme)" where
  "tcp_create_transmission_control_block connection_id initial_header source_ip state s =
     sbind (tcp_shared_generate_sequence_number (seq_x s)) (\<lambda>(iss, x).
     sbind (create_tcp_block_buffer (malloc_slack s) 10) (\<lambda>in_buffer.
     sbind (create_tcp_block_buffer (malloc_slack s) 10) (\<lambda>out_buffer.
     let t = length (tcbs s);
         irs = (case initial_header of None \<Rightarrow> 0 | Some h \<Rightarrow> ntohl (th_sequence_num h));
         tcb = (malloc_tcb s t)
           \<lparr>tcb_id := connection_id, remote_ipv4 := source_ip,
            tcb_remote_port := (case initial_header of None \<Rightarrow> 0 | Some h \<Rightarrow> th_source_port h),
            send_initial_sequence_num := iss, send_next := iss,
            send_window := (case initial_header of None \<Rightarrow> 0 | Some h \<Rightarrow> th_window h),
            send_unacknowledged := 0, send_urgent_pointer := 0,
            send_last_update_sequence_num := 0, send_last_update_acknowledgement_num := 0,
            receive_initial_sequence_num := irs, receive_window := of_int (tcp_window s),
            receive_urgent_pointer :=
              (case initial_header of None \<Rightarrow> 0 | Some h \<Rightarrow> th_urgent_pointer h),
            receive_next := irs, fin_num := 0,
            tcb_in_buffer := in_buffer, tcb_out_buffer := out_buffer,
            tcb_state := state, state_function := state_function_of state\<rparr>
     in Inr (t, s\<lparr>seq_x := x, tcbs := tcbs s @ [Some tcb]\<rparr>))))"

text \<open>The first empty slot takes the block; when there is none, nothing happens.\<close>

fun fill_slot :: "nat option list \<Rightarrow> nat \<Rightarrow> nat option list" where
  "fill_slot [] t = []"
| "fill_slot (None # ts) t = Some t # ts"
| "fill_slot (Some u # ts) t = Some u # fill_slot ts t"

definition tcp_add_transmission_control_block ::
  "nat \<Rightarrow> nat \<Rightarrow> 'a tcp_mem_scheme \<Rightarrow> fault + 'a tcp_mem_scheme" where
  "tcp_add_transmission_control_block k t s =
     sbind (sock_at s k) (\<lambda>sk.
       Inr (put_sock k (sk\<lparr>trans_control_block := fill_slot (trans_control_block sk) t\<rparr>) s))"

fun find_tcb :: "'a tcp_mem_scheme \<Rightarrow> nat option list \<Rightarrow> u32 \<Rightarrow> fault + nat option" where
  "find_tcb s [] connection_id = Inr None"
| "find_tcb s (None # ts) connection_id = find_tcb s ts connection_id"
| "find_tcb s (Some t # ts) connection_id =
     sbind (tcb_at s t) (\<lambda>tcb.
       if tcb_id tcb = connection_id then Inr (Some t) else find_tcb s ts connection_id)"

definition tcp_get_transmission_control_block ::
  "nat \<Rightarrow> u32 \<Rightarrow> 'a tcp_mem_scheme \<Rightarrow> fault + nat option" where
  "tcp_get_transmission_control_block k connection_id s =
     sbind (sock_at s k) (\<lambda>sk. find_tcb s (trans_control_block sk) connection_id)"

text \<open>The loop over the slots \<open>i\<close>, ...: every block with the identifier goes.\<close>

primrec delete_tcbs ::
  "nat list \<Rightarrow> nat \<Rightarrow> u32 \<Rightarrow> 'a tcp_mem_scheme \<Rightarrow> fault + 'a tcp_mem_scheme" where
  "delete_tcbs [] k connection_id s = Inr s"
| "delete_tcbs (i # is) k connection_id s =
     sbind (sock_at s k) (\<lambda>sk.
     sbind (idx (trans_control_block sk) i) (\<lambda>t.
     case t of
       None \<Rightarrow> delete_tcbs is k connection_id s
     | Some t \<Rightarrow>
         sbind (tcb_at s t) (\<lambda>tcb.
         if tcb_id tcb = connection_id then
           sbind (delete_transmission_control_block t s) (\<lambda>s.
             delete_tcbs is k connection_id
               (put_sock k (sk\<lparr>trans_control_block := (trans_control_block sk)[i := None]\<rparr>) s))
         else delete_tcbs is k connection_id s)))"

definition tcp_delete_transmission_control_block ::
  "nat \<Rightarrow> u32 \<Rightarrow> 'a tcp_mem_scheme \<Rightarrow> fault + 'a tcp_mem_scheme" where
  "tcp_delete_transmission_control_block k connection_id s =
     delete_tcbs [0..<TCP_SOCKET_NUM_TCB] k connection_id s"

section \<open>Sockets\<close>

fun find_socket :: "'a tcp_mem_scheme \<Rightarrow> nat option list \<Rightarrow> u32 \<Rightarrow> u16 \<Rightarrow> fault + nat option" where
  "find_socket s [] ipv4 port = Inr None"
| "find_socket s (None # ks) ipv4 port = Inr None"
| "find_socket s (Some k # ks) ipv4 port =
     sbind (sock_at s k) (\<lambda>sk.
       if sk_port sk = port \<and> sk_ipv4 sk = ipv4 then Inr (Some k) else find_socket s ks ipv4 port)"

definition tcp_get_socket :: "u32 \<Rightarrow> u16 \<Rightarrow> 'a tcp_mem_scheme \<Rightarrow> fault + nat option" where
  "tcp_get_socket ipv4 port s = find_socket s (tcp_sockets s) ipv4 port"

primrec free_tcbs :: "nat option list \<Rightarrow> 'a tcp_mem_scheme \<Rightarrow> fault + 'a tcp_mem_scheme" where
  "free_tcbs [] s = Inr s"
| "free_tcbs (t # ts) s =
     (case t of
        None \<Rightarrow> free_tcbs ts s
      | Some t \<Rightarrow> sbind (delete_transmission_control_block t s) (free_tcbs ts))"

definition tcp_delete_socket :: "nat \<Rightarrow> 'a tcp_mem_scheme \<Rightarrow> fault + 'a tcp_mem_scheme" where
  "tcp_delete_socket k s = sbind (sock_at s k) (\<lambda>sk. free_tcbs (trans_control_block sk) s)"

text \<open>
  The socket goes into the first empty slot but the last, and the slot behind it is cleared,
  so that the list stays terminated although \<^verbatim>\<open>tcp_init_handler\<close> does not clear it.
\<close>

fun socket_slot :: "nat option list \<Rightarrow> nat \<Rightarrow> nat option" where
  "socket_slot [] i = None"
| "socket_slot (None # ks) i = Some i"
| "socket_slot (Some k # ks) i = socket_slot ks (Suc i)"

definition tcp_add_socket :: "nat \<Rightarrow> 'a tcp_mem_scheme \<Rightarrow> fault + (bool \<times> 'a tcp_mem_scheme)" where
  "tcp_add_socket k s =
     (case socket_slot (take (SOCKET_BUFFER_SIZE - 1) (tcp_sockets s)) 0 of
        None \<Rightarrow> Inr (False, s)
      | Some i \<Rightarrow>
          sbind (upd (tcp_sockets s) i (Some k)) (\<lambda>ks.
          sbind (upd ks (i + 1) None) (\<lambda>ks.
            Inr (True, s\<lparr>tcp_sockets := ks\<rparr>))))"

definition tcp_create_socket ::
  "nat option list \<Rightarrow> interface_t \<Rightarrow> handler option \<Rightarrow> u16 \<Rightarrow> u32 \<Rightarrow> nat option \<Rightarrow> nat option \<Rightarrow>
   'a tcp_mem_scheme \<Rightarrow> nat \<times> 'a tcp_mem_scheme" where
  "tcp_create_socket raw_tcbs ifc next_handler port ipv4 on_connect on_close s =
     (length (sockets s), s\<lparr>sockets := sockets s @
        [\<lparr>sk_port = port, sk_ipv4 = ipv4, trans_control_block = raw_tcbs,
          sk_on_connect = on_connect, sk_on_close = on_close, sk_interface = ifc,
          sk_next_handler = next_handler\<rparr>]\<rparr>)"

section \<open>Opening a connection and sending\<close>

text \<open>
  Both functions store their \<^verbatim>\<open>tcp_args\<close> in the arguments object of the connection, at its
  topmost layer, and build the outgoing stack from it.
\<close>

definition set_top_args ::
  "nat option \<Rightarrow> write_args \<Rightarrow> 'a tcp_mem_scheme \<Rightarrow> fault + (socket_client_args \<times> 'a tcp_mem_scheme)" where
  "set_top_args args a s =
     sbind (deref args) (\<lambda>c.
     sbind (live (client_args s c)) (\<lambda>ca.
     if ca_depth ca = 0 then Inl Out_of_bounds
     else sbind (upd (ca_handler_args ca) (unat (ca_depth ca) - 1) (Some a)) (\<lambda>as.
       let ca = ca\<lparr>ca_handler_args := as\<rparr>
       in Inr (ca, s\<lparr>client_args := (client_args s)(c := Some ca)\<rparr>))))"

definition tcp_socket_connect ::
  "'a tcp_mem_scheme writer \<Rightarrow> handler \<Rightarrow> nat \<Rightarrow> nat option \<Rightarrow> u32 \<Rightarrow> u16 \<Rightarrow> 'a tcp_mem_scheme \<Rightarrow>
   fault + (u32 \<times> 'a tcp_mem_scheme)" where
  "tcp_socket_connect wr h k tcp_active_mode_args remote_ip remote_port s =
     sbind (sock_at s k) (\<lambda>sk.
     let connection_id = tcp_shared_calculate_connection_id remote_ip remote_port (sk_port sk);
         initial_header = \<lparr>th_source_port = remote_port, th_destination_port = 0,
           th_sequence_num = 0, th_acknowledgement_num = 0, th_data_offset = 0,
           th_control_bits = 0, th_window = 0, th_checksum = 0, th_urgent_pointer = 0\<rparr> in
     sbind (tcp_create_transmission_control_block connection_id (Some initial_header) remote_ip SYN_SENT s) (\<lambda>(t, s).
     sbind (mod_tcb t (\<lambda>tcb. tcb\<lparr>active_mode := True, active_mode_args := tcp_active_mode_args\<rparr>) s) (\<lambda>s.
     sbind (set_top_args tcp_active_mode_args (Tcp_args
         \<lparr>ta_connection_id = connection_id, ta_socket = Some k, ta_flags = TCP_SYN_FLAG\<rparr>) s) (\<lambda>(ca, s).
     let (out, s) = new_out_stack (ca_handlers ca) (ca_handler_args ca) DEFAULT_PACKAGE_BUFFER_SIZE
       (ca_depth ca - 1) s in
     sbind (tcp_add_transmission_control_block k t s) (\<lambda>s.
     sbind (wr h out (sk_interface sk) s) (\<lambda>(ok, s).
     if \<not> ok then Inr (0, s)
     else sbind (mod_tcb t (\<lambda>tcb. tcb\<lparr>send_next := send_next tcb + 1\<rparr>) s) (\<lambda>s.
       Inr (connection_id, s))))))))"

definition tcp_socket_send ::
  "'a tcp_mem_scheme writer \<Rightarrow> nat \<Rightarrow> u32 \<Rightarrow> u8 list \<Rightarrow> 'a tcp_mem_scheme \<Rightarrow>
   fault + (bool \<times> 'a tcp_mem_scheme)" where
  "tcp_socket_send wr k connection_id payload s =
     sbind (tcp_get_transmission_control_block k connection_id s) (\<lambda>t.
     sbind (deref t) (\<lambda>t.
     sbind (tcb_at s t) (\<lambda>tcb.
     sbind (set_top_args (active_mode_args tcb) (Tcp_args
         \<lparr>ta_connection_id = connection_id, ta_socket = Some k,
          ta_flags = TCP_ACK_FLAG OR TCP_PSH_FLAG\<rparr>) s) (\<lambda>(ca, s).
     sbind (idx (ca_handlers ca) (unat (ca_depth ca) - 1)) (\<lambda>h.
     sbind (deref h) (\<lambda>h.
     if unat DEFAULT_PACKAGE_BUFFER_SIZE < length payload then Inl Out_of_bounds
     else
       let (out, s) = new_out_stack (ca_handlers ca) (ca_handler_args ca)
             (DEFAULT_PACKAGE_BUFFER_SIZE - of_nat (length payload)) (ca_depth ca - 1) s in
       sbind (out_at s out) (\<lambda>ps.
       sbind (sock_at s k) (\<lambda>sk.
         let b = out_buffer ps;
             ps = ps\<lparr>out_buffer := b\<lparr>buffer := store_bytes (buffer b) (unat (ob_offset b)) payload\<rparr>\<rparr>
         in wr h out (sk_interface sk) (put_out out ps s)))))))))"

section \<open>The handler's private data\<close>

text \<open>
  \<^verbatim>\<open>tcp_init_handler\<close> allocates the socket list without clearing it; \<open>raw_sockets\<close> is what
  the memory holds. A missing configuration is reported and then dereferenced.
\<close>

definition tcp_init_handler ::
  "nat option list \<Rightarrow> int option \<Rightarrow> 'a tcp_mem_scheme \<Rightarrow> fault + 'a tcp_mem_scheme" where
  "tcp_init_handler raw_sockets config s =
     sbind (deref config) (\<lambda>window. Inr (s\<lparr>tcp_window := window, tcp_sockets := raw_sockets\<rparr>))"

definition tcp_create_handler :: "'a ip_mem_scheme \<Rightarrow> fault + (handler \<times> 'a ip_mem_scheme)" where
  "tcp_create_handler s =
     sbind (add_value (ip_type_to_handler s) 6 (Some H_tcp))
       (\<lambda>(_, m). Inr (H_tcp, s\<lparr>ip_type_to_handler := m\<rparr>))"

section \<open>Lemmas on the stores\<close>

lemma tcp_mem_select [simp]:
  "tcp_sockets (put_in p ps s) = tcp_sockets s"
  "tcp_sockets (put_out p qs s) = tcp_sockets s"
  "sockets (put_in p ps s) = sockets s"
  "sockets (put_out p qs s) = sockets s"
  "tcbs (put_in p ps s) = tcbs s"
  "tcbs (put_out p qs s) = tcbs s"
  "client_args (put_in p ps s) = client_args s"
  "client_args (put_out p qs s) = client_args s"
  "seq_x (put_in p ps s) = seq_x s"
  "seq_x (put_out p qs s) = seq_x s"
  "callbacks (put_in p ps s) = callbacks s"
  "callbacks (put_out p qs s) = callbacks s"
  by (simp_all add: put_in_def put_out_def)

lemma tcp_mem_update [simp]:
  "in_at (tcp_sockets_update g_tcp_sockets s) p = in_at s p"
  "out_at (tcp_sockets_update g_tcp_sockets s) p = out_at s p"
  "put_in p ps (tcp_sockets_update g_tcp_sockets s) = tcp_sockets_update g_tcp_sockets (put_in p ps s)"
  "put_out p qs (tcp_sockets_update g_tcp_sockets s) = tcp_sockets_update g_tcp_sockets (put_out p qs s)"
  "in_at (sockets_update g_sockets s) p = in_at s p"
  "out_at (sockets_update g_sockets s) p = out_at s p"
  "put_in p ps (sockets_update g_sockets s) = sockets_update g_sockets (put_in p ps s)"
  "put_out p qs (sockets_update g_sockets s) = sockets_update g_sockets (put_out p qs s)"
  "in_at (tcbs_update g_tcbs s) p = in_at s p"
  "out_at (tcbs_update g_tcbs s) p = out_at s p"
  "put_in p ps (tcbs_update g_tcbs s) = tcbs_update g_tcbs (put_in p ps s)"
  "put_out p qs (tcbs_update g_tcbs s) = tcbs_update g_tcbs (put_out p qs s)"
  "in_at (client_args_update g_client_args s) p = in_at s p"
  "out_at (client_args_update g_client_args s) p = out_at s p"
  "put_in p ps (client_args_update g_client_args s) = client_args_update g_client_args (put_in p ps s)"
  "put_out p qs (client_args_update g_client_args s) = client_args_update g_client_args (put_out p qs s)"
  "in_at (seq_x_update g_seq_x s) p = in_at s p"
  "out_at (seq_x_update g_seq_x s) p = out_at s p"
  "put_in p ps (seq_x_update g_seq_x s) = seq_x_update g_seq_x (put_in p ps s)"
  "put_out p qs (seq_x_update g_seq_x s) = seq_x_update g_seq_x (put_out p qs s)"
  "in_at (callbacks_update g_callbacks s) p = in_at s p"
  "out_at (callbacks_update g_callbacks s) p = out_at s p"
  "put_in p ps (callbacks_update g_callbacks s) = callbacks_update g_callbacks (put_in p ps s)"
  "put_out p qs (callbacks_update g_callbacks s) = callbacks_update g_callbacks (put_out p qs s)"
  by (simp_all add: put_in_def put_out_def in_at_def out_at_def)

lemma tcp_mem_constants [simp]:
  "tcp_window (put_in p ps s) = tcp_window s" "tcp_window (put_out p qs s) = tcp_window s"
  "malloc_slack (put_in p ps s) = malloc_slack s" "malloc_slack (put_out p qs s) = malloc_slack s"
  "malloc_tcb (put_in p ps s) = malloc_tcb s" "malloc_tcb (put_out p qs s) = malloc_tcb s"
  by (simp_all add: put_in_def put_out_def)

lemma tcb_at_frame [simp]:
  "tcb_at (put_in p ps s) t = tcb_at s t" "tcb_at (put_out p qs s) t = tcb_at s t"
  "tcb_at (put_sock k sk s) t = tcb_at s t" "tcb_at (callbacks_update g_callbacks s) t = tcb_at s t"
  "tcb_at (in_stacks_update g1 s) t = tcb_at s t" "tcb_at (out_stacks_update g2 s) t = tcb_at s t"
  "tcb_at (ethernet_type_to_handler_update g3 s) t = tcb_at s t"
  "tcb_at (ip_type_to_handler_update g4 s) t = tcb_at s t"
  by (simp_all add: tcb_at_def put_sock_def)

lemma sock_at_frame [simp]:
  "sock_at (put_in p ps s) k = sock_at s k" "sock_at (put_out p qs s) k = sock_at s k"
  "sock_at (put_tcb t tcb s) k = sock_at s k" "sock_at (callbacks_update g_callbacks s) k = sock_at s k"
  "sock_at (in_stacks_update g1 s) k = sock_at s k" "sock_at (out_stacks_update g2 s) k = sock_at s k"
  "sock_at (ethernet_type_to_handler_update g3 s) k = sock_at s k"
  "sock_at (ip_type_to_handler_update g4 s) k = sock_at s k"
  "sock_at (tcbs_update g5 s) k = sock_at s k" "sock_at (seq_x_update g6 s) k = sock_at s k"
  by (simp_all add: sock_at_def put_tcb_def)

lemma put_tcb_select [simp]:
  "in_stacks (put_tcb t tcb s) = in_stacks s" "out_stacks (put_tcb t tcb s) = out_stacks s"
  "in_at (put_tcb t tcb s) p = in_at s p" "out_at (put_tcb t tcb s) p = out_at s p"
  "tcp_sockets (put_tcb t tcb s) = tcp_sockets s" "sockets (put_tcb t tcb s) = sockets s"
  "callbacks (put_tcb t tcb s) = callbacks s" "length (tcbs (put_tcb t tcb s)) = length (tcbs s)"
  "seq_x (put_tcb t tcb s) = seq_x s" "resolution_list (put_tcb t tcb s) = resolution_list s"
  by (simp_all add: put_tcb_def in_at_def out_at_def)

lemma tcb_at_put_tcb [simp]:
  "t < length (tcbs s) \<Longrightarrow> tcb_at (put_tcb t tcb s) t = Inr tcb"
  "t \<noteq> u \<Longrightarrow> tcb_at (put_tcb t tcb s) u = tcb_at s u"
  by (simp_all add: tcb_at_def put_tcb_def)

lemma in_at_out_stacks [simp]: "in_at (out_stacks_update g s) p = in_at s p"
  by (simp add: in_at_def)

lemma put_tcb_put_tcb [simp]: "put_tcb t tcb (put_tcb t tcb' s) = put_tcb t tcb s"
  by (simp add: put_tcb_def)

lemma tcb_at_valid: "tcb_at s t = Inr tcb \<Longrightarrow> t < length (tcbs s)"
  by (simp add: tcb_at_def split: if_splits)

lemma mod_tcb_at [simp]: "tcb_at s t = Inr tcb \<Longrightarrow> mod_tcb t f s = Inr (put_tcb t (f tcb) s)"
  by (simp add: mod_tcb_def)

lemma put_tcb_commute [simp]:
  "put_out p qs (put_tcb t tcb s) = put_tcb t tcb (put_out p qs s)"
  "put_in p ps (put_tcb t tcb s) = put_tcb t tcb (put_in p ps s)"
  "out_stacks_update g (put_tcb t tcb s) = put_tcb t tcb (out_stacks_update g s)"
  by (simp_all add: put_tcb_def)

section \<open>Lookup\<close>

lemma find_tcb_cong: "tcbs s' = tcbs s \<Longrightarrow> find_tcb s' ts c = find_tcb s ts c"
proof (induction ts)
  case (Cons t ts)
  then show ?case by (cases t) (simp_all add: tcb_at_def cong: if_cong)
qed simp

lemma get_tcb_cong:
  "tcbs s' = tcbs s \<Longrightarrow> sockets s' = sockets s \<Longrightarrow>
   tcp_get_transmission_control_block k c s' = tcp_get_transmission_control_block k c s"
  by (simp add: tcp_get_transmission_control_block_def sock_at_def find_tcb_cong [of s' s])

text \<open>Changing a control block without its identifier changes no lookup.\<close>

lemma find_tcb_put_tcb:
  assumes "tcb_at s t = Inr tcb" and "tcb_id tcb' = tcb_id tcb"
  shows "find_tcb (put_tcb t tcb' s) ts c = find_tcb s ts c"
proof (induction ts)
  case (Cons u ts)
  have "t < length (tcbs s)" using assms(1) by (rule tcb_at_valid)
  show ?case
  proof (cases u)
    case (Some v)
    with Cons assms \<open>t < length (tcbs s)\<close> show ?thesis by (cases "v = t") (simp_all cong: if_cong)
  qed (simp add: Cons)
qed simp

lemma get_tcb_put_tcb:
  assumes "tcb_at s t = Inr tcb" and "tcb_id tcb' = tcb_id tcb"
  shows "tcp_get_transmission_control_block k c (put_tcb t tcb' s) = tcp_get_transmission_control_block k c s"
  by (simp add: tcp_get_transmission_control_block_def find_tcb_put_tcb [OF assms])

lemma find_socket_cong: "sockets s' = sockets s \<Longrightarrow> find_socket s' ks ip port = find_socket s ks ip port"
proof (induction ks)
  case (Cons k ks)
  then show ?case by (cases k) (simp_all add: sock_at_def cong: if_cong)
qed simp

lemma get_socket_cong:
  "sockets s' = sockets s \<Longrightarrow> tcp_sockets s' = tcp_sockets s \<Longrightarrow>
   tcp_get_socket ip port s' = tcp_get_socket ip port s"
  by (simp add: tcp_get_socket_def find_socket_cong [of s' s])

text \<open>A fresh control block, put into a socket that has a free slot and no block with its
  identifier, is found.\<close>

lemma find_tcb_append:
  assumes "find_tcb s ts c = Inr r"
  shows "find_tcb (s\<lparr>tcbs := tcbs s @ xs\<rparr>) ts c = Inr r"
  using assms
proof (induction ts)
  case (Cons t ts)
  then show ?case by (cases t) (auto simp: tcb_at_def nth_append split: if_splits)
qed simp

lemma find_tcb_fill_slot:
  assumes "find_tcb s ts (tcb_id tcb) = Inr None" and "None \<in> set ts" and "tcb_at s t = Inr tcb"
  shows "find_tcb s (fill_slot ts t) (tcb_id tcb) = Inr (Some t)"
  using assms
proof (induction ts)
  case (Cons u ts)
  then show ?case by (cases u) (auto split: if_splits)
qed simp

lemma find_socket_put_sock:
  assumes "sock_at s k = Inr sk" and "sk_port sk' = sk_port sk" and "sk_ipv4 sk' = sk_ipv4 sk"
  shows "find_socket (put_sock k sk' s) ks ip port = find_socket s ks ip port"
proof (induction ks)
  case (Cons j ks)
  have k: "k < length (sockets s)" and sk: "sockets s ! k = sk"
    using assms(1) by (auto simp: sock_at_def split: if_splits)
  show ?case
  proof (cases j)
    case (Some i)
    with Cons assms k sk show ?thesis
      by (cases "i = k") (simp_all add: sock_at_def put_sock_def cong: if_cong)
  qed simp
qed simp

lemma sock_at_put_sock: "sock_at s k = Inr sk \<Longrightarrow> sock_at (put_sock k sk' s) k = Inr sk'"
  by (auto simp: sock_at_def put_sock_def split: if_splits)

lemma put_sock_select [simp]:
  "tcbs (put_sock k sk s) = tcbs s" "in_at (put_sock k sk s) p = in_at s p"
  "tcp_sockets (put_sock k sk s) = tcp_sockets s" "length (sockets (put_sock k sk s)) = length (sockets s)"
  "seq_x (put_sock k sk s) = seq_x s" "callbacks (put_sock k sk s) = callbacks s"
  by (simp_all add: put_sock_def in_at_def)

section \<open>A new control block\<close>

text \<open>With the allocation of the block buffer as it is requested, there is none.\<close>

lemma tcp_create_overflows:
  assumes "seq_x s + 142 < 2 ^ 31" and "malloc_slack s = 0"
  shows "tcp_create_transmission_control_block cid hdr ip st s = Inl Out_of_bounds"
  using assms
  by (simp add: tcp_create_transmission_control_block_def tcp_shared_generate_sequence_number_def create_overflows)

lemma tcp_create_new:
  assumes "seq_x s + 142 < 2 ^ 31" and "0 < malloc_slack s"
  obtains tcb where
    "tcp_create_transmission_control_block cid (Some hdr) ip st s =
       Inr (length (tcbs s), s\<lparr>seq_x := seq_x s + 100, tcbs := tcbs s @ [Some tcb]\<rparr>)"
    and "tcb_id tcb = cid" and "tcb_remote_port tcb = th_source_port hdr" and "remote_ipv4 tcb = ip"
    and "send_initial_sequence_num tcb = of_int (seq_x s + 142)"
    and "send_window tcb = th_window hdr" and "receive_next tcb = ntohl (th_sequence_num hdr)"
    and "receive_window tcb = of_int (tcp_window s)" and "tcb_state tcb = st"
    and "state_function tcb = state_function_of st"
    and "bb_invar (tcb_in_buffer tcb)" and "bb_list (tcb_in_buffer tcb) = []"
    and "bb_invar (tcb_out_buffer tcb)" and "bb_list (tcb_out_buffer tcb) = []"
    and "out_header tcb = out_header (malloc_tcb s (length (tcbs s)))"
    and "send_next tcb = of_int (seq_x s + 142)"
proof -
  obtain bb where bb: "create_tcp_block_buffer (malloc_slack s) 10 = Inr bb" "bb_invar bb" "bb_list bb = []"
    using create_correct [OF assms(2)] by blast
  let ?tcb = "(malloc_tcb s (length (tcbs s)))
           \<lparr>tcb_id := cid, remote_ipv4 := ip, tcb_remote_port := th_source_port hdr,
            send_initial_sequence_num := of_int (seq_x s + 142), send_next := of_int (seq_x s + 142),
            send_window := th_window hdr, send_unacknowledged := 0, send_urgent_pointer := 0,
            send_last_update_sequence_num := 0, send_last_update_acknowledgement_num := 0,
            receive_initial_sequence_num := ntohl (th_sequence_num hdr),
            receive_window := of_int (tcp_window s), receive_urgent_pointer := th_urgent_pointer hdr,
            receive_next := ntohl (th_sequence_num hdr), fin_num := 0,
            tcb_in_buffer := bb, tcb_out_buffer := bb,
            tcb_state := st, state_function := state_function_of st\<rparr>"
  have "tcp_create_transmission_control_block cid (Some hdr) ip st s =
       Inr (length (tcbs s), s\<lparr>seq_x := seq_x s + 100, tcbs := tcbs s @ [Some ?tcb]\<rparr>)"
    using assms(1) bb(1)
    by (simp add: tcp_create_transmission_control_block_def tcp_shared_generate_sequence_number_def
        Let_def add.commute [of 42])
  with that [of ?tcb] bb show thesis by simp
qed

end
