(* ===== verification/Tcp_Output.thy ===== *)
theory Tcp_Output
  imports Tcp_Socket
begin

text \<open>
  \<^verbatim>\<open>tcp_write\<close> of \<^verbatim>\<open>handlers/tcp/tcp.c\<close>: the header is built in the control block's
  \<^verbatim>\<open>out_header\<close>, copied in front of the payload, the stack is queued in the connection's
  output buffer, and then the queue is sent from its front while the blocks fit the remote
  window.

  \<^verbatim>\<open>out_header\<close> is a byte memory: a checksum over more than its 60 bytes reads what follows
  it in the control block. The sending loop runs at most once per queued block unless the
  layers below queue more, so it gets 12 rounds of fuel, one more than a buffer has cells.
\<close>

section \<open>Operations\<close>

text \<open>The header as stored before the checksum is computed (lines 119 to 132).\<close>

definition tcp_out_header :: "tcb_t \<Rightarrow> tcp_socket_t \<Rightarrow> u8 \<Rightarrow> u64 \<Rightarrow> tcp_header_t" where
  "tcp_out_header tcb sk flags payload_size =
     \<lparr>th_source_port = sk_port sk, th_destination_port = tcb_remote_port tcb,
      th_sequence_num = htonl (send_next tcb), th_acknowledgement_num = htonl (receive_next tcb),
      th_data_offset = 0x50,
      th_control_bits = (if payload_size \<noteq> 0 then flags OR TCP_PSH_FLAG else flags),
      th_window = htons (receive_window tcb),
      th_checksum = load16 (out_header tcb) 16, th_urgent_pointer = 0\<rparr>"

definition tcp_final_header :: "tcb_t \<Rightarrow> tcp_socket_t \<Rightarrow> u8 \<Rightarrow> u64 \<Rightarrow> tcp_header_t" where
  "tcp_final_header tcb sk flags payload_size =
     (let header = tcp_out_header tcb sk flags payload_size;
          m = store_bytes (out_header tcb) 0 (tcp_header_bytes header)
      in header\<lparr>th_checksum := calculate_tcp_checksum m 0 (sk_ipv4 sk) (remote_ipv4 tcb) (ucast payload_size)\<rparr>)"

fun tcp_send_loop ::
  "nat \<Rightarrow> 'a tcp_mem_scheme writer \<Rightarrow> nat \<Rightarrow> nat \<Rightarrow> interface_t \<Rightarrow> 'a tcp_mem_scheme \<Rightarrow>
   fault + (bool \<times> 'a tcp_mem_scheme)" where
  "tcp_send_loop 0 wr p t ifc s = Inl No_return"
| "tcp_send_loop (Suc fuel) wr p t ifc s =
     sbind (tcb_at s t) (\<lambda>tcb.
     case tcp_block_buffer_get_head (tcb_out_buffer tcb) of
       None \<Rightarrow> Inr (True, s)
     | Some buffer_block \<Rightarrow>
         sbind (idx (cells (tcb_out_buffer tcb)) buffer_block) (\<lambda>b.
         sbind (deref (blk_data b)) (\<lambda>q.
         if unat (blk_payload_size b) \<le> unat (ntohs (send_window tcb)) then
           sbind (out_at s q) (\<lambda>qs.
           sbind (out_at s p) (\<lambda>ps.
           let i = out_stack_idx ps - 1; s = put_out p (ps\<lparr>out_stack_idx := i\<rparr>) s in
           sbind (idx (out_handlers qs) (unat i)) (\<lambda>next_handler.
           sbind (deref next_handler) (\<lambda>next_handler.
           sbind (wr next_handler q ifc s) (\<lambda>(ok, s).
           if \<not> ok then Inr (False, s)
           else sbind (tcb_at s t) (\<lambda>tcb.
             sbind (tcp_block_buffer_remove_front (tcb_out_buffer tcb) 1) (\<lambda>bb.
               tcp_send_loop fuel wr p t ifc (put_tcb t (tcb\<lparr>tcb_out_buffer := bb\<rparr>) s))))))))
         else Inr (True, s))))"

definition tcp_write ::
  "'a tcp_mem_scheme writer \<Rightarrow> nat \<Rightarrow> interface_t \<Rightarrow> 'a tcp_mem_scheme \<Rightarrow>
   fault + (bool \<times> 'a tcp_mem_scheme)" where
  "tcp_write wr p ifc s =
     sbind (out_at s p) (\<lambda>ps.
     sbind (current_args ps) (\<lambda>a.
     if out_stack_idx ps = 0 then Inr (False, s)
     else
       let payload_size = ob_size (out_buffer ps) - ob_offset (out_buffer ps) in
       if unat (ob_offset (out_buffer ps)) < sizeof_tcp_header then Inr (False, s)
       else sbind (deref a) (\<lambda>a. case a of
         Tcp_args tcp_args \<Rightarrow>
          (case ta_socket tcp_args of
             None \<Rightarrow> Inr (False, s)
           | Some k \<Rightarrow>
               if ta_connection_id tcp_args = 0 then Inr (False, s)
               else sbind (tcp_get_transmission_control_block k (ta_connection_id tcp_args) s) (\<lambda>t.
               case t of
                 None \<Rightarrow> Inr (False, s)
               | Some t \<Rightarrow>
                   sbind (tcb_at s t) (\<lambda>tcb.
                   sbind (sock_at s k) (\<lambda>sk.
                   let header = tcp_final_header tcb sk (ta_flags tcp_args) payload_size in
                   sbind (tcp_block_buffer_add (tcb_out_buffer tcb) p (th_sequence_num header)
                       (ucast payload_size)) (\<lambda>(_, bb).
                   let tcb = tcb\<lparr>out_header := store_bytes (out_header tcb) 0 (tcp_header_bytes header),
                         send_next := send_next tcb + ucast payload_size,
                         tcb_out_buffer := bb\<rparr>;
                       s = put_out p (push_bytes (tcp_header_bytes header) ps) (put_tcb t tcb s)
                   in tcp_send_loop 12 wr p t ifc s)))))
       | _ \<Rightarrow> Inl Bad_cast)))"

section \<open>One segment on an empty queue\<close>

text \<open>The control block once \<^verbatim>\<open>tcp_write\<close> has stored the header and counted the payload.\<close>

definition tcb_sending :: "tcb_t \<Rightarrow> tcp_socket_t \<Rightarrow> u8 \<Rightarrow> u64 \<Rightarrow> tcb_t" where
  "tcb_sending tcb sk flags n =
     tcb\<lparr>out_header := store_bytes (out_header tcb) 0 (tcp_header_bytes (tcp_final_header tcb sk flags n)),
         send_next := send_next tcb + ucast n\<rparr>"

lemma tcb_sending_simps [simp]:
  "tcb_out_buffer (tcb_sending tcb sk flags n) = tcb_out_buffer tcb"
  "tcb_in_buffer (tcb_sending tcb sk flags n) = tcb_in_buffer tcb"
  "tcb_id (tcb_sending tcb sk flags n) = tcb_id tcb"
  "tcb_state (tcb_sending tcb sk flags n) = tcb_state tcb"
  "send_window (tcb_sending tcb sk flags n) = send_window tcb"
  "send_next (tcb_sending tcb sk flags n) = send_next tcb + ucast n"
  "receive_next (tcb_sending tcb sk flags n) = receive_next tcb"
  "receive_window (tcb_sending tcb sk flags n) = receive_window tcb"
  "send_unacknowledged (tcb_sending tcb sk flags n) = send_unacknowledged tcb"
  "send_initial_sequence_num (tcb_sending tcb sk flags n) = send_initial_sequence_num tcb"
  "state_function (tcb_sending tcb sk flags n) = state_function tcb"
  "tcb_remote_port (tcb_sending tcb sk flags n) = tcb_remote_port tcb"
  "active_mode_args (tcb_sending tcb sk flags n) = active_mode_args tcb"
  by (simp_all add: tcb_sending_def)

lemma tcp_final_header_simps [simp]:
  "th_source_port (tcp_final_header tcb sk flags n) = sk_port sk"
  "th_destination_port (tcp_final_header tcb sk flags n) = tcb_remote_port tcb"
  "th_sequence_num (tcp_final_header tcb sk flags n) = htonl (send_next tcb)"
  "th_acknowledgement_num (tcp_final_header tcb sk flags n) = htonl (receive_next tcb)"
  "th_data_offset (tcp_final_header tcb sk flags n) = 0x50"
  "th_control_bits (tcp_final_header tcb sk flags n) = (if n \<noteq> 0 then flags OR TCP_PSH_FLAG else flags)"
  "th_window (tcp_final_header tcb sk flags n) = htons (receive_window tcb)"
  by (simp_all add: tcp_final_header_def tcp_out_header_def Let_def)

lemma tcp_send_loop_empty:
  assumes "tcb_at s t = Inr tcb" and "bb_invar (tcb_out_buffer tcb)" and "bb_list (tcb_out_buffer tcb) = []"
  shows "tcp_send_loop (Suc fuel) wr p t ifc s = Inr (True, s)"
proof -
  have "blocks (tcb_out_buffer tcb) = None"
    using assms(2,3) by (auto elim!: bb_invarE)
  with assms(1) show ?thesis by (simp add: tcp_block_buffer_get_head_def)
qed

lemma tcp_send_loop_single:
  assumes tcb: "tcb_at s t = Inr tcb" and bb: "bb_invar (tcb_out_buffer tcb)"
    and list: "bb_list (tcb_out_buffer tcb) = [(sq, n, Some p)]"
    and fits: "unat n \<le> unat (ntohs (send_window tcb))"
    and at: "out_at s p = Inr ps" and i: "out_stack_idx ps - 1 = i" "unat i < length (out_handlers ps)"
    and h: "out_handlers ps ! unat i = Some h"
    and below: "wr h p ifc (put_out p (ps\<lparr>out_stack_idx := i\<rparr>) s) = Inr (True, s')"
    and keep: "tcb_at s' t = Inr tcb"
  shows "\<exists>bb. bb_invar bb \<and> bb_list bb = [] \<and> tcp_send_loop (Suc (Suc fuel)) wr p t ifc s =
    Inr (True, put_tcb t (tcb\<lparr>tcb_out_buffer := bb\<rparr>) s')"
proof -
  obtain j b where head: "tcp_block_buffer_get_head (tcb_out_buffer tcb) = Some j"
    "idx (cells (tcb_out_buffer tcb)) j = Inr b" "block_of b = (sq, n, Some p)"
    using head_data [OF bb list] by blast
  obtain bb where rem: "tcp_block_buffer_remove_front (tcb_out_buffer tcb) 1 = Inr bb"
    "bb_invar bb" "bb_list bb = []"
    using bq.q_remove_single [OF bb list] by blast
  let ?s = "put_tcb t (tcb\<lparr>tcb_out_buffer := bb\<rparr>) s'"
  have "tcb_at ?s t = Inr (tcb\<lparr>tcb_out_buffer := bb\<rparr>)" using tcb_at_valid [OF keep] by simp
  then have "tcp_send_loop (Suc fuel) wr p t ifc ?s = Inr (True, ?s)"
    by (rule tcp_send_loop_empty) (simp_all add: rem)
  with head rem(1) tcb fits at i h below keep have "tcp_send_loop (Suc (Suc fuel)) wr p t ifc s = Inr (True, ?s)"
    by (subst tcp_send_loop.simps) (simp add: block_of_def Let_def del: tcp_send_loop.simps)
  with rem show ?thesis by blast
qed

declare unat_ucast_u16_u32 [simp]

text \<open>
  A segment handed to \<^verbatim>\<open>tcp_write\<close> while nothing is queued, and that the remote window takes,
  goes down once: \<open>below\<close> is the layer below, which must not touch the control block.
\<close>

lemma tcp_write_single:
  fixes s :: "'a tcp_mem_scheme"
  defines "n \<equiv> \<lambda>ps. ob_size (out_buffer ps) - ob_offset (out_buffer ps)"
  assumes at: "out_at s p = Inr ps" and wf: "wf_out ps"
    and i: "out_stack_idx ps \<noteq> 0" "unat (out_stack_idx ps) < 10"
    and args: "out_args ps ! unat (out_stack_idx ps) = Some (Tcp_args
      \<lparr>ta_connection_id = cid, ta_socket = Some k, ta_flags = flags\<rparr>)" "cid \<noteq> 0"
    and room: "20 \<le> unat (ob_offset (out_buffer ps))"
    and get: "tcp_get_transmission_control_block k cid s = Inr (Some t)"
    and tcb: "tcb_at s t = Inr tcb" and sk: "sock_at s k = Inr sk"
    and bb: "bb_invar (tcb_out_buffer tcb)" "bb_list (tcb_out_buffer tcb) = []"
    and fits: "unat (n ps) < 65536" "unat (n ps) \<le> unat (ntohs (send_window tcb))"
    and h: "out_handlers ps ! unat (out_stack_idx ps - 1) = Some h"
    and below: "\<And>tcb1. wr h p ifc (put_tcb t tcb1 (put_out p ((push_bytes (tcp_header_bytes
        (tcp_final_header tcb sk flags (n ps))) ps)\<lparr>out_stack_idx := out_stack_idx ps - 1\<rparr>) s))
      = Inr (True, put_tcb t tcb1 s2)"
    and len: "length (tcbs s2) = length (tcbs s)"
  shows "\<exists>bb. bb_invar bb \<and> bb_list bb = [] \<and> tcp_write wr p ifc s =
    Inr (True, put_tcb t ((tcb_sending tcb sk flags (n ps))\<lparr>tcb_out_buffer := bb\<rparr>) s2)"
proof -
  let ?h = "tcp_final_header tcb sk flags (n ps)" and ?n = "ucast (n ps) :: u16"
  have n16: "unat (ucast (n ps) :: u16) = unat (n ps)"
    using fits(1) by (simp add: unsigned_ucast_eq take_bit_nat_eq_self)
  obtain j bb1 where add: "tcp_block_buffer_add (tcb_out_buffer tcb) p (th_sequence_num ?h) ?n = Inr (Some j, bb1)"
    "bb_invar bb1" "bb_list bb1 = [(ntohl (th_sequence_num ?h), ucast ?n, Some p)]"
    using bq.q_add_empty [OF bb] by blast
  let ?tcb = "(tcb_sending tcb sk flags (n ps))\<lparr>tcb_out_buffer := bb1\<rparr>"
  let ?ps = "push_bytes (tcp_header_bytes ?h) ps"
  let ?s = "put_tcb t ?tcb (put_out p ?ps s)"
  have step: "tcp_write wr p ifc s = tcp_send_loop 12 wr p t ifc ?s"
    using at wf i args room get tcb sk add(1)
    by (simp add: tcp_write_def current_args_def wf_out_def sizeof_tcp_header_def n_def Let_def tcb_sending_def
        del: tcp_send_loop.simps)
  have t: "t < length (tcbs s)" and p: "p < length (out_stacks s)"
    using tcb_at_valid [OF tcb] out_at_valid [OF at] .
  have idx: "unat (out_stack_idx ps - 1) < 10"
    using i by (simp add: unat_minus_one)
  have "\<exists>bb. bb_invar bb \<and> bb_list bb = [] \<and> tcp_send_loop (Suc (Suc 10)) wr p t ifc ?s =
      Inr (True, put_tcb t (?tcb\<lparr>tcb_out_buffer := bb\<rparr>) (put_tcb t ?tcb s2))"
    by (rule tcp_send_loop_single [of ?s t ?tcb "ntohl (th_sequence_num ?h)" "ucast ?n" p ?ps
          "out_stack_idx ps - 1" h])
      (use t p idx wf h fits n16 below [of ?tcb] len add in \<open>simp_all add: wf_out_def\<close>)
  with step show ?thesis by (simp add: numeral_eq_Suc del: tcp_send_loop.simps)
qed

end
