(* ===== verification/Tcp_States.thy ===== *)
theory Tcp_States
  imports Tcp_Output
begin

text \<open>
  \<^verbatim>\<open>handlers/tcp/tcp_states.c\<close> and \<^verbatim>\<open>tcp_read\<close> of \<^verbatim>\<open>handlers/tcp/tcp.c\<close>: what a connection
  does with a received segment, per state.

  A segment is found through the packet stack at the head of the control block's input
  buffer. Control block, socket and packet stack are fetched again after every call that
  may change them; the received bytes do not change, so the headers are loaded once. A
  comparison written where an assignment was meant (\<^verbatim>\<open>tcb->state == CLOSED;\<close>) has no
  effect and no counterpart. A function that ends without a return statement gives \<open>None\<close>.
\<close>

section \<open>Checks on a segment\<close>

definition is_acknowledgement_valid :: "tcb_t \<Rightarrow> tcp_header_t \<Rightarrow> bool" where
  "is_acknowledgement_valid tcb tcp_header =
     (let acknowledgement_num = ntohl (th_acknowledgement_num tcp_header) in
      send_unacknowledged tcb < acknowledgement_num \<and> acknowledgement_num \<le> send_next tcb)"

definition is_segment_in_window :: "tcb_t \<Rightarrow> tcp_header_t \<Rightarrow> u32 \<Rightarrow> bool" where
  "is_segment_in_window tcb tcp_header payload_size =
     (let sequence_num = ntohl (th_sequence_num tcp_header);
          window_end = receive_next tcb + ucast (receive_window tcb) in
      if payload_size \<noteq> 0 then
        let sequence_end = sequence_num + payload_size - 1 in
        receive_window tcb \<noteq> 0 \<and> receive_next tcb \<le> sequence_num \<and> sequence_num < window_end \<and>
          sequence_end < window_end
      else (receive_window tcb \<noteq> 0 \<and> receive_next tcb \<le> sequence_num \<and> sequence_num < window_end) \<or>
        (receive_window tcb = 0 \<and> receive_next tcb = sequence_num))"

text \<open>A flag of the control bits.\<close>

definition has_flag :: "tcp_header_t \<Rightarrow> u8 \<Rightarrow> bool" where
  "has_flag h f \<longleftrightarrow> th_control_bits h AND f \<noteq> 0"

section \<open>Shared steps\<close>

record segment =
  sg_stack :: nat
  sg_header_at :: nat
  sg_frame :: mem8
  sg_tcp :: tcp_header_t
  sg_ipv4 :: ipv4_header_t

text \<open>The packet at the head of the input buffer and its headers.\<close>

definition head_segment :: "tcb_t \<Rightarrow> 'a net_mem_scheme \<Rightarrow> fault + segment" where
  "head_segment tcb s =
     sbind (deref (tcp_block_buffer_get_head (tcb_in_buffer tcb))) (\<lambda>i.
     sbind (idx (cells (tcb_in_buffer tcb)) i) (\<lambda>b.
     sbind (deref (blk_data b)) (\<lambda>p.
     sbind (in_at s p) (\<lambda>ps.
     sbind (idx (packet_pointers ps) (unat (in_stack_idx ps))) (\<lambda>tcp_ptr.
     sbind (if in_stack_idx ps = 0 then Inl Out_of_bounds
            else idx (packet_pointers ps) (unat (in_stack_idx ps) - 1)) (\<lambda>ip_ptr.
     sbind (deref tcp_ptr) (\<lambda>tcp_at.
     sbind (deref ip_ptr) (\<lambda>ip_at.
       Inr \<lparr>sg_stack = p, sg_header_at = tcp_at, sg_frame = in_frame ps,
            sg_tcp = load_tcp_header (in_frame ps) tcp_at,
            sg_ipv4 = load_ipv4_header (in_frame ps) ip_at\<rparr>))))))))"

definition segment_payload_size :: "segment \<Rightarrow> u16" where
  "segment_payload_size sg = tcp_get_payload_length (sg_ipv4 sg) (sg_tcp sg)"

definition segment_socket :: "segment \<Rightarrow> 'a tcp_mem_scheme \<Rightarrow> fault + nat option" where
  "segment_socket sg s =
     tcp_get_socket (ih_destination_ip (sg_ipv4 sg)) (th_destination_port (sg_tcp sg)) s"

definition remove_head :: "nat \<Rightarrow> 'a tcp_mem_scheme \<Rightarrow> fault + 'a tcp_mem_scheme" where
  "remove_head t s =
     sbind (tcb_at s t) (\<lambda>tcb.
     sbind (tcp_block_buffer_remove_front (tcb_in_buffer tcb) 1) (\<lambda>bb.
       Inr (put_tcb t (tcb\<lparr>tcb_in_buffer := bb\<rparr>) s)))"

definition run_callback :: "nat option \<Rightarrow> 'a tcp_mem_scheme \<Rightarrow> fault + 'a tcp_mem_scheme" where
  "run_callback c s = sbind (deref c) (\<lambda>c. Inr (s\<lparr>callbacks := callbacks s @ [c]\<rparr>))"

definition socket_on_close :: "nat option \<Rightarrow> 'a tcp_mem_scheme \<Rightarrow> fault + 'a tcp_mem_scheme" where
  "socket_on_close k s =
     sbind (deref k) (\<lambda>k. sbind (sock_at s k) (\<lambda>sk. run_callback (sk_on_close sk) s))"

definition tcp_internal_write ::
  "'a tcp_mem_scheme writer \<Rightarrow> handler \<Rightarrow> nat \<Rightarrow> nat option \<Rightarrow> u32 \<Rightarrow> u8 \<Rightarrow> interface_t \<Rightarrow>
   'a tcp_mem_scheme \<Rightarrow> fault + 'a tcp_mem_scheme" where
  "tcp_internal_write wr h p socket connection_id flags ifc s =
     sbind (in_at s p) (\<lambda>ps.
     let stack_idx = in_stack_idx ps in
     sbind (upd (return_args ps) (unat stack_idx) (Some (Tcp_args
         \<lparr>ta_connection_id = connection_id, ta_socket = socket, ta_flags = flags\<rparr>))) (\<lambda>ras.
     sbind (handler_create_out_package_stack p stack_idx (put_in p (ps\<lparr>return_args := ras\<rparr>) s)) (\<lambda>(out, s).
     sbind (wr h out ifc s) (\<lambda>(_, s). Inr s))))"

text \<open>A reply to the packet on the connection of the control block.\<close>

definition tcp_reply ::
  "'a tcp_mem_scheme writer \<Rightarrow> handler \<Rightarrow> segment \<Rightarrow> nat option \<Rightarrow> nat \<Rightarrow> u8 \<Rightarrow> interface_t \<Rightarrow>
   'a tcp_mem_scheme \<Rightarrow> fault + 'a tcp_mem_scheme" where
  "tcp_reply wr h sg socket t flags ifc s =
     sbind (tcb_at s t) (\<lambda>tcb. tcp_internal_write wr h (sg_stack sg) socket (tcb_id tcb) flags ifc s)"

definition tcp_receive_payload ::
  "'a tcp_mem_scheme reader \<Rightarrow> 'a tcp_mem_scheme writer \<Rightarrow> handler \<Rightarrow> nat option \<Rightarrow> nat \<Rightarrow> segment \<Rightarrow>
   interface_t \<Rightarrow> 'a tcp_mem_scheme \<Rightarrow> fault + 'a tcp_mem_scheme" where
  "tcp_receive_payload rd wr h socket t sg ifc s =
     (let payload_size = segment_payload_size sg in
      sbind (deref socket) (\<lambda>k.
      sbind (sock_at s k) (\<lambda>sk.
      sbind (mod_tcb t (\<lambda>tcb. tcb\<lparr>receive_next := receive_next tcb + ucast payload_size,
                                  receive_window := receive_window tcb - payload_size\<rparr>) s) (\<lambda>s.
      sbind (tcp_reply wr h sg socket t TCP_ACK_FLAG ifc s) (\<lambda>s.
      sbind (tcb_at s t) (\<lambda>tcb.
      sbind (in_at s (sg_stack sg)) (\<lambda>ps.
      sbind (upd (return_args ps) (unat (in_stack_idx ps)) (Some (Tcp_args
          \<lparr>ta_connection_id = tcb_id tcb, ta_socket = socket, ta_flags = TCP_ACK_FLAG\<rparr>))) (\<lambda>ras.
      let stack_idx = in_stack_idx ps + 1 in
      sbind (upd (packet_pointers ps) (unat stack_idx)
          (Some (tcp_get_payload (sg_frame sg) (sg_header_at sg)))) (\<lambda>pps.
      let s = put_in (sg_stack sg) (ps\<lparr>return_args := ras, in_stack_idx := stack_idx, packet_pointers := pps\<rparr>) s in
      sbind (sock_at s k) (\<lambda>sk'.
      case sk_next_handler sk' of
        None \<Rightarrow> Inr s
      | Some next_handler \<Rightarrow>
          sbind (rd next_handler (sg_stack sg) ifc s) (\<lambda>(_, s). Inr s)))))))))))"

section \<open>The state functions\<close>

primrec tcp_close ::
  "nat \<Rightarrow> 'a tcp_mem_scheme writer \<Rightarrow> handler \<Rightarrow> nat \<Rightarrow> interface_t \<Rightarrow> 'a tcp_mem_scheme \<Rightarrow>
   fault + (u16 option \<times> 'a tcp_mem_scheme)" where
  "tcp_close 0 wr h t ifc s = Inr (Some 0, s)"
| "tcp_close (Suc num_ready) wr h t ifc s =
     sbind (tcb_at s t) (\<lambda>tcb.
     sbind (head_segment tcb s) (\<lambda>sg.
     sbind (segment_socket sg s) (\<lambda>socket.
     sbind
      (if \<not> has_flag (sg_tcp sg) TCP_RST_FLAG then
         sbind (mod_tcb t (\<lambda>tcb.
             if has_flag (sg_tcp sg) TCP_ACK_FLAG
             then tcb\<lparr>send_next := ntohl (th_acknowledgement_num (sg_tcp sg))\<rparr>
             else tcb\<lparr>send_next := 0, receive_next :=
               ntohl (th_sequence_num (sg_tcp sg)) + ucast (segment_payload_size sg)\<rparr>) s) (\<lambda>s.
         tcp_reply wr h sg socket t TCP_RST_FLAG ifc s)
       else Inr s) (\<lambda>s.
     sbind (remove_head t s) (\<lambda>s.
       tcp_close num_ready wr h t ifc s)))))"

text \<open>The SYN branch of \<^verbatim>\<open>tcp_syn_sent\<close> (lines 148 to 181).\<close>

definition tcp_syn_sent_syn ::
  "'a tcp_mem_scheme reader \<Rightarrow> 'a tcp_mem_scheme writer \<Rightarrow> handler \<Rightarrow> segment \<Rightarrow> nat option \<Rightarrow> nat \<Rightarrow>
   interface_t \<Rightarrow> 'a tcp_mem_scheme \<Rightarrow> fault + 'a tcp_mem_scheme" where
  "tcp_syn_sent_syn rd wr h sg socket t ifc s =
     (let tcp_header = sg_tcp sg; seq = ntohl (th_sequence_num tcp_header);
          ack = ntohl (th_acknowledgement_num tcp_header) in
      sbind (mod_tcb t (\<lambda>tcb. tcb\<lparr>receive_initial_sequence_num := seq, receive_next := seq + 1,
          send_unacknowledged :=
            (if has_flag tcp_header TCP_ACK_FLAG then ack else send_unacknowledged tcb)\<rparr>) s) (\<lambda>s.
      sbind (tcb_at s t) (\<lambda>tcb.
      sbind
       (if send_initial_sequence_num tcb < send_unacknowledged tcb then
          sbind (mod_tcb t (\<lambda>tcb. tcb\<lparr>tcb_state := ESTABLISHED, state_function := Tcp_others\<rparr>) s) (\<lambda>s.
          sbind
           (if segment_payload_size sg \<noteq> 0 then tcp_receive_payload rd wr h socket t sg ifc s
            else tcp_reply wr h sg socket t TCP_ACK_FLAG ifc s) (\<lambda>s.
          sbind (deref socket) (\<lambda>k.
          sbind (sock_at s k) (\<lambda>sk. run_callback (sk_on_connect sk) s))))
        else
          sbind (mod_tcb t (\<lambda>tcb. tcb\<lparr>tcb_state := SYN_RECEIVED, state_function := Tcp_others\<rparr>) s) (\<lambda>s.
          tcp_reply wr h sg socket t (TCP_SYN_FLAG OR TCP_ACK_FLAG) ifc s)) (\<lambda>s.
      sbind (mod_tcb t (\<lambda>tcb. tcb\<lparr>send_window := ntohs (th_window tcp_header),
          send_last_update_sequence_num := seq, send_last_update_acknowledgement_num := ack\<rparr>) s) (\<lambda>s.
      remove_head t s)))))"

text \<open>
  The test at line 183 negates the control bits before masking them, so it is never true;
  its branch removes the packet.
\<close>

definition tcp_syn_sent ::
  "nat \<Rightarrow> 'a tcp_mem_scheme reader \<Rightarrow> 'a tcp_mem_scheme writer \<Rightarrow> handler \<Rightarrow> nat \<Rightarrow> interface_t \<Rightarrow>
   'a tcp_mem_scheme \<Rightarrow> fault + (u16 option \<times> 'a tcp_mem_scheme)" where
  "tcp_syn_sent num_ready rd wr h t ifc s =
     (if num_ready = 0 then Inr (Some 1, s)
      else
        sbind (tcb_at s t) (\<lambda>tcb.
        sbind (head_segment tcb s) (\<lambda>sg.
        sbind (segment_socket sg s) (\<lambda>socket.
        let tcp_header = sg_tcp sg; ack = ntohl (th_acknowledgement_num tcp_header) in
        if has_flag tcp_header TCP_ACK_FLAG \<and>
           (ack \<le> send_initial_sequence_num tcb \<or> send_next tcb < ack) then
          sbind (tcp_reply wr h sg socket t TCP_RST_FLAG ifc s) (\<lambda>s. Inr (Some 0, s))
        else if has_flag tcp_header TCP_RST_FLAG then
          if has_flag tcp_header TCP_ACK_FLAG then
            sbind (deref socket) (\<lambda>k.
            sbind (tcp_delete_transmission_control_block k (tcb_id tcb) s) (\<lambda>s. Inr (Some 0, s)))
          else sbind (remove_head t s) (\<lambda>s. Inr (Some 0, s))
        else
          sbind (if has_flag tcp_header TCP_SYN_FLAG
                 then tcp_syn_sent_syn rd wr h sg socket t ifc s else Inr s) (\<lambda>s.
          sbind (if (if th_control_bits tcp_header = 0 then 1 else 0) AND (TCP_SYN_FLAG OR TCP_RST_FLAG) \<noteq> 0
                 then remove_head t s else Inr s) (\<lambda>s.
          Inr (Some 0, s)))))))"

text \<open>
  The loop body of \<^verbatim>\<open>tcp_others\<close> in its parts. \<open>Return\<close> ends the function, \<open>Continue\<close> goes on
  with the next packet, \<open>Fall\<close> runs into the next part.
\<close>

datatype flow = Return | Continue | Fall

text \<open>RST and SYN (lines 208 to 236).\<close>

definition tcp_others_rst_syn ::
  "'a tcp_mem_scheme writer \<Rightarrow> handler \<Rightarrow> segment \<Rightarrow> nat option \<Rightarrow> nat \<Rightarrow> TCP_STATE \<Rightarrow> interface_t \<Rightarrow>
   'a tcp_mem_scheme \<Rightarrow> fault + (flow \<times> 'a tcp_mem_scheme)" where
  "tcp_others_rst_syn wr h sg socket t state ifc s =
     sbind (tcb_at s t) (\<lambda>tcb.
     if has_flag (sg_tcp sg) TCP_RST_FLAG then
       if state = SYN_RECEIVED \<and> active_mode tcb
       then sbind (socket_on_close socket s) (\<lambda>s. Inr (Return, s))
       else Inr (Return, s)
     else if has_flag (sg_tcp sg) TCP_SYN_FLAG then
       if state = SYN_RECEIVED \<and> \<not> active_mode tcb then Inr (Return, s)
       else
         sbind (tcp_reply wr h sg socket t TCP_ACK_FLAG ifc s) (\<lambda>s.
         sbind (remove_head t s) (\<lambda>s. Inr (Continue, s)))
     else Inr (Fall, s))"

text \<open>
  The acknowledgement in a synchronised state (lines 246 to 297). The branches for
  \<open>LAST_ACK\<close> and \<open>TIME_WAIT\<close> stand inside a test that excludes these states.
\<close>

definition tcp_others_ack_sync ::
  "'a tcp_mem_scheme writer \<Rightarrow> handler \<Rightarrow> segment \<Rightarrow> nat option \<Rightarrow> nat \<Rightarrow> TCP_STATE \<Rightarrow> interface_t \<Rightarrow>
   'a tcp_mem_scheme \<Rightarrow> fault + (flow \<times> 'a tcp_mem_scheme)" where
  "tcp_others_ack_sync wr h sg socket t state ifc s =
     sbind (tcb_at s t) (\<lambda>tcb.
     let ack = ntohl (th_acknowledgement_num (sg_tcp sg));
         seq = ntohl (th_sequence_num (sg_tcp sg));
         ackOk = ack \<le> send_next tcb \<and> send_unacknowledged tcb < ack in
     if send_next tcb < ack then
       sbind (tcp_reply wr h sg socket t TCP_ACK_FLAG ifc s) (\<lambda>s.
       sbind (remove_head t s) (\<lambda>s. Inr (Continue, s)))
     else
       let tcb =
             (if (ackOk \<or> ack = send_unacknowledged tcb) \<and>
                 (send_last_update_sequence_num tcb < seq \<or>
                  (send_last_update_sequence_num tcb = seq \<and>
                   send_last_update_acknowledgement_num tcb \<le> ack))
              then tcb\<lparr>send_window := ntohs (th_window (sg_tcp sg)), send_last_update_sequence_num := seq\<rparr>
              else tcb);
           tcb = (if ackOk then tcb\<lparr>send_unacknowledged := ack\<rparr> else tcb);
           s = put_tcb t tcb s;
           fin_acknowledged = (fin_num tcb \<noteq> 0 \<and> fin_num tcb \<le> ack) in
       case state of
         FIN_WAIT_1 \<Rightarrow>
           if fin_acknowledged then
             sbind (remove_head t s) (\<lambda>s.
             sbind (mod_tcb t (\<lambda>tcb. tcb\<lparr>tcb_state := FIN_WAIT_2\<rparr>) s) (\<lambda>s. Inr (Fall, s)))
           else Inr (Fall, s)
       | FIN_WAIT_2 \<Rightarrow>
           if send_next tcb = send_last_update_acknowledgement_num tcb
           then sbind (socket_on_close socket s) (\<lambda>s. Inr (Fall, s)) else Inr (Fall, s)
       | CLOSING \<Rightarrow>
           if fin_acknowledged then
             sbind (remove_head t s) (\<lambda>s.
             sbind (mod_tcb t (\<lambda>tcb. tcb\<lparr>tcb_state := TIME_WAIT\<rparr>) s) (\<lambda>s. Inr (Fall, s)))
           else Inr (Fall, s)
       | _ \<Rightarrow> Inr (Fall, s))"

definition tcp_others_ack ::
  "'a tcp_mem_scheme writer \<Rightarrow> handler \<Rightarrow> segment \<Rightarrow> nat option \<Rightarrow> nat \<Rightarrow> TCP_STATE \<Rightarrow> interface_t \<Rightarrow>
   'a tcp_mem_scheme \<Rightarrow> fault + (flow \<times> 'a tcp_mem_scheme)" where
  "tcp_others_ack wr h sg socket t state ifc s =
     (if has_flag (sg_tcp sg) TCP_ACK_FLAG then
        if state \<in> {ESTABLISHED, FIN_WAIT_1, FIN_WAIT_2, CLOSE_WAIT, CLOSING}
        then tcp_others_ack_sync wr h sg socket t state ifc s
        else if state = SYN_RECEIVED then
          sbind (tcb_at s t) (\<lambda>tcb.
          let ack = ntohl (th_acknowledgement_num (sg_tcp sg)) in
          if \<not> (ack \<le> send_next tcb \<and> send_unacknowledged tcb < ack) then
            sbind (mod_tcb t (\<lambda>tcb. tcb\<lparr>send_next := ack\<rparr>) s) (\<lambda>s.
            sbind (tcp_reply wr h sg socket t TCP_RST_FLAG ifc s) (\<lambda>s. Inr (Fall, s)))
          else
            sbind (mod_tcb t (\<lambda>tcb. tcb\<lparr>send_window := ntohs (th_window (sg_tcp sg)),
                send_last_update_sequence_num := ntohl (th_sequence_num (sg_tcp sg)),
                send_last_update_acknowledgement_num := ack, tcb_state := ESTABLISHED\<rparr>) s) (\<lambda>s.
            Inr (Fall, s)))
        else Inr (Fall, s)
      else sbind (remove_head t s) (\<lambda>s. Inr (Continue, s)))"

text \<open>The FIN (lines 321 to 349).\<close>

definition tcp_others_fin ::
  "'a tcp_mem_scheme writer \<Rightarrow> handler \<Rightarrow> segment \<Rightarrow> nat option \<Rightarrow> nat \<Rightarrow> TCP_STATE \<Rightarrow> interface_t \<Rightarrow>
   'a tcp_mem_scheme \<Rightarrow> fault + (flow \<times> 'a tcp_mem_scheme)" where
  "tcp_others_fin wr h sg socket t state ifc s =
     (if has_flag (sg_tcp sg) TCP_FIN_FLAG then
        if state \<in> {CLOSED, LISTEN, SYN_SENT} then
          sbind (remove_head t s) (\<lambda>s. Inr (Continue, s))
        else
          sbind (mod_tcb t (\<lambda>tcb. tcb\<lparr>receive_next := ntohl (th_sequence_num (sg_tcp sg)) + 1\<rparr>) s) (\<lambda>s.
          sbind (tcp_reply wr h sg socket t (TCP_ACK_FLAG OR TCP_FIN_FLAG) ifc s) (\<lambda>s.
          sbind (mod_tcb t (\<lambda>tcb. tcb\<lparr>send_next := send_next tcb + 1\<rparr>) s) (\<lambda>s.
          sbind (socket_on_close socket s) (\<lambda>s.
          let ack = ntohl (th_acknowledgement_num (sg_tcp sg)) in
          sbind (mod_tcb t (\<lambda>tcb.
              case state of
                ESTABLISHED \<Rightarrow> tcb\<lparr>tcb_state := CLOSE_WAIT\<rparr>
              | FIN_WAIT_1 \<Rightarrow>
                  if fin_num tcb \<noteq> 0 \<and> fin_num tcb \<le> ack then tcb\<lparr>tcb_state := TIME_WAIT\<rparr>
                  else tcb\<lparr>tcb_state := CLOSING\<rparr>
              | FIN_WAIT_2 \<Rightarrow> tcb\<lparr>tcb_state := TIME_WAIT\<rparr>
              | _ \<Rightarrow> tcb) s) (\<lambda>s.
          Inr (Fall, s))))))
      else Inr (Fall, s))"

definition tcp_others_in_window ::
  "'a tcp_mem_scheme reader \<Rightarrow> 'a tcp_mem_scheme writer \<Rightarrow> handler \<Rightarrow> segment \<Rightarrow> nat option \<Rightarrow> nat \<Rightarrow>
   interface_t \<Rightarrow> 'a tcp_mem_scheme \<Rightarrow> fault + (flow \<times> 'a tcp_mem_scheme)" where
  "tcp_others_in_window rd wr h sg socket t ifc s =
     sbind (tcb_at s t) (\<lambda>tcb.
     let state = tcb_state tcb in
     sbind (tcp_others_rst_syn wr h sg socket t state ifc s) (\<lambda>(fl, s).
     if fl \<noteq> Fall then Inr (fl, s) else
     sbind (tcp_others_ack wr h sg socket t state ifc s) (\<lambda>(fl, s).
     if fl \<noteq> Fall then Inr (fl, s) else
     sbind (if segment_payload_size sg \<noteq> 0 \<and> state \<in> {ESTABLISHED, FIN_WAIT_1, FIN_WAIT_2}
            then tcp_receive_payload rd wr h socket t sg ifc s else Inr s) (\<lambda>s.
     tcp_others_fin wr h sg socket t state ifc s))))"

primrec tcp_others ::
  "nat \<Rightarrow> 'a tcp_mem_scheme reader \<Rightarrow> 'a tcp_mem_scheme writer \<Rightarrow> handler \<Rightarrow> nat \<Rightarrow> interface_t \<Rightarrow>
   'a tcp_mem_scheme \<Rightarrow> fault + (u16 option \<times> 'a tcp_mem_scheme)" where
  "tcp_others 0 rd wr h t ifc s = Inr (None, s)"
| "tcp_others (Suc num_ready) rd wr h t ifc s =
     sbind (tcb_at s t) (\<lambda>tcb.
     sbind (head_segment tcb s) (\<lambda>sg.
     sbind (segment_socket sg s) (\<lambda>socket.
     sbind
      (if is_segment_in_window tcb (sg_tcp sg) (ucast (segment_payload_size sg))
       then tcp_others_in_window rd wr h sg socket t ifc s
       else if has_flag (sg_tcp sg) TCP_RST_FLAG
       then sbind (remove_head t s) (\<lambda>s. Inr (Continue, s))
       else sbind (tcp_reply wr h sg socket t TCP_ACK_FLAG ifc s) (\<lambda>s. Inr (Fall, s))) (\<lambda>(fl, s).
     case fl of
       Return \<Rightarrow> Inr (Some 0, s)
     | Continue \<Rightarrow> tcp_others num_ready rd wr h t ifc s
     | Fall \<Rightarrow> sbind (remove_head t s) (\<lambda>s. tcp_others num_ready rd wr h t ifc s)))))"

text \<open>
  In \<^verbatim>\<open>tcp_listen\<close> the test at line 382 parses as \<^verbatim>\<open>control_bits | (SYN == SYN)\<close> and is
  always true.
\<close>

definition tcp_listen ::
  "nat \<Rightarrow> 'a tcp_mem_scheme writer \<Rightarrow> handler \<Rightarrow> nat \<Rightarrow> interface_t \<Rightarrow> 'a tcp_mem_scheme \<Rightarrow>
   fault + (u16 option \<times> 'a tcp_mem_scheme)" where
  "tcp_listen num_ready wr h t ifc s =
     (if num_ready = 0 then Inr (Some 0, s)
      else
        sbind (tcb_at s t) (\<lambda>tcb.
        sbind (head_segment tcb s) (\<lambda>sg.
        sbind (segment_socket sg s) (\<lambda>socket.
        let tcp_header = sg_tcp sg in
        if has_flag tcp_header TCP_RST_FLAG then
          sbind (deref socket) (\<lambda>k.
          sbind (tcp_delete_transmission_control_block k (tcb_id tcb) s) (\<lambda>s. Inr (Some 0, s)))
        else
          sbind
           (if has_flag tcp_header TCP_ACK_FLAG then
              sbind (mod_tcb t (\<lambda>tcb. tcb\<lparr>send_next := ntohl (th_acknowledgement_num tcp_header),
                  receive_next := 0\<rparr>) s) (\<lambda>s.
              tcp_reply wr h sg socket t TCP_RST_FLAG ifc s)
            else if th_control_bits tcp_header OR (if TCP_SYN_FLAG = TCP_SYN_FLAG then 1 else 0) \<noteq> 0 then
              sbind (mod_tcb t (\<lambda>tcb. tcb\<lparr>
                  receive_initial_sequence_num := ntohl (th_sequence_num tcp_header),
                  receive_next := ntohl (th_sequence_num tcp_header) + 1, receive_urgent_pointer := 0,
                  tcb_state := SYN_RECEIVED, state_function := Tcp_others,
                  send_next := send_initial_sequence_num tcb\<rparr>) s) (\<lambda>s.
              sbind (tcp_reply wr h sg socket t (TCP_ACK_FLAG OR TCP_SYN_FLAG) ifc s) (\<lambda>s.
              mod_tcb t (\<lambda>tcb. tcb\<lparr>send_unacknowledged := send_initial_sequence_num tcb,
                  send_next := send_next tcb + 1\<rparr>) s))
            else Inr s) (\<lambda>s.
          sbind (remove_head t s) (\<lambda>s. Inr (Some 0, s)))))))"

section \<open>Reading a segment\<close>

definition run_state_function ::
  "state_fun \<Rightarrow> nat \<Rightarrow> 'a tcp_mem_scheme reader \<Rightarrow> 'a tcp_mem_scheme writer \<Rightarrow> handler \<Rightarrow> nat \<Rightarrow> interface_t \<Rightarrow>
   'a tcp_mem_scheme \<Rightarrow> fault + (u16 option \<times> 'a tcp_mem_scheme)" where
  "run_state_function f num_ready rd wr h t ifc s =
     (case f of
        Tcp_close \<Rightarrow> tcp_close num_ready wr h t ifc s
      | Tcp_listen \<Rightarrow> tcp_listen num_ready wr h t ifc s
      | Tcp_syn_sent \<Rightarrow> tcp_syn_sent num_ready rd wr h t ifc s
      | Tcp_others \<Rightarrow> tcp_others num_ready rd wr h t ifc s)"

text \<open>What \<^verbatim>\<open>tcp_read\<close> does once it has the control block (lines 202 to 213).\<close>

definition tcp_enqueue_and_run ::
  "'a tcp_mem_scheme reader \<Rightarrow> 'a tcp_mem_scheme writer \<Rightarrow> handler \<Rightarrow> nat \<Rightarrow> nat \<Rightarrow> ipv4_header_t \<Rightarrow>
   tcp_header_t \<Rightarrow> interface_t \<Rightarrow> 'a tcp_mem_scheme \<Rightarrow> fault + (u16 option \<times> 'a tcp_mem_scheme)" where
  "tcp_enqueue_and_run rd wr h p t ipv4_hdr header ifc s =
     sbind (tcb_at s t) (\<lambda>tcb.
     sbind (tcp_block_buffer_add (tcb_in_buffer tcb) p (th_sequence_num header)
         (tcp_get_payload_length ipv4_hdr header)) (\<lambda>(_, bb).
     let tcb = tcb\<lparr>tcb_in_buffer := bb,
           receive_next := (if tcb_state tcb = SYN_SENT then ntohl (th_sequence_num header)
                            else receive_next tcb)\<rparr>;
         s = put_tcb t tcb s in
     sbind (tcp_block_buffer_num_ready bb (receive_next tcb)) (\<lambda>num_ready.
     if num_ready \<noteq> 0
     then run_state_function (state_function tcb) (unat num_ready) rd wr h t ifc s
     else Inr (Some 0, s))))"

definition tcp_read ::
  "'a tcp_mem_scheme reader \<Rightarrow> 'a tcp_mem_scheme writer \<Rightarrow> handler \<Rightarrow> nat \<Rightarrow> interface_t \<Rightarrow>
   'a tcp_mem_scheme \<Rightarrow> fault + (u16 option \<times> 'a tcp_mem_scheme)" where
  "tcp_read rd wr h p ifc s =
     sbind (in_at s p) (\<lambda>ps.
     sbind (upd (in_handlers ps) (unat (in_stack_idx ps)) (Some h)) (\<lambda>hs.
     sbind (idx (packet_pointers ps) (unat (in_stack_idx ps))) (\<lambda>tcp_ptr.
     sbind (if in_stack_idx ps = 0 then Inl Out_of_bounds
            else idx (packet_pointers ps) (unat (in_stack_idx ps) - 1)) (\<lambda>ip_ptr.
     sbind (deref ip_ptr) (\<lambda>ip_at.
     sbind (deref tcp_ptr) (\<lambda>tcp_at.
     let s = put_in p (ps\<lparr>in_handlers := hs\<rparr>) s;
         header = load_tcp_header (in_frame ps) tcp_at;
         ipv4_hdr = load_ipv4_header (in_frame ps) ip_at;
         connection_id = tcb_header_to_connection_id ipv4_hdr header in
     sbind (tcp_get_socket (ih_destination_ip ipv4_hdr) (th_destination_port header) s) (\<lambda>socket.
     case socket of
       None \<Rightarrow> Inr (Some 0, s)
     | Some k \<Rightarrow>
         sbind (tcp_get_transmission_control_block k connection_id s) (\<lambda>t.
         case t of
           Some t \<Rightarrow> tcp_enqueue_and_run rd wr h p t ipv4_hdr header ifc s
         | None \<Rightarrow>
             if has_flag header TCP_SYN_FLAG then
               sbind (tcp_create_transmission_control_block connection_id (Some header)
                   (ih_source_ip ipv4_hdr) LISTEN s) (\<lambda>(t, s).
               sbind (tcp_add_transmission_control_block k t s) (\<lambda>s.
                 tcp_enqueue_and_run rd wr h p t ipv4_hdr header ifc s))
             else Inr (Some 1, s)))))))))"

section \<open>The window\<close>

lemma segment_window_cases:
  fixes n :: u16 and tcb :: tcb_t and hdr :: tcp_header_t
  defines "start \<equiv> unat (receive_next tcb)" and "len \<equiv> unat (receive_window tcb)"
    and "sq \<equiv> unat (ntohl (th_sequence_num hdr))"
  shows "is_segment_in_window tcb hdr (ucast n) \<longleftrightarrow>
    (if len = 0 then n = 0 \<and> sq = start
     else start + len < 2 ^ 32 \<and> start \<le> sq \<and> sq < start + len \<and>
       (sq + unat n \<le> start + len \<or> 2 ^ 32 < sq + unat n))"
proof -
  let ?seq = "ntohl (th_sequence_num hdr)" and ?w = "ucast (receive_window tcb) :: u32" and ?n = "ucast n :: u32"
  let ?stop = "unat (receive_next tcb + ?w)"
  have bounds: "len < 2 ^ 16" "unat n < 2 ^ 16" "start < 2 ^ 32" "sq < 2 ^ 32"
    using unat_u16_le [of "receive_window tcb"] unat_u16_le [of n] unat_u32_less [of "receive_next tcb"]
      unat_u32_less [of ?seq]
    by (simp_all add: len_def start_def sq_def)
  have e: "?stop = (if start + len < 2 ^ 32 then start + len else start + len - 2 ^ 32)"
    by (simp add: unat_add_u32 unat_ucast_u16_u32 start_def len_def)
  have zero: "receive_window tcb = 0 \<longleftrightarrow> len = 0" "?n = 0 \<longleftrightarrow> unat n = 0" "n = 0 \<longleftrightarrow> unat n = 0"
    using unat_ucast_u16_u32 [of n] by (auto simp: len_def unat_eq_zero simp flip: unat_eq_zero)
  have last: "unat (?seq + ?n - 1) = (if sq + unat n \<le> 2 ^ 32 then sq + unat n - 1 else sq + unat n - 1 - 2 ^ 32)"
    if "unat n \<noteq> 0"
  proof -
    have m: "unat (?n - 1) = unat n - 1" using that by (simp add: unat_ucast_u16_u32 unat_sub_if')
    have "?seq + ?n - 1 = ?seq + (?n - 1)" by simp
    then show ?thesis unfolding sq_def using that by (simp only: unat_add_u32 m) auto
  qed
  show ?thesis
    unfolding is_segment_in_window_def Let_def word_le_nat_alt word_less_nat_alt zero
    using e last bounds by (auto simp: start_def [symmetric] sq_def [symmetric] unat_arith_simps)
qed

text \<open>C12: exactly which segments are taken to be in the window. With an open window, the first byte
  has to lie in it, and the window must not reach the end of the sequence space: where RFC 793
  computes modulo \<open>2 ^ 32\<close>, here no segment at all is accepted once \<^verbatim>\<open>receive_next\<close> plus the
  window passes it. The last byte has to lie in the window too, unless the segment itself runs
  past the end of the sequence space. With a closed window only an empty segment with the next
  sequence number is accepted.\<close>

theorem segment_window_exact:
  "is_segment_in_window tcb hdr (ucast (n :: u16)) \<longleftrightarrow>
    (let start = unat (receive_next tcb); len = unat (receive_window tcb); sq = unat (ntohl (th_sequence_num hdr)) in
     if len = 0 then n = 0 \<and> sq = start
     else start + len < 2 ^ 32 \<and> start \<le> sq \<and> sq < start + len \<and>
       (sq + unat n \<le> start + len \<or> 2 ^ 32 < sq + unat n))"
  unfolding Let_def by (rule segment_window_cases)

end
