(* ===== verification/Custom.thy ===== *)
theory Custom
  imports Tcp_States
begin

text \<open>
  \<^verbatim>\<open>handlers/custom/custom.c\<close>, the handler that answers every packet with preset bytes, and
  \<^verbatim>\<open>handlers/llc/llc.c\<close>, logical link control. Custom handlers are numbered; their private
  data is \<open>custom_priv\<close>.

  \<^verbatim>\<open>struct llc_header_t\<close> has three bytes but, as it is aligned to two, size 4: the layer
  moves the offset by 4 and writes 3 bytes, so the fourth is what the buffer held before.
\<close>

section \<open>Data\<close>

record custom_priv_t =
  response_buffer :: "u8 list option"
  response_length :: u32

record upper_mem = tcp_mem +
  custom_priv :: "nat \<Rightarrow> custom_priv_t"
  llc_type_to_handler :: "handler priority_map_t"

definition LLC_UNUMBERED_FORMAT :: u8 where "LLC_UNUMBERED_FORMAT = 0x11"

definition sizeof_llc_header :: nat where "sizeof_llc_header = 4"

section \<open>The custom handler\<close>

definition custom_init_handler :: "nat \<Rightarrow> 'a upper_mem_scheme \<Rightarrow> 'a upper_mem_scheme" where
  "custom_init_handler c s =
     s\<lparr>custom_priv := (custom_priv s)(c := \<lparr>response_buffer = None, response_length = 0\<rparr>)\<rparr>"

definition custom_set_response :: "nat \<Rightarrow> u8 list option \<Rightarrow> u32 \<Rightarrow> 'a upper_mem_scheme \<Rightarrow> 'a upper_mem_scheme" where
  "custom_set_response c buf len s =
     s\<lparr>custom_priv := (custom_priv s)(c := \<lparr>response_buffer = buf, response_length = len\<rparr>)\<rparr>"

text \<open>The bytes that \<^verbatim>\<open>memcpy\<close> reads from the response buffer.\<close>

definition custom_response :: "custom_priv_t \<Rightarrow> fault + u8 list" where
  "custom_response priv =
     (if response_length priv = 0 then Inr []
      else sbind (deref (response_buffer priv)) (\<lambda>buf.
        if length buf < unat (response_length priv) then Inl Out_of_bounds
        else Inr (take (unat (response_length priv)) buf)))"

definition custom_write ::
  "'a upper_mem_scheme config_write \<Rightarrow> 'a upper_mem_scheme writer \<Rightarrow> nat \<Rightarrow> interface_t \<Rightarrow>
   'a upper_mem_scheme \<Rightarrow> fault + (bool \<times> 'a upper_mem_scheme)" where
  "custom_write cw wr p ifc s =
     sbind (out_at s p) (\<lambda>ps.
     sbind (idx (out_handlers ps) (unat (out_stack_idx ps))) (\<lambda>h.
     sbind (deref h) (\<lambda>h. case h of
       H_custom c \<Rightarrow>
         if unat (ob_offset (out_buffer ps)) < unat (response_length (custom_priv s c)) then Inr (False, s)
         else sbind (custom_response (custom_priv s c)) (\<lambda>bs.
           pass_down cw wr p ifc (put_out p (push_bytes bs ps) s))
     | _ \<Rightarrow> Inl Bad_cast)))"

definition custom_read ::
  "'a net_mem_scheme writer \<Rightarrow> handler \<Rightarrow> nat \<Rightarrow> interface_t \<Rightarrow> 'a net_mem_scheme \<Rightarrow>
   fault + (u16 option \<times> 'a net_mem_scheme)" where
  "custom_read wr h p ifc s =
     sbind (in_at s p) (\<lambda>ps.
     sbind (upd (in_handlers ps) (unat (in_stack_idx ps)) (Some h)) (\<lambda>hs.
     let s = put_in p (ps\<lparr>in_handlers := hs\<rparr>) s;
         (out, s) = new_out_stack hs (return_args ps) DEFAULT_PACKAGE_BUFFER_SIZE (in_stack_idx ps) s in
     sbind (wr h out ifc s) (\<lambda>(_, s). Inr (None, s))))"

section \<open>Logical link control\<close>

definition llc_write ::
  "'a net_mem_scheme config_write \<Rightarrow> 'a net_mem_scheme writer \<Rightarrow> nat \<Rightarrow> interface_t \<Rightarrow>
   'a net_mem_scheme \<Rightarrow> fault + (bool \<times> 'a net_mem_scheme)" where
  "llc_write cw wr p ifc s =
     sbind (out_at s p) (\<lambda>ps.
     sbind (current_args ps) (\<lambda>a.
       if unat (ob_offset (out_buffer ps)) < sizeof_llc_header then Inr (False, s)
       else sbind (deref a) (\<lambda>a. case a of
           Llc_args llc_args \<Rightarrow>
             pass_down cw wr p ifc (put_out p (push_bytes
               [la_destination_access_service_point llc_args, la_source_access_service_point llc_args,
                la_control llc_args, buffer (out_buffer ps) (unat (ob_offset (out_buffer ps)) - 1)] ps) s)
         | _ \<Rightarrow> Inl Bad_cast)))"

definition llc_read ::
  "'a upper_mem_scheme reader \<Rightarrow> handler \<Rightarrow> nat \<Rightarrow> interface_t \<Rightarrow> 'a upper_mem_scheme \<Rightarrow>
   fault + (u16 option \<times> 'a upper_mem_scheme)" where
  "llc_read rd h p ifc s =
     sbind (in_at s p) (\<lambda>ps.
     let packet_idx = unat (in_stack_idx ps);
         stack_idx = in_stack_idx ps + 1 in
     sbind (upd (in_handlers ps) packet_idx (Some h)) (\<lambda>hs.
     sbind (idx (packet_pointers ps) packet_idx) (\<lambda>ptr.
     sbind (deref ptr) (\<lambda>header_at.
     let destination = in_frame ps header_at; source = in_frame ps (header_at + 1);
         control = in_frame ps (header_at + 2);
         ps1 = ps\<lparr>in_handlers := hs, in_stack_idx := stack_idx\<rparr>;
         s1 = put_in p ps1 s in
     if control \<noteq> LLC_UNUMBERED_FORMAT then Inr (Some 1, s1)
     else
       sbind (get_value (llc_type_to_handler s) (ucast control)) (\<lambda>(next_handler, m).
       let s2 = s1\<lparr>llc_type_to_handler := m\<rparr> in
       case next_handler of
         None \<Rightarrow> Inr (Some 4, s2)
       | Some next_handler \<Rightarrow>
           sbind (upd (packet_pointers ps) (unat stack_idx)
               (Some (header_at + sizeof_llc_header))) (\<lambda>pps.
           sbind (upd (return_args ps) packet_idx (Some (Llc_args
               \<lparr>la_destination_access_service_point = source,
                la_source_access_service_point = destination, la_control = control\<rparr>))) (\<lambda>ras.
           sbind (rd next_handler p ifc
               (put_in p (ps1\<lparr>packet_pointers := pps, return_args := ras\<rparr>) s2)) (\<lambda>(_, s3).
             Inr (Some 0, s3)))))))))"

section \<open>The layers\<close>

definition custom_layer_bytes ::
  "'a upper_mem_scheme \<Rightarrow> interface_t \<Rightarrow> out_packet_stack_t \<Rightarrow> u8 list option" where
  "custom_layer_bytes s ifc ps =
     (case idx (out_handlers ps) (unat (out_stack_idx ps)) of
        Inr (Some (H_custom c)) \<Rightarrow>
          (case custom_response (custom_priv s c) of Inr bs \<Rightarrow> Some bs | Inl _ \<Rightarrow> None)
      | _ \<Rightarrow> None)"

lemma custom_response_length: "custom_response priv = Inr bs \<Longrightarrow> length bs = unat (response_length priv)"
  by (auto simp: custom_response_def split: if_splits)

interpretation custom_layer: header_layer custom_write custom_layer_bytes
proof
  fix s :: "'a upper_mem_scheme" and p ps ifc bs cw wr
  assume at: "out_at s p = Inr ps" and bytes: "custom_layer_bytes s ifc ps = Some bs"
  from bytes obtain c where "idx (out_handlers ps) (unat (out_stack_idx ps)) = Inr (Some (H_custom c))"
    and "custom_response (custom_priv s c) = Inr bs"
    by (auto simp: custom_layer_bytes_def split: sum.splits option.splits handler.splits)
  with at custom_response_length [of "custom_priv s c" bs]
  show "custom_write cw wr p ifc s =
      (if unat (ob_offset (out_buffer ps)) < length bs then Inr (False, s)
       else pass_down cw wr p ifc (put_out p (push_bytes bs ps) s))"
    by (simp add: custom_write_def)
qed

definition llc_layer_bytes :: "'a net_mem_scheme \<Rightarrow> interface_t \<Rightarrow> out_packet_stack_t \<Rightarrow> u8 list option" where
  "llc_layer_bytes s ifc ps =
     (case current_args ps of
        Inr (Some (Llc_args a)) \<Rightarrow> Some [la_destination_access_service_point a,
          la_source_access_service_point a, la_control a,
          buffer (out_buffer ps) (unat (ob_offset (out_buffer ps)) - 1)]
      | _ \<Rightarrow> None)"

interpretation llc_layer: header_layer llc_write llc_layer_bytes
proof
  fix s :: "'a net_mem_scheme" and p ps ifc bs cw wr
  assume "out_at s p = Inr ps" and "llc_layer_bytes s ifc ps = Some bs"
  then show "llc_write cw wr p ifc s =
      (if unat (ob_offset (out_buffer ps)) < length bs then Inr (False, s)
       else pass_down cw wr p ifc (put_out p (push_bytes bs ps) s))"
    by (auto simp: llc_write_def llc_layer_bytes_def sizeof_llc_header_def Let_def
        split: sum.splits option.splits write_args.splits)
qed

end
