(* ===== verification/Net_Stack.thy ===== *)
theory Net_Stack
  imports Custom
begin

text \<open>
  \<^verbatim>\<open>net_stack.c\<close>, \<^verbatim>\<open>handler_write\<close> of \<^verbatim>\<open>handlers/handler.c\<close> and the packet loop of
  \<^verbatim>\<open>worker.c\<close>: the handlers put together.

  \<open>op_read\<close> and \<open>op_write\<close> are the indirect calls through \<^verbatim>\<open>handler->operations\<close>. A chain of
  handlers calling each other is as deep as the packet stack, but nothing in the code
  bounds it, so they take fuel for the depth of calls; running out of it is
  \<open>No_return\<close>. \<open>wire\<close> records the frames that the interface is asked to send.
\<close>

section \<open>Data\<close>

record stack_mem = upper_mem +
  wire :: "u8 list list"

section \<open>Dispatch\<close>

definition handler_write :: "'a stack_mem_scheme config_write" where
  "handler_write p ifc s =
     (case out_at s p of Inr ps \<Rightarrow> s\<lparr>wire := wire s @ [frame_of ps]\<rparr> | Inl _ \<Rightarrow> s)"

fun op_write :: "nat \<Rightarrow> 'a stack_mem_scheme writer" where
  "op_write 0 h p ifc s = Inl No_return"
| "op_write (Suc n) h p ifc s =
     (case h of
        H_ethernet \<Rightarrow> ethernet_write handler_write (op_write n) p ifc s
      | H_arp \<Rightarrow> arp_write handler_write (op_write n) p ifc s
      | H_ipv4 \<Rightarrow> ipv4_write handler_write (op_write n) p ifc s
      | H_tcp \<Rightarrow> tcp_write (op_write n) p ifc s
      | H_llc \<Rightarrow> llc_write handler_write (op_write n) p ifc s
      | H_custom c \<Rightarrow> custom_write handler_write (op_write n) p ifc s)"

fun op_read :: "nat \<Rightarrow> 'a stack_mem_scheme reader" where
  "op_read 0 h p ifc s = Inl No_return"
| "op_read (Suc n) h p ifc s =
     (case h of
        H_ethernet \<Rightarrow> ethernet_read (op_read n) h p ifc s
      | H_arp \<Rightarrow> arp_read (op_read n) (op_write n) h p ifc s
      | H_ipv4 \<Rightarrow> ipv4_read (op_read n) h p ifc s
      | H_tcp \<Rightarrow> tcp_read (op_read n) (op_write n) h p ifc s
      | H_llc \<Rightarrow> llc_read (op_read n) h p ifc s
      | H_custom c \<Rightarrow> custom_read (op_write n) h p ifc s)"

section \<open>Start-up\<close>

text \<open>
  The static tables are zero before \<^verbatim>\<open>net_stack_init\<close> runs. What the allocations hold
  (\<open>raw_insert_idx\<close> of the ARP list, \<open>raw_sockets\<close> of TCP) is given.
\<close>

definition net_stack_init :: "u16 \<Rightarrow> nat option list \<Rightarrow> 'a stack_mem_scheme \<Rightarrow> fault + 'a stack_mem_scheme" where
  "net_stack_init raw_insert_idx raw_sockets s =
     sbind (arp_create_handler s) (\<lambda>(_, s).
     sbind (ipv4_create_handler (arp_init_handler raw_insert_idx s)) (\<lambda>(_, s).
     sbind (tcp_create_handler s) (\<lambda>(_, s).
       tcp_init_handler raw_sockets (Some 4096) s)))"

definition static_tables :: "'a stack_mem_scheme \<Rightarrow> 'a stack_mem_scheme" where
  "static_tables s = s\<lparr>ethernet_type_to_handler := empty_map 512, ip_type_to_handler := empty_map 64,
     llc_type_to_handler := empty_map 64, seq_x := 500\<rparr>"

section \<open>The worker\<close>

definition fresh_in_stack :: "mem8 \<Rightarrow> in_packet_stack_t" where
  "fresh_in_stack frame =
     \<lparr>in_handlers = replicate 10 None, return_args = replicate 10 None,
      packet_pointers = (replicate 10 None)[0 := Some 0], in_frame = frame, in_stack_idx = 0\<rparr>"

text \<open>
  The loop over the root handlers. The packet stack is a local variable at the address \<open>p\<close>,
  dead after each round, and the packet is freed in every round.
\<close>

primrec worker_packet ::
  "handler list \<Rightarrow> nat \<Rightarrow> nat \<Rightarrow> mem8 option \<Rightarrow> interface_t \<Rightarrow> 'a stack_mem_scheme \<Rightarrow> fault + 'a stack_mem_scheme" where
  "worker_packet [] n p packet ifc s = Inr s"
| "worker_packet (h # hs) n p packet ifc s =
     sbind (live packet) (\<lambda>frame.
     sbind (op_read n h p ifc (put_in p (fresh_in_stack frame) s)) (\<lambda>(_, s).
       worker_packet hs n p None ifc (s\<lparr>in_stacks := (in_stacks s)(p := None)\<rparr>)))"

primrec consume_tasks ::
  "(mem8 \<times> interface_t) list \<Rightarrow> handler list \<Rightarrow> nat \<Rightarrow> nat \<Rightarrow> 'a stack_mem_scheme \<Rightarrow> fault + 'a stack_mem_scheme" where
  "consume_tasks [] hs n p s = Inr s"
| "consume_tasks (packet # queue) hs n p s =
     sbind (worker_packet hs n p (Some (fst packet)) (snd packet) s) (\<lambda>s. consume_tasks queue hs n p s)"

text \<open>An example: a machine with nothing in memory but an ARP request at its network card.\<close>

definition example_tcb :: tcb_t where
  "example_tcb =
     \<lparr>tcb_id = 0, remote_ipv4 = 0, own_ipv4 = 0, tcb_remote_port = 0, own_port = 0,
      send_unacknowledged = 0, send_next = 0, send_window = 0, send_urgent_pointer = 0,
      send_initial_sequence_num = 0, send_last_update_sequence_num = 0,
      send_last_update_acknowledgement_num = 0, receive_next = 0, receive_window = 0,
      receive_urgent_pointer = 0, receive_initial_sequence_num = 0, fin_num = 0,
      tcb_state = CLOSED, active_mode = False, active_mode_args = None,
      tcb_out_buffer = example_buffer, tcb_in_buffer = example_buffer,
      out_header = (\<lambda>_. 0), state_function = Tcp_close\<rparr>"

definition example_blank :: stack_mem where
  "example_blank =
     \<lparr>in_stacks = (\<lambda>_. None), out_stacks = [], malloc_bytes = (\<lambda>_ _. 0),
      ethernet_type_to_handler = empty_map 0, ip_type_to_handler = empty_map 0,
      arp_socket = None, resolution_list = \<lparr>rl_list = [], rl_insert_idx = 0\<rparr>,
      tcp_window = 0, tcp_sockets = [], sockets = [], tcbs = [], client_args = (\<lambda>_. None),
      seq_x = 0, malloc_slack = 1, malloc_tcb = (\<lambda>_. example_tcb), callbacks = [],
      custom_priv = (\<lambda>_. \<lparr>response_buffer = None, response_length = 0\<rparr>),
      llc_type_to_handler = empty_map 0, wire = []\<rparr>"

definition example_started :: stack_mem where
  "example_started =
     (case net_stack_init 0 (replicate 64 None) (static_tables example_blank) of
        Inr s \<Rightarrow> s | Inl _ \<Rightarrow> example_blank)"

definition example_eth :: "u16 \<Rightarrow> ethernet_header_t" where
  "example_eth t = \<lparr>eh_destination = [255, 255, 255, 255, 255, 255], eh_source = [2, 0, 0, 0, 0, 9],
     eh_ethernet_type = htons t\<rparr>"

section \<open>Lemmas on the store\<close>

lemma stack_mem_select [simp]:
  "wire (put_in p ps s) = wire s" "wire (put_out p qs s) = wire s" "wire (put_tcb t tcb s) = wire s"
  "wire (put_sock k sk s) = wire s"
  by (simp_all add: put_in_def put_out_def put_tcb_def put_sock_def)

lemma stack_mem_update [simp]:
  "in_at (wire_update g s) p = in_at s p" "out_at (wire_update g s) p = out_at s p"
  "tcb_at (wire_update g s) t = tcb_at s t" "sock_at (wire_update g s) k = sock_at s k"
  "put_in p ps (wire_update g s) = wire_update g (put_in p ps s)"
  "put_out p qs (wire_update g s) = wire_update g (put_out p qs s)"
  "wire_update g (put_tcb t tcb s) = put_tcb t tcb (wire_update g s)"
  by (simp_all add: put_in_def put_out_def put_tcb_def in_at_def out_at_def tcb_at_def sock_at_def)

section \<open>The tables after start-up\<close>

definition eth_entry :: "u64 \<Rightarrow> u64 \<Rightarrow> handler \<Rightarrow> handler key_val_t" where
  "eth_entry k n h = \<lparr>kv_key = k, kv_priority = n, kv_value = Some h\<rparr>"

lemma net_stack_init_state:
  "net_stack_init raw_idx raw_sockets (static_tables s) =
     Inr ((arp_init_handler raw_idx (static_tables s))
       \<lparr>ethernet_type_to_handler := table 512 [eth_entry 0x0608 0 H_arp, eth_entry 0x0008 0 H_ipv4],
        ip_type_to_handler := table 64 [eth_entry 6 0 H_tcp],
        tcp_window := 4096, tcp_sockets := raw_sockets\<rparr>)"
proof -
  have swaps: "ucast (htons ETHERNET_TYPE_ARP) = (0x0608 :: u64)" "ucast (htons ETHERNET_TYPE_IPV4) = (0x0008 :: u64)"
    by (simp_all add: ETHERNET_TYPE_ARP_def ETHERNET_TYPE_IPV4_def bswap16_def join16_def)
  have add1: "add_value (table 512 []) 0x0608 (Some H_arp) = Inr (0, table 512 [eth_entry 0x0608 0 H_arp])"
    "add_value (table 512 [eth_entry 0x0608 0 H_arp]) 0x0008 (Some H_ipv4) =
      Inr (0, table 512 [eth_entry 0x0608 0 H_arp, eth_entry 0x0008 0 H_ipv4])"
    "add_value (table 64 []) 6 (Some H_tcp) = Inr (0, table 64 [eth_entry 6 0 H_tcp])"
    using add_value_table [of "[]" 512 "0x0608" "Some H_arp"] add_value_table [of "[]" 64 6 "Some H_tcp"]
      add_value_table [of "[eth_entry 0x0608 0 H_arp]" 512 "0x0008" "Some H_ipv4"]
    by (simp_all add: eth_entry_def)
  show ?thesis
    by (simp add: net_stack_init_def static_tables_def arp_create_handler_def ipv4_create_handler_def
        tcp_create_handler_def tcp_init_handler_def arp_init_handler_def swaps empty_map_table add1)
qed

lemma example_started_state:
  "example_started = (arp_init_handler 0 (static_tables example_blank))
     \<lparr>ethernet_type_to_handler := table 512 [eth_entry 0x0608 0 H_arp, eth_entry 0x0008 0 H_ipv4],
      ip_type_to_handler := table 64 [eth_entry 6 0 H_tcp],
      tcp_window := 4096, tcp_sockets := replicate 64 None\<rparr>"
  by (simp add: example_started_def net_stack_init_state)

section \<open>Sending through the layers\<close>

lemma handler_write_at:
  "out_at s p = Inr ps \<Longrightarrow> handler_write p ifc s = s\<lparr>wire := wire s @ [frame_of ps]\<rparr>"
  by (simp add: handler_write_def)

text \<open>The headers of a frame, and the stack they are pushed on.\<close>

definition eth_bytes :: "ethernet_write_args_t \<Rightarrow> interface_t \<Rightarrow> u8 list" where
  "eth_bytes e ifc = ethernet_header_bytes \<lparr>eh_destination = ea_destination e, eh_source = mac ifc,
     eh_ethernet_type = ea_ethernet_type e\<rparr>"

definition ip_bytes :: "ipv4_write_args_t \<Rightarrow> interface_t \<Rightarrow> out_packet_stack_t \<Rightarrow> u8 list" where
  "ip_bytes a ifc ps = ipv4_header_bytes (ipv4_fill_header ifc a
     (htons (ucast (ob_size (out_buffer ps) - (ob_offset (out_buffer ps) - 20)))))"

definition push_layer :: "u8 list \<Rightarrow> out_packet_stack_t \<Rightarrow> out_packet_stack_t" where
  "push_layer bs ps = (push_bytes bs ps)\<lparr>out_stack_idx := 0\<rparr>"

lemma ip_bytes_length [simp]: "length (ip_bytes a ifc ps) = 20"
  by (simp add: ip_bytes_def)

text \<open>The bottom layer: the frame goes out behind an Ethernet header.\<close>

lemma ethernet_sends:
  assumes at: "out_at s p = Inr ps" and wf: "wf_out ps" and i: "out_stack_idx ps = 0"
    and args: "out_args ps ! 0 = Some (Ethernet_args e)"
    and len: "length (ea_destination e) = 6" "length (mac ifc) = 6"
    and room: "14 \<le> unat (ob_offset (out_buffer ps))"
  shows "op_write (Suc n) H_ethernet p ifc s =
    Inr (True, (put_out p (push_bytes (eth_bytes e ifc) ps) s)\<lparr>wire := wire s @ [eth_bytes e ifc @ frame_of ps]\<rparr>)"
proof -
  let ?bs = "eth_bytes e ifc"
  have bytes: "ethernet_layer_bytes s ifc ps = Some ?bs"
    using args len i wf by (simp add: ethernet_layer_bytes_def current_args_def wf_out_def eth_bytes_def)
  have blen: "length ?bs = 14" using len by (simp add: ethernet_header_bytes_def eth_bytes_def)
  note w = eth.write_bottom [OF at bytes wf _ i]
  have "out_at (put_out p (push_bytes ?bs ps) s) p = Inr (push_bytes ?bs ps)"
    using out_at_valid [OF at] by simp
  from handler_write_at [OF this, of ifc] w(1) [of handler_write "op_write n"] w(2) room blen show ?thesis
    by simp
qed

text \<open>A header that some layer pushed on top of it.\<close>

lemma layer_sends:
  assumes at: "out_at s p = Inr ps" and wf: "wf_out ps"
    and args: "out_args ps ! 0 = Some (Ethernet_args e)"
    and len: "length (ea_destination e) = 6" "length (mac ifc) = 6"
    and room: "length bs + 14 \<le> unat (ob_offset (out_buffer ps))"
  shows "op_write (Suc n) H_ethernet p ifc (put_out p (push_layer bs ps) s) =
    Inr (True, (put_out p (push_bytes (eth_bytes e ifc) (push_layer bs ps)) s)
      \<lparr>wire := wire s @ [eth_bytes e ifc @ bs @ frame_of ps]\<rparr>)"
proof -
  have le: "length bs \<le> unat (ob_offset (out_buffer ps))" using room by simp
  have "frame_of (push_layer bs ps) = bs @ frame_of ps" "wf_out (push_layer bs ps)"
    using frame_of_push [OF wf le] wf_out_push [OF wf le] by (simp_all add: push_layer_def)
  moreover have "14 \<le> unat (ob_offset (out_buffer (push_layer bs ps)))"
    using room unat_minus_of_nat [OF le] by (simp add: push_layer_def)
  moreover have "out_at (put_out p (push_layer bs ps) s) p = Inr (push_layer bs ps)"
    using out_at_valid [OF at] by simp
  ultimately show ?thesis
    using ethernet_sends [of "put_out p (push_layer bs ps) s" p "push_layer bs ps" e ifc n] args len
    by (simp add: push_layer_def)
qed

lemma ipv4_sends:
  assumes at: "out_at s p = Inr ps" and wf: "wf_out ps" and i: "out_stack_idx ps = 1"
    and args: "out_args ps ! 1 = Some (Ipv4_args a)" "out_args ps ! 0 = Some (Ethernet_args e)"
    and h: "out_handlers ps ! 0 = Some H_ethernet"
    and len: "length (ea_destination e) = 6" "length (mac ifc) = 6"
    and room: "34 \<le> unat (ob_offset (out_buffer ps))"
  shows "op_write (Suc (Suc n)) H_ipv4 p ifc s =
    Inr (True, (put_out p (push_bytes (eth_bytes e ifc) (push_layer (ip_bytes a ifc ps) ps)) s)
      \<lparr>wire := wire s @ [eth_bytes e ifc @ ip_bytes a ifc ps @ frame_of ps]\<rparr>)"
proof -
  have bytes: "ipv4_layer_bytes s ifc ps = Some (ip_bytes a ifc ps)"
    using args i wf by (simp add: ipv4_layer_bytes_def current_args_def wf_out_def ip_bytes_def)
  have "op_write (Suc (Suc n)) H_ipv4 p ifc s =
      op_write (Suc n) H_ethernet p ifc (put_out p (push_layer (ip_bytes a ifc ps) ps) s)"
    using ip.write_down(1) [OF at bytes wf, of H_ethernet handler_write "op_write (Suc n)"] room i h
    by (simp add: push_layer_def)
  with layer_sends [OF at wf args(2) len, of "ip_bytes a ifc ps" n] room show ?thesis by simp
qed

lemma arp_sends:
  assumes at: "out_at s p = Inr ps" and wf: "wf_out ps" and i: "out_stack_idx ps = 1"
    and args: "out_args ps ! 1 = Some (Arp_args a)" "out_args ps ! 0 = Some (Ethernet_args e)"
    and h: "out_handlers ps ! 0 = Some H_ethernet"
    and len: "length (ea_destination e) = 6" "length (mac ifc) = 6"
      "length (sender_hardware_addr a) = 6" "length (target_hardware_addr a) = 6"
    and room: "42 \<le> unat (ob_offset (out_buffer ps))"
  shows "op_write (Suc (Suc n)) H_arp p ifc s =
    Inr (True, (put_out p (push_bytes (eth_bytes e ifc) (push_layer (arp_header_bytes a) ps)) s)
      \<lparr>wire := wire s @ [eth_bytes e ifc @ arp_header_bytes a @ frame_of ps]\<rparr>)"
proof -
  have bytes: "arp_layer_bytes s ifc ps = Some (arp_header_bytes a)"
    using args i wf len by (simp add: arp_layer_bytes_def current_args_def wf_out_def)
  have blen: "length (arp_header_bytes a) = 28" using len by simp
  have "op_write (Suc (Suc n)) H_arp p ifc s =
      op_write (Suc n) H_ethernet p ifc (put_out p (push_layer (arp_header_bytes a) ps) s)"
    using arp_layer.write_down(1) [OF at bytes wf, of H_ethernet handler_write "op_write (Suc n)"] room i h blen
    by (simp add: push_layer_def)
  with layer_sends [OF at wf args(2) len(1,2), of "arp_header_bytes a" n] room blen show ?thesis by simp
qed

lemma tcp_sends:
  fixes s :: "'a stack_mem_scheme"
  defines "n \<equiv> \<lambda>ps. ob_size (out_buffer ps) - ob_offset (out_buffer ps)"
  assumes at: "out_at s p = Inr ps" and wf: "wf_out ps" and i: "out_stack_idx ps = 2"
    and args: "out_args ps ! 2 = Some (Tcp_args \<lparr>ta_connection_id = cid, ta_socket = Some k, ta_flags = flags\<rparr>)"
      "cid \<noteq> 0" "out_args ps ! 1 = Some (Ipv4_args a)" "out_args ps ! 0 = Some (Ethernet_args e)"
    and h: "out_handlers ps ! 1 = Some H_ipv4" "out_handlers ps ! 0 = Some H_ethernet"
    and len: "length (ea_destination e) = 6" "length (mac ifc) = 6"
    and room: "54 \<le> unat (ob_offset (out_buffer ps))"
    and get: "tcp_get_transmission_control_block k cid s = Inr (Some t)"
    and tcb: "tcb_at s t = Inr tcb" and sk: "sock_at s k = Inr sk"
    and bb: "bb_invar (tcb_out_buffer tcb)" "bb_list (tcb_out_buffer tcb) = []"
    and fits: "unat (n ps) < 65536" "unat (n ps) \<le> unat (ntohs (send_window tcb))"
  shows "\<exists>bb ps' q. bb_invar bb \<and> bb_list bb = [] \<and>
    op_write (Suc (Suc (Suc m))) H_tcp p ifc s =
      Inr (True, put_tcb t ((tcb_sending tcb sk flags (n ps))\<lparr>tcb_out_buffer := bb\<rparr>)
        ((put_out p ps' s)\<lparr>wire := wire s @ [eth_bytes e ifc @ ip_bytes a ifc q @
           tcp_header_bytes (tcp_final_header tcb sk flags (n ps)) @ frame_of ps]\<rparr>)) \<and>
    ob_size (out_buffer q) = ob_size (out_buffer ps) \<and>
    ob_offset (out_buffer q) = ob_offset (out_buffer ps) - 20"
proof -
  let ?h = "tcp_header_bytes (tcp_final_header tcb sk flags (n ps))"
  let ?q = "(push_bytes ?h ps)\<lparr>out_stack_idx := out_stack_idx ps - 1\<rparr>"
  let ?s2 = "(put_out p (push_bytes (eth_bytes e ifc) (push_layer (ip_bytes a ifc ?q) ?q)) s)
      \<lparr>wire := wire s @ [eth_bytes e ifc @ ip_bytes a ifc ?q @ ?h @ frame_of ps]\<rparr>"
  have le: "length ?h \<le> unat (ob_offset (out_buffer ps))" using room by simp
  have q: "frame_of ?q = ?h @ frame_of ps" "wf_out ?q"
    using frame_of_push [OF wf le] wf_out_push [OF wf le] by simp_all
  have qroom: "34 \<le> unat (ob_offset (out_buffer ?q))" using room unat_minus_of_nat [OF le] by simp
  have below: "op_write (Suc (Suc m)) H_ipv4 p ifc (put_tcb t tcb1 (put_out p ?q s)) =
      Inr (True, put_tcb t tcb1 ?s2)" for tcb1
    using ipv4_sends [of "put_tcb t tcb1 (put_out p ?q s)" p ?q a e ifc m] q qroom args h i len
      out_at_valid [OF at] by simp
  have "\<exists>bb. bb_invar bb \<and> bb_list bb = [] \<and> tcp_write (op_write (Suc (Suc m))) p ifc s =
      Inr (True, put_tcb t ((tcb_sending tcb sk flags (n ps))\<lparr>tcb_out_buffer := bb\<rparr>) ?s2)"
    unfolding n_def
    by (rule tcp_write_single [OF at wf _ _ _ args(2) _ get tcb sk bb, where h = H_ipv4])
      (use i args h room fits below in \<open>simp_all add: n_def\<close>)
  then obtain bb where "bb_invar bb" "bb_list bb = []"
    and w: "tcp_write (op_write (Suc (Suc m))) p ifc s =
      Inr (True, put_tcb t ((tcb_sending tcb sk flags (n ps))\<lparr>tcb_out_buffer := bb\<rparr>) ?s2)" by blast
  moreover have "op_write (Suc (Suc (Suc m))) H_tcp p ifc s =
      Inr (True, put_tcb t ((tcb_sending tcb sk flags (n ps))\<lparr>tcb_out_buffer := bb\<rparr>) ?s2)"
    unfolding w [symmetric] by simp
  moreover have "ob_size (out_buffer ?q) = ob_size (out_buffer ps)"
    "ob_offset (out_buffer ?q) = ob_offset (out_buffer ps) - 20" by simp_all
  ultimately show ?thesis by blast
qed

section \<open>Receiving through the layers\<close>

text \<open>What the Ethernet layer leaves in the packet stack for the layer above.\<close>

definition above_ethernet :: "mem8 \<Rightarrow> ethernet_header_t \<Rightarrow> in_packet_stack_t" where
  "above_ethernet frame eh =
     \<lparr>in_handlers = (replicate 10 None)[0 := Some H_ethernet],
      return_args = (replicate 10 None)[0 := Some (Ethernet_args
        \<lparr>ea_destination = eh_source eh, ea_ethernet_type = eh_ethernet_type eh\<rparr>)],
      packet_pointers = (replicate 10 None)[0 := Some 0, 1 := Some 14],
      in_frame = frame, in_stack_idx = 1\<rparr>"

lemma ethernet_delivers:
  assumes "load_ethernet_header frame 0 = eh" and "ntohs 0x0600 < eh_ethernet_type eh"
    and "get_value (ethernet_type_to_handler s) (eh_ethernet_type eh) = Inr (Some h, m)"
  shows "worker_packet [H_ethernet] (Suc n) p (Some frame) ifc s =
    sbind (op_read n h p ifc (put_in p (above_ethernet frame eh) s\<lparr>ethernet_type_to_handler := m\<rparr>))
      (\<lambda>(_, s). Inr (s\<lparr>in_stacks := (in_stacks s)(p := None)\<rparr>))"
  using assms
  by (simp add: fresh_in_stack_def above_ethernet_def ethernet_read_def sizeof_ethernet_header_def
      Let_def sbind_assoc case_prod_unfold)

lemma above_ethernet_simps [simp]:
  "in_stack_idx (above_ethernet frame eh) = 1" "in_frame (above_ethernet frame eh) = frame"
  "length (in_handlers (above_ethernet frame eh)) = 10"
  "length (return_args (above_ethernet frame eh)) = 10"
  "length (packet_pointers (above_ethernet frame eh)) = 10"
  "packet_pointers (above_ethernet frame eh) ! 1 = Some 14"
  "packet_pointers (above_ethernet frame eh) ! Suc 0 = Some 14"
  by (simp_all add: above_ethernet_def)

text \<open>A request for this host on any resolution list: what is learnt decides.\<close>

lemma arp_request_read:
  assumes sock: "Option.bind (arp_socket s) as_next_handler = None"
    and at: "in_at s p = Inr (above_ethernet frame eh)" and src: "length (eh_source eh) = 6"
    and req: "load_arp_header frame 14 = req" "hdw_type req = ARP_HDW_TYPE_ETHERNET"
      "pro_type req = ETHERNET_TYPE_IPV6" "operation req = ARP_OPERATION_REQUEST"
      "target_protocol_addr req = ipv4_addr ifc"
    and mac: "length (mac ifc) = 6"
  shows "case arp_learn (resolution_list s) req of
      Inl f \<Rightarrow> op_read (Suc (Suc (Suc n))) H_arp p ifc s = Inl f
    | Inr l \<Rightarrow> \<exists>s'. op_read (Suc (Suc (Suc n))) H_arp p ifc s = Inr (Some 0, s') \<and>
        wire s' = wire s @ [ethernet_header_bytes \<lparr>eh_destination = eh_source eh, eh_source = mac ifc,
          eh_ethernet_type = eh_ethernet_type eh\<rparr> @ arp_header_bytes (arp_reply ifc req)] \<and>
        resolution_list s' = l \<and> arp_socket s' = arp_socket s \<and>
        ethernet_type_to_handler s' = ethernet_type_to_handler s"
proof -
  let ?hs = "(replicate 10 None)[0 := Some H_ethernet, 1 := Some H_arp]"
  let ?e = "\<lparr>ea_destination = eh_source eh, ea_ethernet_type = eh_ethernet_type eh\<rparr>"
  let ?ras = "(replicate 10 None)[0 := Some (Ethernet_args ?e), 1 := Some (Arp_args (arp_reply ifc req))]"
  let ?ps = "above_ethernet frame eh\<lparr>in_handlers := ?hs\<rparr>"
  have read: "op_read (Suc (Suc (Suc n))) H_arp p ifc s =
      arp_process (op_write (Suc (Suc n))) H_arp p 1 14 ifc (put_in p ?ps s)"
    using arp_read_no_watcher [OF sock at, of 14] by (simp add: above_ethernet_def)
  have at1: "in_at (put_in p ?ps s) p = Inr ?ps" by simp
  note process = arp_process_request [OF at1 _ req(2-5), of 14 1 "op_write (Suc (Suc n))" H_arp]
  show ?thesis
  proof (cases "arp_learn (resolution_list s) req")
    case (Inl f)
    with read process req(1) show ?thesis by (simp add: sbind_def del: op_read.simps)
  next
    case (Inr l)
    let ?s1 = "put_in p (?ps\<lparr>return_args := ?ras\<rparr>) (put_in p ?ps s\<lparr>resolution_list := l\<rparr>)"
    obtain out s2 where new: "new_out_stack ?hs ?ras DEFAULT_PACKAGE_BUFFER_SIZE 1 ?s1 = (out, s2)"
      by (metis surj_pair)
    have lens0: "length ?hs = 10" "length ?ras = 10" by simp_all
    obtain qs where qs: "out_at s2 out = Inr qs" "wf_out qs" "out_stack_idx qs = 1" "out_args qs = ?ras"
      "out_handlers qs = ?hs" "ob_offset (out_buffer qs) = DEFAULT_PACKAGE_BUFFER_SIZE" "frame_of qs = []"
      and s2: "s2 = ?s1\<lparr>out_stacks := out_stacks s2\<rparr>"
      by (rule new_out_stack_at [OF new lens0])
    have len: "length (sender_hardware_addr (arp_reply ifc req)) = 6"
        "length (target_hardware_addr (arp_reply ifc req)) = 6"
      using mac req(1) by (auto simp: arp_reply_def load_arp_header_def)
    have sent: "\<exists>ps'. op_write (Suc (Suc n)) H_arp out ifc s2 = Inr (True, (put_out out ps' s2)\<lparr>wire := wire s2 @
        [eth_bytes ?e ifc @ arp_header_bytes (arp_reply ifc req)]\<rparr>)"
      using arp_sends [OF qs(1-3), of "arp_reply ifc req" ?e ifc n] qs(4-7) src mac len
      by (auto simp: DEFAULT_PACKAGE_BUFFER_SIZE_def)
    have "wire s2 = wire s" "resolution_list s2 = l" "arp_socket s2 = arp_socket s"
      "ethernet_type_to_handler s2 = ethernet_type_to_handler s"
      by (subst s2, simp)+
    moreover have "op_read (Suc (Suc (Suc n))) H_arp p ifc s =
        sbind (op_write (Suc (Suc n)) H_arp out ifc s2) (\<lambda>(ok, s). Inr (Some (if ok then 0 else - 1), s))"
      using read process req(1) Inr new by (simp add: above_ethernet_def del: op_read.simps op_write.simps)
    ultimately show ?thesis using Inr sent by (auto simp: eth_bytes_def simp del: op_read.simps op_write.simps)
  qed
qed

lemma arp_request_reply:
  assumes inv: "arp_invar (resolution_list s)" and sock: "Option.bind (arp_socket s) as_next_handler = None"
    and at: "in_at s p = Inr (above_ethernet frame eh)" and src: "length (eh_source eh) = 6"
    and req: "load_arp_header frame 14 = req" "hdw_type req = ARP_HDW_TYPE_ETHERNET"
      "pro_type req = ETHERNET_TYPE_IPV6" "operation req = ARP_OPERATION_REQUEST"
      "target_protocol_addr req = ipv4_addr ifc"
    and room: "arp_table (resolution_list s) (sender_protocol_addr req) \<noteq> None \<or>
      length (arp_entries (resolution_list s)) < 256"
    and mac: "length (mac ifc) = 6"
  shows "\<exists>s'. op_read (Suc (Suc (Suc n))) H_arp p ifc s = Inr (Some 0, s') \<and>
    wire s' = wire s @ [ethernet_header_bytes \<lparr>eh_destination = eh_source eh, eh_source = mac ifc,
        eh_ethernet_type = eh_ethernet_type eh\<rparr> @ arp_header_bytes (arp_reply ifc req)] \<and>
    arp_invar (resolution_list s') \<and> arp_table (resolution_list s') =
      (arp_table (resolution_list s))(sender_protocol_addr req \<mapsto> sender_hardware_addr req)"
proof -
  obtain l where "arp_learn (resolution_list s) req = Inr l" "arp_invar l"
    "arp_table l = (arp_table (resolution_list s))(sender_protocol_addr req \<mapsto> sender_hardware_addr req)"
    by (rule arp_learn_correct [OF inv room])
  with arp_request_read [OF sock at src req mac, of n] show ?thesis by (auto simp del: op_read.simps)
qed

section \<open>Properties\<close>

text \<open>An ARP request for this host that arrives in an Ethernet frame is answered: whatever
  else the state holds, once the EtherType of ARP is dispatched to the ARP handler and
  nothing watches its socket, one packet makes the worker send exactly one frame, the
  ARP reply that gives this host's hardware address to the requester, and the requester is
  in the resolution list afterwards. Four nested calls are enough.\<close>

theorem arp_request_answered:
  assumes "length (eh_destination eh) = 6" and "length (eh_source eh) = 6"
    and "eh_ethernet_type eh = htons ETHERNET_TYPE_ARP"
    and "length (sender_hardware_addr req) = 6" and "length (target_hardware_addr req) = 6"
    and "hdw_type req = ARP_HDW_TYPE_ETHERNET" and "pro_type req = ETHERNET_TYPE_IPV6"
    and "operation req = ARP_OPERATION_REQUEST" and "target_protocol_addr req = ipv4_addr ifc"
    and "read_bytes frame 0 42 = ethernet_header_bytes eh @ arp_header_bytes req"
    and "get_value (ethernet_type_to_handler s) (htons ETHERNET_TYPE_ARP) = Inr (Some H_arp, m)"
    and "arp_invar (resolution_list s)" and "Option.bind (arp_socket s) as_next_handler = None"
    and "arp_table (resolution_list s) (sender_protocol_addr req) \<noteq> None \<or>
      card (dom (arp_table (resolution_list s))) < 256"
    and "length (mac ifc) = 6" and "4 \<le> n"
  shows "\<exists>s'. worker_packet [H_ethernet] n p (Some frame) ifc s = Inr s' \<and>
    wire s' = wire s @ [ethernet_header_bytes \<lparr>eh_destination = eh_source eh, eh_source = mac ifc,
        eh_ethernet_type = htons ETHERNET_TYPE_ARP\<rparr> @ arp_header_bytes (arp_reply ifc req)] \<and>
    arp_invar (resolution_list s') \<and> arp_table (resolution_list s') =
      (arp_table (resolution_list s))(sender_protocol_addr req \<mapsto> sender_hardware_addr req)"
proof -
  have "n = Suc (Suc (Suc (Suc (n - 4))))" using assms(16) by arith
  then obtain k where n: "n = Suc (Suc (Suc (Suc k)))" by blast
  have eb: "length (ethernet_header_bytes eh) = 14" using assms(1,2) by (simp add: ethernet_header_bytes_def)
  have split: "read_bytes frame 0 14 @ read_bytes frame 14 28 = ethernet_header_bytes eh @ arp_header_bytes req"
    using assms(10) read_bytes_add [of frame 0 14 28] by simp
  then have eh: "load_ethernet_header frame 0 = eh"
    using load_ethernet_header_bytes [OF assms(1,2), of frame 0] eb by simp
  have req: "load_arp_header frame 14 = req"
    using load_arp_header_bytes [OF assms(4,5), of frame 14] split eb by simp
  let ?s = "put_in p (above_ethernet frame eh) s\<lparr>ethernet_type_to_handler := m\<rparr>"
  have "arp_table (resolution_list ?s) (sender_protocol_addr req) \<noteq> None \<or>
      length (arp_entries (resolution_list ?s)) < 256"
    using assms(14) card_dom_arp_table [OF assms(12)] by simp
  from arp_request_reply [of ?s p frame eh req ifc k, OF _ _ _ assms(2) req assms(6-9) this assms(15)]
    assms(12,13)
  obtain s' where "op_read (Suc (Suc (Suc k))) H_arp p ifc ?s = Inr (Some 0, s')"
    "wire s' = wire s @ [ethernet_header_bytes \<lparr>eh_destination = eh_source eh, eh_source = mac ifc,
        eh_ethernet_type = eh_ethernet_type eh\<rparr> @ arp_header_bytes (arp_reply ifc req)]"
    "arp_invar (resolution_list s')" "arp_table (resolution_list s') =
      (arp_table (resolution_list s))(sender_protocol_addr req \<mapsto> sender_hardware_addr req)"
    by auto
  with ethernet_delivers [OF eh, of s H_arp m "Suc (Suc (Suc k))" p ifc] assms(3,11) n show ?thesis
    by (simp add: ETHERNET_TYPE_ARP_def bswap16_def join16_def)
qed

theorem arp_request_answered_witness:
  "\<exists>s'. worker_packet [H_ethernet] 4 0
      (Some (mem_of (ethernet_header_bytes (example_eth 0x0806) @ arp_header_bytes example_arp_request)))
      example_interface example_started = Inr s' \<and>
    wire s' = [[2, 0, 0, 0, 0, 9, 2, 0, 0, 0, 0, 1, 8, 6, 0, 1, 8, 0, 6, 4, 0, 2,
                2, 0, 0, 0, 0, 1, 10, 0, 0, 2, 2, 0, 0, 0, 0, 9, 10, 0, 0, 9]]"
proof -
  let ?eh = "example_eth 0x0806" and ?req = example_arp_request and ?s = example_started
  let ?f = "mem_of (ethernet_header_bytes ?eh @ arp_header_bytes ?req)"
  note started = example_started_state
  have rl: "arp_invar (resolution_list ?s)" "arp_table (resolution_list ?s) = Map.empty"
    using arp_init_invar [of "static_tables example_blank"] by (simp_all add: started)
  have sock: "Option.bind (arp_socket ?s) as_next_handler = None" and w: "wire ?s = []"
    by (simp_all add: started arp_init_handler_def static_tables_def example_blank_def)
  have len: "length (ethernet_header_bytes ?eh @ arp_header_bytes ?req) = 42" by code_simp
  have frame: "read_bytes ?f 0 42 = ethernet_header_bytes ?eh @ arp_header_bytes ?req"
    using len by (rule read_mem_of_all)
  have eh: "length (eh_destination ?eh) = 6" "length (eh_source ?eh) = 6"
    "eh_ethernet_type ?eh = htons ETHERNET_TYPE_ARP"
    "length (sender_hardware_addr ?req) = 6" "length (target_hardware_addr ?req) = 6"
    "hdw_type ?req = ARP_HDW_TYPE_ETHERNET" "pro_type ?req = ETHERNET_TYPE_IPV6"
    "operation ?req = ARP_OPERATION_REQUEST" "target_protocol_addr ?req = ipv4_addr example_interface"
    "length (mac example_interface) = 6"
    by (simp_all add: example_eth_def example_arp_request_def example_interface_def
        ETHERNET_TYPE_ARP_def ARP_HDW_TYPE_ETHERNET_def ETHERNET_TYPE_IPV6_def ARP_OPERATION_REQUEST_def)
  have key: "htons ETHERNET_TYPE_ARP = 0x0608"
    by (simp add: ETHERNET_TYPE_ARP_def bswap16_def join16_def)
  obtain m where m: "get_value (ethernet_type_to_handler ?s) (htons ETHERNET_TYPE_ARP) = Inr (Some H_arp, m)"
    using get_value_table [of 0 "[eth_entry 0x0608 0 H_arp, eth_entry 0x0008 0 H_ipv4]" 512 "0x0608"]
    by (simp add: started key get_value_hit_table eth_entry_def)
  have "[ethernet_header_bytes \<lparr>eh_destination = eh_source ?eh, eh_source = mac example_interface,
        eh_ethernet_type = htons ETHERNET_TYPE_ARP\<rparr> @ arp_header_bytes (arp_reply example_interface ?req)] =
      [[2, 0, 0, 0, 0, 9, 2, 0, 0, 0, 0, 1, 8, 6, 0, 1, 8, 0, 6, 4, 0, 2,
        2, 0, 0, 0, 0, 1, 10, 0, 0, 2, 2, 0, 0, 0, 0, 9, 10, 0, 0, 9]]"
    by code_simp
  with arp_request_answered [OF eh(1-9) frame m rl(1) sock _ eh(10), of 4 0] rl(2) w show ?thesis
    by auto
qed

text \<open>C32: the first IPv4 packet that arrives after start-up is lost: the lookup of its EtherType
  exchanges the two entries of the Ethernet table and returns the neighbour's handler, so
  the packet is read as an ARP packet and ignored. Nothing is sent and no connection
  changes; the table is then in the order in which the next IPv4 packet is found.\<close>

theorem first_ipv4_packet_lost:
  assumes "net_stack_init raw_idx raw_sockets (static_tables s0) = Inr s"
    and "load_ethernet_header frame 0 = eh" and "eh_ethernet_type eh = htons ETHERNET_TYPE_IPV4"
    and "frame 14 = 0x45" and "Option.bind (arp_socket s) as_next_handler = None" and "2 \<le> n"
  shows "\<exists>s'. worker_packet [H_ethernet] n p (Some frame) ifc s = Inr s' \<and>
    wire s' = wire s \<and> tcbs s' = tcbs s \<and> resolution_list s' = resolution_list s \<and>
    ethernet_type_to_handler s' = table 512 [eth_entry 0x0008 1 H_ipv4, eth_entry 0x0608 0 H_arp]"
proof -
  have "n = Suc (Suc (n - 2))" using assms(6) by arith
  then obtain k where n: "n = Suc (Suc k)" by blast
  let ?m = "table 512 [eth_entry 0x0008 1 H_ipv4, eth_entry 0x0608 0 H_arp]"
  have key: "htons ETHERNET_TYPE_IPV4 = 0x0008"
    by (simp add: ETHERNET_TYPE_IPV4_def bswap16_def join16_def)
  have get: "get_value (ethernet_type_to_handler s) (eh_ethernet_type eh) = Inr (Some H_arp, ?m)"
    using get_value_table [of 1 "[eth_entry 0x0608 0 H_arp, eth_entry 0x0008 0 H_ipv4]" 512 "0x0008"]
      assms(1,3) by (auto simp: net_stack_init_state key get_value_hit_table eth_entry_def)
  let ?s = "put_in p (above_ethernet frame eh) s\<lparr>ethernet_type_to_handler := ?m\<rparr>"
  have "load16 frame 14 \<noteq> ARP_HDW_TYPE_ETHERNET"
  proof
    assume "load16 frame 14 = ARP_HDW_TYPE_ETHERNET"
    then have "(ucast (load16 frame 14) :: u8) = 0" by (simp add: ARP_HDW_TYPE_ETHERNET_def)
    with assms(4) show False by (simp add: load16_def)
  qed
  then have "hdw_type (load_arp_header frame 14) \<noteq> ARP_HDW_TYPE_ETHERNET"
    by (simp add: load_arp_header_def)
  then have "op_read (Suc k) H_arp p ifc ?s = Inr (Some 0, put_in p (above_ethernet frame eh
      \<lparr>in_handlers := (in_handlers (above_ethernet frame eh))[1 := Some H_arp]\<rparr>) ?s)"
    using arp_read_no_watcher [of ?s p "above_ethernet frame eh" 14 "op_read k" "op_write k" H_arp ifc] assms(5)
    by (simp add: arp_process_def Let_def)
  with ethernet_delivers [OF assms(2) _ get, of "Suc k" p ifc] n assms(3) key show ?thesis
    by (simp add: bswap16_def join16_def)
qed

theorem first_ipv4_packet_lost_witness:
  "\<exists>s'. worker_packet [H_ethernet] 2 0
      (Some (mem_of (ethernet_header_bytes (example_eth 0x0800) @ replicate 40 0x45)))
      example_interface example_started = Inr s' \<and> wire s' = []"
proof -
  let ?f = "mem_of (ethernet_header_bytes (example_eth 0x0800) @ replicate 40 0x45)"
  obtain s where s: "net_stack_init 0 (replicate 64 None) (static_tables example_blank) = Inr s"
    and eq: "example_started = s"
    by (simp add: example_started_def net_stack_init_state)
  have "length (ethernet_header_bytes (example_eth 0x0800)) = 14" by code_simp
  then have "read_bytes ?f 0 14 = ethernet_header_bytes (example_eth 0x0800)" and f: "?f 14 = 0x45"
    by (simp_all add: read_mem_of nth_append)
  then have eh: "load_ethernet_header ?f 0 = example_eth 0x0800"
    by (intro load_ethernet_header_bytes) (simp_all add: example_eth_def)
  have "Option.bind (arp_socket s) as_next_handler = None" "wire s = []"
    using s [unfolded net_stack_init_state]
    by (auto simp: arp_init_handler_def static_tables_def example_blank_def)
  with first_ipv4_packet_lost [OF s eh _ f, of 2 0 example_interface] show ?thesis
    unfolding eq by (auto simp: example_eth_def ETHERNET_TYPE_IPV4_def)
qed

end
