(* ===== verification/Tcp_Invariant.thy ===== *)
theory Tcp_Invariant
  imports Net_Stack
begin

text \<open>
  What holds of every TCP connection whatever packets arrive and whatever the program asks
  for: the invariant of a control block, the state changes a connection can go through, and
  the proof that every operation of the stack keeps them.

  The relation \<open>evolves\<close> between two states of the stack is reflexive and transitive. That a
  handler's operation stays inside it is proved once for arbitrary layers above and below
  (the locale \<open>tcp_layers\<close>), and the interpretation for \<open>op_read\<close> and \<open>op_write\<close> follows by
  induction on the depth of calls.
\<close>

section \<open>The invariant\<close>

definition buffer_ok :: "tcp_block_buffer_t \<Rightarrow> bool" where
  "buffer_ok bb \<longleftrightarrow> bb_invar bb \<and> sorted (map fst (bb_list bb))"

text \<open>The states of RFC 793 that a connection of this stack can be in.\<close>

definition open_states :: "TCP_STATE set" where
  "open_states = {LISTEN, SYN_SENT, SYN_RECEIVED, ESTABLISHED, CLOSE_WAIT}"

definition tcb_ok :: "tcb_t \<Rightarrow> bool" where
  "tcb_ok tcb \<longleftrightarrow> buffer_ok (tcb_in_buffer tcb) \<and> buffer_ok (tcb_out_buffer tcb) \<and>
     tcb_state tcb \<in> open_states \<and> state_function tcb = state_function_of (tcb_state tcb)"

definition tcp_ok :: "'a tcp_mem_scheme \<Rightarrow> bool" where
  "tcp_ok s \<longleftrightarrow> (\<forall>t tcb. tcb_at s t = Inr tcb \<longrightarrow> tcb_ok tcb)"

text \<open>One change of state.\<close>

inductive tcp_next :: "TCP_STATE \<Rightarrow> TCP_STATE \<Rightarrow> bool" where
  syn_received: "tcp_next LISTEN SYN_RECEIVED"
| simultaneous_open: "tcp_next SYN_SENT SYN_RECEIVED"
| connected: "tcp_next SYN_SENT ESTABLISHED"
| acknowledged: "tcp_next SYN_RECEIVED ESTABLISHED"
| remote_closed: "tcp_next ESTABLISHED CLOSE_WAIT"

definition tcp_runs_to :: "TCP_STATE \<Rightarrow> TCP_STATE \<Rightarrow> bool" where
  "tcp_runs_to a b \<longleftrightarrow> tcp_next\<^sup>*\<^sup>* a b"

definition evolves :: "'a tcp_mem_scheme \<Rightarrow> 'a tcp_mem_scheme \<Rightarrow> bool" where
  "evolves s s' \<longleftrightarrow> (tcp_ok s \<longrightarrow> tcp_ok s' \<and> length (tcbs s) \<le> length (tcbs s') \<and>
     (\<forall>t tcb'. t < length (tcbs s) \<longrightarrow> tcb_at s' t = Inr tcb' \<longrightarrow>
        (\<exists>tcb. tcb_at s t = Inr tcb \<and> tcb_id tcb' = tcb_id tcb \<and> tcp_runs_to (tcb_state tcb) (tcb_state tcb'))))"

lemma tcp_runs_to_refl [simp, intro]: "tcp_runs_to a a"
  by (simp add: tcp_runs_to_def)

lemma tcp_runs_to_trans: "tcp_runs_to a b \<Longrightarrow> tcp_runs_to b c \<Longrightarrow> tcp_runs_to a c"
  by (simp add: tcp_runs_to_def)

lemma tcp_next_runs: "tcp_next a b \<Longrightarrow> tcp_runs_to a b"
  by (simp add: tcp_runs_to_def r_into_rtranclp)

inductive_cases tcp_nextE: "tcp_next a b"

lemma runs_from_established: "tcp_runs_to ESTABLISHED b \<Longrightarrow> b = ESTABLISHED \<or> b = CLOSE_WAIT"
  unfolding tcp_runs_to_def by (induction rule: rtranclp_induct) (auto elim: tcp_nextE)

lemma evolves_refl [simp, intro]: "evolves s s"
  by (simp add: evolves_def tcb_at_def)

lemma evolves_trans [trans]:
  assumes "evolves s s1" and "evolves s1 s2"
  shows "evolves s s2"
  unfolding evolves_def
proof (intro impI conjI allI)
  assume ok: "tcp_ok s"
  then have 1: "tcp_ok s1" "length (tcbs s) \<le> length (tcbs s1)" using assms(1) by (auto simp: evolves_def)
  with assms(2) show "tcp_ok s2" "length (tcbs s) \<le> length (tcbs s2)" by (auto simp: evolves_def)
  fix t tcb2
  assume t: "t < length (tcbs s)" and at: "tcb_at s2 t = Inr tcb2"
  obtain tcb1 where "tcb_at s1 t = Inr tcb1" "tcb_id tcb2 = tcb_id tcb1"
    "tcp_runs_to (tcb_state tcb1) (tcb_state tcb2)"
    using assms(2) 1 t at unfolding evolves_def by (meson order_less_le_trans)
  moreover from this obtain tcb where "tcb_at s t = Inr tcb" "tcb_id tcb1 = tcb_id tcb"
    "tcp_runs_to (tcb_state tcb) (tcb_state tcb1)"
    using assms(1) ok t unfolding evolves_def by meson
  ultimately show "\<exists>tcb. tcb_at s t = Inr tcb \<and> tcb_id tcb2 = tcb_id tcb \<and>
      tcp_runs_to (tcb_state tcb) (tcb_state tcb2)"
    using tcp_runs_to_trans by auto
qed

lemma evolvesI: "(tcp_ok s \<Longrightarrow> evolves s s') \<Longrightarrow> evolves s s'"
  by (simp add: evolves_def)

lemma evolves_ok: "evolves s s' \<Longrightarrow> tcp_ok s \<Longrightarrow> tcp_ok s'"
  by (simp add: evolves_def)

lemma tcp_ok_at: "tcp_ok s \<Longrightarrow> tcb_at s t = Inr tcb \<Longrightarrow> tcb_ok tcb"
  by (simp add: tcp_ok_def)

text \<open>What leaves the control blocks alone.\<close>

lemma evolves_same: "tcbs s' = tcbs s \<Longrightarrow> evolves s s'"
  by (auto simp: evolves_def tcp_ok_def tcb_at_def)

lemma evolves_cong: "tcbs s1 = tcbs s \<Longrightarrow> evolves s1 s' = evolves s s'"
  "tcbs s1 = tcbs s' \<Longrightarrow> evolves s s1 = evolves s s'"
  by (auto simp: evolves_def tcp_ok_def tcb_at_def)

text \<open>An assignment to one control block.\<close>

lemma evolves_put_tcb:
  assumes "tcb_at s t = Inr tcb" and "tcb_ok tcb \<Longrightarrow> tcb_ok tcb'" and "tcb_id tcb' = tcb_id tcb"
    and "tcb_ok tcb \<Longrightarrow> tcp_runs_to (tcb_state tcb) (tcb_state tcb')"
  shows "evolves s (put_tcb t tcb' s)"
proof -
  have t: "t < length (tcbs s)" using assms(1) by (rule tcb_at_valid)
  have at: "tcb_at (put_tcb t tcb' s) u = (if u = t then Inr tcb' else tcb_at s u)" for u
    using t by auto
  have "tcb_at s u = Inr x \<Longrightarrow> \<exists>y. tcb_at s u = Inr y" for u x by blast
  with assms at show ?thesis
    by (auto simp: evolves_def tcp_ok_def split: if_split_asm)
qed

lemma evolves_mod_tcb:
  assumes "mod_tcb t f s = Inr s'"
    and "\<And>tcb. tcb_at s t = Inr tcb \<Longrightarrow> tcb_ok tcb \<Longrightarrow> tcb_ok (f tcb) \<and> tcp_runs_to (tcb_state tcb) (tcb_state (f tcb))"
    and "\<And>tcb. tcb_id (f tcb) = tcb_id tcb"
  shows "evolves s s'"
  using assms by (auto simp: mod_tcb_def intro: evolves_put_tcb)

lemma buffer_ok_add: "buffer_ok bb \<Longrightarrow> tcp_block_buffer_add bb d seq n = Inr (r, bb') \<Longrightarrow> buffer_ok bb'"
  unfolding buffer_ok_def using bq.q_sorted by blast

lemma buffer_ok_remove:
  assumes "buffer_ok bb" and "tcp_block_buffer_remove_front bb k = Inr bb'"
  shows "buffer_ok bb'"
proof -
  have "bb_invar bb'" "bb_list bb' = drop (unat k) (bb_list bb)"
    using bq.q_remove [of bb k] assms by (auto simp: buffer_ok_def)
  with assms(1) show ?thesis by (simp add: buffer_ok_def drop_map [symmetric] sorted_wrt_drop)
qed

section \<open>Operations that touch a control block\<close>

lemma remove_head_evolves: "remove_head t s = Inr s' \<Longrightarrow> evolves s s'"
  by (auto simp: remove_head_def tcb_ok_def intro!: evolves_put_tcb dest: buffer_ok_remove)

lemma delete_tcb_evolves: "delete_transmission_control_block t s = Inr s' \<Longrightarrow> evolves s s'"
  by (auto simp: delete_transmission_control_block_def evolves_def tcp_ok_def tcb_at_def nth_list_update
      split: if_split_asm)

lemma delete_tcbs_evolves: "delete_tcbs is k c s = Inr s' \<Longrightarrow> evolves s s'"
proof (induction "is" arbitrary: s)
  case (Cons i "is")
  from Cons.prems obtain sk t where sk: "sock_at s k = Inr sk" "idx (trans_control_block sk) i = Inr t" by auto
  show ?case
  proof (cases t)
    case None
    with Cons sk show ?thesis by auto
  next
    case (Some u)
    with Cons.prems sk obtain tcb where tcb: "tcb_at s u = Inr tcb" by auto
    show ?thesis
    proof (cases "tcb_id tcb = c")
      case True
      with Cons.prems sk Some tcb obtain s1 where s1: "delete_transmission_control_block u s = Inr s1"
        "delete_tcbs is k c (put_sock k (sk\<lparr>trans_control_block := (trans_control_block sk)[i := None]\<rparr>) s1) = Inr s'"
        by auto
      from delete_tcb_evolves [OF s1(1)] Cons.IH [OF s1(2)] show ?thesis
        by (simp add: evolves_cong(1) [of "put_sock _ _ s1" s1]) (rule evolves_trans)
    next
      case False
      with Cons sk Some tcb show ?thesis by auto
    qed
  qed
qed simp

lemma tcp_delete_evolves: "tcp_delete_transmission_control_block k c s = Inr s' \<Longrightarrow> evolves s s'"
  unfolding tcp_delete_transmission_control_block_def by (rule delete_tcbs_evolves)

lemma add_tcb_evolves: "tcp_add_transmission_control_block k t s = Inr s' \<Longrightarrow> evolves s s'"
  by (auto simp: tcp_add_transmission_control_block_def intro: evolves_same)

lemma create_tcb_evolves:
  assumes "tcp_create_transmission_control_block c hdr ip st s = Inr (t, s')" and "st \<in> {LISTEN, SYN_SENT}"
  shows "evolves s s'"
proof -
  define tcb where "tcb = the (last (tcbs s'))"
  have s': "tcbs s' = tcbs s @ [Some tcb]" "tcb_state tcb = st" "state_function tcb = state_function_of st"
    "create_tcp_block_buffer (malloc_slack s) 10 = Inr (tcb_in_buffer tcb)"
    "create_tcp_block_buffer (malloc_slack s) 10 = Inr (tcb_out_buffer tcb)"
    using assms(1) by (auto simp: tcb_def tcp_create_transmission_control_block_def Let_def)
  have "0 < malloc_slack s" using s'(4) create_overflows [of 10] by (cases "malloc_slack s") auto
  then have "tcb_ok tcb"
    using create_correct [of "malloc_slack s" 10] s'(2-5) assms(2)
    by (auto simp: tcb_ok_def buffer_ok_def open_states_def)
  moreover have "tcb_at s' u = (if u = length (tcbs s) then Inr tcb else tcb_at s u)" for u
    by (simp add: tcb_at_def s'(1) nth_append)
  ultimately show ?thesis
    by (auto simp: evolves_def tcp_ok_def s'(1) split: if_split_asm)
qed

lemma callback_evolves: "run_callback c s = Inr s' \<Longrightarrow> evolves s s'"
  by (auto simp: run_callback_def intro: evolves_same)

lemma on_close_evolves: "socket_on_close k s = Inr s' \<Longrightarrow> evolves s s'"
  by (auto simp: socket_on_close_def intro: callback_evolves)

lemma set_top_args_tcbs: "set_top_args args a s = Inr (ca, s') \<Longrightarrow> tcbs s' = tcbs s"
  by (auto simp: set_top_args_def Let_def split: if_split_asm)

text \<open>An assignment that leaves the identifier, the buffers, the state and its function alone.\<close>

lemma evolves_mod_plain:
  assumes "mod_tcb t f s = Inr s'"
    and "\<And>tcb. tcb_id (f tcb) = tcb_id tcb \<and> tcb_in_buffer (f tcb) = tcb_in_buffer tcb \<and>
      tcb_out_buffer (f tcb) = tcb_out_buffer tcb \<and> tcb_state (f tcb) = tcb_state tcb \<and>
      state_function (f tcb) = state_function tcb"
  shows "evolves s s'"
  by (rule evolves_mod_tcb [OF assms(1)]) (simp_all add: assms(2) tcb_ok_def)

section \<open>TCP between its neighbours\<close>

text \<open>
  The handler above and the handler below are reached through \<open>rd\<close> and \<open>wr\<close>; all TCP needs of
  them is that they stay inside the relation.
\<close>

locale tcp_layers =
  fixes rd :: "'a tcp_mem_scheme reader" and wr :: "'a tcp_mem_scheme writer"
  assumes rd_evolves: "rd h p ifc s = Inr (r, s') \<Longrightarrow> evolves s s'"
    and wr_evolves: "wr h p ifc s = Inr (ok, s') \<Longrightarrow> evolves s s'"
begin

lemma internal_write_evolves:
  assumes "tcp_internal_write wr h p socket cid flags ifc s = Inr s'"
  shows "evolves s s'"
proof -
  from assms obtain ps ras out s1 ok where step: "handler_create_out_package_stack p (in_stack_idx ps)
      (put_in p (ps\<lparr>return_args := ras\<rparr>) s) = Inr (out, s1)" "wr h out ifc s1 = Inr (ok, s')"
    by (auto simp: tcp_internal_write_def Let_def)
  have "tcbs s1 = tcbs s" using step(1) by (auto simp: handler_create_out_package_stack_def new_out_stack_def Let_def)
  with wr_evolves [OF step(2)] show ?thesis by (simp add: evolves_cong(1) [of s1 s])
qed

lemma reply_evolves: "tcp_reply wr h sg socket t flags ifc s = Inr s' \<Longrightarrow> evolves s s'"
  by (auto simp: tcp_reply_def intro: internal_write_evolves)

lemma send_loop_evolves: "tcp_send_loop fuel wr p t ifc s = Inr (ok, s') \<Longrightarrow> evolves s s'"
proof (induction fuel arbitrary: s)
  case (Suc fuel)
  from Suc.prems obtain tcb where tcb: "tcb_at s t = Inr tcb" by auto
  show ?case
  proof (cases "tcp_block_buffer_get_head (tcb_out_buffer tcb)")
    case None
    with Suc.prems tcb show ?thesis by auto
  next
    case (Some b)
    with Suc.prems tcb obtain c q where q: "idx (cells (tcb_out_buffer tcb)) b = Inr c" "blk_data c = Some q" by auto
    show ?thesis
    proof (cases "unat (blk_payload_size c) \<le> unat (ntohs (send_window tcb))")
      case False
      with Suc.prems tcb Some q show ?thesis by auto
    next
      case True
      with Suc.prems tcb Some q obtain ps h ok1 s1 where
        down: "wr h q ifc (put_out p (ps\<lparr>out_stack_idx := out_stack_idx ps - 1\<rparr>) s) = Inr (ok1, s1)"
        and more: "(if \<not> ok1 then Inr (False, s1) else sbind (tcb_at s1 t) (\<lambda>tcb.
             sbind (tcp_block_buffer_remove_front (tcb_out_buffer tcb) 1) (\<lambda>bb.
               tcp_send_loop fuel wr p t ifc (put_tcb t (tcb\<lparr>tcb_out_buffer := bb\<rparr>) s1)))) = Inr (ok, s')"
        by (auto simp: Let_def)
      have s1: "evolves s s1" using wr_evolves [OF down] by (simp add: evolves_cong(1) [of "put_out _ _ s" s])
      show ?thesis
      proof (cases ok1)
        case False
        with more s1 show ?thesis by simp
      next
        case True
        with more obtain tcb1 bb where at: "tcb_at s1 t = Inr tcb1"
          "tcp_block_buffer_remove_front (tcb_out_buffer tcb1) 1 = Inr bb"
          "tcp_send_loop fuel wr p t ifc (put_tcb t (tcb1\<lparr>tcb_out_buffer := bb\<rparr>) s1) = Inr (ok, s')" by auto
        have "evolves s1 (put_tcb t (tcb1\<lparr>tcb_out_buffer := bb\<rparr>) s1)"
          using at(1,2) by (auto simp: tcb_ok_def intro!: evolves_put_tcb dest: buffer_ok_remove)
        with s1 Suc.IH [OF at(3)] show ?thesis by (blast intro: evolves_trans)
      qed
    qed
  qed
qed simp

lemma tcp_write_evolves:
  assumes "tcp_write wr p ifc s = Inr (ok, s')"
  shows "evolves s s'"
proof -
  from assms obtain ps a where ps: "out_at s p = Inr ps" "current_args ps = Inr a" by (auto simp: tcp_write_def)
  consider "s' = s" | t tcb q n r bb oh sn ps' where "tcb_at s t = Inr tcb"
    "tcp_block_buffer_add (tcb_out_buffer tcb) p q n = Inr (r, bb)"
    "tcp_send_loop 12 wr p t ifc (put_tcb t (tcb\<lparr>out_header := oh, send_next := sn, tcb_out_buffer := bb\<rparr>)
       (put_out p ps' s)) = Inr (ok, s')"
    using assms ps
    by (auto simp: tcp_write_def Let_def simp del: tcp_send_loop.simps
        split: if_split_asm option.split_asm write_args.split_asm)
  then show ?thesis
  proof cases
    case 2
    let ?tcb = "tcb\<lparr>out_header := oh, send_next := sn, tcb_out_buffer := bb\<rparr>"
    have "evolves (put_out p ps' s) (put_tcb t ?tcb (put_out p ps' s))"
      using 2(1,2) by (auto simp: tcb_ok_def intro!: evolves_put_tcb dest: buffer_ok_add)
    with send_loop_evolves [OF 2(3)] have "evolves (put_out p ps' s) s'" by (blast intro: evolves_trans)
    then show ?thesis by (simp add: evolves_cong(1) [of "put_out p ps' s" s])
  qed simp
qed

lemma receive_payload_evolves:
  assumes "tcp_receive_payload rd wr h socket t sg ifc s = Inr s'"
  shows "evolves s s'"
proof -
  from assms obtain s1 s2 ps where
    m: "mod_tcb t (\<lambda>tcb. tcb\<lparr>receive_next := receive_next tcb + ucast (segment_payload_size sg),
          receive_window := receive_window tcb - segment_payload_size sg\<rparr>) s = Inr s1"
    and r: "tcp_reply wr h sg socket t TCP_ACK_FLAG ifc s1 = Inr s2"
    and n: "s' = put_in (sg_stack sg) ps s2 \<or>
      (\<exists>nh x. rd nh (sg_stack sg) ifc (put_in (sg_stack sg) ps s2) = Inr (x, s'))"
    by (auto simp: tcp_receive_payload_def Let_def split: option.split_asm) blast+
  have "evolves s2 s'"
    using n
  proof
    assume "s' = put_in (sg_stack sg) ps s2"
    then show ?thesis by (auto intro: evolves_same)
  next
    assume "\<exists>nh x. rd nh (sg_stack sg) ifc (put_in (sg_stack sg) ps s2) = Inr (x, s')"
    then obtain nh x where "rd nh (sg_stack sg) ifc (put_in (sg_stack sg) ps s2) = Inr (x, s')" by blast
    from rd_evolves [OF this] show ?thesis by (simp add: evolves_cong(1) [of "put_in _ _ s2" s2])
  qed
  moreover have "evolves s s1" using m by (rule evolves_mod_plain) simp
  ultimately show ?thesis using reply_evolves [OF r] by (blast intro: evolves_trans)
qed

lemma tcp_close_evolves: "tcp_close n wr h t ifc s = Inr (r, s') \<Longrightarrow> evolves s s'"
proof (induction n arbitrary: s)
  case (Suc n)
  from Suc.prems obtain sg socket s1 s2 where
    b: "(if \<not> has_flag (sg_tcp sg) TCP_RST_FLAG then
         sbind (mod_tcb t (\<lambda>tcb.
             if has_flag (sg_tcp sg) TCP_ACK_FLAG
             then tcb\<lparr>send_next := ntohl (th_acknowledgement_num (sg_tcp sg))\<rparr>
             else tcb\<lparr>send_next := 0, receive_next :=
               ntohl (th_sequence_num (sg_tcp sg)) + ucast (segment_payload_size sg)\<rparr>) s) (\<lambda>s.
         tcp_reply wr h sg socket t TCP_RST_FLAG ifc s)
       else Inr s) = Inr s1"
    and rest: "remove_head t s1 = Inr s2" "tcp_close n wr h t ifc s2 = Inr (r, s')"
    by auto
  have "evolves s s1"
    using b by (auto split: if_split_asm intro: evolves_trans [OF evolves_mod_plain reply_evolves])
  with remove_head_evolves [OF rest(1)] Suc.IH [OF rest(2)] show ?case by (blast intro: evolves_trans)
qed simp

lemma rst_syn_evolves:
  assumes "tcp_others_rst_syn wr h sg socket t state ifc s = Inr (fl, s')"
  shows "evolves s s' \<and> (fl = Fall \<longrightarrow> s' = s)"
  using assms
  by (auto simp: tcp_others_rst_syn_def split: if_split_asm
      intro: on_close_evolves evolves_trans [OF reply_evolves remove_head_evolves])

lemma ack_sync_evolves:
  assumes "tcp_others_ack_sync wr h sg socket t state ifc s = Inr (fl, s')" and "state \<in> open_states"
  shows "evolves s s'"
proof -
  from assms(1) obtain tcb where tcb: "tcb_at s t = Inr tcb" by (auto simp: tcp_others_ack_sync_def)
  show ?thesis
  proof (cases "send_next tcb < ntohl (th_acknowledgement_num (sg_tcp sg))")
    case True
    with assms(1) tcb show ?thesis
      by (auto simp: tcp_others_ack_sync_def Let_def intro: evolves_trans [OF reply_evolves remove_head_evolves])
  next
    case False
    then obtain tcb' where s': "s' = put_tcb t tcb' s" "tcb_id tcb' = tcb_id tcb" "tcb_state tcb' = tcb_state tcb"
      "tcb_in_buffer tcb' = tcb_in_buffer tcb" "tcb_out_buffer tcb' = tcb_out_buffer tcb"
      "state_function tcb' = state_function tcb"
      using assms tcb
      by (cases state) (auto simp: tcp_others_ack_sync_def Let_def open_states_def split: if_split_asm)
    with tcb show ?thesis by (auto simp: tcb_ok_def intro: evolves_put_tcb)
  qed
qed

lemma others_ack_evolves:
  assumes "tcp_others_ack wr h sg socket t state ifc s = Inr (fl, s')"
    and "tcb_at s t = Inr tcb" and "state = tcb_state tcb" and "tcp_ok s"
  shows "evolves s s'"
proof -
  have st: "state \<in> open_states" using assms(2-4) by (auto dest: tcp_ok_at simp: tcb_ok_def)
  show ?thesis
  proof (cases "has_flag (sg_tcp sg) TCP_ACK_FLAG \<and> state = SYN_RECEIVED")
    case True
    then have syn: "tcb_state tcb = SYN_RECEIVED" using assms(3) by simp
    have "evolves s (put_tcb t (tcb\<lparr>send_window := w, send_last_update_sequence_num := q,
        send_last_update_acknowledgement_num := a, tcb_state := ESTABLISHED\<rparr>) s)" for w q a
      using assms(2) syn
      by (auto simp: tcb_ok_def open_states_def state_function_of_def intro!: evolves_put_tcb tcp_next_runs acknowledged)
    moreover have "evolves s (put_tcb t (tcb\<lparr>send_next := a\<rparr>) s)" for a
      using assms(2) by (auto simp: tcb_ok_def intro!: evolves_put_tcb)
    ultimately show ?thesis
      using assms(1,2) True
      by (auto simp: tcp_others_ack_def Let_def split: if_split_asm dest!: reply_evolves) (blast intro: evolves_trans)+
  next
    case False
    with assms(1) st show ?thesis
      by (auto simp: tcp_others_ack_def split: if_split_asm intro: ack_sync_evolves remove_head_evolves)
  qed
qed

text \<open>
  The FIN: \<open>state\<close> was read before the payload was passed on, and the connection may have moved
  on since.
\<close>

lemma others_fin_evolves:
  assumes "tcp_others_fin wr h sg socket t state ifc s = Inr (fl, s')" and "state \<in> open_states"
    and "\<And>tcb. tcb_at s t = Inr tcb \<Longrightarrow> tcp_runs_to state (tcb_state tcb)"
    and "t < length (tcbs s)" and "tcp_ok s"
  shows "evolves s s'"
proof (cases "has_flag (sg_tcp sg) TCP_FIN_FLAG \<and> state \<notin> {CLOSED, LISTEN, SYN_SENT}")
  case False
  with assms(1) show ?thesis
    by (auto simp: tcp_others_fin_def split: if_split_asm intro: remove_head_evolves)
next
  case True
  with assms(1) obtain s1 s2 s3 s4 where
    1: "mod_tcb t (\<lambda>tcb. tcb\<lparr>receive_next := ntohl (th_sequence_num (sg_tcp sg)) + 1\<rparr>) s = Inr s1"
    and 2: "tcp_reply wr h sg socket t (TCP_ACK_FLAG OR TCP_FIN_FLAG) ifc s1 = Inr s2"
    and 3: "mod_tcb t (\<lambda>tcb. tcb\<lparr>send_next := send_next tcb + 1\<rparr>) s2 = Inr s3"
    and 4: "socket_on_close socket s3 = Inr s4"
    and 5: "mod_tcb t (\<lambda>tcb.
              case state of
                ESTABLISHED \<Rightarrow> tcb\<lparr>tcb_state := CLOSE_WAIT\<rparr>
              | FIN_WAIT_1 \<Rightarrow>
                  if fin_num tcb \<noteq> 0 \<and> fin_num tcb \<le> ntohl (th_acknowledgement_num (sg_tcp sg))
                  then tcb\<lparr>tcb_state := TIME_WAIT\<rparr> else tcb\<lparr>tcb_state := CLOSING\<rparr>
              | FIN_WAIT_2 \<Rightarrow> tcb\<lparr>tcb_state := TIME_WAIT\<rparr>
              | _ \<Rightarrow> tcb) s4 = Inr s'"
    by (auto simp: tcp_others_fin_def Let_def)
  have "evolves s s1" "evolves s2 s3" using 1 3 by (auto intro: evolves_mod_plain)
  with reply_evolves [OF 2] on_close_evolves [OF 4] have s4: "evolves s s4" by (blast intro: evolves_trans)
  have now: "tcp_runs_to state (tcb_state tcb)" if "tcb_at s4 t = Inr tcb" for tcb
    using s4 that assms(3-5) unfolding evolves_def by (meson tcp_runs_to_trans)
  have "evolves s4 s'"
  proof (rule evolves_mod_tcb [OF 5])
    fix tcb
    assume at: "tcb_at s4 t = Inr tcb" and ok: "tcb_ok tcb"
    let ?f = "case state of
                ESTABLISHED \<Rightarrow> tcb\<lparr>tcb_state := CLOSE_WAIT\<rparr>
              | FIN_WAIT_1 \<Rightarrow>
                  if fin_num tcb \<noteq> 0 \<and> fin_num tcb \<le> ntohl (th_acknowledgement_num (sg_tcp sg))
                  then tcb\<lparr>tcb_state := TIME_WAIT\<rparr> else tcb\<lparr>tcb_state := CLOSING\<rparr>
              | FIN_WAIT_2 \<Rightarrow> tcb\<lparr>tcb_state := TIME_WAIT\<rparr>
              | _ \<Rightarrow> tcb"
    show "tcb_ok ?f \<and> tcp_runs_to (tcb_state tcb) (tcb_state ?f)"
    proof (cases "state = ESTABLISHED")
      case True
      then have "tcb_state tcb = ESTABLISHED \<or> tcb_state tcb = CLOSE_WAIT"
        using now [OF at] runs_from_established by blast
      with True ok tcp_next_runs [OF remote_closed] show ?thesis
        by (auto simp: tcb_ok_def open_states_def state_function_of_def)
    next
      case False
      with ok assms(2) show ?thesis by (cases state) (auto simp: open_states_def)
    qed
  qed (simp split: TCP_STATE.split)
  with s4 show ?thesis by (rule evolves_trans)
qed

lemma in_window_evolves:
  assumes "tcp_others_in_window rd wr h sg socket t ifc s = Inr (fl, s')" and "tcp_ok s"
  shows "evolves s s'"
proof -
  from assms(1) obtain tcb fl1 s1 where tcb: "tcb_at s t = Inr tcb"
    and rs: "tcp_others_rst_syn wr h sg socket t (tcb_state tcb) ifc s = Inr (fl1, s1)"
    by (auto simp: tcp_others_in_window_def Let_def)
  have st: "tcb_state tcb \<in> open_states" using tcp_ok_at [OF assms(2) tcb] by (simp add: tcb_ok_def)
  have t: "t < length (tcbs s)" using tcb by (rule tcb_at_valid)
  show ?thesis
  proof (cases "fl1 = Fall")
    case False
    with assms(1) tcb rs rst_syn_evolves [OF rs] show ?thesis by (auto simp: tcp_others_in_window_def Let_def)
  next
    case True
    then have s1: "s1 = s" using rst_syn_evolves [OF rs] by simp
    from assms(1) tcb rs True s1 obtain fl2 s2 where
      ack: "tcp_others_ack wr h sg socket t (tcb_state tcb) ifc s = Inr (fl2, s2)"
      by (auto simp: tcp_others_in_window_def Let_def)
    note e2 = others_ack_evolves [OF ack tcb refl assms(2)]
    show ?thesis
    proof (cases "fl2 = Fall")
      case False
      with assms(1) tcb rs True s1 ack e2 show ?thesis by (auto simp: tcp_others_in_window_def Let_def)
    next
      case f2: True
      from assms(1) tcb rs True s1 ack f2 obtain s3 where
        pay: "(if segment_payload_size sg \<noteq> 0 \<and> tcb_state tcb \<in> {ESTABLISHED, FIN_WAIT_1, FIN_WAIT_2}
            then tcp_receive_payload rd wr h socket t sg ifc s2 else Inr s2) = Inr s3"
        and fin: "tcp_others_fin wr h sg socket t (tcb_state tcb) ifc s3 = Inr (fl, s')"
        by (auto simp: tcp_others_in_window_def Let_def)
      have "evolves s2 s3" using pay by (auto split: if_split_asm intro: receive_payload_evolves)
      with e2 have e3: "evolves s s3" by (rule evolves_trans)
      have "tcp_ok s3" "t < length (tcbs s3)" using e3 assms(2) t by (auto simp: evolves_def)
      moreover have "tcp_runs_to (tcb_state tcb) (tcb_state tcb3)" if "tcb_at s3 t = Inr tcb3" for tcb3
        using e3 assms(2) t that tcb unfolding evolves_def by force
      ultimately have "evolves s3 s'" using others_fin_evolves [OF fin st] by blast
      with e3 show ?thesis by (rule evolves_trans)
    qed
  qed
qed

lemma tcp_others_evolves: "tcp_others n rd wr h t ifc s = Inr (r, s') \<Longrightarrow> tcp_ok s \<Longrightarrow> evolves s s'"
proof (induction n arbitrary: s)
  case (Suc n)
  from Suc.prems(1) obtain tcb sg socket fl s1 where
    body: "(if is_segment_in_window tcb (sg_tcp sg) (ucast (segment_payload_size sg))
       then tcp_others_in_window rd wr h sg socket t ifc s
       else if has_flag (sg_tcp sg) TCP_RST_FLAG
       then sbind (remove_head t s) (\<lambda>s. Inr (Continue, s))
       else sbind (tcp_reply wr h sg socket t TCP_ACK_FLAG ifc s) (\<lambda>s. Inr (Fall, s))) = Inr (fl, s1)"
    and next_round: "(case fl of Return \<Rightarrow> Inr (Some 0, s1) | Continue \<Rightarrow> tcp_others n rd wr h t ifc s1
       | Fall \<Rightarrow> sbind (remove_head t s1) (\<lambda>s. tcp_others n rd wr h t ifc s)) = Inr (r, s')"
    by auto
  have s1: "evolves s s1"
    using body Suc.prems(2)
    by (auto split: if_split_asm intro: in_window_evolves remove_head_evolves reply_evolves)
  then have ok: "tcp_ok s1" using Suc.prems(2) by (rule evolves_ok)
  have "evolves s1 s'"
  proof (cases fl)
    case Return
    with next_round show ?thesis by auto
  next
    case Continue
    with next_round Suc.IH [OF _ ok] show ?thesis by simp
  next
    case Fall
    with next_round obtain s2 where "remove_head t s1 = Inr s2" "tcp_others n rd wr h t ifc s2 = Inr (r, s')" by auto
    with remove_head_evolves [of t s1 s2] Suc.IH [of s2] ok show ?thesis
      by (meson evolves_ok evolves_trans)
  qed
  with s1 show ?case by (rule evolves_trans)
qed simp

text \<open>The state functions of the states before the connection is established.\<close>

lemma syn_sent_syn_evolves:
  assumes "tcp_syn_sent_syn rd wr h sg socket t ifc s = Inr s'"
    and "tcb_at s t = Inr tcb" and "tcb_state tcb = SYN_SENT"
  shows "evolves s s'"
proof -
  let ?seq = "ntohl (th_sequence_num (sg_tcp sg))" and ?ack = "ntohl (th_acknowledgement_num (sg_tcp sg))"
  from assms(1) obtain s1 tcb1 s3 s4 where
    m: "mod_tcb t (\<lambda>tcb. tcb\<lparr>receive_initial_sequence_num := ?seq, receive_next := ?seq + 1,
          send_unacknowledged :=
            (if has_flag (sg_tcp sg) TCP_ACK_FLAG then ?ack else send_unacknowledged tcb)\<rparr>) s = Inr s1"
    and at: "tcb_at s1 t = Inr tcb1"
    and mid: "(if send_initial_sequence_num tcb1 < send_unacknowledged tcb1 then
          sbind (mod_tcb t (\<lambda>tcb. tcb\<lparr>tcb_state := ESTABLISHED, state_function := Tcp_others\<rparr>) s1) (\<lambda>s.
          sbind
           (if segment_payload_size sg \<noteq> 0 then tcp_receive_payload rd wr h socket t sg ifc s
            else tcp_reply wr h sg socket t TCP_ACK_FLAG ifc s) (\<lambda>s.
          sbind (deref socket) (\<lambda>k.
          sbind (sock_at s k) (\<lambda>sk. run_callback (sk_on_connect sk) s))))
        else
          sbind (mod_tcb t (\<lambda>tcb. tcb\<lparr>tcb_state := SYN_RECEIVED, state_function := Tcp_others\<rparr>) s1) (\<lambda>s.
          tcp_reply wr h sg socket t (TCP_SYN_FLAG OR TCP_ACK_FLAG) ifc s)) = Inr s3"
    and upd: "mod_tcb t (\<lambda>tcb. tcb\<lparr>send_window := ntohs (th_window (sg_tcp sg)),
          send_last_update_sequence_num := ?seq, send_last_update_acknowledgement_num := ?ack\<rparr>) s3 = Inr s4"
    and rem: "remove_head t s4 = Inr s'"
    by (auto simp: tcp_syn_sent_syn_def Let_def split del: if_split)
  have st: "tcb_state tcb1 = SYN_SENT" using m at assms(2,3) by (auto simp: mod_tcb_def tcb_at_valid)
  have s1: "evolves s s1" using m by (rule evolves_mod_plain) simp
  have move: "evolves s1 s2"
    if "mod_tcb t (\<lambda>tcb. tcb\<lparr>tcb_state := x, state_function := Tcp_others\<rparr>) s1 = Inr s2"
      and "x = ESTABLISHED \<or> x = SYN_RECEIVED" for x s2
    by (rule evolves_mod_tcb [OF that(1)])
      (use at st that(2) tcp_next_runs [OF connected] tcp_next_runs [OF simultaneous_open] in
        \<open>auto simp: tcb_ok_def open_states_def state_function_of_def\<close>)
  have "evolves s1 s3"
    using mid
    by (auto split: if_split_asm dest!: move [OF _ disjI1 [OF refl]] move [OF _ disjI2 [OF refl]] receive_payload_evolves reply_evolves callback_evolves)
      (blast intro: evolves_trans)+
  moreover have "evolves s3 s4" using upd by (rule evolves_mod_plain) simp
  ultimately show ?thesis using s1 remove_head_evolves [OF rem] by (blast intro: evolves_trans)
qed

lemma syn_sent_evolves:
  assumes "tcp_syn_sent n rd wr h t ifc s = Inr (r, s')"
    and "\<And>tcb. tcb_at s t = Inr tcb \<Longrightarrow> tcb_state tcb = SYN_SENT"
  shows "evolves s s'"
  using assms
  by (auto simp: tcp_syn_sent_def Let_def split: if_split_asm
      dest!: reply_evolves remove_head_evolves tcp_delete_evolves dest: syn_sent_syn_evolves)
    (blast intro: evolves_trans dest: syn_sent_syn_evolves)+

lemma listen_evolves:
  assumes "tcp_listen n wr h t ifc s = Inr (r, s')"
    and listen: "\<And>tcb. tcb_at s t = Inr tcb \<Longrightarrow> tcb_state tcb = LISTEN"
  shows "evolves s s'"
proof -
  let ?reset = "\<lambda>a tcb. tcb\<lparr>send_next := a, receive_next := 0\<rparr>"
    and ?open = "\<lambda>a b tcb. tcb\<lparr>receive_initial_sequence_num := a, receive_next := b,
        receive_urgent_pointer := 0, tcb_state := SYN_RECEIVED, state_function := Tcp_others,
        send_next := send_initial_sequence_num tcb\<rparr>"
    and ?sent = "\<lambda>tcb. tcb\<lparr>send_unacknowledged := send_initial_sequence_num tcb, send_next := send_next tcb + 1\<rparr>"
  have opened: "evolves s s1" if "mod_tcb t (?open a b) s = Inr s1" for a b s1
    by (rule evolves_mod_tcb [OF that])
      (use listen tcp_next_runs [OF syn_received] in
        \<open>auto simp: tcb_ok_def open_states_def state_function_of_def\<close>)
  have plain: "mod_tcb t (?reset a) s1 = Inr s2 \<Longrightarrow> evolves s1 s2" "mod_tcb t ?sent s1 = Inr s2 \<Longrightarrow> evolves s1 s2"
    for a s1 s2
    by (auto intro: evolves_mod_plain)
  consider "s' = s" | k c where "tcp_delete_transmission_control_block k c s = Inr s'"
    | sg socket a s1 s2 where "mod_tcb t (?reset a) s = Inr s1"
        "tcp_reply wr h sg socket t TCP_RST_FLAG ifc s1 = Inr s2" "remove_head t s2 = Inr s'"
    | sg socket a b s1 s2 s3 where "mod_tcb t (?open a b) s = Inr s1"
        "tcp_reply wr h sg socket t (TCP_ACK_FLAG OR TCP_SYN_FLAG) ifc s1 = Inr s2" "mod_tcb t ?sent s2 = Inr s3"
        "remove_head t s3 = Inr s'"
    | "remove_head t s = Inr s'"
    using assms(1) by (auto simp: tcp_listen_def Let_def split: if_split_asm)
  then show ?thesis
  proof cases
    case 3
    from plain(1) [OF 3(1)] reply_evolves [OF 3(2)] remove_head_evolves [OF 3(3)] show ?thesis
      by (blast intro: evolves_trans)
  next
    case 4
    from opened [OF 4(1)] reply_evolves [OF 4(2)] plain(2) [OF 4(3)] remove_head_evolves [OF 4(4)]
    show ?thesis by (blast intro: evolves_trans)
  qed (auto intro: tcp_delete_evolves remove_head_evolves)
qed

lemma run_state_function_evolves:
  assumes "run_state_function (state_function tcb) n rd wr h t ifc s = Inr (r, s')"
    and "tcb_at s t = Inr tcb" and "tcp_ok s"
  shows "evolves s s'"
proof -
  have ok: "tcb_ok tcb" using assms(2,3) by (blast dest: tcp_ok_at)
  show ?thesis
  proof (cases "state_function tcb")
    case Tcp_close
    with assms(1) show ?thesis by (auto simp: run_state_function_def intro: tcp_close_evolves)
  next
    case Tcp_listen
    with ok have "tcb_state tcb = LISTEN"
      by (auto simp: tcb_ok_def open_states_def state_function_of_def)
    with Tcp_listen assms show ?thesis by (auto simp: run_state_function_def intro: listen_evolves)
  next
    case Tcp_syn_sent
    with ok have "tcb_state tcb = SYN_SENT"
      by (auto simp: tcb_ok_def open_states_def state_function_of_def)
    with Tcp_syn_sent assms show ?thesis by (auto simp: run_state_function_def intro: syn_sent_evolves)
  next
    case Tcp_others
    with assms show ?thesis by (auto simp: run_state_function_def intro: tcp_others_evolves)
  qed
qed

lemma enqueue_evolves:
  assumes "tcp_enqueue_and_run rd wr h p t ip hdr ifc s = Inr (r, s')" and "tcp_ok s"
  shows "evolves s s'"
proof -
  from assms(1) obtain tcb b bb n where tcb: "tcb_at s t = Inr tcb"
    and add: "tcp_block_buffer_add (tcb_in_buffer tcb) p (th_sequence_num hdr)
      (tcp_get_payload_length ip hdr) = Inr (b, bb)"
    by (auto simp: tcp_enqueue_and_run_def)
  let ?rn = "if tcb_state tcb = SYN_SENT then ntohl (th_sequence_num hdr) else receive_next tcb"
  let ?tcb = "tcb\<lparr>tcb_in_buffer := bb, receive_next := ?rn\<rparr>"
  let ?s = "put_tcb t ?tcb s"
  have s1: "evolves s ?s"
    using tcb add by (auto simp: tcb_ok_def intro!: evolves_put_tcb dest: buffer_ok_add)
  then have ok: "tcp_ok ?s" using assms(2) by (rule evolves_ok)
  have at: "tcb_at ?s t = Inr ?tcb" using tcb by (simp add: tcb_at_valid)
  from assms(1) tcb add obtain n where
    "(if n \<noteq> 0 then run_state_function (state_function ?tcb) (unat (n :: u16)) rd wr h t ifc ?s
      else Inr (Some 0, ?s)) = Inr (r, s')"
    by (auto simp: tcp_enqueue_and_run_def Let_def)
  then have "evolves ?s s'"
    using run_state_function_evolves [OF _ at ok] by (auto split: if_split_asm)
  with s1 show ?thesis by (rule evolves_trans)
qed

lemma tcp_read_evolves:
  assumes "tcp_read rd wr h p ifc s = Inr (r, s')" and "tcp_ok s"
  shows "evolves s s'"
proof -
  from assms(1) obtain ps where step: "s' = put_in p ps s \<or>
    (\<exists>t ip hdr. tcp_enqueue_and_run rd wr h p t ip hdr ifc (put_in p ps s) = Inr (r, s')) \<or>
    (\<exists>c ip hdr k t s1 s2. tcp_create_transmission_control_block c (Some hdr) (ih_source_ip ip) LISTEN
        (put_in p ps s) = Inr (t, s1) \<and> tcp_add_transmission_control_block k t s1 = Inr s2 \<and>
      tcp_enqueue_and_run rd wr h p t ip hdr ifc s2 = Inr (r, s'))"
    by (auto simp: tcp_read_def Let_def split: option.split_asm if_split_asm) blast+
  have s0: "evolves s (put_in p ps s)" by (rule evolves_same) simp
  then have ok: "tcp_ok (put_in p ps s)" using assms(2) by (rule evolves_ok)
  from step show ?thesis
  proof (elim disjE exE conjE)
    fix c ip hdr k t s1 s2
    assume mk: "tcp_create_transmission_control_block c (Some hdr) (ih_source_ip ip) LISTEN (put_in p ps s) = Inr (t, s1)"
      "tcp_add_transmission_control_block k t s1 = Inr s2"
      and run: "tcp_enqueue_and_run rd wr h p t ip hdr ifc s2 = Inr (r, s')"
    have "evolves s s2"
      using create_tcb_evolves [OF mk(1)] add_tcb_evolves [OF mk(2)] s0 by (blast intro: evolves_trans)
    with enqueue_evolves [OF run] assms(2) show ?thesis by (blast intro: evolves_trans evolves_ok)
  qed (use s0 ok enqueue_evolves in \<open>blast intro: evolves_trans\<close>)+
qed

text \<open>What the programs call.\<close>

lemma connect_evolves:
  assumes "tcp_socket_connect wr h k args ip port s = Inr (c, s')"
  shows "evolves s s'"
proof -
  from assms obtain sk where sk: "sock_at s k = Inr sk" by (auto simp: tcp_socket_connect_def)
  let ?cid = "tcp_shared_calculate_connection_id ip port (sk_port sk)"
  from assms sk obtain hdr t s1 s2 ca s3 where
    mk: "tcp_create_transmission_control_block ?cid hdr ip SYN_SENT s = Inr (t, s1)"
    and m: "mod_tcb t (\<lambda>tcb. tcb\<lparr>active_mode := True, active_mode_args := args\<rparr>) s1 = Inr s2"
    and a: "set_top_args args (Tcp_args
         \<lparr>ta_connection_id = ?cid, ta_socket = Some k, ta_flags = TCP_SYN_FLAG\<rparr>) s2 = Inr (ca, s3)"
    and rest: "(let (out, s) = new_out_stack (ca_handlers ca) (ca_handler_args ca) DEFAULT_PACKAGE_BUFFER_SIZE
         (ca_depth ca - 1) s3 in
       sbind (tcp_add_transmission_control_block k t s) (\<lambda>s.
       sbind (wr h out (sk_interface sk) s) (\<lambda>(ok, s).
       if \<not> ok then Inr (0, s)
       else sbind (mod_tcb t (\<lambda>tcb. tcb\<lparr>send_next := send_next tcb + 1\<rparr>) s) (\<lambda>s.
         Inr (?cid, s))))) = Inr (c, s')"
    by (auto simp: tcp_socket_connect_def Let_def)
  obtain out s4 where o: "new_out_stack (ca_handlers ca) (ca_handler_args ca) DEFAULT_PACKAGE_BUFFER_SIZE
       (ca_depth ca - 1) s3 = (out, s4)" by fastforce
  with rest obtain s5 ok s6 where add: "tcp_add_transmission_control_block k t s4 = Inr s5"
    and w: "wr h out (sk_interface sk) s5 = Inr (ok, s6)"
    and e: "s' = s6 \<or> mod_tcb t (\<lambda>tcb. tcb\<lparr>send_next := send_next tcb + 1\<rparr>) s6 = Inr s'"
    by (auto simp: Let_def split: if_split_asm)
  have "tcbs s4 = tcbs s3" using o by (auto simp: new_out_stack_def Let_def)
  then have "evolves s2 s3" "evolves s3 s4" using set_top_args_tcbs [OF a] by (auto intro: evolves_same)
  moreover have "evolves s s1" using mk by (rule create_tcb_evolves) simp
  moreover have "evolves s1 s2" using m by (rule evolves_mod_plain) simp
  moreover have "evolves s6 s'" using e by (auto intro: evolves_mod_plain)
  ultimately show ?thesis
    using add_tcb_evolves [OF add] wr_evolves [OF w] by (meson evolves_trans)
qed

lemma send_evolves:
  assumes "tcp_socket_send wr k cid payload s = Inr (ok, s')"
  shows "evolves s s'"
proof -
  from assms obtain args a ca s1 out n d s2 ps h ifc where
    a: "set_top_args args a s = Inr (ca, s1)"
    and o: "new_out_stack (ca_handlers ca) (ca_handler_args ca) n d s1 = (out, s2)"
    and w: "wr h out ifc (put_out out ps s2) = Inr (ok, s')"
    by (auto simp: tcp_socket_send_def Let_def split: if_split_asm prod.split_asm)
  have "tcbs (put_out out ps s2) = tcbs s"
    using set_top_args_tcbs [OF a] o by (auto simp: new_out_stack_def Let_def)
  with wr_evolves [OF w] show ?thesis by (simp add: evolves_cong(1) [of "put_out out ps s2" s])
qed

text \<open>The layers that keep no state of their own in the control blocks.\<close>

lemma pass_down_evolves:
  assumes "pass_down cw wr p ifc s = Inr (ok, s')" and "\<And>p ifc s. tcbs (cw p ifc s) = tcbs s"
  shows "evolves s s'"
proof -
  consider "s' = cw p ifc s" | h ps where "wr h p ifc (put_out p ps s) = Inr (ok, s')"
    using assms(1) by (auto simp: pass_down_def Let_def split: if_split_asm)
  then show ?thesis
  proof cases
    case 1
    with assms(2) show ?thesis by (auto intro: evolves_same)
  next
    case 2
    from wr_evolves [OF this] show ?thesis by (simp add: evolves_cong(1) [of "put_out p ps s" s])
  qed
qed

lemma pushed_evolves:
  assumes "pass_down cw wr p ifc (put_out p ps s) = Inr (ok, s')" and "\<And>p ifc s. tcbs (cw p ifc s) = tcbs s"
  shows "evolves s s'"
  using pass_down_evolves [OF assms] by (simp add: evolves_cong(1) [of "put_out p ps s" s])

lemma read_up_evolves: "rd h p ifc s1 = Inr (r, s') \<Longrightarrow> tcbs s1 = tcbs s \<Longrightarrow> evolves s s'"
  using rd_evolves evolves_cong(1) by blast

lemma write_down_evolves: "wr h p ifc s1 = Inr (ok, s') \<Longrightarrow> tcbs s1 = tcbs s \<Longrightarrow> evolves s s'"
  using wr_evolves evolves_cong(1) by blast

lemma ethernet_write_evolves:
  assumes "ethernet_write cw wr p ifc s = Inr (ok, s')" and "\<And>p ifc s. tcbs (cw p ifc s) = tcbs s"
  shows "evolves s s'"
  using assms(1) by (auto simp: ethernet_write_def split: if_split_asm write_args.split_asm
      dest!: pushed_evolves [OF _ assms(2)])

lemma ipv4_write_evolves:
  assumes "ipv4_write cw wr p ifc s = Inr (ok, s')" and "\<And>p ifc s. tcbs (cw p ifc s) = tcbs s"
  shows "evolves s s'"
  using assms(1) by (auto simp: ipv4_write_def Let_def split: if_split_asm write_args.split_asm
      dest!: pushed_evolves [OF _ assms(2)])

lemma arp_write_evolves:
  assumes "arp_write cw wr p ifc s = Inr (ok, s')" and "\<And>p ifc s. tcbs (cw p ifc s) = tcbs s"
  shows "evolves s s'"
  using assms(1) by (auto simp: arp_write_def Let_def split: if_split_asm write_args.split_asm
      dest!: pushed_evolves [OF _ assms(2)])

lemma llc_write_evolves:
  assumes "llc_write cw wr p ifc s = Inr (ok, s')" and "\<And>p ifc s. tcbs (cw p ifc s) = tcbs s"
  shows "evolves s s'"
  using assms(1) by (auto simp: llc_write_def split: if_split_asm write_args.split_asm
      dest!: pushed_evolves [OF _ assms(2)])

lemma ethernet_read_evolves: "ethernet_read rd h p ifc s = Inr (r, s') \<Longrightarrow> evolves s s'"
  by (auto simp: ethernet_read_def Let_def evolves_same split: if_split_asm option.split_asm)
    (erule read_up_evolves, simp)+

lemma ipv4_read_evolves: "ipv4_read rd h p ifc s = Inr (r, s') \<Longrightarrow> evolves s s'"
  by (auto simp: ipv4_read_def Let_def evolves_same split: if_split_asm option.split_asm)
    (erule read_up_evolves, simp)+

lemma custom_read_evolves: "custom_read wr h p ifc s = Inr (r, s') \<Longrightarrow> evolves s s'"
  by (auto simp: custom_read_def Let_def new_out_stack_def) (erule write_down_evolves, simp)

lemma arp_process_evolves: "arp_process wr h p i a ifc s = Inr (r, s') \<Longrightarrow> evolves s s'"
  by (auto simp: arp_process_def Let_def handler_create_out_package_stack_def new_out_stack_def evolves_same
      split: if_split_asm)
    (erule write_down_evolves, simp)+

lemma arp_read_evolves:
  assumes "arp_read rd wr h p ifc s = Inr (r, s')"
  shows "evolves s s'"
proof -
  have start: "arp_process wr h p i a ifc (put_in p ps s1) = Inr (r, s') \<Longrightarrow> evolves s1 s'" for i a ps s1
    using arp_process_evolves evolves_cong(1) [of "put_in p ps s1" s1] by fastforce
  consider i a ps where "arp_process wr h p i a ifc (put_in p ps s) = Inr (r, s')"
    | nh ps x s2 where "rd nh p ifc (put_in p ps s) = Inr (x, s2)"
        "s' = s2 \<or> (\<exists>i a ps. arp_process wr h p i a ifc (put_in p ps s2) = Inr (r, s'))"
    using assms by (auto simp: arp_read_def Let_def split: if_split_asm option.split_asm) blast+
  then show ?thesis
  proof cases
    case 2
    have "evolves s s2" using 2(1) by (rule read_up_evolves) simp
    with 2(2) start show ?thesis by (blast intro: evolves_trans)
  qed (rule start)
qed

end

section \<open>The stack as a whole\<close>

lemma handler_write_tcbs [simp]: "tcbs (handler_write p ifc s) = tcbs s"
  by (simp add: handler_write_def split: sum.split)

lemma custom_write_evolves:
  assumes "tcp_layers rd wr" and "custom_write handler_write wr p ifc s = Inr (ok, s')"
  shows "evolves s s'"
  using assms(2)
  by (auto simp: custom_write_def split: if_split_asm handler.split_asm
      dest!: tcp_layers.pushed_evolves [OF assms(1)])

lemma llc_read_evolves:
  assumes "tcp_layers rd wr" and "llc_read rd h p ifc s = Inr (r, s')"
  shows "evolves s s'"
  using assms(2)
  by (auto simp: llc_read_def Let_def evolves_same split: if_split_asm option.split_asm)
    (erule tcp_layers.read_up_evolves [OF assms(1)], simp)+

lemma op_layers: "tcp_layers (op_read n) (op_write n)"
proof (induction n)
  case (Suc n)
  note below = tcp_layers.tcp_write_evolves [OF Suc] tcp_layers.ethernet_write_evolves [OF Suc]
    tcp_layers.ipv4_write_evolves [OF Suc] tcp_layers.arp_write_evolves [OF Suc]
    tcp_layers.llc_write_evolves [OF Suc] custom_write_evolves [OF Suc]
  note above = tcp_layers.ethernet_read_evolves [OF Suc] tcp_layers.ipv4_read_evolves [OF Suc]
    tcp_layers.arp_read_evolves [OF Suc] tcp_layers.custom_read_evolves [OF Suc] llc_read_evolves [OF Suc]
  show ?case
  proof
    fix h p ifc and s s' :: "'a stack_mem_scheme"
    show "evolves s s'" if "op_write (Suc n) h p ifc s = Inr (ok, s')" for ok
      using that below by (cases h) auto
    show "evolves s s'" if "op_read (Suc n) h p ifc s = Inr (r, s')" for r
      using that above tcp_layers.tcp_read_evolves [OF Suc] by (cases h) (auto intro: evolvesI)
  qed
qed (unfold_locales, simp_all)

interpretation layers: tcp_layers "op_read n" "op_write n" for n
  by (rule op_layers)

lemma worker_packet_evolves: "worker_packet hs n p packet ifc s = Inr s' \<Longrightarrow> evolves s s'"
proof (induction hs arbitrary: packet s)
  case (Cons h hs)
  from Cons.prems obtain frame r s1 where head: "op_read n h p ifc (put_in p (fresh_in_stack frame) s) = Inr (r, s1)"
    and rest: "worker_packet hs n p None ifc (s1\<lparr>in_stacks := (in_stacks s1)(p := None)\<rparr>) = Inr s'"
    by auto
  have "evolves s s1" by (rule layers.read_up_evolves [OF head]) simp
  moreover have "evolves s1 s'"
    using Cons.IH [OF rest] by (simp add: evolves_cong(1) [of "s1\<lparr>in_stacks := (in_stacks s1)(p := None)\<rparr>" s1])
  ultimately show ?case by (rule evolves_trans)
qed simp

lemma free_tcbs_evolves: "free_tcbs ts s = Inr s' \<Longrightarrow> evolves s s'"
  by (induction ts arbitrary: s) (auto split: option.split_asm dest!: delete_tcb_evolves intro: evolves_trans)

end
