(* ===== verification/Tcp_Stack.thy ===== *)
theory Tcp_Stack
  imports Net_Stack
begin

text \<open>
  TCP on top of IPv4 on top of Ethernet, end to end: what the worker does with the segments
  of a connection, down to the bytes of the frames that go out.
\<close>

section \<open>Replies\<close>

text \<open>A packet stack in which Ethernet and IPv4 have left the way back.\<close>

definition reply_path ::
  "in_packet_stack_t \<Rightarrow> ethernet_write_args_t \<Rightarrow> ipv4_write_args_t \<Rightarrow> interface_t \<Rightarrow> bool" where
  "reply_path ips e a ifc \<longleftrightarrow> in_stack_idx ips = 2 \<and> length (in_handlers ips) = 10 \<and>
     length (return_args ips) = 10 \<and> length (packet_pointers ips) = 10 \<and>
     in_handlers ips ! 0 = Some H_ethernet \<and> in_handlers ips ! 1 = Some H_ipv4 \<and>
     return_args ips ! 0 = Some (Ethernet_args e) \<and> return_args ips ! 1 = Some (Ipv4_args a) \<and>
     length (ea_destination e) = 6 \<and> length (mac ifc) = 6"

text \<open>A connection that a socket knows and that has nothing left to send.\<close>

definition connected :: "'a tcp_mem_scheme \<Rightarrow> nat \<Rightarrow> nat \<Rightarrow> tcb_t \<Rightarrow> tcp_socket_t \<Rightarrow> bool" where
  "connected s k t tcb sk \<longleftrightarrow>
     tcp_get_transmission_control_block k (tcb_id tcb) s = Inr (Some t) \<and> tcb_id tcb \<noteq> 0 \<and>
     tcb_at s t = Inr tcb \<and> sock_at s k = Inr sk \<and>
     bb_invar (tcb_out_buffer tcb) \<and> bb_list (tcb_out_buffer tcb) = []"

lemma connected_put_tcb:
  assumes "connected s k t tcb sk" and "tcb_id tcb' = tcb_id tcb"
    and "bb_invar (tcb_out_buffer tcb')" and "bb_list (tcb_out_buffer tcb') = []"
  shows "connected (put_tcb t tcb' s) k t tcb' sk"
  using assms tcb_at_valid [of s t tcb] get_tcb_put_tcb [of s t tcb tcb' k "tcb_id tcb"]
  by (simp add: connected_def)

lemma connected_cong:
  "tcbs s' = tcbs s \<Longrightarrow> sockets s' = sockets s \<Longrightarrow> connected s' k t tcb sk = connected s k t tcb sk"
  using get_tcb_cong [of s' s] by (simp add: connected_def tcb_at_def sock_at_def)

text \<open>The frame of a segment without payload.\<close>

definition segment_frame ::
  "ethernet_write_args_t \<Rightarrow> ipv4_write_args_t \<Rightarrow> interface_t \<Rightarrow> tcp_header_t \<Rightarrow> u8 list" where
  "segment_frame e a ifc header =
     eth_bytes e ifc @ ipv4_header_bytes (ipv4_fill_header ifc a (htons 40)) @ tcp_header_bytes header"

text \<open>A fresh outgoing stack with the arguments of all three layers sends one such frame.\<close>

lemma segment_sends:
  fixes s :: "'a stack_mem_scheme"
  assumes conn: "connected s k t tcb sk" and at: "out_at s out = Inr qs" and wf: "wf_out qs" "out_stack_idx qs = 2"
    and args: "out_args qs ! 2 = Some (Tcp_args \<lparr>ta_connection_id = tcb_id tcb, ta_socket = Some k, ta_flags = flags\<rparr>)"
      "out_args qs ! 1 = Some (Ipv4_args a)" "out_args qs ! 0 = Some (Ethernet_args e)"
    and hs: "out_handlers qs ! 1 = Some H_ipv4" "out_handlers qs ! 0 = Some H_ethernet"
    and len: "length (ea_destination e) = 6" "length (mac ifc) = 6"
    and buf: "ob_offset (out_buffer qs) = DEFAULT_PACKAGE_BUFFER_SIZE" "ob_size (out_buffer qs) = DEFAULT_PACKAGE_BUFFER_SIZE"
      "frame_of qs = []"
  shows "\<exists>bb ps'. bb_invar bb \<and> bb_list bb = [] \<and> op_write (Suc (Suc (Suc m))) H_tcp out ifc s =
    Inr (True, put_tcb t ((tcb_sending tcb sk flags 0)\<lparr>tcb_out_buffer := bb\<rparr>)
      ((put_out out ps' s)\<lparr>wire := wire s @ [segment_frame e a ifc (tcp_final_header tcb sk flags 0)]\<rparr>))"
proof -
  have n0: "ob_size (out_buffer qs) - ob_offset (out_buffer qs) = 0" by (simp add: buf)
  obtain bb ps' q where bb: "bb_invar bb" "bb_list bb = []"
    and sent: "op_write (Suc (Suc (Suc m))) H_tcp out ifc s =
      Inr (True, put_tcb t ((tcb_sending tcb sk flags 0)\<lparr>tcb_out_buffer := bb\<rparr>)
        ((put_out out ps' s)\<lparr>wire := wire s @ [eth_bytes e ifc @ ip_bytes a ifc q @
           tcp_header_bytes (tcp_final_header tcb sk flags 0)]\<rparr>))"
    and q: "ob_size (out_buffer q) = DEFAULT_PACKAGE_BUFFER_SIZE"
      "ob_offset (out_buffer q) = DEFAULT_PACKAGE_BUFFER_SIZE - 20"
    using tcp_sends [OF at wf args(1) _ args(2,3) hs len, of t tcb sk m] conn buf n0
    by (auto simp: connected_def DEFAULT_PACKAGE_BUFFER_SIZE_def)
  have "ip_bytes a ifc q = ipv4_header_bytes (ipv4_fill_header ifc a (htons 40))"
    by (simp add: ip_bytes_def q DEFAULT_PACKAGE_BUFFER_SIZE_def)
  with bb sent show ?thesis by (auto simp: segment_frame_def simp del: op_write.simps)
qed

lemma tcp_reply_sends:
  fixes s :: "'a stack_mem_scheme"
  assumes conn: "connected s k t tcb sk" and at: "in_at s p = Inr ips" and path: "reply_path ips e a ifc"
    and sg: "sg_stack sg = p"
  shows "\<exists>bb os. bb_invar bb \<and> bb_list bb = [] \<and>
    tcp_reply (op_write (Suc (Suc (Suc m)))) H_tcp sg (Some k) t flags ifc s =
      Inr (put_tcb t ((tcb_sending tcb sk flags 0)\<lparr>tcb_out_buffer := bb\<rparr>)
        (put_in p (ips\<lparr>return_args := (return_args ips)[2 := Some (Tcp_args
            \<lparr>ta_connection_id = tcb_id tcb, ta_socket = Some k, ta_flags = flags\<rparr>)]\<rparr>) s
          \<lparr>out_stacks := os, wire := wire s @ [segment_frame e a ifc (tcp_final_header tcb sk flags 0)]\<rparr>))"
proof -
  let ?args = "\<lparr>ta_connection_id = tcb_id tcb, ta_socket = Some k, ta_flags = flags\<rparr>"
  let ?ras = "(return_args ips)[2 := Some (Tcp_args ?args)]"
  let ?s1 = "put_in p (ips\<lparr>return_args := ?ras\<rparr>) s"
  obtain out s2 where new: "new_out_stack (in_handlers ips) ?ras DEFAULT_PACKAGE_BUFFER_SIZE 2 ?s1 = (out, s2)"
    by (metis surj_pair)
  have lens: "length (in_handlers ips) = 10" "length ?ras = 10" using path by (simp_all add: reply_path_def)
  obtain qs where qs: "out_at s2 out = Inr qs" "wf_out qs" "out_stack_idx qs = 2" "out_args qs = ?ras"
    "out_handlers qs = in_handlers ips" "ob_offset (out_buffer qs) = DEFAULT_PACKAGE_BUFFER_SIZE" "frame_of qs = []"
    and s2: "s2 = ?s1\<lparr>out_stacks := out_stacks s2\<rparr>"
    and sz: "ob_size (out_buffer qs) = DEFAULT_PACKAGE_BUFFER_SIZE"
    by (rule new_out_stack_at [OF new lens])
  have "tcbs s2 = tcbs s" by (subst s2) simp
  moreover have "sockets s2 = sockets s" by (subst s2) simp
  ultimately have conn2: "connected s2 k t tcb sk" using conn by (simp add: connected_cong [of s2 s])
  obtain bb ps' where bb: "bb_invar bb" "bb_list bb = []"
    and sent: "op_write (Suc (Suc (Suc m))) H_tcp out ifc s2 =
      Inr (True, put_tcb t ((tcb_sending tcb sk flags 0)\<lparr>tcb_out_buffer := bb\<rparr>)
        ((put_out out ps' s2)\<lparr>wire := wire s2 @ [segment_frame e a ifc (tcp_final_header tcb sk flags 0)]\<rparr>))"
    using segment_sends [OF conn2 qs(1-3), of flags a e ifc m] path qs sz by (auto simp: reply_path_def)
  have "wire s2 = wire s" by (subst s2) simp
  moreover have "put_out out ps' s2 = ?s1\<lparr>out_stacks := (out_stacks s2)[out := ps']\<rparr>"
    by (subst s2) (simp add: put_out_def)
  moreover have "tcp_reply (op_write (Suc (Suc (Suc m)))) H_tcp sg (Some k) t flags ifc s =
      sbind (op_write (Suc (Suc (Suc m))) H_tcp out ifc s2) (\<lambda>(_, s). Inr s)"
    using conn at path sg new
    by (simp add: tcp_reply_def tcp_internal_write_def connected_def reply_path_def
        handler_create_out_package_stack_def Let_def del: op_write.simps)
  ultimately show ?thesis
    using bb sent by (auto simp del: op_write.simps)
qed

section \<open>The segment at the head of the input buffer\<close>

definition segment_of :: "nat \<Rightarrow> in_packet_stack_t \<Rightarrow> nat \<Rightarrow> nat \<Rightarrow> segment" where
  "segment_of p ips ta ia =
     \<lparr>sg_stack = p, sg_header_at = ta, sg_frame = in_frame ips,
      sg_tcp = load_tcp_header (in_frame ips) ta, sg_ipv4 = load_ipv4_header (in_frame ips) ia\<rparr>"

lemma segment_of_simps [simp]:
  "sg_stack (segment_of p ips ta ia) = p"
  "sg_tcp (segment_of p ips ta ia) = load_tcp_header (in_frame ips) ta"
  "sg_ipv4 (segment_of p ips ta ia) = load_ipv4_header (in_frame ips) ia"
  by (simp_all add: segment_of_def)

lemma head_segment_at:
  assumes "bb_invar (tcb_in_buffer tcb)" and "bb_list (tcb_in_buffer tcb) = (sq, n, Some p) # bs"
    and "in_at s p = Inr ips" and "reply_path ips e a ifc"
    and "packet_pointers ips ! 2 = Some ta" and "packet_pointers ips ! 1 = Some ia"
  shows "head_segment tcb s = Inr (segment_of p ips ta ia)"
  using head_data [OF assms(1,2)] assms(3-6)
  by (auto simp: head_segment_def reply_path_def segment_of_def block_of_def)

lemma remove_head_at:
  assumes "tcb_at s t = Inr tcb" and "bb_invar (tcb_in_buffer tcb)" and "bb_list (tcb_in_buffer tcb) = [b]"
  shows "\<exists>bb. bb_invar bb \<and> bb_list bb = [] \<and> remove_head t s = Inr (put_tcb t (tcb\<lparr>tcb_in_buffer := bb\<rparr>) s)"
  using bq.q_remove_single [OF assms(2,3)] assms(1) by (auto simp: remove_head_def)

section \<open>SYN in the listening state\<close>

lemma or_one_nonzero: "(w :: u8) OR 1 \<noteq> 0"
proof -
  have "bit (w OR 1) 0" by (simp add: bit_simps)
  then show ?thesis by (metis bit_0_eq bot_apply bot_bool_def)
qed

definition tcb_syn_received :: "tcb_t \<Rightarrow> u32 \<Rightarrow> tcb_t" where
  "tcb_syn_received tcb seq =
     tcb\<lparr>receive_initial_sequence_num := seq, receive_next := seq + 1, receive_urgent_pointer := 0,
         tcb_state := SYN_RECEIVED, state_function := Tcp_others,
         send_next := send_initial_sequence_num tcb\<rparr>"

lemma tcb_syn_received_simps [simp]:
  "tcb_id (tcb_syn_received tcb seq) = tcb_id tcb"
  "tcb_out_buffer (tcb_syn_received tcb seq) = tcb_out_buffer tcb"
  "tcb_in_buffer (tcb_syn_received tcb seq) = tcb_in_buffer tcb"
  "send_next (tcb_syn_received tcb seq) = send_initial_sequence_num tcb"
  "send_initial_sequence_num (tcb_syn_received tcb seq) = send_initial_sequence_num tcb"
  "receive_next (tcb_syn_received tcb seq) = seq + 1"
  "tcb_state (tcb_syn_received tcb seq) = SYN_RECEIVED"
  "state_function (tcb_syn_received tcb seq) = Tcp_others"
  "tcb_remote_port (tcb_syn_received tcb seq) = tcb_remote_port tcb"
  "receive_window (tcb_syn_received tcb seq) = receive_window tcb"
  by (simp_all add: tcb_syn_received_def)

lemma tcp_listen_syn:
  fixes s :: "'a stack_mem_scheme"
  defines "fl \<equiv> TCP_ACK_FLAG OR TCP_SYN_FLAG"
  assumes conn: "connected s k t tcb sk" and at: "in_at s p = Inr ips" and path: "reply_path ips e a ifc"
    and ptr: "packet_pointers ips ! 2 = Some ta" "packet_pointers ips ! 1 = Some ia"
    and inb: "bb_invar (tcb_in_buffer tcb)" "bb_list (tcb_in_buffer tcb) = [(sq, n, Some p)]"
    and hdr: "load_tcp_header (in_frame ips) ta = hdr" "load_ipv4_header (in_frame ips) ia = iph"
    and sock: "tcp_get_socket (ih_destination_ip iph) (th_destination_port hdr) s = Inr (Some k)"
    and flags: "\<not> has_flag hdr TCP_RST_FLAG" "\<not> has_flag hdr TCP_ACK_FLAG"
    and tcb1: "tcb1 = tcb_syn_received tcb (ntohl (th_sequence_num hdr))"
  shows "\<exists>ib ob os ras. bb_invar ib \<and> bb_list ib = [] \<and> bb_invar ob \<and> bb_list ob = [] \<and>
    tcp_listen (Suc 0) (op_write (Suc (Suc (Suc m)))) H_tcp t ifc s =
      Inr (Some 0, put_tcb t ((tcb_sending tcb1 sk fl 0)
          \<lparr>tcb_out_buffer := ob, send_unacknowledged := send_initial_sequence_num tcb,
           send_next := send_initial_sequence_num tcb + 1, tcb_in_buffer := ib\<rparr>)
        (put_in p (ips\<lparr>return_args := ras\<rparr>) s
          \<lparr>out_stacks := os, wire := wire s @ [segment_frame e a ifc (tcp_final_header tcb1 sk fl 0)]\<rparr>))"
proof -
  let ?sg = "segment_of p ips ta ia"
  have tcb: "tcb_at s t = Inr tcb" and t: "t < length (tcbs s)"
    using conn tcb_at_valid by (auto simp: connected_def)
  have head: "head_segment tcb s = Inr ?sg" using head_segment_at [OF inb at path ptr] .
  have conn1: "connected (put_tcb t tcb1 s) k t tcb1 sk"
    using conn by (intro connected_put_tcb [OF conn]) (simp_all add: tcb1 connected_def)
  have at1: "in_at (put_tcb t tcb1 s) p = Inr ips" using at by simp
  obtain ob os where ob: "bb_invar ob" "bb_list ob = []"
    and sent: "tcp_reply (op_write (Suc (Suc (Suc m)))) H_tcp ?sg (Some k) t fl ifc (put_tcb t tcb1 s) =
      Inr (put_tcb t ((tcb_sending tcb1 sk fl 0)\<lparr>tcb_out_buffer := ob\<rparr>)
        (put_in p (ips\<lparr>return_args := (return_args ips)[2 := Some (Tcp_args
            \<lparr>ta_connection_id = tcb_id tcb1, ta_socket = Some k, ta_flags = fl\<rparr>)]\<rparr>) (put_tcb t tcb1 s)
          \<lparr>out_stacks := os, wire := wire (put_tcb t tcb1 s) @ [segment_frame e a ifc (tcp_final_header tcb1 sk fl 0)]\<rparr>))"
    using tcp_reply_sends [OF conn1 at1 path, of ?sg m fl] by auto
  let ?s1 = "put_in p (ips\<lparr>return_args := (return_args ips)[2 := Some (Tcp_args
        \<lparr>ta_connection_id = tcb_id tcb1, ta_socket = Some k, ta_flags = fl\<rparr>)]\<rparr>) s
      \<lparr>out_stacks := os, wire := wire s @ [segment_frame e a ifc (tcp_final_header tcb1 sk fl 0)]\<rparr>"
  let ?tcb2 = "(tcb_sending tcb1 sk fl 0)\<lparr>tcb_out_buffer := ob,
      send_unacknowledged := send_initial_sequence_num tcb, send_next := send_initial_sequence_num tcb + 1\<rparr>"
  have tcb2: "tcb_at (put_tcb t ?tcb2 ?s1) t = Inr ?tcb2" using t by simp
  obtain ib where ib: "bb_invar ib" "bb_list ib = []"
    and rem: "remove_head t (put_tcb t ?tcb2 ?s1) = Inr (put_tcb t (?tcb2\<lparr>tcb_in_buffer := ib\<rparr>) ?s1)"
    using remove_head_at [OF tcb2] inb by (auto simp: tcb1)
  have "tcp_listen (Suc 0) (op_write (Suc (Suc (Suc m)))) H_tcp t ifc s =
      Inr (Some 0, put_tcb t (?tcb2\<lparr>tcb_in_buffer := ib\<rparr>) ?s1)"
    unfolding tcp_listen_def
    using tcb head sock flags sent rem t hdr
    by (simp add: segment_socket_def tcb1 tcb_syn_received_def [symmetric] fl_def Let_def or_one_nonzero
        del: op_write.simps)
  with ib ob show ?thesis by blast
qed

section \<open>Reading a segment\<close>

text \<open>The packet stack as \<^verbatim>\<open>tcp_read\<close> finds it, with a segment in it.\<close>

definition carries ::
  "in_packet_stack_t \<Rightarrow> nat \<Rightarrow> nat \<Rightarrow> ipv4_header_t \<Rightarrow> tcp_header_t \<Rightarrow> bool" where
  "carries ips ta ia iph hdr \<longleftrightarrow> packet_pointers ips ! 2 = Some ta \<and> packet_pointers ips ! 1 = Some ia \<and>
     load_tcp_header (in_frame ips) ta = hdr \<and> load_ipv4_header (in_frame ips) ia = iph"

definition with_tcp :: "in_packet_stack_t \<Rightarrow> in_packet_stack_t" where
  "with_tcp ips = ips\<lparr>in_handlers := (in_handlers ips)[2 := Some H_tcp]\<rparr>"

lemma with_tcp_path [simp]:
  "reply_path (with_tcp ips) e a ifc = reply_path ips e a ifc"
  "carries (with_tcp ips) ta ia iph hdr = carries ips ta ia iph hdr"
  "packet_pointers (with_tcp ips) = packet_pointers ips" "in_frame (with_tcp ips) = in_frame ips"
  by (auto simp: reply_path_def carries_def with_tcp_def)

lemma enqueue_single:
  assumes tcb: "tcb_at s t = Inr tcb" and inb: "bb_invar (tcb_in_buffer tcb)" "bb_list (tcb_in_buffer tcb) = []"
    and nxt: "receive_next tcb = ntohl (th_sequence_num hdr) \<or> receive_next tcb + 1 = ntohl (th_sequence_num hdr)"
    and st: "tcb_state tcb \<noteq> SYN_SENT"
  shows "\<exists>bb. bb_invar bb \<and>
    bb_list bb = [(ntohl (th_sequence_num hdr), ucast (tcp_get_payload_length iph hdr), Some p)] \<and>
    tcp_enqueue_and_run rd wr h p t iph hdr ifc s =
      run_state_function (state_function tcb) (Suc 0) rd wr h t ifc (put_tcb t (tcb\<lparr>tcb_in_buffer := bb\<rparr>) s)"
proof -
  obtain j bb where add: "tcp_block_buffer_add (tcb_in_buffer tcb) p (th_sequence_num hdr)
      (tcp_get_payload_length iph hdr) = Inr (Some j, bb)"
    "bb_invar bb" "bb_list bb = [(ntohl (th_sequence_num hdr), ucast (tcp_get_payload_length iph hdr), Some p)]"
    using bq.q_add_empty [OF inb] by blast
  have "tcp_block_buffer_num_ready bb (receive_next tcb) = Inr 1"
    using bq.q_ready_single [OF add(2,3), of "receive_next tcb"] nxt by auto
  moreover have "tcb\<lparr>tcb_in_buffer := bb, receive_next := receive_next tcb\<rparr> = tcb\<lparr>tcb_in_buffer := bb\<rparr>"
    by (cases tcb) simp
  ultimately show ?thesis
    using tcb add st by (intro exI [of _ bb]) (simp add: tcp_enqueue_and_run_def Let_def)
qed

text \<open>A segment for a connection that the socket knows.\<close>

lemma tcp_read_known:
  assumes at: "in_at s p = Inr ips" and path: "reply_path ips e a ifc" and seg: "carries ips ta ia iph hdr"
    and sock: "tcp_get_socket (ih_destination_ip iph) (th_destination_port hdr) s = Inr (Some k)"
    and get: "tcp_get_transmission_control_block k (tcb_header_to_connection_id iph hdr) s = Inr (Some t)"
  shows "tcp_read rd wr H_tcp p ifc s =
    tcp_enqueue_and_run rd wr H_tcp p t iph hdr ifc (put_in p (with_tcp ips) s)"
proof -
  let ?s = "put_in p (with_tcp ips) s"
  have "tcp_get_socket (ih_destination_ip iph) (th_destination_port hdr) ?s = Inr (Some k)"
    using sock get_socket_cong [of ?s s] by simp
  moreover have "tcp_get_transmission_control_block k (tcb_header_to_connection_id iph hdr) ?s = Inr (Some t)"
    using get get_tcb_cong [of ?s s] by simp
  ultimately show ?thesis
    using at path seg by (simp add: tcp_read_def reply_path_def carries_def with_tcp_def Let_def)
qed

section \<open>A new connection\<close>

text \<open>
  The state in which the control block of a new connection has been created and given to
  its socket.
\<close>

definition opened :: "nat \<Rightarrow> tcp_socket_t \<Rightarrow> tcb_t \<Rightarrow> 'a tcp_mem_scheme \<Rightarrow> 'a tcp_mem_scheme" where
  "opened k sk tcb s = put_sock k (sk\<lparr>trans_control_block := fill_slot (trans_control_block sk) (length (tcbs s))\<rparr>)
     (s\<lparr>seq_x := seq_x s + 100, tcbs := tcbs s @ [Some tcb]\<rparr>)"

lemma connected_opened:
  assumes sk: "sock_at s k = Inr sk" and none: "tcp_get_transmission_control_block k (tcb_id tcb) s = Inr None"
    and slot: "None \<in> set (trans_control_block sk)" and id: "tcb_id tcb \<noteq> 0"
    and ob: "bb_invar (tcb_out_buffer tcb)" "bb_list (tcb_out_buffer tcb) = []"
  shows "connected (opened k sk tcb s) k (length (tcbs s)) tcb
    (sk\<lparr>trans_control_block := fill_slot (trans_control_block sk) (length (tcbs s))\<rparr>)"
proof -
  let ?t = "length (tcbs s)" and ?s1 = "s\<lparr>seq_x := seq_x s + 100, tcbs := tcbs s @ [Some tcb]\<rparr>"
  let ?sk = "sk\<lparr>trans_control_block := fill_slot (trans_control_block sk) ?t\<rparr>"
  have t: "tcb_at ?s1 ?t = Inr tcb" by (simp add: tcb_at_def)
  have sk1: "sock_at ?s1 k = Inr sk" using sk by simp
  have "find_tcb s (trans_control_block sk) (tcb_id tcb) = Inr None"
    using none sk by (simp add: tcp_get_transmission_control_block_def)
  then have "find_tcb (s\<lparr>tcbs := tcbs s @ [Some tcb]\<rparr>) (trans_control_block sk) (tcb_id tcb) = Inr None"
    by (rule find_tcb_append)
  then have "find_tcb ?s1 (trans_control_block sk) (tcb_id tcb) = Inr None"
    using find_tcb_cong [of ?s1 "s\<lparr>tcbs := tcbs s @ [Some tcb]\<rparr>"] by simp
  from find_tcb_fill_slot [OF this slot t]
  have "find_tcb ?s1 (trans_control_block ?sk) (tcb_id tcb) = Inr (Some ?t)" by simp
  moreover have "find_tcb (opened k sk tcb s) ts c = find_tcb ?s1 ts c" for ts c
    by (rule find_tcb_cong) (simp add: opened_def)
  ultimately show ?thesis
    using t sk1 id ob sock_at_put_sock [OF sk1, of ?sk]
    by (simp add: connected_def tcp_get_transmission_control_block_def opened_def)
qed

lemma tcp_read_new:
  assumes at: "in_at s p = Inr ips" and path: "reply_path ips e a ifc" and seg: "carries ips ta ia iph hdr"
    and sock: "tcp_get_socket (ih_destination_ip iph) (th_destination_port hdr) s = Inr (Some k)"
    and sk: "sock_at s k = Inr sk"
    and none: "tcp_get_transmission_control_block k (tcb_header_to_connection_id iph hdr) s = Inr None"
    and syn: "has_flag hdr TCP_SYN_FLAG"
    and new: "tcp_create_transmission_control_block (tcb_header_to_connection_id iph hdr) (Some hdr)
        (ih_source_ip iph) LISTEN (put_in p (with_tcp ips) s) =
      Inr (length (tcbs s), (put_in p (with_tcp ips) s)\<lparr>seq_x := seq_x s + 100, tcbs := tcbs s @ [Some tcb]\<rparr>)"
  shows "tcp_read rd wr H_tcp p ifc s = tcp_enqueue_and_run rd wr H_tcp p (length (tcbs s)) iph hdr ifc
    (opened k sk tcb (put_in p (with_tcp ips) s))"
proof -
  let ?s = "put_in p (with_tcp ips) s"
  have "tcp_get_socket (ih_destination_ip iph) (th_destination_port hdr) ?s = Inr (Some k)"
    using sock get_socket_cong [of ?s s] by simp
  moreover have "tcp_get_transmission_control_block k (tcb_header_to_connection_id iph hdr) ?s = Inr None"
    using none get_tcb_cong [of ?s s] by simp
  moreover have "tcp_add_transmission_control_block k (length (tcbs s))
      (?s\<lparr>seq_x := seq_x s + 100, tcbs := tcbs s @ [Some tcb]\<rparr>) = Inr (opened k sk tcb ?s)"
    using sk by (simp add: tcp_add_transmission_control_block_def opened_def)
  ultimately show ?thesis
    using at path seg syn new
    by (simp add: tcp_read_def reply_path_def carries_def with_tcp_def Let_def)
qed

text \<open>The protocol tables and the socket lookup stay the same.\<close>

definition keeps_routes :: "'a tcp_mem_scheme \<Rightarrow> 'a tcp_mem_scheme \<Rightarrow> bool" where
  "keeps_routes s s' \<longleftrightarrow>
     ethernet_type_to_handler s' = ethernet_type_to_handler s \<and> ip_type_to_handler s' = ip_type_to_handler s \<and>
     (\<forall>ip port. tcp_get_socket ip port s' = tcp_get_socket ip port s)"

lemma keeps_routes_refl: "keeps_routes s s"
  by (simp add: keeps_routes_def)

lemma keeps_routes_trans: "keeps_routes s s' \<Longrightarrow> keeps_routes s' s'' \<Longrightarrow> keeps_routes s s''"
  by (simp add: keeps_routes_def)

lemma keeps_routes_cong:
  "ethernet_type_to_handler s' = ethernet_type_to_handler s \<Longrightarrow> ip_type_to_handler s' = ip_type_to_handler s \<Longrightarrow>
   sockets s' = sockets s \<Longrightarrow> tcp_sockets s' = tcp_sockets s \<Longrightarrow> keeps_routes s s'"
  by (simp add: keeps_routes_def get_socket_cong [of s' s])

lemma keeps_routes_opened:
  assumes "sock_at s k = Inr sk"
  shows "keeps_routes s (opened k sk tcb s)"
proof -
  let ?sk = "sk\<lparr>trans_control_block := fill_slot (trans_control_block sk) (length (tcbs s))\<rparr>"
  have "sockets (opened k sk tcb s) = sockets (put_sock k ?sk s)" by (simp add: opened_def put_sock_def)
  from find_socket_cong [OF this] find_socket_put_sock [OF assms, of ?sk] show ?thesis
    by (simp add: keeps_routes_def tcp_get_socket_def) (simp add: opened_def put_sock_def)
qed

text \<open>The private data of the custom handlers and the arguments of the active connections stay as they are.\<close>

definition keeps_app :: "'a upper_mem_scheme \<Rightarrow> 'a upper_mem_scheme \<Rightarrow> bool" where
  "keeps_app s s' \<longleftrightarrow> custom_priv s' = custom_priv s \<and> client_args s' = client_args s"

text \<open>A socket with the connection \<open>t\<close> in its first free slot.\<close>

definition with_slot :: "nat \<Rightarrow> tcp_socket_t \<Rightarrow> tcp_socket_t" where
  "with_slot t sk = sk\<lparr>trans_control_block := fill_slot (trans_control_block sk) t\<rparr>"

lemma with_slot_simps [simp]:
  "sk_port (with_slot t sk) = sk_port sk" "sk_ipv4 (with_slot t sk) = sk_ipv4 sk"
  "sk_interface (with_slot t sk) = sk_interface sk" "sk_next_handler (with_slot t sk) = sk_next_handler sk"
  "sk_on_connect (with_slot t sk) = sk_on_connect sk" "sk_on_close (with_slot t sk) = sk_on_close sk"
  by (simp_all add: with_slot_def)

text \<open>The answer to a SYN, and the control block it leaves.\<close>

definition syn_ack :: "'a tcp_mem_scheme \<Rightarrow> tcp_socket_t \<Rightarrow> tcp_header_t \<Rightarrow> tcp_header_t \<Rightarrow> bool" where
  "syn_ack s sk hdr reply \<longleftrightarrow>
     th_source_port reply = sk_port sk \<and> th_destination_port reply = th_source_port hdr \<and>
     th_sequence_num reply = htonl (of_int (seq_x s + 142)) \<and>
     th_acknowledgement_num reply = htonl (ntohl (th_sequence_num hdr) + 1) \<and>
     th_control_bits reply = TCP_ACK_FLAG OR TCP_SYN_FLAG \<and> th_data_offset reply = 0x50 \<and>
     th_window reply = htons (of_int (tcp_window s))"

definition half_open :: "'a tcp_mem_scheme \<Rightarrow> ipv4_header_t \<Rightarrow> tcp_header_t \<Rightarrow> tcb_t \<Rightarrow> bool" where
  "half_open s iph hdr tcb \<longleftrightarrow>
     tcb_id tcb = tcb_header_to_connection_id iph hdr \<and> tcb_remote_port tcb = th_source_port hdr \<and>
     tcb_state tcb = SYN_RECEIVED \<and> state_function tcb = Tcp_others \<and>
     receive_next tcb = ntohl (th_sequence_num hdr) + 1 \<and> receive_window tcb = of_int (tcp_window s) \<and>
     send_unacknowledged tcb = of_int (seq_x s + 142) \<and> send_next tcb = of_int (seq_x s + 142) + 1 \<and>
     bb_invar (tcb_in_buffer tcb) \<and> bb_list (tcb_in_buffer tcb) = []"

lemma tcp_read_syn_overflows:
  assumes at: "in_at s p = Inr ips" and path: "reply_path ips e a ifc" and seg: "carries ips ta ia iph hdr"
    and sock: "tcp_get_socket (ih_destination_ip iph) (th_destination_port hdr) s = Inr (Some k)"
    and none: "tcp_get_transmission_control_block k (tcb_header_to_connection_id iph hdr) s = Inr None"
    and syn: "has_flag hdr TCP_SYN_FLAG" and mem: "seq_x s + 142 < 2 ^ 31" "malloc_slack s = 0"
  shows "tcp_read rd wr H_tcp p ifc s = Inl Out_of_bounds"
proof -
  let ?s = "put_in p (with_tcp ips) s"
  have "tcp_get_socket (ih_destination_ip iph) (th_destination_port hdr) ?s = Inr (Some k)"
    using sock get_socket_cong [of ?s s] by simp
  moreover have "tcp_get_transmission_control_block k (tcb_header_to_connection_id iph hdr) ?s = Inr None"
    using none get_tcb_cong [of ?s s] by simp
  moreover have "tcp_create_transmission_control_block c (Some hdr) ip LISTEN ?s = Inl Out_of_bounds" for c ip
    using mem by (intro tcp_create_overflows) simp_all
  ultimately show ?thesis
    using at path seg syn by (simp add: tcp_read_def reply_path_def carries_def with_tcp_def Let_def)
qed

lemma tcp_read_syn:
  fixes s :: "'a stack_mem_scheme"
  defines "fl \<equiv> TCP_ACK_FLAG OR TCP_SYN_FLAG" and "t \<equiv> length (tcbs s)"
    and "iss \<equiv> of_int (seq_x s + 142) :: u32"
  assumes at: "in_at s p = Inr ips" and path: "reply_path ips e a ifc" and seg: "carries ips ta ia iph hdr"
    and sock: "tcp_get_socket (ih_destination_ip iph) (th_destination_port hdr) s = Inr (Some k)"
    and sk: "sock_at s k = Inr sk" and slot: "None \<in> set (trans_control_block sk)"
    and none: "tcp_get_transmission_control_block k (tcb_header_to_connection_id iph hdr) s = Inr None"
    and id: "tcb_header_to_connection_id iph hdr \<noteq> 0"
    and flags: "has_flag hdr TCP_SYN_FLAG" "\<not> has_flag hdr TCP_RST_FLAG" "\<not> has_flag hdr TCP_ACK_FLAG"
    and mem: "seq_x s + 142 < 2 ^ 31" "0 < malloc_slack s"
  shows "\<exists>s' reply tcb. tcp_read rd (op_write (Suc (Suc (Suc m)))) H_tcp p ifc s = Inr (Some 0, s') \<and>
    wire s' = wire s @ [segment_frame e a ifc reply] \<and> syn_ack s sk hdr reply \<and>
    connected s' k t tcb (with_slot t sk) \<and> half_open s iph hdr tcb \<and> keeps_routes s s' \<and> keeps_app s s' \<and>
    callbacks s' = callbacks s"
proof -
  let ?s = "put_in p (with_tcp ips) s"
  have mem': "seq_x ?s + 142 < 2 ^ 31" "0 < malloc_slack ?s" using mem by simp_all
  obtain tcb where new: "tcp_create_transmission_control_block (tcb_header_to_connection_id iph hdr) (Some hdr)
        (ih_source_ip iph) LISTEN ?s = Inr (t, ?s\<lparr>seq_x := seq_x ?s + 100, tcbs := tcbs ?s @ [Some tcb]\<rparr>)"
    and id': "tcb_id tcb = tcb_header_to_connection_id iph hdr"
    and rp: "tcb_remote_port tcb = th_source_port hdr"
    and tcb: "send_initial_sequence_num tcb = iss" "receive_next tcb = ntohl (th_sequence_num hdr)"
      "receive_window tcb = of_int (tcp_window s)" "tcb_state tcb = LISTEN" "state_function tcb = Tcp_listen"
    and inb: "bb_invar (tcb_in_buffer tcb)" "bb_list (tcb_in_buffer tcb) = []"
    and outb: "bb_invar (tcb_out_buffer tcb)" "bb_list (tcb_out_buffer tcb) = []"
    by (rule tcp_create_new [OF mem', of "tcb_header_to_connection_id iph hdr" hdr "ih_source_ip iph" LISTEN])
      (simp add: t_def iss_def state_function_of_def)
  let ?sk = "sk\<lparr>trans_control_block := fill_slot (trans_control_block sk) t\<rparr>"
  let ?o = "opened k sk tcb ?s"
  have conn: "connected ?o k t tcb ?sk"
    using connected_opened [of ?s k sk tcb] sk none get_tcb_cong [of ?s s] slot id id' outb by (simp add: t_def)
  then have "tcb_at ?o t = Inr tcb" by (simp add: connected_def)
  from enqueue_single [OF this inb, of hdr iph p rd "op_write (Suc (Suc (Suc m)))" H_tcp ifc] tcb
  obtain bb where bb: "bb_invar bb"
    "bb_list bb = [(ntohl (th_sequence_num hdr), ucast (tcp_get_payload_length iph hdr), Some p)]"
    and run: "tcp_enqueue_and_run rd (op_write (Suc (Suc (Suc m)))) H_tcp p t iph hdr ifc ?o =
      tcp_listen (Suc 0) (op_write (Suc (Suc (Suc m)))) H_tcp t ifc (put_tcb t (tcb\<lparr>tcb_in_buffer := bb\<rparr>) ?o)"
    by (auto simp: run_state_function_def simp del: op_write.simps)
  let ?tcb = "tcb\<lparr>tcb_in_buffer := bb\<rparr>" and ?s1 = "put_tcb t (tcb\<lparr>tcb_in_buffer := bb\<rparr>) ?o"
  have conn1: "connected ?s1 k t ?tcb ?sk" by (rule connected_put_tcb [OF conn]) (simp_all add: outb)
  have at1: "in_at ?s1 p = Inr (with_tcp ips)" by (simp add: opened_def)
  have routes: "keeps_routes s ?s1"
  proof -
    have "keeps_routes ?s ?o" using sk by (intro keeps_routes_opened) simp
    moreover have "keeps_routes s ?s" by (rule keeps_routes_cong) simp_all
    moreover have "keeps_routes ?o ?s1" by (rule keeps_routes_cong) (simp_all add: put_tcb_def)
    ultimately show ?thesis by (blast intro: keeps_routes_trans)
  qed
  then have sock1: "tcp_get_socket (ih_destination_ip iph) (th_destination_port hdr) ?s1 = Inr (Some k)"
    using sock by (simp add: keeps_routes_def)
  define tcb1 where "tcb1 = tcb_syn_received ?tcb (ntohl (th_sequence_num hdr))"
  obtain ib ob os ras where ib: "bb_invar ib" "bb_list ib = []" and ob: "bb_invar ob" "bb_list ob = []"
    and listen: "tcp_listen (Suc 0) (op_write (Suc (Suc (Suc m)))) H_tcp t ifc ?s1 =
      Inr (Some 0, put_tcb t ((tcb_sending tcb1 ?sk fl 0)
          \<lparr>tcb_out_buffer := ob, send_unacknowledged := iss, send_next := iss + 1, tcb_in_buffer := ib\<rparr>)
        (put_in p (with_tcp ips\<lparr>return_args := ras\<rparr>) ?s1
          \<lparr>out_stacks := os, wire := wire ?s1 @ [segment_frame e a ifc (tcp_final_header tcb1 ?sk fl 0)]\<rparr>))"
    using tcp_listen_syn [OF conn1 at1 _ _ _ _ _ _ _ sock1 flags(2,3) tcb1_def, of e a ifc ta ia
        "ntohl (th_sequence_num hdr)" "ucast (tcp_get_payload_length iph hdr)" m] path seg bb tcb(1)
    unfolding fl_def carries_def by auto
  let ?h = "tcp_final_header tcb1 ?sk fl 0"
  let ?tcb2 = "(tcb_sending tcb1 ?sk fl 0)
      \<lparr>tcb_out_buffer := ob, send_unacknowledged := iss, send_next := iss + 1, tcb_in_buffer := ib\<rparr>"
  let ?s2 = "put_in p (with_tcp ips\<lparr>return_args := ras\<rparr>) ?s1
      \<lparr>out_stacks := os, wire := wire ?s1 @ [segment_frame e a ifc ?h]\<rparr>"
  have "tcbs ?s2 = tcbs ?s1" and "sockets ?s2 = sockets ?s1" by (simp_all add: put_tcb_def)
  from connected_cong [OF this] conn1 have "connected ?s2 k t ?tcb ?sk" by (simp only:)
  then have "connected (put_tcb t ?tcb2 ?s2) k t ?tcb2 ?sk"
    by (rule connected_put_tcb) (simp_all add: ob tcb1_def)
  moreover have "tcp_read rd (op_write (Suc (Suc (Suc m)))) H_tcp p ifc s = Inr (Some 0, put_tcb t ?tcb2 ?s2)"
    using tcp_read_new [OF at path seg sock sk none flags(1), of tcb rd "op_write (Suc (Suc (Suc m)))"] new run listen
    by (simp add: t_def del: op_write.simps)
  moreover have "wire (put_tcb t ?tcb2 ?s2) = wire s @ [segment_frame e a ifc ?h]"
    by (simp add: opened_def)
  moreover have "keeps_routes s (put_tcb t ?tcb2 ?s2)"
    using routes by (rule keeps_routes_trans) (rule keeps_routes_cong, simp_all add: put_tcb_def)
  moreover have "keeps_app s (put_tcb t ?tcb2 ?s2)" "callbacks (put_tcb t ?tcb2 ?s2) = callbacks s"
    by (simp_all add: keeps_app_def put_tcb_def opened_def put_sock_def put_in_def)
  ultimately show ?thesis
    using ib rp tcb id'
    by (intro exI [of _ "put_tcb t ?tcb2 ?s2"] exI [of _ ?h] exI [of _ ?tcb2])
      (simp add: tcb1_def syn_ack_def half_open_def fl_def iss_def with_slot_def)
qed

section \<open>A segment of an established or half-open connection\<close>

text \<open>Nothing is queued in either direction.\<close>

definition idle :: "'a tcp_mem_scheme \<Rightarrow> nat \<Rightarrow> nat \<Rightarrow> tcb_t \<Rightarrow> tcp_socket_t \<Rightarrow> bool" where
  "idle s k t tcb sk \<longleftrightarrow> connected s k t tcb sk \<and> bb_invar (tcb_in_buffer tcb) \<and> bb_list (tcb_in_buffer tcb) = []"

lemma idle_cong:
  "tcbs s' = tcbs s \<Longrightarrow> sockets s' = sockets s \<Longrightarrow> idle s' k t tcb sk = idle s k t tcb sk"
  by (simp add: idle_def connected_cong [of s' s])

text \<open>One segment is queued, the one in the packet stack \<open>p\<close>.\<close>

definition arrived ::
  "'a tcp_mem_scheme \<Rightarrow> nat \<Rightarrow> in_packet_stack_t \<Rightarrow> nat \<Rightarrow> nat \<Rightarrow> ipv4_header_t \<Rightarrow> tcp_header_t \<Rightarrow>
   nat \<Rightarrow> nat \<Rightarrow> tcb_t \<Rightarrow> tcp_socket_t \<Rightarrow> bool" where
  "arrived s p ips ta ia iph hdr k t tcb sk \<longleftrightarrow>
     connected s k t tcb sk \<and> in_at s p = Inr ips \<and> carries ips ta ia iph hdr \<and>
     bb_invar (tcb_in_buffer tcb) \<and>
     bb_list (tcb_in_buffer tcb) =
       [(ntohl (th_sequence_num hdr), ucast (tcp_get_payload_length iph hdr), Some p)] \<and>
     tcp_get_socket (ih_destination_ip iph) (th_destination_port hdr) s = Inr (Some k)"

lemma tcp_read_arrived:
  assumes at: "in_at s p = Inr ips" and path: "reply_path ips e a ifc" and seg: "carries ips ta ia iph hdr"
    and sock: "tcp_get_socket (ih_destination_ip iph) (th_destination_port hdr) s = Inr (Some k)"
    and idle: "idle s k t tcb sk" and id: "tcb_id tcb = tcb_header_to_connection_id iph hdr"
    and nxt: "receive_next tcb = ntohl (th_sequence_num hdr)" and st: "tcb_state tcb \<noteq> SYN_SENT"
  shows "\<exists>bb. tcp_read rd wr H_tcp p ifc s =
      run_state_function (state_function tcb) (Suc 0) rd wr H_tcp t ifc
        (put_tcb t (tcb\<lparr>tcb_in_buffer := bb\<rparr>) (put_in p (with_tcp ips) s)) \<and>
    arrived (put_tcb t (tcb\<lparr>tcb_in_buffer := bb\<rparr>) (put_in p (with_tcp ips) s))
      p (with_tcp ips) ta ia iph hdr k t (tcb\<lparr>tcb_in_buffer := bb\<rparr>) sk"
proof -
  let ?s = "put_in p (with_tcp ips) s"
  have get: "tcp_get_transmission_control_block k (tcb_header_to_connection_id iph hdr) s = Inr (Some t)"
    using idle id by (simp add: idle_def connected_def)
  have tcb: "tcb_at ?s t = Inr tcb" using idle by (simp add: idle_def connected_def)
  have conn: "connected ?s k t tcb sk"
    using idle connected_cong [of ?s s] by (simp add: idle_def)
  obtain bb where bb: "bb_invar bb"
      "bb_list bb = [(ntohl (th_sequence_num hdr), ucast (tcp_get_payload_length iph hdr), Some p)]"
    and run: "tcp_enqueue_and_run rd wr H_tcp p t iph hdr ifc ?s =
      run_state_function (state_function tcb) (Suc 0) rd wr H_tcp t ifc (put_tcb t (tcb\<lparr>tcb_in_buffer := bb\<rparr>) ?s)"
    using enqueue_single [OF tcb, of hdr iph p rd wr H_tcp ifc] idle nxt st by (auto simp: idle_def)
  let ?s1 = "put_tcb t (tcb\<lparr>tcb_in_buffer := bb\<rparr>) ?s"
  have "connected ?s1 k t (tcb\<lparr>tcb_in_buffer := bb\<rparr>) sk"
    by (rule connected_put_tcb [OF conn]) (use idle in \<open>simp_all add: idle_def connected_def\<close>)
  moreover have "tcp_get_socket (ih_destination_ip iph) (th_destination_port hdr) ?s1 = Inr (Some k)"
    using sock get_socket_cong [of ?s1 s] by simp
  ultimately have "arrived ?s1 p (with_tcp ips) ta ia iph hdr k t (tcb\<lparr>tcb_in_buffer := bb\<rparr>) sk"
    using bb seg by (simp add: arrived_def)
  then show ?thesis
    using tcp_read_known [OF at path seg sock get, of rd wr] run by (intro exI [of _ bb]) simp
qed

text \<open>What \<^verbatim>\<open>tcp_others\<close> does with it.\<close>

lemma tcp_others_arrived:
  assumes arr: "arrived s p ips ta ia iph hdr k t tcb sk" and path: "reply_path ips e a ifc"
  shows "tcp_others (Suc 0) rd wr h t ifc s =
    sbind (if is_segment_in_window tcb hdr (ucast (tcp_get_payload_length iph hdr))
       then tcp_others_in_window rd wr h (segment_of p ips ta ia) (Some k) t ifc s
       else if has_flag hdr TCP_RST_FLAG then sbind (remove_head t s) (\<lambda>s. Inr (Continue, s))
       else sbind (tcp_reply wr h (segment_of p ips ta ia) (Some k) t TCP_ACK_FLAG ifc s) (\<lambda>s. Inr (Fall, s)))
     (\<lambda>(fl, s). case fl of Return \<Rightarrow> Inr (Some 0, s) | Continue \<Rightarrow> Inr (None, s)
        | Fall \<Rightarrow> sbind (remove_head t s) (\<lambda>s. Inr (None, s)))"
proof -
  have "tcb_at s t = Inr tcb" using arr by (simp add: arrived_def connected_def)
  moreover have "head_segment tcb s = Inr (segment_of p ips ta ia)"
    using arr path by (intro head_segment_at) (auto simp: arrived_def carries_def)
  moreover have "segment_socket (segment_of p ips ta ia) s = Inr (Some k)"
    "sg_tcp (segment_of p ips ta ia) = hdr" "segment_payload_size (segment_of p ips ta ia) = tcp_get_payload_length iph hdr"
    using arr by (auto simp: arrived_def carries_def segment_socket_def segment_payload_size_def)
  moreover have "tcp_others 0 rd wr h t ifc = (\<lambda>s. Inr (None, s))" by (simp add: fun_eq_iff)
  ultimately show ?thesis by (simp cong: flow.case_cong)
qed

end
