(* ===== verification/Tcp_Connection.thy ===== *)
theory Tcp_Connection
  imports Tcp_Stack
begin

text \<open>
  The life of a passive connection, packet by packet: what one frame that carries a TCP
  segment makes the worker do, from the Ethernet header of the request to the bytes of the
  reply.
\<close>

section \<open>A frame with a segment for this host\<close>

definition tcp_frame ::
  "mem8 \<Rightarrow> interface_t \<Rightarrow> ethernet_header_t \<Rightarrow> ipv4_header_t \<Rightarrow> tcp_header_t \<Rightarrow> bool" where
  "tcp_frame frame ifc eh iph hdr \<longleftrightarrow>
     load_ethernet_header frame 0 = eh \<and> eh_ethernet_type eh = htons ETHERNET_TYPE_IPV4 \<and>
     load_ipv4_header frame 14 = iph \<and> ipv4_calculate_checksum frame 14 = 0 \<and>
     ih_flags_1 iph AND IPV4_IHL_MASK = 5 \<and> ih_time_to_live iph \<noteq> 0 \<and>
     ih_destination_ip iph = ipv4_addr ifc \<and> ih_protocol iph = 6 \<and>
     load_tcp_header frame 34 = hdr \<and> length (mac ifc) = 6"

text \<open>The tables lead from Ethernet to IPv4 to TCP.\<close>

definition routes_tcp :: "'a ip_mem_scheme \<Rightarrow> handler priority_map_t \<Rightarrow> handler priority_map_t \<Rightarrow> bool" where
  "routes_tcp s m m' \<longleftrightarrow>
     get_value (ethernet_type_to_handler s) (htons ETHERNET_TYPE_IPV4) = Inr (Some H_ipv4, m) \<and>
     get_value (ip_type_to_handler s) 6 = Inr (Some H_tcp, m')"

text \<open>What Ethernet and IPv4 leave in the packet stack, and the arguments of the way back.\<close>

definition eth_return :: "ethernet_header_t \<Rightarrow> ethernet_write_args_t" where
  "eth_return eh = \<lparr>ea_destination = eh_source eh, ea_ethernet_type = eh_ethernet_type eh\<rparr>"

definition ip_return :: "ipv4_header_t \<Rightarrow> ipv4_write_args_t" where
  "ip_return iph = \<lparr>ia_destination_ip = ih_source_ip iph, ia_protocol = ih_protocol iph\<rparr>"

definition above_ip :: "mem8 \<Rightarrow> ethernet_header_t \<Rightarrow> ipv4_header_t \<Rightarrow> in_packet_stack_t" where
  "above_ip frame eh iph =
     \<lparr>in_handlers = (replicate 10 None)[0 := Some H_ethernet, 1 := Some H_ipv4],
      return_args = (replicate 10 None)[0 := Some (Ethernet_args (eth_return eh)), 1 := Some (Ipv4_args (ip_return iph))],
      packet_pointers = (replicate 10 None)[0 := Some 0, 1 := Some 14, 2 := Some 34],
      in_frame = frame, in_stack_idx = 2\<rparr>"

definition routed ::
  "nat \<Rightarrow> mem8 \<Rightarrow> ethernet_header_t \<Rightarrow> ipv4_header_t \<Rightarrow> handler priority_map_t \<Rightarrow> handler priority_map_t \<Rightarrow>
   'a ip_mem_scheme \<Rightarrow> 'a ip_mem_scheme" where
  "routed p frame eh iph m m' s =
     (put_in p (above_ip frame eh iph) s)\<lparr>ethernet_type_to_handler := m, ip_type_to_handler := m'\<rparr>"

text \<open>An example: a server on port 80 of a machine that has seen its first packet, and a client.\<close>

definition example_client :: interface_t where
  "example_client = \<lparr>if_port = 0, ipv4_addr = 0x0900000A, mac = [2, 0, 0, 0, 0, 9]\<rparr>"

definition example_segment :: "u8 \<Rightarrow> u32 \<Rightarrow> u32 \<Rightarrow> tcp_header_t" where
  "example_segment flags seq ack =
     \<lparr>th_source_port = htons 4000, th_destination_port = htons 80, th_sequence_num = htonl seq,
      th_acknowledgement_num = htonl ack, th_data_offset = 0x50, th_control_bits = flags,
      th_window = htons 4096, th_checksum = 0, th_urgent_pointer = 0\<rparr>"

definition example_frame :: "tcp_header_t \<Rightarrow> mem8" where
  "example_frame hdr = mem_of (segment_frame
     \<lparr>ea_destination = [2, 0, 0, 0, 0, 1], ea_ethernet_type = htons ETHERNET_TYPE_IPV4\<rparr>
     \<lparr>ia_destination_ip = 0x0200000A, ia_protocol = 6\<rparr> example_client hdr)"

definition example_server :: stack_mem where
  "example_server =
     (let (k, s) = tcp_create_socket (replicate 32 None) example_interface None (htons 80) 0x0200000A
        (Some 1) (Some 2) (example_started
          \<lparr>ethernet_type_to_handler := table 512 [eth_entry 0x0008 1 H_ipv4, eth_entry 0x0608 0 H_arp]\<rparr>)
      in case tcp_add_socket k s of Inr (_, s) \<Rightarrow> s | Inl _ \<Rightarrow> s)"

text \<open>The server with a connection to the client in a given state.\<close>

definition example_id :: u32 where
  "example_id = tcp_shared_calculate_connection_id 0x0900000A (htons 4000) (htons 80)"

definition example_empty :: tcp_block_buffer_t where
  "example_empty = (case create_tcp_block_buffer 1 10 of Inr bb \<Rightarrow> bb | Inl _ \<Rightarrow> example_buffer)"

definition example_conn :: "TCP_STATE \<Rightarrow> tcb_t" where
  "example_conn st = example_tcb\<lparr>tcb_id := example_id, remote_ipv4 := 0x0900000A, tcb_remote_port := htons 4000,
     send_unacknowledged := 642, send_next := 643, send_window := htons 4096, receive_next := 8,
     receive_window := 4096, tcb_state := st, state_function := Tcp_others,
     tcb_out_buffer := example_empty, tcb_in_buffer := example_empty\<rparr>"

definition example_open :: "TCP_STATE \<Rightarrow> stack_mem" where
  "example_open st = example_server\<lparr>tcbs := [Some (example_conn st)],
     sockets := map (\<lambda>sk. sk\<lparr>trans_control_block := Some 0 # replicate 31 None\<rparr>) (sockets example_server)\<rparr>"

lemma in_at_routed: "in_at (routed p frame eh iph m m' s) p = Inr (above_ip frame eh iph)"
  by (simp add: routed_def)

lemma tcp_delivers:
  assumes frame: "tcp_frame frame ifc eh iph hdr" and route: "routes_tcp s m m'"
  shows "worker_packet [H_ethernet] (Suc (Suc n)) p (Some frame) ifc s =
    sbind (op_read n H_tcp p ifc (routed p frame eh iph m m' s))
      (\<lambda>(_, s). Inr (s\<lparr>in_stacks := (in_stacks s)(p := None)\<rparr>))"
proof -
  have eh: "load_ethernet_header frame 0 = eh" "ntohs 0x0600 < eh_ethernet_type eh"
    and get: "get_value (ethernet_type_to_handler s) (eh_ethernet_type eh) = Inr (Some H_ipv4, m)"
    using frame route
    by (simp_all add: tcp_frame_def routes_tcp_def ETHERNET_TYPE_IPV4_def bswap16_def join16_def)
  have "ipv4_read (op_read n) H_ipv4 p ifc (put_in p (above_ethernet frame eh) s\<lparr>ethernet_type_to_handler := m\<rparr>) =
      sbind (op_read n H_tcp p ifc (routed p frame eh iph m m' s)) (\<lambda>(_, s). Inr (Some 0, s))"
    using frame route
    by (simp add: tcp_frame_def routes_tcp_def ipv4_read_def Let_def above_ethernet_def
        sizeof_ipv4_header_def routed_def above_ip_def eth_return_def ip_return_def list_update_swap)
  with ethernet_delivers [OF eh get, of "Suc n" p ifc] show ?thesis
    by (simp add: sbind_assoc case_prod_unfold del: worker_packet.simps)
qed

lemma above_ip_path:
  assumes "tcp_frame frame ifc eh iph hdr"
  shows "reply_path (above_ip frame eh iph) (eth_return eh) (ip_return iph) ifc"
    and "carries (above_ip frame eh iph) 34 14 iph hdr"
  using assms
  by (auto simp: tcp_frame_def above_ip_def reply_path_def carries_def eth_return_def load_ethernet_header_def)

lemma routed_simps [simp]:
  "tcbs (routed p frame eh iph m m' s) = tcbs s" "sockets (routed p frame eh iph m m' s) = sockets s"
  "tcp_sockets (routed p frame eh iph m m' s) = tcp_sockets s" "seq_x (routed p frame eh iph m m' s) = seq_x s"
  "callbacks (routed p frame eh iph m m' s) = callbacks s"
  "tcp_window (routed p frame eh iph m m' s) = tcp_window s"
  "malloc_slack (routed p frame eh iph m m' s) = malloc_slack s"
  by (simp_all add: routed_def)

lemma routed_wire [simp]: "wire (routed p frame eh iph m m' s) = wire s"
  by (simp add: routed_def)

lemma routed_lookup [simp]:
  "tcp_get_socket ip port (routed p frame eh iph m m' s) = tcp_get_socket ip port s"
  "tcp_get_transmission_control_block k c (routed p frame eh iph m m' s) = tcp_get_transmission_control_block k c s"
  "sock_at (routed p frame eh iph m m' s) k = sock_at s k" "tcb_at (routed p frame eh iph m m' s) t = tcb_at s t"
  "connected (routed p frame eh iph m m' s) k t tcb sk = connected s k t tcb sk"
  using get_socket_cong [of "routed p frame eh iph m m' s" s]
    get_tcb_cong [of "routed p frame eh iph m m' s" s] connected_cong [of "routed p frame eh iph m m' s" s]
  by (simp_all add: sock_at_def tcb_at_def)

lemma routed_syn [simp]:
  "syn_ack (routed p frame eh iph m m' s) = syn_ack s" "half_open (routed p frame eh iph m m' s) = half_open s"
  by (simp_all add: fun_eq_iff syn_ack_def half_open_def)

lemma unstacked_simps [simp]:
  "wire (s\<lparr>in_stacks := f\<rparr>) = wire s"
  "connected (s\<lparr>in_stacks := f\<rparr>) k t tcb sk = connected s k t tcb sk"
  by (simp_all add: connected_cong [of "s\<lparr>in_stacks := f\<rparr>" s])

lemma unstacked_idle [simp]: "idle (s\<lparr>in_stacks := f\<rparr>) k t tcb sk = idle s k t tcb sk"
  by (simp add: idle_cong [of "s\<lparr>in_stacks := f\<rparr>" s])

lemma keeps_app_worker [simp]:
  "keeps_app (routed p frame eh iph m m' s) s' = keeps_app s s'"
  "keeps_app s (s'\<lparr>in_stacks := f\<rparr>) = keeps_app s s'"
  by (simp_all add: keeps_app_def) (simp add: routed_def put_in_def)

lemma keeps_routes_worker:
  "keeps_routes (routed p frame eh iph m m' s) s' \<Longrightarrow>
   keeps_routes (s\<lparr>ethernet_type_to_handler := m, ip_type_to_handler := m'\<rparr>) (s'\<lparr>in_stacks := f\<rparr>)"
  using get_socket_cong [of "s\<lparr>ethernet_type_to_handler := m, ip_type_to_handler := m'\<rparr>" s]
    get_socket_cong [of "s'\<lparr>in_stacks := f\<rparr>" s']
  by (simp add: keeps_routes_def) (simp add: routed_def)

section \<open>Opening\<close>

lemma worker_syn:
  fixes s :: "'a stack_mem_scheme"
  assumes "tcp_frame frame ifc eh iph hdr" and "routes_tcp s m m'"
    and "tcp_get_socket (ipv4_addr ifc) (th_destination_port hdr) s = Inr (Some k)"
    and "sock_at s k = Inr sk" and "None \<in> set (trans_control_block sk)"
    and "tcp_get_transmission_control_block k (tcb_header_to_connection_id iph hdr) s = Inr None"
    and "tcb_header_to_connection_id iph hdr \<noteq> 0"
    and "has_flag hdr TCP_SYN_FLAG" and "\<not> has_flag hdr TCP_RST_FLAG" and "\<not> has_flag hdr TCP_ACK_FLAG"
    and "seq_x s + 142 < 2 ^ 31" and "0 < malloc_slack s" and "6 \<le> n"
  shows "\<exists>s' reply tcb. worker_packet [H_ethernet] n p (Some frame) ifc s = Inr s' \<and>
    wire s' = wire s @ [segment_frame (eth_return eh) (ip_return iph) ifc reply] \<and> syn_ack s sk hdr reply \<and>
    connected s' k (length (tcbs s)) tcb (with_slot (length (tcbs s)) sk) \<and> half_open s iph hdr tcb \<and>
    keeps_routes (s\<lparr>ethernet_type_to_handler := m, ip_type_to_handler := m'\<rparr>) s' \<and> keeps_app s s' \<and>
    callbacks s' = callbacks s"
proof -
  obtain j where n: "n = Suc (Suc (Suc (Suc (Suc (Suc j)))))"
    using assms(13) by (auto simp: numeral_eq_Suc Suc_le_eq less_iff_Suc_add)
  let ?s = "routed p frame eh iph m m' s"
  have dst: "ih_destination_ip iph = ipv4_addr ifc" using assms(1) by (simp add: tcp_frame_def)
  obtain s' reply tcb where "op_read (Suc (Suc (Suc (Suc j)))) H_tcp p ifc ?s = Inr (Some 0, s')"
    and "wire s' = wire s @ [segment_frame (eth_return eh) (ip_return iph) ifc reply]" "syn_ack ?s sk hdr reply"
    "connected s' k (length (tcbs s)) tcb (with_slot (length (tcbs s)) sk)" "half_open ?s iph hdr tcb"
    "keeps_routes ?s s'" "keeps_app s s'" "callbacks s' = callbacks s"
    using tcp_read_syn [where m = j and rd = "op_read (Suc (Suc (Suc j)))" and s = ?s and k = k and sk = sk,
        OF in_at_routed above_ip_path [OF assms(1)]]
      assms(3-12) dst by auto
  moreover from this tcp_delivers [OF assms(1,2), of "Suc (Suc (Suc (Suc j)))" p] n
  have "worker_packet [H_ethernet] n p (Some frame) ifc s = Inr (s'\<lparr>in_stacks := (in_stacks s')(p := None)\<rparr>)"
    by (simp del: worker_packet.simps op_read.simps)
  ultimately show ?thesis
    by (intro exI [of _ "s'\<lparr>in_stacks := (in_stacks s')(p := None)\<rparr>"] exI [of _ reply] exI [of _ tcb])
      (simp add: keeps_routes_worker)
qed

lemma worker_syn_overflows:
  fixes s :: "'a stack_mem_scheme"
  assumes "tcp_frame frame ifc eh iph hdr" and "routes_tcp s m m'"
    and "tcp_get_socket (ipv4_addr ifc) (th_destination_port hdr) s = Inr (Some k)"
    and "tcp_get_transmission_control_block k (tcb_header_to_connection_id iph hdr) s = Inr None"
    and "has_flag hdr TCP_SYN_FLAG" and "seq_x s + 142 < 2 ^ 31" and "malloc_slack s = 0" and "6 \<le> n"
  shows "worker_packet [H_ethernet] n p (Some frame) ifc s = Inl Out_of_bounds"
proof -
  obtain j where n: "n = Suc (Suc (Suc (Suc (Suc (Suc j)))))"
    using assms(8) by (auto simp: numeral_eq_Suc Suc_le_eq less_iff_Suc_add)
  let ?s = "routed p frame eh iph m m' s"
  have dst: "ih_destination_ip iph = ipv4_addr ifc" using assms(1) by (simp add: tcp_frame_def)
  have "op_read (Suc (Suc (Suc (Suc j)))) H_tcp p ifc ?s = Inl Out_of_bounds"
    using tcp_read_syn_overflows [where s = ?s and k = k, OF in_at_routed above_ip_path [OF assms(1)]] assms(3-7) dst
    by simp
  with tcp_delivers [OF assms(1,2), of "Suc (Suc (Suc (Suc j)))" p] n show ?thesis
    by (simp del: worker_packet.simps op_read.simps)
qed

lemma headers_received:
  assumes "read_bytes frame 0 54 =
      eth_bytes e peer @ ipv4_header_bytes (ipv4_fill_header peer a len16) @ tcp_header_bytes hdr"
    and "length (ea_destination e) = 6" and "length (mac peer) = 6" and "length (mac ifc) = 6"
    and "ea_ethernet_type e = htons ETHERNET_TYPE_IPV4" and "ia_destination_ip a = ipv4_addr ifc"
    and "ia_protocol a = 6"
  shows "tcp_frame frame ifc
    \<lparr>eh_destination = ea_destination e, eh_source = mac peer, eh_ethernet_type = htons ETHERNET_TYPE_IPV4\<rparr>
    (ipv4_fill_header peer a len16) hdr"
proof -
  let ?eh = "\<lparr>eh_destination = ea_destination e, eh_source = mac peer, eh_ethernet_type = htons ETHERNET_TYPE_IPV4\<rparr>"
  let ?ip = "ipv4_header_bytes (ipv4_fill_header peer a len16)"
  have len: "length (eth_bytes e peer) = 14" using assms(2,3) by (simp add: eth_bytes_def ethernet_header_bytes_def)
  have "read_bytes frame 0 14 @ read_bytes frame 14 20 @ read_bytes frame 34 20 =
      eth_bytes e peer @ ?ip @ tcp_header_bytes hdr"
    using assms(1) read_bytes_add [of frame 0 14 40] read_bytes_add [of frame 14 20 20]
    by simp
  then have "read_bytes frame 0 14 = eth_bytes e peer" "read_bytes frame 14 20 = ?ip"
    "read_bytes frame 34 20 = tcp_header_bytes hdr"
    using len by (auto simp: append_eq_append_conv)
  moreover from this have "load_ethernet_header frame 0 = ?eh"
    using assms(2,3,5) by (intro load_ethernet_header_bytes) (simp_all add: eth_bytes_def)
  ultimately show ?thesis
    using assms(4,6,7) load_ipv4_header_bytes load_tcp_header_bytes [of frame 34 hdr] ipv4_fill_header_verifies
    by (simp add: tcp_frame_def IPV4_IHL_MASK_def)
qed

section \<open>The example\<close>

definition example_socket :: tcp_socket_t where
  "example_socket = \<lparr>sk_port = htons 80, sk_ipv4 = 0x0200000A, trans_control_block = replicate 32 None,
     sk_on_connect = Some 1, sk_on_close = Some 2, sk_interface = example_interface, sk_next_handler = None\<rparr>"

lemma example_server_state:
  "example_server = (arp_init_handler 0 (static_tables example_blank))
     \<lparr>ethernet_type_to_handler := table 512 [eth_entry 0x0008 1 H_ipv4, eth_entry 0x0608 0 H_arp],
      ip_type_to_handler := table 64 [eth_entry 6 0 H_tcp], tcp_window := 4096,
      sockets := [example_socket], tcp_sockets := Some 0 # replicate 63 None\<rparr>"
proof -
  have "replicate 64 (None :: nat option) = None # None # replicate 62 None" by (simp add: replicate_numeral)
  then show ?thesis
    by (simp add: example_server_def example_started_state tcp_create_socket_def tcp_add_socket_def
        SOCKET_BUFFER_SIZE_def example_socket_def)
      (simp add: arp_init_handler_def static_tables_def example_blank_def replicate_numeral)
qed

lemma example_server_simps:
  "tcbs example_server = []" "seq_x example_server = 500" "malloc_slack example_server = 1"
  "wire example_server = []" "tcp_window example_server = 4096" "sock_at example_server 0 = Inr example_socket"
  "tcp_get_socket (ipv4_addr example_interface) (htons 80) example_server = Inr (Some 0)"
  "tcp_get_transmission_control_block 0 c example_server = Inr None"
  by (simp_all add: example_server_state arp_init_handler_def static_tables_def example_blank_def sock_at_def
      tcp_get_socket_def example_socket_def example_interface_def tcp_get_transmission_control_block_def
      replicate_numeral)

lemma example_routes: "\<exists>m m'. routes_tcp example_server m m'"
proof -
  have key: "htons ETHERNET_TYPE_IPV4 = 0x0008"
    by (simp add: ETHERNET_TYPE_IPV4_def bswap16_def join16_def)
  show ?thesis
    using get_value_table [of 0 "[eth_entry 0x0008 1 H_ipv4, eth_entry 0x0608 0 H_arp]" 512 "0x0008"]
      get_value_table [of 0 "[eth_entry 6 0 H_tcp]" 64 6]
    by (simp add: routes_tcp_def example_server_state key get_value_hit_table eth_entry_def)
qed

lemma example_frame_received:
  "\<exists>eh iph. tcp_frame (example_frame hdr) example_interface eh iph hdr \<and> eh_source eh = [2, 0, 0, 0, 0, 9] \<and>
     ih_source_ip iph = 0x0900000A \<and> ih_total_length iph = htons 40 \<and> ih_flags_1 iph = 0x45 \<and>
     eth_return eh = \<lparr>ea_destination = [2, 0, 0, 0, 0, 9], ea_ethernet_type = htons ETHERNET_TYPE_IPV4\<rparr> \<and>
     ip_return iph = \<lparr>ia_destination_ip = 0x0900000A, ia_protocol = 6\<rparr>"
proof -
  let ?e = "\<lparr>ea_destination = [2, 0, 0, 0, 0, 1], ea_ethernet_type = htons ETHERNET_TYPE_IPV4\<rparr>"
  let ?a = "\<lparr>ia_destination_ip = 0x0200000A, ia_protocol = 6\<rparr>"
  have "length (segment_frame ?e ?a example_client hdr) = 54"
    by (simp add: segment_frame_def eth_bytes_def ethernet_header_bytes_def example_client_def)
  then have "read_bytes (example_frame hdr) 0 54 = segment_frame ?e ?a example_client hdr"
    unfolding example_frame_def by (rule read_mem_of_all)
  from headers_received [OF this [unfolded segment_frame_def], of example_interface] show ?thesis
    by (intro exI [of _ "\<lparr>eh_destination = [2, 0, 0, 0, 0, 1], eh_source = mac example_client, eh_ethernet_type = htons ETHERNET_TYPE_IPV4\<rparr>"]
        exI [of _ "ipv4_fill_header example_client ?a (htons 40)"])
      (simp add: example_client_def example_interface_def eth_return_def ip_return_def)
qed

section \<open>Segments of a known connection\<close>

text \<open>A connection that is idle, whose segments \<^verbatim>\<open>tcp_others\<close> handles, and an in-order segment for it.\<close>

definition in_order ::
  "'a tcp_mem_scheme \<Rightarrow> ipv4_header_t \<Rightarrow> tcp_header_t \<Rightarrow> nat \<Rightarrow> nat \<Rightarrow> tcb_t \<Rightarrow> tcp_socket_t \<Rightarrow> bool" where
  "in_order s iph hdr k t tcb sk \<longleftrightarrow>
     idle s k t tcb sk \<and> tcb_id tcb = tcb_header_to_connection_id iph hdr \<and>
     tcp_get_socket (ih_destination_ip iph) (th_destination_port hdr) s = Inr (Some k) \<and>
     receive_next tcb = ntohl (th_sequence_num hdr) \<and>
     state_function tcb = Tcp_others \<and> tcb_state tcb \<noteq> SYN_SENT \<and>
     is_segment_in_window tcb hdr (ucast (tcp_get_payload_length iph hdr))"

lemma in_order_routed [simp]:
  "in_order (routed p frame eh iph' m m' s) iph hdr k t tcb sk = in_order s iph hdr k t tcb sk"
  using idle_cong [of "routed p frame eh iph' m m' s" s] by (simp add: in_order_def)

text \<open>The state in which \<^verbatim>\<open>tcp_others\<close> starts on it.\<close>

definition received ::
  "nat \<Rightarrow> in_packet_stack_t \<Rightarrow> nat \<Rightarrow> tcb_t \<Rightarrow> tcp_block_buffer_t \<Rightarrow> 'a tcp_mem_scheme \<Rightarrow> 'a tcp_mem_scheme" where
  "received p ips t tcb bb s = put_tcb t (tcb\<lparr>tcb_in_buffer := bb\<rparr>) (put_in p (with_tcp ips) s)"

lemma received_simps [simp]:
  "ethernet_type_to_handler (received p ips t tcb bb s) = ethernet_type_to_handler s"
  "ip_type_to_handler (received p ips t tcb bb s) = ip_type_to_handler s"
  "sockets (received p ips t tcb bb s) = sockets s" "tcp_sockets (received p ips t tcb bb s) = tcp_sockets s"
  "callbacks (received p ips t tcb bb s) = callbacks s"
  by (simp_all add: received_def put_tcb_def)

lemma received_wire [simp]: "wire (received p ips t tcb bb s) = wire s"
  by (simp add: received_def)

lemma window_in_buffer [simp]:
  "is_segment_in_window (tcb\<lparr>tcb_in_buffer := bb\<rparr>) hdr n = is_segment_in_window tcb hdr n"
  by (simp add: is_segment_in_window_def)

lemma tcp_read_in_order:
  assumes at: "in_at s p = Inr ips" and path: "reply_path ips e a ifc" and seg: "carries ips ta ia iph hdr"
    and ord: "in_order s iph hdr k t tcb sk"
  shows "\<exists>bb. arrived (received p ips t tcb bb s) p (with_tcp ips) ta ia iph hdr k t (tcb\<lparr>tcb_in_buffer := bb\<rparr>) sk \<and>
    tcp_read rd wr H_tcp p ifc s =
      sbind (tcp_others_in_window rd wr H_tcp (segment_of p (with_tcp ips) ta ia) (Some k) t ifc (received p ips t tcb bb s))
       (\<lambda>(fl, s). case fl of Return \<Rightarrow> Inr (Some 0, s) | Continue \<Rightarrow> Inr (None, s)
          | Fall \<Rightarrow> sbind (remove_head t s) (\<lambda>s. Inr (None, s)))"
proof -
  obtain bb where read: "tcp_read rd wr H_tcp p ifc s =
      run_state_function (state_function tcb) (Suc 0) rd wr H_tcp t ifc (received p ips t tcb bb s)"
    and arr: "arrived (received p ips t tcb bb s) p (with_tcp ips) ta ia iph hdr k t (tcb\<lparr>tcb_in_buffer := bb\<rparr>) sk"
    using tcp_read_arrived [OF at path seg, of k t tcb sk rd wr] ord
    unfolding received_def in_order_def by blast
  have "reply_path (with_tcp ips) e a ifc" using path by simp
  from tcp_others_arrived [OF arr this, of rd wr H_tcp] read arr ord show ?thesis
    by (intro exI [of _ bb]) (simp add: in_order_def run_state_function_def)
qed

text \<open>The ACK that completes the handshake.\<close>

definition tcb_established :: "tcb_t \<Rightarrow> tcp_header_t \<Rightarrow> tcb_t" where
  "tcb_established tcb hdr =
     tcb\<lparr>send_window := ntohs (th_window hdr),
         send_last_update_sequence_num := ntohl (th_sequence_num hdr),
         send_last_update_acknowledgement_num := ntohl (th_acknowledgement_num hdr),
         tcb_state := ESTABLISHED\<rparr>"

lemma others_handshake_ack:
  assumes arr: "arrived s p ips ta ia iph hdr k t tcb sk"
    and st: "tcb_state tcb = SYN_RECEIVED"
    and flags: "\<not> has_flag hdr TCP_RST_FLAG" "\<not> has_flag hdr TCP_SYN_FLAG" "\<not> has_flag hdr TCP_FIN_FLAG"
      "has_flag hdr TCP_ACK_FLAG"
    and ack: "send_unacknowledged tcb < ntohl (th_acknowledgement_num hdr)"
      "ntohl (th_acknowledgement_num hdr) \<le> send_next tcb"
  shows "tcp_others_in_window rd wr h (segment_of p ips ta ia) (Some k) t ifc s =
    Inr (Fall, put_tcb t (tcb_established tcb hdr) s)"
proof -
  have "tcb_at s t = Inr tcb" "load_tcp_header (in_frame ips) ta = hdr"
    using arr by (simp_all add: arrived_def connected_def carries_def)
  then show ?thesis
    using st flags ack
    by (simp add: tcp_others_in_window_def tcp_others_rst_syn_def tcp_others_ack_def tcp_others_fin_def
        tcb_established_def Let_def)
qed

lemma remove_arrived:
  assumes "tcb_at s t = Inr tcb" and "arrived s0 p ips ta ia iph hdr k t tcb0 sk"
    and "tcb_in_buffer tcb = tcb_in_buffer tcb0"
  shows "\<exists>bb. bb_invar bb \<and> bb_list bb = [] \<and> remove_head t s = Inr (put_tcb t (tcb\<lparr>tcb_in_buffer := bb\<rparr>) s)"
  using assms by (intro remove_head_at) (auto simp: arrived_def)

lemma arrived_idle:
  assumes "arrived s p ips ta ia iph hdr k t tcb sk" and "tcb_id tcb' = tcb_id tcb"
    and "bb_invar (tcb_out_buffer tcb')" "bb_list (tcb_out_buffer tcb') = []"
    and "bb_invar (tcb_in_buffer tcb')" "bb_list (tcb_in_buffer tcb') = []"
    and "tcbs s' = (tcbs s)[t := Some tcb']" "sockets s' = sockets s"
  shows "idle s' k t tcb' sk"
proof -
  have "connected (put_tcb t tcb' s) k t tcb' sk"
    using assms by (intro connected_put_tcb) (simp_all add: arrived_def)
  moreover have "tcbs s' = tcbs (put_tcb t tcb' s)" "sockets s' = sockets (put_tcb t tcb' s)"
    using assms(7,8) by (simp_all add: put_tcb_def)
  ultimately show ?thesis using assms(5,6) connected_cong [of s' "put_tcb t tcb' s"] by (simp add: idle_def)
qed

lemma tcp_read_handshake_ack:
  assumes at: "in_at s p = Inr ips" and path: "reply_path ips e a ifc" and seg: "carries ips ta ia iph hdr"
    and ord: "in_order s iph hdr k t tcb sk" and st: "tcb_state tcb = SYN_RECEIVED"
    and flags: "\<not> has_flag hdr TCP_RST_FLAG" "\<not> has_flag hdr TCP_SYN_FLAG" "\<not> has_flag hdr TCP_FIN_FLAG"
      "has_flag hdr TCP_ACK_FLAG"
    and ack: "send_unacknowledged tcb < ntohl (th_acknowledgement_num hdr)"
      "ntohl (th_acknowledgement_num hdr) \<le> send_next tcb"
  shows "\<exists>bb. tcp_read rd wr H_tcp p ifc s =
      Inr (None, put_tcb t ((tcb_established tcb hdr)\<lparr>tcb_in_buffer := bb\<rparr>) (put_in p (with_tcp ips) s)) \<and>
    idle (put_tcb t ((tcb_established tcb hdr)\<lparr>tcb_in_buffer := bb\<rparr>) (put_in p (with_tcp ips) s))
      k t ((tcb_established tcb hdr)\<lparr>tcb_in_buffer := bb\<rparr>) sk"
proof -
  obtain b0 where arr: "arrived (received p ips t tcb b0 s) p (with_tcp ips) ta ia iph hdr k t (tcb\<lparr>tcb_in_buffer := b0\<rparr>) sk"
    and read: "tcp_read rd wr H_tcp p ifc s =
      sbind (tcp_others_in_window rd wr H_tcp (segment_of p (with_tcp ips) ta ia) (Some k) t ifc (received p ips t tcb b0 s))
       (\<lambda>(fl, s). case fl of Return \<Rightarrow> Inr (Some 0, s) | Continue \<Rightarrow> Inr (None, s)
          | Fall \<Rightarrow> sbind (remove_head t s) (\<lambda>s. Inr (None, s)))"
    using tcp_read_in_order [OF at path seg ord] by blast
  let ?s = "received p ips t tcb b0 s" and ?tcb = "tcb\<lparr>tcb_in_buffer := b0\<rparr>"
  have t: "t < length (tcbs s)" using ord tcb_at_valid by (auto simp: in_order_def idle_def connected_def)
  have "tcp_others_in_window rd wr H_tcp (segment_of p (with_tcp ips) ta ia) (Some k) t ifc ?s =
      Inr (Fall, put_tcb t (tcb_established ?tcb hdr) ?s)"
    using others_handshake_ack [OF arr _ flags] st ack by simp
  moreover obtain bb where bb: "bb_invar bb" "bb_list bb = []"
    and "remove_head t (put_tcb t (tcb_established ?tcb hdr) ?s) =
      Inr (put_tcb t ((tcb_established ?tcb hdr)\<lparr>tcb_in_buffer := bb\<rparr>) (put_tcb t (tcb_established ?tcb hdr) ?s))"
    using remove_arrived [OF _ arr, of "put_tcb t (tcb_established ?tcb hdr) ?s" "tcb_established ?tcb hdr"] t
    by (auto simp: received_def tcb_established_def)
  moreover have eq: "(tcb_established ?tcb hdr)\<lparr>tcb_in_buffer := bb\<rparr> = (tcb_established tcb hdr)\<lparr>tcb_in_buffer := bb\<rparr>"
    by (simp add: tcb_established_def)
  ultimately have "tcp_read rd wr H_tcp p ifc s =
      Inr (None, put_tcb t ((tcb_established tcb hdr)\<lparr>tcb_in_buffer := bb\<rparr>) (put_in p (with_tcp ips) s))"
    using read by (simp add: received_def)
  moreover have "idle (put_tcb t ((tcb_established tcb hdr)\<lparr>tcb_in_buffer := bb\<rparr>) (put_in p (with_tcp ips) s))
      k t ((tcb_established tcb hdr)\<lparr>tcb_in_buffer := bb\<rparr>) sk"
    by (rule arrived_idle [OF arr])
      (use arr bb in \<open>simp_all add: tcb_established_def arrived_def connected_def received_def put_tcb_def\<close>)
  ultimately show ?thesis by blast
qed

lemma worker_in_order:
  assumes frame: "tcp_frame frame ifc eh iph hdr" and route: "routes_tcp s m m'"
    and read: "tcp_read (op_read n) (op_write n) H_tcp p ifc (routed p frame eh iph m m' s) = Inr (r, s')"
  shows "worker_packet [H_ethernet] (Suc (Suc (Suc n))) p (Some frame) ifc s =
    Inr (s'\<lparr>in_stacks := (in_stacks s')(p := None)\<rparr>)"
  using tcp_delivers [OF frame route, of "Suc n" p] read by (simp del: worker_packet.simps)

lemma worker_handshake_ack:
  assumes frame: "tcp_frame frame ifc eh iph hdr" and route: "routes_tcp s m m'"
    and ord: "in_order s iph hdr k t tcb sk" and st: "tcb_state tcb = SYN_RECEIVED"
    and flags: "\<not> has_flag hdr TCP_RST_FLAG" "\<not> has_flag hdr TCP_SYN_FLAG" "\<not> has_flag hdr TCP_FIN_FLAG"
      "has_flag hdr TCP_ACK_FLAG"
    and ack: "send_unacknowledged tcb < ntohl (th_acknowledgement_num hdr)"
      "ntohl (th_acknowledgement_num hdr) \<le> send_next tcb"
    and n: "3 \<le> n"
  shows "\<exists>s' bb. worker_packet [H_ethernet] n p (Some frame) ifc s = Inr s' \<and> wire s' = wire s \<and>
    idle s' k t ((tcb_established tcb hdr)\<lparr>tcb_in_buffer := bb\<rparr>) sk \<and>
    keeps_routes (s\<lparr>ethernet_type_to_handler := m, ip_type_to_handler := m'\<rparr>) s' \<and> keeps_app s s' \<and>
    callbacks s' = callbacks s"
proof -
  obtain j where j: "n = Suc (Suc (Suc j))" using n by (auto simp: numeral_eq_Suc Suc_le_eq less_iff_Suc_add)
  let ?s = "routed p frame eh iph m m' s"
  have ord': "in_order ?s iph hdr k t tcb sk" using ord by simp
  obtain bb where read: "tcp_read (op_read j) (op_write j) H_tcp p ifc ?s = Inr (None, put_tcb t
        ((tcb_established tcb hdr)\<lparr>tcb_in_buffer := bb\<rparr>) (put_in p (with_tcp (above_ip frame eh iph)) ?s))"
    and idle: "idle (put_tcb t ((tcb_established tcb hdr)\<lparr>tcb_in_buffer := bb\<rparr>)
        (put_in p (with_tcp (above_ip frame eh iph)) ?s)) k t ((tcb_established tcb hdr)\<lparr>tcb_in_buffer := bb\<rparr>) sk"
    using tcp_read_handshake_ack [OF in_at_routed above_ip_path [OF frame] ord' st flags ack] by blast
  let ?r = "put_tcb t ((tcb_established tcb hdr)\<lparr>tcb_in_buffer := bb\<rparr>) (put_in p (with_tcp (above_ip frame eh iph)) ?s)"
  have "keeps_routes ?s ?r" by (rule keeps_routes_cong) (simp_all add: put_tcb_def)
  moreover have "keeps_app s ?r" "callbacks ?r = callbacks s"
    by (simp_all add: keeps_app_def put_tcb_def routed_def put_in_def)
  ultimately show ?thesis
    using worker_in_order [OF frame route read] idle j keeps_routes_worker
    by (intro exI [of _ "?r\<lparr>in_stacks := (in_stacks ?r)(p := None)\<rparr>"] exI [of _ bb])
      (simp del: worker_packet.simps)
qed

lemma example_payload:
  assumes "ih_total_length iph = htons 40" and "ih_flags_1 iph = 0x45"
  shows "tcp_get_payload_length iph (example_segment f sq ak) = 0"
  using assms by (simp add: tcp_get_payload_length_def example_segment_def TCP_DATA_OFFSET_MASK_def IPV4_IHL_MASK_def)

lemma example_empty_queue: "bb_invar example_empty" "bb_list example_empty = []"
  using create_correct [of 1 10] by (auto simp: example_empty_def)

lemma example_id_of: "tcb_header_to_connection_id iph (example_segment f sq ak) = example_id"
  by (simp add: tcb_header_to_connection_id_def example_id_def example_segment_def connection_id_ports)

lemma example_id_nonzero: "example_id \<noteq> 0"
  by (simp add: example_id_def connection_id_ports bswap16_def join16_def)

lemma example_open_routes: "\<exists>m m'. routes_tcp (example_open st) m m'"
  using example_routes by (simp add: routes_tcp_def example_open_def)

lemma example_open_wire: "wire (example_open st) = []" "callbacks (example_open st) = []"
  by (simp_all add: example_open_def example_server_simps)
    (simp add: example_server_state arp_init_handler_def static_tables_def example_blank_def)

definition example_open_socket :: tcp_socket_t where
  "example_open_socket = example_socket\<lparr>trans_control_block := Some 0 # replicate 31 None\<rparr>"

lemma example_open_idle: "idle (example_open st) 0 0 (example_conn st) example_open_socket"
  using example_empty_queue example_id_nonzero
  by (simp add: idle_def connected_def tcp_get_transmission_control_block_def sock_at_def tcb_at_def
      example_open_def example_server_state example_open_socket_def) (simp add: example_conn_def)

lemma example_open_in_order:
  assumes "tcp_frame frame example_interface eh iph (example_segment f 8 ak)" and "st \<noteq> SYN_SENT"
    and "ih_total_length iph = htons 40" and "ih_flags_1 iph = 0x45"
  shows "in_order (example_open st) iph (example_segment f 8 ak) 0 0 (example_conn st) example_open_socket"
proof -
  have "tcp_get_socket (ih_destination_ip iph) (htons 80) (example_open st) = Inr (Some 0)"
    using assms(1)
    by (simp add: tcp_frame_def tcp_get_socket_def example_open_def example_server_state sock_at_def
        example_socket_def example_interface_def)
  moreover have "is_segment_in_window (example_conn st) (example_segment f 8 ak) 0"
    by (simp add: is_segment_in_window_def example_conn_def example_segment_def Let_def)
  ultimately show ?thesis
    using example_open_idle [of st] example_payload [OF assms(3,4)] assms(2) example_id_of
    by (simp add: in_order_def) (simp add: example_conn_def example_segment_def)
qed

lemma example_flags:
  "has_flag (example_segment 16 sq ak) TCP_ACK_FLAG" "\<not> has_flag (example_segment 16 sq ak) TCP_RST_FLAG"
  "\<not> has_flag (example_segment 16 sq ak) TCP_SYN_FLAG" "\<not> has_flag (example_segment 16 sq ak) TCP_FIN_FLAG"
  by (simp_all add: has_flag_def example_segment_def TCP_SYN_FLAG_def TCP_RST_FLAG_def TCP_ACK_FLAG_def TCP_FIN_FLAG_def)

section \<open>The handshake as a whole\<close>

text \<open>Tables whose first entries lead to IPv4 and to TCP; looking these up keeps them first.\<close>

definition routes_head :: "'a ip_mem_scheme \<Rightarrow> bool" where
  "routes_head s \<longleftrightarrow>
     (\<exists>n a es. ethernet_type_to_handler s = table n (eth_entry 0x0008 a H_ipv4 # es) \<and> length es < unat n) \<and>
     (\<exists>n a es. ip_type_to_handler s = table n (eth_entry 6 a H_tcp # es) \<and> length es < unat n)"

lemma get_value_head:
  assumes "length es < unat n" and "k = ucast key" and "k \<noteq> 0"
  shows "get_value (table n (eth_entry k a h # es)) key = Inr (Some h, table n (eth_entry k (a + 1) h # es))"
  using get_value_table [of 0 "eth_entry k a h # es" n key] assms
  by (simp add: get_value_hit_table eth_entry_def)

lemma routes_headE:
  fixes s :: "'a ip_mem_scheme"
  assumes "routes_head s"
  obtains m m' where "routes_tcp s m m'"
    and "\<forall>s' :: 'a ip_mem_scheme. ethernet_type_to_handler s' = m \<longrightarrow> ip_type_to_handler s' = m' \<longrightarrow> routes_head s'"
proof -
  obtain n a es n' a' es' where
    eth: "ethernet_type_to_handler s = table n (eth_entry 0x0008 a H_ipv4 # es)" "length es < unat n"
    and ip: "ip_type_to_handler s = table n' (eth_entry 6 a' H_tcp # es')" "length es' < unat n'"
    using assms by (auto simp: routes_head_def)
  have key: "htons ETHERNET_TYPE_IPV4 = 0x0008"
    by (simp add: ETHERNET_TYPE_IPV4_def bswap16_def join16_def)
  show thesis
  proof
    show "routes_tcp s (table n (eth_entry 0x0008 (a + 1) H_ipv4 # es)) (table n' (eth_entry 6 (a' + 1) H_tcp # es'))"
      using eth ip get_value_head [of es n 8 8 a H_ipv4] get_value_head [of es' n' 6 6 a' H_tcp]
      by (simp add: routes_tcp_def key)
  qed (use eth(2) ip(2) in \<open>auto simp: routes_head_def\<close>)
qed

lemma unat_of_int_small:
  assumes "0 \<le> i" and "i < 2 ^ LENGTH('w)"
  shows "unat (of_int i :: 'w::len word) = nat i"
proof -
  obtain j where "i = int j" using assms(1) nonneg_int_cases by blast
  with assms(2) show ?thesis by (simp add: unat_of_nat nat_less_iff [symmetric])
qed

lemma iss_increases:
  assumes "0 \<le> i" and "i + 142 < 2 ^ 31"
  shows "(of_int (i + 142) :: u32) < of_int (i + 142) + 1"
  using assms unat_of_int_small [of i, where 'w = 32] by (simp add: word_less_nat_alt unat_word_ariths)

lemma window_at_edge:
  assumes "receive_next tcb = ntohl (th_sequence_num hdr)" and "receive_window tcb \<noteq> 0"
    and "unat (receive_next tcb) + unat (receive_window tcb) < 2 ^ 32"
  shows "is_segment_in_window tcb hdr 0"
proof -
  have "unat (receive_next tcb + ucast (receive_window tcb)) = unat (receive_next tcb) + unat (receive_window tcb)"
    using assms(3) by (simp add: unat_add_u32 unat_ucast_u16_u32)
  moreover have "0 < unat (receive_window tcb)" using assms(2) by (simp add: unat_gt_0)
  ultimately have "receive_next tcb < receive_next tcb + ucast (receive_window tcb)"
    by (simp add: word_less_nat_alt)
  then show ?thesis using assms(1,2) by (simp add: is_segment_in_window_def Let_def)
qed

text \<open>The second packet: a half-open connection is completed by the acknowledgement of its SYN.\<close>

definition completes :: "'a tcp_mem_scheme \<Rightarrow> tcp_header_t \<Rightarrow> ipv4_header_t \<Rightarrow> tcp_header_t \<Rightarrow> bool" where
  "completes s syn iph ack \<longleftrightarrow>
     th_source_port ack = th_source_port syn \<and> th_destination_port ack = th_destination_port syn \<and>
     \<not> has_flag ack TCP_RST_FLAG \<and> \<not> has_flag ack TCP_SYN_FLAG \<and> \<not> has_flag ack TCP_FIN_FLAG \<and>
     has_flag ack TCP_ACK_FLAG \<and> tcp_get_payload_length iph ack = 0 \<and>
     th_sequence_num ack = htonl (ntohl (th_sequence_num syn) + 1) \<and>
     th_acknowledgement_num ack = htonl (of_int (seq_x s + 142) + 1)"

text \<open>The next initial sequence number and the window are in range, and the window does not reach the
  end of the sequence space.\<close>

definition window_fits :: "'a tcp_mem_scheme \<Rightarrow> tcp_header_t \<Rightarrow> bool" where
  "window_fits s syn \<longleftrightarrow> 0 \<le> seq_x s \<and> seq_x s + 142 < 2 ^ 31 \<and> 0 < tcp_window s \<and> tcp_window s < 2 ^ 16 \<and>
     unat (ntohl (th_sequence_num syn) + 1) + nat (tcp_window s) < 2 ^ 32"

lemma worker_completes:
  assumes frame: "tcp_frame frame ifc eh iph ack" and route: "routes_tcp s1 m m'"
    and conn: "connected s1 k t tcb sk" and half: "half_open s iph1 syn tcb" and fits: "window_fits s syn"
    and sock: "tcp_get_socket (ipv4_addr ifc) (th_destination_port syn) s1 = Inr (Some k)"
    and ack: "completes s syn iph ack" and n: "3 \<le> n"
  shows "\<exists>s' bb. worker_packet [H_ethernet] n p (Some frame) ifc s1 = Inr s' \<and> wire s' = wire s1 \<and>
    idle s' k t ((tcb_established tcb ack)\<lparr>tcb_in_buffer := bb\<rparr>) sk \<and>
    keeps_routes (s1\<lparr>ethernet_type_to_handler := m, ip_type_to_handler := m'\<rparr>) s' \<and> keeps_app s1 s' \<and>
    callbacks s' = callbacks s1"
proof -
  let ?iss = "of_int (seq_x s + 142) :: u32"
  have dst: "ih_destination_ip iph = ipv4_addr ifc" using frame by (simp add: tcp_frame_def)
  have win: "receive_window tcb \<noteq> 0" "unat (receive_next tcb) + unat (receive_window tcb) < 2 ^ 32"
    using half fits unat_of_int_small [of "tcp_window s", where 'w = 16]
    by (auto simp: half_open_def window_fits_def)
  have "in_order s1 iph ack k t tcb sk"
    using conn half sock win ack dst window_at_edge [of tcb ack]
    by (simp add: in_order_def idle_def half_open_def tcb_header_to_connection_id_def connection_id_ports completes_def)
  moreover have "?iss < ?iss + 1" using fits by (intro iss_increases) (simp_all add: window_fits_def)
  ultimately show ?thesis
    using worker_handshake_ack [OF frame route, of k t tcb sk n p] half ack n
    by (auto simp: half_open_def completes_def simp del: worker_packet.simps)
qed

text \<open>Both packets, with the state between them.\<close>

lemma handshake_run:
  fixes s :: "'a stack_mem_scheme"
  assumes "tcp_frame f1 ifc eh1 iph1 syn" and "tcp_frame f2 ifc eh2 iph2 ack" and "routes_head s"
    and "tcp_get_socket (ipv4_addr ifc) (th_destination_port syn) s = Inr (Some k)"
    and "sock_at s k = Inr sk" and "None \<in> set (trans_control_block sk)"
    and "tcp_get_transmission_control_block k (tcb_header_to_connection_id iph1 syn) s = Inr None"
    and "tcb_header_to_connection_id iph1 syn \<noteq> 0"
    and "has_flag syn TCP_SYN_FLAG" and "\<not> has_flag syn TCP_RST_FLAG" and "\<not> has_flag syn TCP_ACK_FLAG"
    and "th_source_port ack = th_source_port syn" and "th_destination_port ack = th_destination_port syn"
    and "\<not> has_flag ack TCP_RST_FLAG" and "\<not> has_flag ack TCP_SYN_FLAG" and "\<not> has_flag ack TCP_FIN_FLAG"
    and "has_flag ack TCP_ACK_FLAG" and "tcp_get_payload_length iph2 ack = 0"
    and "th_sequence_num ack = htonl (ntohl (th_sequence_num syn) + 1)"
    and "th_acknowledgement_num ack = htonl (of_int (seq_x s + 142) + 1)"
    and "0 \<le> seq_x s" and "seq_x s + 142 < 2 ^ 31" and "0 < malloc_slack s"
    and "0 < tcp_window s" and "tcp_window s < 2 ^ 16"
    and "unat (ntohl (th_sequence_num syn) + 1) + nat (tcp_window s) < 2 ^ 32" and "6 \<le> n"
  shows "\<exists>s1 s' reply tcb1 tcb sk'. worker_packet [H_ethernet] n p (Some f1) ifc s = Inr s1 \<and>
    worker_packet [H_ethernet] n p (Some f2) ifc s1 = Inr s' \<and>
    wire s' = wire s @ [segment_frame (eth_return eh1) (ip_return iph1) ifc reply] \<and> syn_ack s sk syn reply \<and>
    tcb_at s1 (length (tcbs s)) = Inr tcb1 \<and> tcb_state tcb1 = SYN_RECEIVED \<and>
    idle s' k (length (tcbs s)) tcb sk' \<and> tcb_state tcb = ESTABLISHED \<and>
    receive_next tcb = ntohl (th_sequence_num ack) \<and> send_next tcb = ntohl (th_acknowledgement_num ack)"
proof -
  let ?t = "length (tcbs s)"
  obtain m m' where route: "routes_tcp s m m'" and again:
    "\<forall>s' :: 'a stack_mem_scheme. ethernet_type_to_handler s' = m \<longrightarrow> ip_type_to_handler s' = m' \<longrightarrow> routes_head s'"
    using assms(3) by (rule routes_headE)
  let ?sk = "with_slot ?t sk"
  obtain s1 reply tcb where w1: "worker_packet [H_ethernet] n p (Some f1) ifc s = Inr s1"
    "wire s1 = wire s @ [segment_frame (eth_return eh1) (ip_return iph1) ifc reply]" "syn_ack s sk syn reply"
    and conn: "connected s1 k ?t tcb ?sk" and half: "half_open s iph1 syn tcb"
    and keep: "keeps_routes (s\<lparr>ethernet_type_to_handler := m, ip_type_to_handler := m'\<rparr>) s1"
    using worker_syn [OF assms(1) route assms(4-11,22,23,27)] by blast
  have "routes_head s1" using keep again by (simp add: keeps_routes_def)
  then obtain m2 m2' where route2: "routes_tcp s1 m2 m2'" using routes_headE by blast
  have sock1: "tcp_get_socket (ipv4_addr ifc) (th_destination_port syn) s1 = Inr (Some k)"
    using keep assms(4) get_socket_cong [of "s\<lparr>ethernet_type_to_handler := m, ip_type_to_handler := m'\<rparr>" s]
    by (simp add: keeps_routes_def)
  have "window_fits s syn" "completes s syn iph2 ack" "3 \<le> n"
    using assms(12-27) by (simp_all add: window_fits_def completes_def)
  from worker_completes [OF assms(2) route2 conn half this(1) sock1 this(2,3), of p]
  obtain s' bb where "worker_packet [H_ethernet] n p (Some f2) ifc s1 = Inr s'" "wire s' = wire s1"
    "idle s' k ?t ((tcb_established tcb ack)\<lparr>tcb_in_buffer := bb\<rparr>) ?sk"
    by blast
  with w1 half conn assms(19,20) show ?thesis
    by (intro exI [of _ s1] exI [of _ s'] exI [of _ reply] exI [of _ tcb]
        exI [of _ "(tcb_established tcb ack)\<lparr>tcb_in_buffer := bb\<rparr>"] exI [of _ ?sk])
      (simp add: tcb_established_def half_open_def connected_def del: worker_packet.simps)
qed

text \<open>C1: the three-way handshake. A SYN for a listening socket with a free slot makes the worker create
  a connection, and with the ten blocks that the code allocates for each of its two buffers the
  eleventh is written outside the allocation: the program has undefined behaviour before anything is
  sent. If there is unused memory for that block behind the allocation, the SYN, followed by a
  segment from the same port that acknowledges the answer, makes the worker send exactly the
  SYN-ACK and leaves an established connection in which both sides agree on the next
  sequence numbers and nothing is queued.\<close>

theorem three_way_handshake:
  fixes s :: "'a stack_mem_scheme"
  assumes "tcp_frame f1 ifc eh1 iph1 syn" and "tcp_frame f2 ifc eh2 iph2 ack" and "routes_head s"
    and "tcp_get_socket (ipv4_addr ifc) (th_destination_port syn) s = Inr (Some k)"
    and "sock_at s k = Inr sk" and "None \<in> set (trans_control_block sk)"
    and "tcp_get_transmission_control_block k (tcb_header_to_connection_id iph1 syn) s = Inr None"
    and "tcb_header_to_connection_id iph1 syn \<noteq> 0"
    and "has_flag syn TCP_SYN_FLAG" and "\<not> has_flag syn TCP_RST_FLAG" and "\<not> has_flag syn TCP_ACK_FLAG"
    and "th_source_port ack = th_source_port syn" and "th_destination_port ack = th_destination_port syn"
    and "\<not> has_flag ack TCP_RST_FLAG" and "\<not> has_flag ack TCP_SYN_FLAG" and "\<not> has_flag ack TCP_FIN_FLAG"
    and "has_flag ack TCP_ACK_FLAG" and "tcp_get_payload_length iph2 ack = 0"
    and "th_sequence_num ack = htonl (ntohl (th_sequence_num syn) + 1)"
    and "th_acknowledgement_num ack = htonl (of_int (seq_x s + 142) + 1)"
    and "0 \<le> seq_x s" and "seq_x s + 142 < 2 ^ 31"
    and "0 < tcp_window s" and "tcp_window s < 2 ^ 16"
    and "unat (ntohl (th_sequence_num syn) + 1) + nat (tcp_window s) < 2 ^ 32" and "6 \<le> n"
  shows "if malloc_slack s = 0 then consume_tasks [(f1, ifc), (f2, ifc)] [H_ethernet] n p s = Inl Out_of_bounds
    else \<exists>s' reply tcb sk'. consume_tasks [(f1, ifc), (f2, ifc)] [H_ethernet] n p s = Inr s' \<and>
    wire s' = wire s @ [segment_frame (eth_return eh1) (ip_return iph1) ifc reply] \<and> syn_ack s sk syn reply \<and>
    idle s' k (length (tcbs s)) tcb sk' \<and> tcb_state tcb = ESTABLISHED \<and>
    receive_next tcb = ntohl (th_sequence_num ack) \<and> send_next tcb = ntohl (th_acknowledgement_num ack)"
proof (cases "malloc_slack s")
  case 0
  obtain m m' where "routes_tcp s m m'" using assms(3) by (rule routes_headE)
  from worker_syn_overflows [OF assms(1) this assms(4,7,9,22) 0 assms(26), of p] 0 show ?thesis
    by (simp del: worker_packet.simps)
next
  case (Suc i)
  then have slack: "0 < malloc_slack s" by simp
  from handshake_run [OF assms(1-22) slack assms(23-26), of p] Suc show ?thesis
    by (auto simp del: worker_packet.simps) blast
qed

text \<open>The two packets of the example meet the conditions of the handshake.\<close>

lemma example_syn_known:
  "routes_head example_server" "None \<in> set (trans_control_block example_socket)"
  "tcp_get_transmission_control_block 0 (tcb_header_to_connection_id iph (example_segment 2 7 0)) example_server = Inr None"
  "tcb_header_to_connection_id iph (example_segment 2 7 0) \<noteq> 0"
  "tcp_get_socket (ipv4_addr example_interface) (th_destination_port (example_segment 2 7 0)) example_server = Inr (Some 0)"
  "has_flag (example_segment 2 7 0) TCP_SYN_FLAG" "\<not> has_flag (example_segment 2 7 0) TCP_RST_FLAG"
  "\<not> has_flag (example_segment 2 7 0) TCP_ACK_FLAG"
proof -
  show "routes_head example_server"
    unfolding routes_head_def example_server_state
    by (intro conjI exI [of _ 512] exI [of _ 64] exI [of _ 1] exI [of _ 0] exI [of _ "[eth_entry 0x0608 0 H_arp]"]
        exI [of _ "[]"]) simp_all
  show "tcp_get_socket (ipv4_addr example_interface) (th_destination_port (example_segment 2 7 0)) example_server =
      Inr (Some 0)"
    using example_server_simps(7) by (simp add: example_segment_def)
  show "tcb_header_to_connection_id iph (example_segment 2 7 0) \<noteq> 0"
    using example_id_nonzero by (simp add: example_id_of)
qed (simp_all add: example_socket_def example_server_simps has_flag_def example_segment_def TCP_SYN_FLAG_def
    TCP_RST_FLAG_def TCP_ACK_FLAG_def)

lemma example_ack_fits:
  "th_source_port (example_segment 16 8 643) = th_source_port (example_segment 2 7 0)"
  "th_destination_port (example_segment 16 8 643) = th_destination_port (example_segment 2 7 0)"
  "th_sequence_num (example_segment 16 8 643) = htonl (ntohl (th_sequence_num (example_segment 2 7 0)) + 1)"
  "th_acknowledgement_num (example_segment 16 8 643) = htonl (of_int (seq_x example_server + 142) + 1)"
  "ntohl (th_sequence_num (example_segment 16 8 643)) = 8"
  "ntohl (th_acknowledgement_num (example_segment 16 8 643)) = 643"
  "unat (ntohl (th_sequence_num (example_segment 2 7 0)) + 1) = 8"
  by (simp_all add: example_segment_def example_server_simps)

theorem three_way_handshake_witness:
  "\<exists>s' reply tcb sk'. consume_tasks [(example_frame (example_segment 2 7 0), example_interface),
      (example_frame (example_segment 16 8 643), example_interface)] [H_ethernet] 6 0 example_server = Inr s' \<and>
    wire s' = [segment_frame \<lparr>ea_destination = [2, 0, 0, 0, 0, 9], ea_ethernet_type = htons ETHERNET_TYPE_IPV4\<rparr>
      \<lparr>ia_destination_ip = 0x0900000A, ia_protocol = 6\<rparr> example_interface reply] \<and>
    idle s' 0 0 tcb sk' \<and> tcb_state tcb = ESTABLISHED \<and> receive_next tcb = 8 \<and> send_next tcb = 643"
proof -
  let ?syn = "example_segment 2 7 0" and ?ack = "example_segment 16 8 643"
  obtain eh1 iph1 where f1: "tcp_frame (example_frame ?syn) example_interface eh1 iph1 ?syn"
    "eth_return eh1 = \<lparr>ea_destination = [2, 0, 0, 0, 0, 9], ea_ethernet_type = htons ETHERNET_TYPE_IPV4\<rparr>"
    "ip_return iph1 = \<lparr>ia_destination_ip = 0x0900000A, ia_protocol = 6\<rparr>"
    using example_frame_received by blast
  obtain eh2 iph2 where f2: "tcp_frame (example_frame ?ack) example_interface eh2 iph2 ?ack"
    "ih_total_length iph2 = htons 40" "ih_flags_1 iph2 = 0x45"
    using example_frame_received by blast
  note shake = three_way_handshake [OF f1(1) f2(1) example_syn_known(1,5) example_server_simps(6)
      example_syn_known(2-4,6-8) example_ack_fits(1,2) example_flags(2,3,4,1) example_payload [OF f2(2,3)]
      example_ack_fits(3,4), of 6 0]
  show ?thesis using shake unfolding f1(2,3) example_ack_fits(5-7) example_server_simps
    by (simp del: consume_tasks.simps) blast
qed

text \<open>The same run, with the connection as the SYN leaves it.\<close>

lemma example_handshake:
  "\<exists>s1 s' tcb1 tcb. worker_packet [H_ethernet] 6 0 (Some (example_frame (example_segment 2 7 0)))
      example_interface example_server = Inr s1 \<and>
    worker_packet [H_ethernet] 6 0 (Some (example_frame (example_segment 16 8 643))) example_interface s1 = Inr s' \<and>
    tcb_at s1 0 = Inr tcb1 \<and> tcb_state tcb1 = SYN_RECEIVED \<and>
    tcb_at s' 0 = Inr tcb \<and> tcb_state tcb = ESTABLISHED"
proof -
  let ?syn = "example_segment 2 7 0" and ?ack = "example_segment 16 8 643"
  obtain eh1 iph1 where f1: "tcp_frame (example_frame ?syn) example_interface eh1 iph1 ?syn"
    using example_frame_received by blast
  obtain eh2 iph2 where f2: "tcp_frame (example_frame ?ack) example_interface eh2 iph2 ?ack"
    "ih_total_length iph2 = htons 40" "ih_flags_1 iph2 = 0x45"
    using example_frame_received by blast
  note shake = handshake_run [OF f1 f2(1) example_syn_known(1,5) example_server_simps(6)
      example_syn_known(2-4,6-8) example_ack_fits(1,2) example_flags(2,3,4,1) example_payload [OF f2(2,3)]
      example_ack_fits(3,4), of 6 0]
  show ?thesis using shake unfolding example_ack_fits(5-7) example_server_simps
    by (simp add: idle_def connected_def del: worker_packet.simps) blast
qed

end
