(* ===== verification/Tcp_Reachable.thy ===== *)
theory Tcp_Reachable
  imports Tcp_Invariant Tcp_Connection
begin

text \<open>
  The stack under arbitrary use: every state that packets and the calls of programs can lead
  to, and what the invariant of \<open>Tcp_Invariant\<close> gives for the connections in it.
\<close>

section \<open>Everything that can happen\<close>

text \<open>
  One step: a packet for the worker, or a call of a program. The programs prepare the
  arguments of their connections themselves (\<open>client_args\<close>).
\<close>

inductive stack_step :: "'a stack_mem_scheme \<Rightarrow> 'a stack_mem_scheme \<Rightarrow> bool" where
  packet: "worker_packet hs n p (Some frame) ifc s = Inr s' \<Longrightarrow> stack_step s s'"
| socket_connect: "tcp_socket_connect (op_write n) H_tcp k args ip port s = Inr (c, s') \<Longrightarrow> stack_step s s'"
| socket_send: "tcp_socket_send (op_write n) k c payload s = Inr (ok, s') \<Longrightarrow> stack_step s s'"
| socket_create: "tcp_create_socket raw ifc nh port ip on_connect on_close s = (k, s') \<Longrightarrow> stack_step s s'"
| socket_add: "tcp_add_socket k s = Inr (ok, s') \<Longrightarrow> stack_step s s'"
| socket_delete: "tcp_delete_socket k s = Inr s' \<Longrightarrow> stack_step s s'"
| tcb_delete: "tcp_delete_transmission_control_block k c s = Inr s' \<Longrightarrow> stack_step s s'"
| response: "stack_step s (custom_set_response c buf len s)"
| prepare: "stack_step s (s\<lparr>client_args := f\<rparr>)"

text \<open>The stack starts with no control block, as \<^verbatim>\<open>net_stack_init\<close> leaves it.\<close>

inductive stack_reachable :: "'a stack_mem_scheme \<Rightarrow> bool" where
  start: "tcbs s = [] \<Longrightarrow> stack_reachable s"
| further: "stack_reachable s \<Longrightarrow> stack_step s s' \<Longrightarrow> stack_reachable s'"

lemma net_stack_init_start:
  assumes "tcbs s = []" and "net_stack_init i ks (static_tables s) = Inr s'"
  shows "stack_reachable s'"
proof (rule start)
  have "tcbs (static_tables s) = []" using assms(1) by (simp add: static_tables_def)
  with assms(2) show "tcbs s' = []" by (auto simp: net_stack_init_state arp_init_handler_def)
qed

lemma stack_step_evolves: "stack_step s s' \<Longrightarrow> evolves s s'"
proof (induction rule: stack_step.induct)
  case (socket_add k s ok s')
  then show ?case by (auto simp: tcp_add_socket_def evolves_same split: option.split_asm)
next
  case (socket_delete k s s')
  then show ?case by (auto simp: tcp_delete_socket_def intro: free_tcbs_evolves)
qed (auto simp: tcp_create_socket_def custom_set_response_def evolves_same
    intro: worker_packet_evolves layers.connect_evolves layers.send_evolves tcp_delete_evolves)

lemma stack_steps_evolve: "stack_step\<^sup>*\<^sup>* s s' \<Longrightarrow> evolves s s'"
  by (induction rule: rtranclp_induct) (auto intro: evolves_trans stack_step_evolves)

lemma reachable_ok: "stack_reachable s \<Longrightarrow> tcp_ok s"
proof (induction rule: stack_reachable.induct)
  case (start s)
  then show ?case by (simp add: tcp_ok_def tcb_at_def)
qed (blast dest: stack_step_evolves evolves_ok)

text \<open>C3: whatever packets arrive and whatever the programs call, every connection is in one of
  five states and the state function that will take its next segment is the one of that
  state, and its two block buffers are well formed and sorted by sequence number. None of
  FIN_WAIT_1, FIN_WAIT_2, CLOSING, LAST_ACK, TIME_WAIT and CLOSED is ever entered.\<close>

theorem connections_well_formed:
  assumes "stack_reachable s" and "tcb_at s t = Inr tcb"
  shows "tcb_state tcb \<in> {LISTEN, SYN_SENT, SYN_RECEIVED, ESTABLISHED, CLOSE_WAIT} \<and>
    state_function tcb = state_function_of (tcb_state tcb) \<and>
    bb_invar (tcb_in_buffer tcb) \<and> sorted (map fst (bb_list (tcb_in_buffer tcb))) \<and>
    bb_invar (tcb_out_buffer tcb) \<and> sorted (map fst (bb_list (tcb_out_buffer tcb)))"
  using tcp_ok_at [OF reachable_ok [OF assms(1)] assms(2)]
  by (simp add: tcb_ok_def buffer_ok_def open_states_def)

theorem connections_well_formed_witness:
  "\<exists>s tcb. worker_packet [H_ethernet] 6 0 (Some (example_frame (example_segment 2 7 0)))
      example_interface example_server = Inr s \<and> tcb_at s 0 = Inr tcb \<and> tcb_state tcb = SYN_RECEIVED \<and>
    state_function tcb = Tcp_others \<and> bb_invar (tcb_in_buffer tcb) \<and> bb_invar (tcb_out_buffer tcb)"
proof -
  obtain s tcb where syn: "worker_packet [H_ethernet] 6 0 (Some (example_frame (example_segment 2 7 0)))
      example_interface example_server = Inr s" and at: "tcb_at s 0 = Inr tcb" "tcb_state tcb = SYN_RECEIVED"
    using example_handshake by blast
  have "stack_reachable s" using further [OF start [OF example_server_simps(1)] packet [OF syn]] .
  from connections_well_formed [OF this at(1)] have "state_function tcb = Tcp_others"
    "bb_invar (tcb_in_buffer tcb)" "bb_invar (tcb_out_buffer tcb)"
    using at(2) by (simp_all add: state_function_of_def)
  with syn at show ?thesis by blast
qed

text \<open>C6: a connection only moves forward: after any number of packets and calls, a control block
  that is still there has the identifier it had, and its state is reached from the one it
  had along LISTEN to SYN_RECEIVED, SYN_SENT to SYN_RECEIVED or ESTABLISHED, SYN_RECEIVED to
  ESTABLISHED and ESTABLISHED to CLOSE_WAIT; a block that was freed does not come back.\<close>

theorem connections_only_advance:
  assumes "stack_reachable s" and "stack_step\<^sup>*\<^sup>* s s'" and "t < length (tcbs s)" and "tcb_at s' t = Inr tcb'"
  shows "\<exists>tcb. tcb_at s t = Inr tcb \<and> tcb_id tcb' = tcb_id tcb \<and>
    tcp_next\<^sup>*\<^sup>* (tcb_state tcb) (tcb_state tcb')"
  using stack_steps_evolve [OF assms(2)] reachable_ok [OF assms(1)] assms(3,4)
  by (simp add: evolves_def tcp_runs_to_def)

theorem connections_only_advance_witness:
  "\<exists>s s' tcb tcb'. worker_packet [H_ethernet] 6 0 (Some (example_frame (example_segment 2 7 0)))
      example_interface example_server = Inr s \<and>
    worker_packet [H_ethernet] 6 0 (Some (example_frame (example_segment 16 8 643))) example_interface s = Inr s' \<and>
    tcb_at s 0 = Inr tcb \<and> tcb_at s' 0 = Inr tcb' \<and> tcb_id tcb' = tcb_id tcb \<and>
    tcb_state tcb = SYN_RECEIVED \<and> tcb_state tcb' = ESTABLISHED \<and> tcp_next\<^sup>*\<^sup>* SYN_RECEIVED ESTABLISHED"
proof -
  obtain s s' tcb tcb' where syn: "worker_packet [H_ethernet] 6 0 (Some (example_frame (example_segment 2 7 0)))
      example_interface example_server = Inr s"
    and ack: "worker_packet [H_ethernet] 6 0 (Some (example_frame (example_segment 16 8 643))) example_interface s = Inr s'"
    and at: "tcb_at s 0 = Inr tcb" "tcb_state tcb = SYN_RECEIVED" "tcb_at s' 0 = Inr tcb'" "tcb_state tcb' = ESTABLISHED"
    using example_handshake by blast
  have "stack_reachable s" using further [OF start [OF example_server_simps(1)] packet [OF syn]] .
  from connections_only_advance [OF this r_into_rtranclp [where r = stack_step, OF packet [OF ack]] tcb_at_valid [OF at(1)] at(3)]
  have "tcb_id tcb' = tcb_id tcb" "tcp_next\<^sup>*\<^sup>* SYN_RECEIVED ESTABLISHED" using at by auto
  with syn ack at show ?thesis by blast
qed

end
