(* ===== verification/Tcp_Closing.thy ===== *)
theory Tcp_Closing
  imports Tcp_Connection
begin

text \<open>
  Data and the end of a connection: what an established connection does with a segment that
  carries payload, FIN or RST.
\<close>

text \<open>An example: a segment of the client with payload.\<close>

definition example_data_frame :: "tcp_header_t \<Rightarrow> u8 list \<Rightarrow> mem8" where
  "example_data_frame hdr bs = mem_of (
     eth_bytes \<lparr>ea_destination = [2, 0, 0, 0, 0, 1], ea_ethernet_type = htons ETHERNET_TYPE_IPV4\<rparr> example_client @
     ipv4_header_bytes (ipv4_fill_header example_client \<lparr>ia_destination_ip = 0x0200000A, ia_protocol = 6\<rparr>
       (htons (40 + of_nat (length bs)))) @
     tcp_header_bytes hdr @ bs)"

section \<open>The acknowledgement of an established connection\<close>

text \<open>What the acknowledgement of an accepted segment changes (lines 252 to 266).\<close>

definition tcb_acked :: "tcb_t \<Rightarrow> tcp_header_t \<Rightarrow> tcb_t" where
  "tcb_acked tcb hdr =
     (let ack = ntohl (th_acknowledgement_num hdr); seq = ntohl (th_sequence_num hdr);
          ackOk = ack \<le> send_next tcb \<and> send_unacknowledged tcb < ack;
          tcb = (if (ackOk \<or> ack = send_unacknowledged tcb) \<and>
                    (send_last_update_sequence_num tcb < seq \<or>
                     (send_last_update_sequence_num tcb = seq \<and> send_last_update_acknowledgement_num tcb \<le> ack))
                 then tcb\<lparr>send_window := ntohs (th_window hdr), send_last_update_sequence_num := seq\<rparr> else tcb)
      in if ackOk then tcb\<lparr>send_unacknowledged := ack\<rparr> else tcb)"

lemma tcb_acked_simps [simp]:
  "tcb_id (tcb_acked tcb hdr) = tcb_id tcb" "tcb_in_buffer (tcb_acked tcb hdr) = tcb_in_buffer tcb"
  "tcb_out_buffer (tcb_acked tcb hdr) = tcb_out_buffer tcb" "receive_next (tcb_acked tcb hdr) = receive_next tcb"
  "send_next (tcb_acked tcb hdr) = send_next tcb" "receive_window (tcb_acked tcb hdr) = receive_window tcb"
  "tcb_state (tcb_acked tcb hdr) = tcb_state tcb" "state_function (tcb_acked tcb hdr) = state_function tcb"
  "tcb_remote_port (tcb_acked tcb hdr) = tcb_remote_port tcb"
  by (simp_all add: tcb_acked_def Let_def)

lemma others_established:
  assumes arr: "arrived s p ips ta ia iph hdr k t tcb sk" and st: "tcb_state tcb = ESTABLISHED"
    and flags: "\<not> has_flag hdr TCP_RST_FLAG" "\<not> has_flag hdr TCP_SYN_FLAG" "has_flag hdr TCP_ACK_FLAG"
    and ack: "ntohl (th_acknowledgement_num hdr) \<le> send_next tcb"
  shows "tcp_others_in_window rd wr h (segment_of p ips ta ia) (Some k) t ifc s =
    sbind (if tcp_get_payload_length iph hdr \<noteq> 0
           then tcp_receive_payload rd wr h (Some k) t (segment_of p ips ta ia) ifc (put_tcb t (tcb_acked tcb hdr) s)
           else Inr (put_tcb t (tcb_acked tcb hdr) s))
      (tcp_others_fin wr h (segment_of p ips ta ia) (Some k) t ESTABLISHED ifc)"
proof -
  have at: "tcb_at s t = Inr tcb" and h: "load_tcp_header (in_frame ips) ta = hdr"
    and pl: "segment_payload_size (segment_of p ips ta ia) = tcp_get_payload_length iph hdr"
    using arr by (auto simp: arrived_def connected_def carries_def segment_payload_size_def)
  have "tcp_others_rst_syn wr h (segment_of p ips ta ia) (Some k) t ESTABLISHED ifc s = Inr (Fall, s)"
    using at h flags by (simp add: tcp_others_rst_syn_def)
  moreover have "tcp_others_ack wr h (segment_of p ips ta ia) (Some k) t ESTABLISHED ifc s =
      Inr (Fall, put_tcb t (tcb_acked tcb hdr) s)"
    using at h flags not_less [THEN iffD2, OF ack]
    by (simp add: tcp_others_ack_def tcp_others_ack_sync_def Let_def tcb_acked_def
        split del: if_split cong: if_cong)
  ultimately show ?thesis
    using at st pl by (simp add: tcp_others_in_window_def cong: if_cong)
qed

section \<open>FIN\<close>

text \<open>The control block after a FIN in the established state.\<close>

definition tcb_fin :: "tcb_t \<Rightarrow> tcp_header_t \<Rightarrow> tcb_t" where
  "tcb_fin tcb hdr = (tcb_acked tcb hdr)\<lparr>receive_next := ntohl (th_sequence_num hdr) + 1\<rparr>"

lemma others_fin:
  fixes s :: "'a stack_mem_scheme"
  defines "fl \<equiv> TCP_ACK_FLAG OR TCP_FIN_FLAG"
  assumes conn: "connected s k t tcb sk" and at: "in_at s p = Inr ips" and path: "reply_path ips e a ifc"
    and seg: "carries ips ta ia iph hdr" and fin: "has_flag hdr TCP_FIN_FLAG" and cb: "sk_on_close sk = Some c"
    and tcb2: "tcb2 = tcb\<lparr>receive_next := ntohl (th_sequence_num hdr) + 1\<rparr>"
  shows "\<exists>ob os ras. bb_invar ob \<and> bb_list ob = [] \<and>
    tcp_others_fin (op_write (Suc (Suc (Suc m)))) H_tcp (segment_of p ips ta ia) (Some k) t ESTABLISHED ifc s =
      Inr (Fall, put_tcb t ((tcb_sending tcb2 sk fl 0)\<lparr>tcb_out_buffer := ob, send_next := send_next tcb + 1,
          tcb_state := CLOSE_WAIT\<rparr>)
        (put_in p (ips\<lparr>return_args := ras\<rparr>) s
          \<lparr>out_stacks := os, wire := wire s @ [segment_frame e a ifc (tcp_final_header tcb2 sk fl 0)],
           callbacks := callbacks s @ [c]\<rparr>))"
proof -
  let ?sg = "segment_of p ips ta ia"
  have tcb: "tcb_at s t = Inr tcb" and t: "t < length (tcbs s)" and sk: "sock_at s k = Inr sk"
    using conn tcb_at_valid by (auto simp: connected_def)
  have h: "load_tcp_header (in_frame ips) ta = hdr" using seg by (simp add: carries_def)
  have conn2: "connected (put_tcb t tcb2 s) k t tcb2 sk"
    using conn by (intro connected_put_tcb [OF conn]) (simp_all add: tcb2 connected_def)
  have at2: "in_at (put_tcb t tcb2 s) p = Inr ips" using at by simp
  obtain ob os where ob: "bb_invar ob" "bb_list ob = []"
    and sent: "tcp_reply (op_write (Suc (Suc (Suc m)))) H_tcp ?sg (Some k) t fl ifc (put_tcb t tcb2 s) =
      Inr (put_tcb t ((tcb_sending tcb2 sk fl 0)\<lparr>tcb_out_buffer := ob\<rparr>)
        (put_in p (ips\<lparr>return_args := (return_args ips)[2 := Some (Tcp_args
            \<lparr>ta_connection_id = tcb_id tcb2, ta_socket = Some k, ta_flags = fl\<rparr>)]\<rparr>) (put_tcb t tcb2 s)
          \<lparr>out_stacks := os, wire := wire (put_tcb t tcb2 s) @ [segment_frame e a ifc (tcp_final_header tcb2 sk fl 0)]\<rparr>))"
    using tcp_reply_sends [OF conn2 at2 path, of ?sg m fl] by auto
  have "tcp_others_fin (op_write (Suc (Suc (Suc m)))) H_tcp ?sg (Some k) t ESTABLISHED ifc s =
      Inr (Fall, put_tcb t ((tcb_sending tcb2 sk fl 0)\<lparr>tcb_out_buffer := ob, send_next := send_next tcb + 1,
          tcb_state := CLOSE_WAIT\<rparr>)
        (put_in p (ips\<lparr>return_args := (return_args ips)[2 := Some (Tcp_args
            \<lparr>ta_connection_id = tcb_id tcb2, ta_socket = Some k, ta_flags = fl\<rparr>)]\<rparr>) s
          \<lparr>out_stacks := os, wire := wire s @ [segment_frame e a ifc (tcp_final_header tcb2 sk fl 0)],
           callbacks := callbacks s @ [c]\<rparr>))"
    unfolding tcp_others_fin_def
    using tcb h fin sent [unfolded tcb2 fl_def] t sk cb
    by (simp add: tcb2 fl_def socket_on_close_def run_callback_def Let_def del: op_write.simps)
      (simp add: put_tcb_def put_in_def)
  with ob show ?thesis by blast
qed

text \<open>The end of the loop body: the packet is removed and the connection idle again.\<close>

lemma after_fall:
  assumes arr: "arrived s0 p ips ta ia iph hdr k t tcb0 sk"
    and buf: "tcb_in_buffer tcb = tcb_in_buffer tcb0" "tcb_id tcb = tcb_id tcb0"
      "bb_invar (tcb_out_buffer tcb)" "bb_list (tcb_out_buffer tcb) = []"
    and same: "tcbs s = tcbs s0" "sockets s = sockets s0"
  shows "\<exists>bb. remove_head t (put_tcb t tcb s) = Inr (put_tcb t (tcb\<lparr>tcb_in_buffer := bb\<rparr>) s) \<and>
    idle (put_tcb t (tcb\<lparr>tcb_in_buffer := bb\<rparr>) s) k t (tcb\<lparr>tcb_in_buffer := bb\<rparr>) sk"
proof -
  have t: "t < length (tcbs s)" using arr same(1) tcb_at_valid by (auto simp: arrived_def connected_def)
  then have "tcb_at (put_tcb t tcb s) t = Inr tcb" by simp
  from remove_arrived [OF this arr buf(1)]
  obtain bb where bb: "bb_invar bb" "bb_list bb = []"
    "remove_head t (put_tcb t tcb s) = Inr (put_tcb t (tcb\<lparr>tcb_in_buffer := bb\<rparr>) s)" by auto
  moreover have "idle (put_tcb t (tcb\<lparr>tcb_in_buffer := bb\<rparr>) s) k t (tcb\<lparr>tcb_in_buffer := bb\<rparr>) sk"
    by (rule arrived_idle [OF arr]) (use buf bb same in \<open>simp_all add: put_tcb_def\<close>)
  ultimately show ?thesis by blast
qed

lemma received_in_at [simp]: "in_at (received p ips t tcb bb s) p = Inr (with_tcp ips)"
  by (simp add: received_def)

lemma received_tcbs: "t < length (tcbs s) \<Longrightarrow> tcb_at (received p ips t tcb bb s) t = Inr (tcb\<lparr>tcb_in_buffer := bb\<rparr>)"
  by (simp add: received_def)

text \<open>An accepted segment of an established connection, up to its payload and its FIN.\<close>

lemma tcp_read_established:
  assumes at: "in_at s p = Inr ips" and path: "reply_path ips e a ifc" and seg: "carries ips ta ia iph hdr"
    and ord: "in_order s iph hdr k t tcb sk" and st: "tcb_state tcb = ESTABLISHED"
    and flags: "\<not> has_flag hdr TCP_RST_FLAG" "\<not> has_flag hdr TCP_SYN_FLAG" "has_flag hdr TCP_ACK_FLAG"
    and ack: "ntohl (th_acknowledgement_num hdr) \<le> send_next tcb"
  shows "\<exists>bb. arrived (received p ips t tcb bb s) p (with_tcp ips) ta ia iph hdr k t (tcb\<lparr>tcb_in_buffer := bb\<rparr>) sk \<and>
    connected (received p ips t (tcb_acked tcb hdr) bb s) k t ((tcb_acked tcb hdr)\<lparr>tcb_in_buffer := bb\<rparr>) sk \<and>
    tcp_read rd wr H_tcp p ifc s =
      sbind (sbind (if tcp_get_payload_length iph hdr \<noteq> 0
          then tcp_receive_payload rd wr H_tcp (Some k) t (segment_of p (with_tcp ips) ta ia) ifc
            (received p ips t (tcb_acked tcb hdr) bb s)
          else Inr (received p ips t (tcb_acked tcb hdr) bb s))
        (tcp_others_fin wr H_tcp (segment_of p (with_tcp ips) ta ia) (Some k) t ESTABLISHED ifc))
       (\<lambda>(fl, s). case fl of Return \<Rightarrow> Inr (Some 0, s) | Continue \<Rightarrow> Inr (None, s)
          | Fall \<Rightarrow> sbind (remove_head t s) (\<lambda>s. Inr (None, s)))"
proof -
  obtain bb where arr: "arrived (received p ips t tcb bb s) p (with_tcp ips) ta ia iph hdr k t (tcb\<lparr>tcb_in_buffer := bb\<rparr>) sk"
    and read: "tcp_read rd wr H_tcp p ifc s =
      sbind (tcp_others_in_window rd wr H_tcp (segment_of p (with_tcp ips) ta ia) (Some k) t ifc (received p ips t tcb bb s))
       (\<lambda>(fl, s). case fl of Return \<Rightarrow> Inr (Some 0, s) | Continue \<Rightarrow> Inr (None, s)
          | Fall \<Rightarrow> sbind (remove_head t s) (\<lambda>s. Inr (None, s)))"
    using tcp_read_in_order [OF at path seg ord] by blast
  have acked: "tcb_acked (tcb\<lparr>tcb_in_buffer := bb\<rparr>) hdr = (tcb_acked tcb hdr)\<lparr>tcb_in_buffer := bb\<rparr>"
    by (simp add: tcb_acked_def Let_def)
  have eq: "put_tcb t ((tcb_acked tcb hdr)\<lparr>tcb_in_buffer := bb\<rparr>) (received p ips t tcb bb s) =
      received p ips t (tcb_acked tcb hdr) bb s"
    by (simp add: received_def)
  have conn: "connected (received p ips t tcb bb s) k t (tcb\<lparr>tcb_in_buffer := bb\<rparr>) sk"
    using arr by (simp add: arrived_def)
  have "connected (put_tcb t (tcb_acked (tcb\<lparr>tcb_in_buffer := bb\<rparr>) hdr) (received p ips t tcb bb s)) k t
      (tcb_acked (tcb\<lparr>tcb_in_buffer := bb\<rparr>) hdr) sk"
    by (rule connected_put_tcb [OF conn]) (use conn in \<open>simp_all add: connected_def\<close>)
  with arr read others_established [OF arr _ flags, of rd wr H_tcp ifc] st ack show ?thesis
    unfolding acked eq by (intro exI [of _ bb]) simp
qed

lemma worker_fin:
  fixes s :: "'a stack_mem_scheme"
  assumes frame: "tcp_frame frame ifc eh iph hdr" and route: "routes_tcp s m m'"
    and ord: "in_order s iph hdr k t tcb sk" and st: "tcb_state tcb = ESTABLISHED"
    and flags: "\<not> has_flag hdr TCP_RST_FLAG" "\<not> has_flag hdr TCP_SYN_FLAG" "has_flag hdr TCP_ACK_FLAG"
      "has_flag hdr TCP_FIN_FLAG"
    and ack: "ntohl (th_acknowledgement_num hdr) \<le> send_next tcb"
    and pl: "tcp_get_payload_length iph hdr = 0" and cb: "sk_on_close sk = Some c" and n: "6 \<le> n"
  shows "\<exists>s' reply tcb'. worker_packet [H_ethernet] n p (Some frame) ifc s = Inr s' \<and>
    wire s' = wire s @ [segment_frame (eth_return eh) (ip_return iph) ifc reply] \<and>
    th_control_bits reply = TCP_ACK_FLAG OR TCP_FIN_FLAG \<and> th_sequence_num reply = htonl (send_next tcb) \<and>
    th_acknowledgement_num reply = htonl (ntohl (th_sequence_num hdr) + 1) \<and>
    th_destination_port reply = tcb_remote_port tcb \<and> th_source_port reply = sk_port sk \<and>
    callbacks s' = callbacks s @ [c] \<and> idle s' k t tcb' sk \<and> tcb_state tcb' = CLOSE_WAIT \<and>
    send_next tcb' = send_next tcb + 1 \<and> receive_next tcb' = ntohl (th_sequence_num hdr) + 1"
proof -
  obtain j where j: "n = Suc (Suc (Suc (Suc (Suc (Suc j)))))"
    using n by (auto simp: numeral_eq_Suc Suc_le_eq less_iff_Suc_add)
  let ?wr = "op_write (Suc (Suc (Suc j)))" and ?rd = "op_read (Suc (Suc (Suc j)))"
  let ?s = "routed p frame eh iph m m' s" and ?ips = "above_ip frame eh iph" and ?fl = "TCP_ACK_FLAG OR TCP_FIN_FLAG"
  note path = above_ip_path [OF frame]
  have path': "reply_path (with_tcp ?ips) (eth_return eh) (ip_return iph) ifc" "carries (with_tcp ?ips) 34 14 iph hdr"
    using path by simp_all
  have ord': "in_order ?s iph hdr k t tcb sk" using ord by simp
  obtain b0 where arr: "arrived (received p ?ips t tcb b0 ?s) p (with_tcp ?ips) 34 14 iph hdr k t (tcb\<lparr>tcb_in_buffer := b0\<rparr>) sk"
    and conn: "connected (received p ?ips t (tcb_acked tcb hdr) b0 ?s) k t ((tcb_acked tcb hdr)\<lparr>tcb_in_buffer := b0\<rparr>) sk"
    and read: "tcp_read ?rd ?wr H_tcp p ifc ?s =
      sbind (tcp_others_fin ?wr H_tcp (segment_of p (with_tcp ?ips) 34 14) (Some k) t ESTABLISHED ifc
          (received p ?ips t (tcb_acked tcb hdr) b0 ?s))
       (\<lambda>(fl, s). case fl of Return \<Rightarrow> Inr (Some 0, s) | Continue \<Rightarrow> Inr (None, s)
          | Fall \<Rightarrow> sbind (remove_head t s) (\<lambda>s. Inr (None, s)))"
    using tcp_read_established [OF in_at_routed path ord' st flags(1-3) ack, of ?rd ?wr] pl by auto
  let ?r = "received p ?ips t (tcb_acked tcb hdr) b0 ?s" and ?tcb = "(tcb_acked tcb hdr)\<lparr>tcb_in_buffer := b0\<rparr>"
  define tcb2 where "tcb2 = ?tcb\<lparr>receive_next := ntohl (th_sequence_num hdr) + 1\<rparr>"
  let ?h = "tcp_final_header tcb2 sk ?fl 0"
  obtain ob os ras where ob: "bb_invar ob" "bb_list ob = []"
    and fin: "tcp_others_fin ?wr H_tcp (segment_of p (with_tcp ?ips) 34 14) (Some k) t ESTABLISHED ifc ?r =
      Inr (Fall, put_tcb t ((tcb_sending tcb2 sk ?fl 0)\<lparr>tcb_out_buffer := ob, send_next := send_next ?tcb + 1,
          tcb_state := CLOSE_WAIT\<rparr>)
        (put_in p (with_tcp ?ips\<lparr>return_args := ras\<rparr>) ?r
          \<lparr>out_stacks := os, wire := wire ?r @ [segment_frame (eth_return eh) (ip_return iph) ifc ?h],
           callbacks := callbacks ?r @ [c]\<rparr>))"
    using others_fin [OF conn received_in_at path' flags(4) cb tcb2_def, of j] by blast
  let ?tcb3 = "(tcb_sending tcb2 sk ?fl 0)\<lparr>tcb_out_buffer := ob, send_next := send_next ?tcb + 1, tcb_state := CLOSE_WAIT\<rparr>"
  let ?s3 = "put_in p (with_tcp ?ips\<lparr>return_args := ras\<rparr>) (received p ?ips t tcb b0 ?s)
          \<lparr>out_stacks := os, wire := wire ?r @ [segment_frame (eth_return eh) (ip_return iph) ifc ?h],
           callbacks := callbacks ?r @ [c]\<rparr>"
  obtain bb where "remove_head t (put_tcb t ?tcb3 ?s3) = Inr (put_tcb t (?tcb3\<lparr>tcb_in_buffer := bb\<rparr>) ?s3)"
    and idle: "idle (put_tcb t (?tcb3\<lparr>tcb_in_buffer := bb\<rparr>) ?s3) k t (?tcb3\<lparr>tcb_in_buffer := bb\<rparr>) sk"
    using after_fall [OF arr, of ?tcb3 ?s3] ob by (auto simp: tcb2_def)
  with read fin have "tcp_read ?rd ?wr H_tcp p ifc ?s = Inr (None, put_tcb t (?tcb3\<lparr>tcb_in_buffer := bb\<rparr>) ?s3)"
    by (simp add: received_def put_tcb_def put_in_def)
  from worker_in_order [OF frame route this] idle j show ?thesis
    by (intro exI [of _ "put_tcb t (?tcb3\<lparr>tcb_in_buffer := bb\<rparr>) ?s3\<lparr>in_stacks := (in_stacks (put_tcb t (?tcb3\<lparr>tcb_in_buffer := bb\<rparr>) ?s3))(p := None)\<rparr>"]
        exI [of _ ?h] exI [of _ "?tcb3\<lparr>tcb_in_buffer := bb\<rparr>"])
      (simp add: tcb2_def put_tcb_def del: worker_packet.simps)
qed

text \<open>C13: a FIN that arrives in order on an established connection, without payload, is answered
  with exactly one segment that acknowledges it and carries this host's own FIN; the
  program's close callback runs once and the connection goes to \<open>CLOSE_WAIT\<close>.\<close>

theorem fin_answered_with_fin:
  fixes s :: "'a stack_mem_scheme"
  assumes "tcp_frame frame ifc eh iph hdr" and "routes_tcp s m m'"
    and "in_order s iph hdr k t tcb sk" and "tcb_state tcb = ESTABLISHED"
    and "\<not> has_flag hdr TCP_RST_FLAG" and "\<not> has_flag hdr TCP_SYN_FLAG" and "has_flag hdr TCP_ACK_FLAG"
    and "has_flag hdr TCP_FIN_FLAG" and "ntohl (th_acknowledgement_num hdr) \<le> send_next tcb"
    and "tcp_get_payload_length iph hdr = 0" and "sk_on_close sk = Some c" and "6 \<le> n"
  shows "\<exists>s' reply tcb'. worker_packet [H_ethernet] n p (Some frame) ifc s = Inr s' \<and>
    wire s' = wire s @ [segment_frame (eth_return eh) (ip_return iph) ifc reply] \<and>
    th_control_bits reply = TCP_ACK_FLAG OR TCP_FIN_FLAG \<and> th_sequence_num reply = htonl (send_next tcb) \<and>
    th_acknowledgement_num reply = htonl (ntohl (th_sequence_num hdr) + 1) \<and>
    th_destination_port reply = tcb_remote_port tcb \<and> th_source_port reply = sk_port sk \<and>
    callbacks s' = callbacks s @ [c] \<and> idle s' k t tcb' sk \<and> tcb_state tcb' = CLOSE_WAIT \<and>
    send_next tcb' = send_next tcb + 1 \<and> receive_next tcb' = ntohl (th_sequence_num hdr) + 1"
  using worker_fin [OF assms] .

theorem fin_answered_with_fin_witness:
  "\<exists>s' reply tcb'. worker_packet [H_ethernet] 6 0 (Some (example_frame (example_segment 17 8 643))) example_interface
      (example_open ESTABLISHED) = Inr s' \<and>
    wire s' = [segment_frame \<lparr>ea_destination = [2, 0, 0, 0, 0, 9], ea_ethernet_type = htons ETHERNET_TYPE_IPV4\<rparr>
      \<lparr>ia_destination_ip = 0x0900000A, ia_protocol = 6\<rparr> example_interface reply] \<and>
    th_sequence_num reply = htonl 643 \<and> th_acknowledgement_num reply = htonl 9 \<and>
    callbacks s' = [2] \<and> idle s' 0 0 tcb' example_open_socket \<and> tcb_state tcb' = CLOSE_WAIT"
proof -
  let ?hdr = "example_segment 17 8 643" and ?s = "example_open ESTABLISHED" and ?tcb = "example_conn ESTABLISHED"
  obtain m m' where route: "routes_tcp ?s m m'" using example_open_routes by blast
  obtain eh iph where frame: "tcp_frame (example_frame ?hdr) example_interface eh iph ?hdr"
    "ih_total_length iph = htons 40" "ih_flags_1 iph = 0x45"
    "eth_return eh = \<lparr>ea_destination = [2, 0, 0, 0, 0, 9], ea_ethernet_type = htons ETHERNET_TYPE_IPV4\<rparr>"
    "ip_return iph = \<lparr>ia_destination_ip = 0x0900000A, ia_protocol = 6\<rparr>"
    using example_frame_received by blast
  have ord: "in_order ?s iph ?hdr 0 0 ?tcb example_open_socket"
    using example_open_in_order [OF frame(1) _ frame(2,3)] by simp
  have flags: "\<not> has_flag ?hdr TCP_RST_FLAG" "\<not> has_flag ?hdr TCP_SYN_FLAG" "has_flag ?hdr TCP_ACK_FLAG"
    "has_flag ?hdr TCP_FIN_FLAG"
    by (simp_all add: has_flag_def example_segment_def TCP_SYN_FLAG_def TCP_RST_FLAG_def TCP_ACK_FLAG_def TCP_FIN_FLAG_def)
  have num: "tcb_state ?tcb = ESTABLISHED" "ntohl (th_acknowledgement_num ?hdr) \<le> send_next ?tcb"
    "send_next ?tcb = 643" "ntohl (th_sequence_num ?hdr) = 8" "sk_on_close example_open_socket = Some 2"
    by (simp_all add: example_conn_def example_segment_def example_open_socket_def example_socket_def)
  note fin = fin_answered_with_fin [OF frame(1) route ord num(1) flags num(2) example_payload [OF frame(2,3)] num(5),
      of 6 0]
  show ?thesis
    using fin unfolding frame(4,5) num(3,4) example_open_wire by (simp del: worker_packet.simps) blast
qed

section \<open>RST\<close>

text \<open>C17: an in-window RST does not end a connection: the comparisons written for assignments leave
  the state as it is, nothing is sent, the socket still finds the connection, and the
  segment stays queued in it although its packet stack is dead when the worker goes on.\<close>

theorem rst_leaves_connection_open:
  fixes s :: "'a stack_mem_scheme"
  assumes "tcp_frame frame ifc eh iph hdr" and "routes_tcp s m m'"
    and "in_order s iph hdr k t tcb sk" and "has_flag hdr TCP_RST_FLAG" and "\<not> active_mode tcb" and "3 \<le> n"
  shows "\<exists>s' tcb'. worker_packet [H_ethernet] n p (Some frame) ifc s = Inr s' \<and>
    wire s' = wire s \<and> callbacks s' = callbacks s \<and>
    tcp_get_transmission_control_block k (tcb_id tcb) s' = Inr (Some t) \<and>
    tcb_at s' t = Inr tcb' \<and> tcb_state tcb' = tcb_state tcb \<and> receive_next tcb' = receive_next tcb \<and>
    bb_list (tcb_in_buffer tcb') = [(receive_next tcb, ucast (tcp_get_payload_length iph hdr), Some p)] \<and>
    in_at s' p = Inl Dangling"
proof -
  obtain j where j: "n = Suc (Suc (Suc j))" using assms(6) by (auto simp: numeral_eq_Suc Suc_le_eq less_iff_Suc_add)
  let ?s = "routed p frame eh iph m m' s" and ?ips = "above_ip frame eh iph"
  have ord: "in_order ?s iph hdr k t tcb sk" using assms(3) by simp
  obtain bb where arr: "arrived (received p ?ips t tcb bb ?s) p (with_tcp ?ips) 34 14 iph hdr k t (tcb\<lparr>tcb_in_buffer := bb\<rparr>) sk"
    and read: "tcp_read (op_read j) (op_write j) H_tcp p ifc ?s =
      sbind (tcp_others_in_window (op_read j) (op_write j) H_tcp (segment_of p (with_tcp ?ips) 34 14) (Some k) t ifc
          (received p ?ips t tcb bb ?s))
       (\<lambda>(fl, s). case fl of Return \<Rightarrow> Inr (Some 0, s) | Continue \<Rightarrow> Inr (None, s)
          | Fall \<Rightarrow> sbind (remove_head t s) (\<lambda>s. Inr (None, s)))"
    using tcp_read_in_order [OF in_at_routed above_ip_path [OF assms(1)] ord] by blast
  let ?r = "received p ?ips t tcb bb ?s" and ?tcb = "tcb\<lparr>tcb_in_buffer := bb\<rparr>"
  have at: "tcb_at ?r t = Inr ?tcb" "load_tcp_header (in_frame ?ips) 34 = hdr"
    using arr by (simp_all add: arrived_def connected_def carries_def)
  with read assms(4,5) have "tcp_read (op_read j) (op_write j) H_tcp p ifc ?s = Inr (Some 0, ?r)"
    by (simp add: tcp_others_in_window_def tcp_others_rst_syn_def)
  note ran = worker_in_order [OF assms(1,2) this]
  let ?s' = "?r\<lparr>in_stacks := (in_stacks ?r)(p := None)\<rparr>"
  have "connected ?s' k t ?tcb sk" using arr by (simp add: arrived_def)
  then have "tcb_at ?s' t = Inr ?tcb" "tcp_get_transmission_control_block k (tcb_id tcb) ?s' = Inr (Some t)"
    by (simp_all add: connected_def)
  moreover have "in_at ?s' p = Inl Dangling" by (simp add: in_at_def)
  moreover have "receive_next tcb = ntohl (th_sequence_num hdr)" using ord by (simp add: in_order_def)
  ultimately show ?thesis
    using ran arr j
    by (intro exI [of _ ?s'] exI [of _ ?tcb]) (simp add: arrived_def del: worker_packet.simps)
qed

theorem rst_leaves_connection_open_witness:
  "\<exists>s' tcb'. worker_packet [H_ethernet] 3 0 (Some (example_frame (example_segment 4 8 0))) example_interface
      (example_open ESTABLISHED) = Inr s' \<and> wire s' = [] \<and>
    tcb_at s' 0 = Inr tcb' \<and> tcb_state tcb' = ESTABLISHED \<and> bb_list (tcb_in_buffer tcb') = [(8, 0, Some 0)]"
proof -
  let ?hdr = "example_segment 4 8 0" and ?s = "example_open ESTABLISHED" and ?tcb = "example_conn ESTABLISHED"
  obtain m m' where route: "routes_tcp ?s m m'" using example_open_routes by blast
  obtain eh iph where frame: "tcp_frame (example_frame ?hdr) example_interface eh iph ?hdr"
    "ih_total_length iph = htons 40" "ih_flags_1 iph = 0x45"
    using example_frame_received by blast
  have ord: "in_order ?s iph ?hdr 0 0 ?tcb example_open_socket"
    using example_open_in_order [OF frame(1) _ frame(2,3)] by simp
  have rst: "has_flag ?hdr TCP_RST_FLAG" "\<not> active_mode ?tcb" "tcb_state ?tcb = ESTABLISHED" "receive_next ?tcb = 8"
    by (simp_all add: has_flag_def example_segment_def TCP_RST_FLAG_def example_conn_def example_tcb_def)
  note rst_leaves_connection_open [OF frame(1) route ord rst(1,2), of 3 0]
  then show ?thesis
    unfolding example_open_wire rst(3,4) example_payload [OF frame(2,3)] by (simp del: worker_packet.simps) blast
qed

section \<open>Payload\<close>

text \<open>The packet stack as the handler above TCP finds it.\<close>

definition above_tcp :: "in_packet_stack_t \<Rightarrow> nat \<Rightarrow> nat \<Rightarrow> u32 \<Rightarrow> in_packet_stack_t" where
  "above_tcp ips ta k cid =
     ips\<lparr>return_args := (return_args ips)[2 := Some (Tcp_args
           \<lparr>ta_connection_id = cid, ta_socket = Some k, ta_flags = TCP_ACK_FLAG\<rparr>)],
         in_stack_idx := 3,
         packet_pointers := (packet_pointers ips)[3 := Some (tcp_get_payload (in_frame ips) ta)]\<rparr>"

definition tcb_taking :: "tcb_t \<Rightarrow> u16 \<Rightarrow> tcb_t" where
  "tcb_taking tcb n = tcb\<lparr>receive_next := receive_next tcb + ucast n, receive_window := receive_window tcb - n\<rparr>"

lemma tcb_taking_simps [simp]:
  "tcb_id (tcb_taking tcb n) = tcb_id tcb" "tcb_out_buffer (tcb_taking tcb n) = tcb_out_buffer tcb"
  "tcb_in_buffer (tcb_taking tcb n) = tcb_in_buffer tcb" "send_next (tcb_taking tcb n) = send_next tcb"
  "receive_next (tcb_taking tcb n) = receive_next tcb + ucast n"
  "receive_window (tcb_taking tcb n) = receive_window tcb - n" "tcb_state (tcb_taking tcb n) = tcb_state tcb"
  "tcb_remote_port (tcb_taking tcb n) = tcb_remote_port tcb"
  by (simp_all add: tcb_taking_def)

lemma put_in_out_stacks [simp]: "put_in p ps (out_stacks_update g s) = out_stacks_update g (put_in p ps s)"
  by (simp add: put_in_def)

lemma receive_payload_acks:
  fixes s :: "'a stack_mem_scheme"
  assumes conn: "connected s k t tcb sk" and at: "in_at s p = Inr ips" and path: "reply_path ips e a ifc"
    and seg: "carries ips ta ia iph hdr" and tcb2: "tcb2 = tcb_taking tcb (tcp_get_payload_length iph hdr)"
  shows "\<exists>ob os. bb_invar ob \<and> bb_list ob = [] \<and>
    tcp_receive_payload rd (op_write (Suc (Suc (Suc m)))) H_tcp (Some k) t (segment_of p ips ta ia) ifc s =
      (let s1 = put_tcb t ((tcb_sending tcb2 sk TCP_ACK_FLAG 0)\<lparr>tcb_out_buffer := ob\<rparr>)
         (put_in p (above_tcp ips ta k (tcb_id tcb)) s
          \<lparr>out_stacks := os, wire := wire s @ [segment_frame e a ifc (tcp_final_header tcb2 sk TCP_ACK_FLAG 0)]\<rparr>)
       in case sk_next_handler sk of None \<Rightarrow> Inr s1 | Some h \<Rightarrow> sbind (rd h p ifc s1) (\<lambda>(_, s). Inr s))"
proof -
  let ?sg = "segment_of p ips ta ia" and ?n = "tcp_get_payload_length iph hdr"
  have tcb: "tcb_at s t = Inr tcb" and t: "t < length (tcbs s)" and sk: "sock_at s k = Inr sk"
    using conn tcb_at_valid by (auto simp: connected_def)
  have h: "load_tcp_header (in_frame ips) ta = hdr" "segment_payload_size ?sg = ?n"
    using seg by (auto simp: carries_def segment_payload_size_def)
  have conn2: "connected (put_tcb t tcb2 s) k t tcb2 sk"
    using conn by (intro connected_put_tcb [OF conn]) (simp_all add: tcb2 connected_def)
  have at2: "in_at (put_tcb t tcb2 s) p = Inr ips" using at by simp
  obtain ob os where ob: "bb_invar ob" "bb_list ob = []"
    and sent: "tcp_reply (op_write (Suc (Suc (Suc m)))) H_tcp ?sg (Some k) t TCP_ACK_FLAG ifc (put_tcb t tcb2 s) =
      Inr (put_tcb t ((tcb_sending tcb2 sk TCP_ACK_FLAG 0)\<lparr>tcb_out_buffer := ob\<rparr>)
        (put_in p (ips\<lparr>return_args := (return_args ips)[2 := Some (Tcp_args
            \<lparr>ta_connection_id = tcb_id tcb2, ta_socket = Some k, ta_flags = TCP_ACK_FLAG\<rparr>)]\<rparr>) (put_tcb t tcb2 s)
          \<lparr>out_stacks := os, wire := wire (put_tcb t tcb2 s) @ [segment_frame e a ifc (tcp_final_header tcb2 sk TCP_ACK_FLAG 0)]\<rparr>))"
    using tcp_reply_sends [OF conn2 at2 path, of ?sg m TCP_ACK_FLAG] by auto
  have sgp: "sg_frame ?sg = in_frame ips" "sg_header_at ?sg = ta" by (simp_all add: segment_of_def)
  have "tcp_receive_payload rd (op_write (Suc (Suc (Suc m)))) H_tcp (Some k) t ?sg ifc s =
      (let s1 = put_tcb t ((tcb_sending tcb2 sk TCP_ACK_FLAG 0)\<lparr>tcb_out_buffer := ob\<rparr>)
         (put_in p (above_tcp ips ta k (tcb_id tcb)) s
          \<lparr>out_stacks := os, wire := wire s @ [segment_frame e a ifc (tcp_final_header tcb2 sk TCP_ACK_FLAG 0)]\<rparr>)
       in case sk_next_handler sk of None \<Rightarrow> Inr s1 | Some h \<Rightarrow> sbind (rd h p ifc s1) (\<lambda>(_, s). Inr s))"
    unfolding tcp_receive_payload_def
    using tcb h sent t sk path
    by (cases "sk_next_handler sk")
      (simp_all add: sgp tcb2 tcb_taking_def [symmetric] reply_path_def above_tcp_def Let_def del: op_write.simps)
  with ob show ?thesis by blast
qed

text \<open>The whole reading of such a segment: acknowledgement, delivery, removal.\<close>

lemma tcp_read_payload:
  fixes s :: "'a stack_mem_scheme"
  assumes "in_at s p = Inr ips" and "reply_path ips e a ifc" and "carries ips ta ia iph hdr"
    and "in_order s iph hdr k t tcb sk" and "tcb_state tcb = ESTABLISHED"
    and "\<not> has_flag hdr TCP_RST_FLAG" and "\<not> has_flag hdr TCP_SYN_FLAG" and "has_flag hdr TCP_ACK_FLAG"
    and "\<not> has_flag hdr TCP_FIN_FLAG" and "ntohl (th_acknowledgement_num hdr) \<le> send_next tcb"
    and "tcp_get_payload_length iph hdr = n" and "n \<noteq> 0"
  shows "\<exists>bb ob os tcb2 s1.
    arrived (received p ips t tcb bb s) p (with_tcp ips) ta ia iph hdr k t (tcb\<lparr>tcb_in_buffer := bb\<rparr>) sk \<and>
    bb_invar ob \<and> bb_list ob = [] \<and> tcb2 = tcb_taking ((tcb_acked tcb hdr)\<lparr>tcb_in_buffer := bb\<rparr>) n \<and>
    s1 = put_tcb t ((tcb_sending tcb2 sk TCP_ACK_FLAG 0)\<lparr>tcb_out_buffer := ob\<rparr>)
      (put_in p (above_tcp (with_tcp ips) ta k (tcb_id tcb)) s
        \<lparr>out_stacks := os, wire := wire s @ [segment_frame e a ifc (tcp_final_header tcb2 sk TCP_ACK_FLAG 0)]\<rparr>) \<and>
    tcp_read rd (op_write (Suc (Suc (Suc m)))) H_tcp p ifc s =
      sbind (case sk_next_handler sk of None \<Rightarrow> Inr s1 | Some h \<Rightarrow> sbind (rd h p ifc s1) (\<lambda>(_, s). Inr s))
        (\<lambda>s2. sbind (remove_head t s2) (\<lambda>s. Inr (None, s)))"
proof -
  let ?wr = "op_write (Suc (Suc (Suc m)))" and ?sg = "segment_of p (with_tcp ips) ta ia"
  have path: "reply_path (with_tcp ips) e a ifc" "carries (with_tcp ips) ta ia iph hdr" using assms(2,3) by simp_all
  obtain bb where arr: "arrived (received p ips t tcb bb s) p (with_tcp ips) ta ia iph hdr k t (tcb\<lparr>tcb_in_buffer := bb\<rparr>) sk"
    and conn: "connected (received p ips t (tcb_acked tcb hdr) bb s) k t ((tcb_acked tcb hdr)\<lparr>tcb_in_buffer := bb\<rparr>) sk"
    and read: "tcp_read rd ?wr H_tcp p ifc s =
      sbind (sbind (tcp_receive_payload rd ?wr H_tcp (Some k) t ?sg ifc (received p ips t (tcb_acked tcb hdr) bb s))
        (tcp_others_fin ?wr H_tcp ?sg (Some k) t ESTABLISHED ifc))
       (\<lambda>(fl, s). case fl of Return \<Rightarrow> Inr (Some 0, s) | Continue \<Rightarrow> Inr (None, s)
          | Fall \<Rightarrow> sbind (remove_head t s) (\<lambda>s. Inr (None, s)))"
    using tcp_read_established [OF assms(1-8,10), of rd ?wr] assms(11,12) by auto
  let ?r = "received p ips t (tcb_acked tcb hdr) bb s" and ?tcb = "(tcb_acked tcb hdr)\<lparr>tcb_in_buffer := bb\<rparr>"
  have fin: "tcp_others_fin ?wr H_tcp ?sg (Some k) t ESTABLISHED ifc = (\<lambda>s. Inr (Fall, s))"
    using assms(9) path(2) by (simp add: fun_eq_iff tcp_others_fin_def carries_def)
  define tcb2 where "tcb2 = tcb_taking ?tcb n"
  let ?w = "wire s @ [segment_frame e a ifc (tcp_final_header tcb2 sk TCP_ACK_FLAG 0)]"
  obtain ob os where ob: "bb_invar ob" "bb_list ob = []"
    and rec: "tcp_receive_payload rd ?wr H_tcp (Some k) t ?sg ifc ?r =
      (let s1 = put_tcb t ((tcb_sending tcb2 sk TCP_ACK_FLAG 0)\<lparr>tcb_out_buffer := ob\<rparr>)
         (put_in p (above_tcp (with_tcp ips) ta k (tcb_id ?tcb)) ?r
          \<lparr>out_stacks := os, wire := wire ?r @ [segment_frame e a ifc (tcp_final_header tcb2 sk TCP_ACK_FLAG 0)]\<rparr>)
       in case sk_next_handler sk of None \<Rightarrow> Inr s1 | Some h \<Rightarrow> sbind (rd h p ifc s1) (\<lambda>(_, s). Inr s))"
    using receive_payload_acks [OF conn received_in_at path, of tcb2 rd m] assms(11) tcb2_def by blast
  define s1 where "s1 = put_tcb t ((tcb_sending tcb2 sk TCP_ACK_FLAG 0)\<lparr>tcb_out_buffer := ob\<rparr>)
      (put_in p (above_tcp (with_tcp ips) ta k (tcb_id tcb)) s\<lparr>out_stacks := os, wire := ?w\<rparr>)"
  have "put_tcb t ((tcb_sending tcb2 sk TCP_ACK_FLAG 0)\<lparr>tcb_out_buffer := ob\<rparr>)
      (put_in p (above_tcp (with_tcp ips) ta k (tcb_id ?tcb)) ?r\<lparr>out_stacks := os, wire := ?w\<rparr>) = s1"
    by (simp add: s1_def received_def)
  then have "tcp_receive_payload rd ?wr H_tcp (Some k) t ?sg ifc ?r =
      (case sk_next_handler sk of None \<Rightarrow> Inr s1 | Some h \<Rightarrow> sbind (rd h p ifc s1) (\<lambda>(_, s). Inr s))"
    using rec by (simp only: Let_def received_wire)
  with read have "tcp_read rd ?wr H_tcp p ifc s =
      sbind (case sk_next_handler sk of None \<Rightarrow> Inr s1 | Some h \<Rightarrow> sbind (rd h p ifc s1) (\<lambda>(_, s). Inr s))
        (\<lambda>s2. sbind (remove_head t s2) (\<lambda>s. Inr (None, s)))"
    by (simp add: fin sbind_assoc del: op_write.simps)
  with arr ob tcb2_def s1_def show ?thesis by blast
qed

text \<open>C8: an in-order segment with payload on an established connection is acknowledged before it is
  passed on: exactly one segment goes out that acknowledges the payload and announces the
  window that is left, and then the handler above, if there is one, is called with the
  packet stack one layer up, its pointer at the payload and the arguments for an answer on
  this connection; whatever that handler does, the packet is removed afterwards.\<close>

theorem payload_acknowledged_then_delivered:
  fixes s :: "'a stack_mem_scheme"
  assumes "in_at s p = Inr ips" and "reply_path ips e a ifc" and "carries ips ta ia iph hdr"
    and "in_order s iph hdr k t tcb sk" and "tcb_state tcb = ESTABLISHED"
    and "\<not> has_flag hdr TCP_RST_FLAG" and "\<not> has_flag hdr TCP_SYN_FLAG" and "has_flag hdr TCP_ACK_FLAG"
    and "\<not> has_flag hdr TCP_FIN_FLAG" and "ntohl (th_acknowledgement_num hdr) \<le> send_next tcb"
    and "tcp_get_payload_length iph hdr = n" and "n \<noteq> 0"
  shows "\<exists>s1 reply tcb1.
    tcp_read rd (op_write (Suc (Suc (Suc m)))) H_tcp p ifc s =
      sbind (case sk_next_handler sk of None \<Rightarrow> Inr s1 | Some h \<Rightarrow> sbind (rd h p ifc s1) (\<lambda>(_, s). Inr s))
        (\<lambda>s2. sbind (remove_head t s2) (\<lambda>s. Inr (None, s))) \<and>
    wire s1 = wire s @ [segment_frame e a ifc reply] \<and> th_control_bits reply = TCP_ACK_FLAG \<and>
    th_acknowledgement_num reply = htonl (receive_next tcb + ucast n) \<and>
    th_window reply = htons (receive_window tcb - n) \<and>
    in_at s1 p = Inr (above_tcp (with_tcp ips) ta k (tcb_id tcb)) \<and>
    tcb_at s1 t = Inr tcb1 \<and> tcb_state tcb1 = ESTABLISHED \<and>
    receive_next tcb1 = receive_next tcb + ucast n \<and> receive_window tcb1 = receive_window tcb - n"
proof -
  have "t < length (tcbs s)" using assms(4) tcb_at_valid by (auto simp: in_order_def idle_def connected_def)
  moreover from tcp_read_payload [OF assms, of rd m] obtain bb ob os tcb2 s1 where
    "tcb2 = tcb_taking ((tcb_acked tcb hdr)\<lparr>tcb_in_buffer := bb\<rparr>) n"
    "s1 = put_tcb t ((tcb_sending tcb2 sk TCP_ACK_FLAG 0)\<lparr>tcb_out_buffer := ob\<rparr>)
      (put_in p (above_tcp (with_tcp ips) ta k (tcb_id tcb)) s
        \<lparr>out_stacks := os, wire := wire s @ [segment_frame e a ifc (tcp_final_header tcb2 sk TCP_ACK_FLAG 0)]\<rparr>)"
    "tcp_read rd (op_write (Suc (Suc (Suc m)))) H_tcp p ifc s =
      sbind (case sk_next_handler sk of None \<Rightarrow> Inr s1 | Some h \<Rightarrow> sbind (rd h p ifc s1) (\<lambda>(_, s). Inr s))
        (\<lambda>s2. sbind (remove_head t s2) (\<lambda>s. Inr (None, s)))" by blast
  ultimately show ?thesis
    using assms(5)
    by (intro exI [of _ s1] exI [of _ "tcp_final_header tcb2 sk TCP_ACK_FLAG 0"]
        exI [of _ "(tcb_sending tcb2 sk TCP_ACK_FLAG 0)\<lparr>tcb_out_buffer := ob\<rparr>"]) simp
qed

lemma example_data_received:
  assumes "length bs \<le> 1000"
  shows "\<exists>eh iph. tcp_frame (example_data_frame hdr bs) example_interface eh iph hdr \<and>
    ih_total_length iph = htons (40 + of_nat (length bs)) \<and> ih_flags_1 iph = 0x45"
proof -
  let ?e = "\<lparr>ea_destination = [2, 0, 0, 0, 0, 1], ea_ethernet_type = htons ETHERNET_TYPE_IPV4\<rparr>"
  let ?a = "\<lparr>ia_destination_ip = 0x0200000A, ia_protocol = 6\<rparr>"
  let ?h = "eth_bytes ?e example_client @
     ipv4_header_bytes (ipv4_fill_header example_client ?a (htons (40 + of_nat (length bs)))) @ tcp_header_bytes hdr"
  have len: "length ?h = 54" by (simp add: eth_bytes_def ethernet_header_bytes_def example_client_def)
  have "read_bytes (mem_of (?h @ bs)) 0 54 = take 54 (drop 0 (?h @ bs))"
    by (rule read_mem_of) (use len in simp)
  then have "read_bytes (example_data_frame hdr bs) 0 54 = ?h"
    using len by (simp add: example_data_frame_def)
  from headers_received [OF this, of example_interface] show ?thesis
    by (intro exI conjI) (auto simp: example_client_def example_interface_def)
qed

theorem payload_acknowledged_then_delivered_witness:
  "\<exists>eh iph s1 reply tcb1.
    tcp_read (\<lambda>h p ifc s. Inr (Some 0, s)) (op_write 3) H_tcp 0 example_interface
      (put_in 0 (above_ip (example_data_frame (example_segment 24 8 643) [104, 105]) eh iph) (example_open ESTABLISHED)) =
        sbind (remove_head 0 s1) (\<lambda>s. Inr (None, s)) \<and>
    wire s1 = [segment_frame (eth_return eh) (ip_return iph) example_interface reply] \<and>
    th_acknowledgement_num reply = htonl 10 \<and> th_window reply = htons 4094 \<and>
    tcb_at s1 0 = Inr tcb1 \<and> receive_next tcb1 = 10"
proof -
  let ?hdr = "example_segment 24 8 643" and ?tcb = "example_conn ESTABLISHED"
  obtain eh iph where frame: "tcp_frame (example_data_frame ?hdr [104, 105]) example_interface eh iph ?hdr"
    "ih_total_length iph = htons 42" "ih_flags_1 iph = 0x45"
    using example_data_received [of "[104, 105]" ?hdr] by auto
  let ?s = "put_in 0 (above_ip (example_data_frame ?hdr [104, 105]) eh iph) (example_open ESTABLISHED)"
  have n: "tcp_get_payload_length iph ?hdr = 2"
    using frame(2,3) by (simp add: tcp_get_payload_length_def example_segment_def TCP_DATA_OFFSET_MASK_def IPV4_IHL_MASK_def)
  have sock: "tcp_get_socket (ih_destination_ip iph) (th_destination_port ?hdr) (example_open ESTABLISHED) = Inr (Some 0)"
    using frame(1)
    by (simp add: tcp_frame_def tcp_get_socket_def example_open_def example_server_state sock_at_def
        example_socket_def example_interface_def example_segment_def)
  have win: "is_segment_in_window ?tcb ?hdr 2"
    by (simp add: is_segment_in_window_def example_conn_def example_segment_def Let_def)
  have num: "tcb_state ?tcb = ESTABLISHED" "ntohl (th_acknowledgement_num ?hdr) \<le> send_next ?tcb"
    "receive_next ?tcb = 8" "receive_window ?tcb = 4096" "state_function ?tcb = Tcp_others"
    "ntohl (th_sequence_num ?hdr) = 8" "tcb_id ?tcb = example_id" "sk_next_handler example_open_socket = None"
    by (simp_all add: example_conn_def example_segment_def example_open_socket_def example_socket_def)
  have ord: "in_order ?s iph ?hdr 0 0 ?tcb example_open_socket"
    using example_open_idle [of ESTABLISHED] idle_cong [of ?s "example_open ESTABLISHED"] sock win n
      get_socket_cong [of ?s "example_open ESTABLISHED"]
    by (simp add: in_order_def num example_id_of)
  have flags: "\<not> has_flag ?hdr TCP_RST_FLAG" "\<not> has_flag ?hdr TCP_SYN_FLAG" "has_flag ?hdr TCP_ACK_FLAG"
    "\<not> has_flag ?hdr TCP_FIN_FLAG"
    by (simp_all add: has_flag_def example_segment_def TCP_SYN_FLAG_def TCP_RST_FLAG_def TCP_ACK_FLAG_def TCP_FIN_FLAG_def)
  have "in_at ?s 0 = Inr (above_ip (example_data_frame ?hdr [104, 105]) eh iph)" by simp
  note payload_acknowledged_then_delivered [OF this above_ip_path [OF frame(1)] ord num(1) flags num(2) n, of "\<lambda>h p ifc s. Inr (Some 0, s)" 0]
  then show ?thesis
    by (simp add: num example_open_wire numeral_3_eq_3 del: op_write.simps) blast
qed

end
