(* ===== verification/Tcp_Active.thy ===== *)
theory Tcp_Active
  imports Tcp_Connection
begin

text \<open>
  An active open: \<^verbatim>\<open>tcp_socket_connect\<close> sends the SYN, and the answer of the other side, taken by
  \<^verbatim>\<open>tcp_syn_sent\<close>, completes the connection.
\<close>

section \<open>The SYN\<close>

text \<open>The arguments that a program has prepared for a connection over IPv4 and Ethernet.\<close>

definition tcp_client_args ::
  "socket_client_args \<Rightarrow> ethernet_write_args_t \<Rightarrow> ipv4_write_args_t \<Rightarrow> interface_t \<Rightarrow> bool" where
  "tcp_client_args ca e a ifc \<longleftrightarrow> ca_depth ca = 3 \<and> length (ca_handlers ca) = 10 \<and>
     length (ca_handler_args ca) = 10 \<and> ca_handlers ca ! 0 = Some H_ethernet \<and> ca_handlers ca ! 1 = Some H_ipv4 \<and>
     ca_handler_args ca ! 0 = Some (Ethernet_args e) \<and> ca_handler_args ca ! 1 = Some (Ipv4_args a) \<and>
     length (ea_destination e) = 6 \<and> length (mac ifc) = 6"

text \<open>The control block of an active open.\<close>

definition syn_sent :: "'a tcp_mem_scheme \<Rightarrow> u32 \<Rightarrow> tcb_t \<Rightarrow> bool" where
  "syn_sent s cid tcb \<longleftrightarrow> tcb_id tcb = cid \<and> tcb_state tcb = SYN_SENT \<and> state_function tcb = Tcp_syn_sent \<and>
     active_mode tcb \<and> send_initial_sequence_num tcb = of_int (seq_x s + 142) \<and>
     send_next tcb = of_int (seq_x s + 142) + 1 \<and> receive_window tcb = of_int (tcp_window s)"

text \<open>The SYN that is sent for it.\<close>

definition syn_of :: "'a tcp_mem_scheme \<Rightarrow> tcp_socket_t \<Rightarrow> u16 \<Rightarrow> tcp_header_t \<Rightarrow> bool" where
  "syn_of s sk port syn \<longleftrightarrow> th_source_port syn = sk_port sk \<and> th_destination_port syn = port \<and>
     th_control_bits syn = TCP_SYN_FLAG \<and> th_sequence_num syn = htonl (of_int (seq_x s + 142)) \<and>
     th_acknowledgement_num syn = htonl 0 \<and> th_data_offset syn = 0x50 \<and>
     th_window syn = htons (of_int (tcp_window s))"

text \<open>An example: the server of \<open>Tcp_Connection\<close> connects to its client.\<close>

definition example_client_args :: socket_client_args where
  "example_client_args =
     \<lparr>ca_handlers = [Some H_ethernet, Some H_ipv4, Some H_tcp] @ replicate 7 None,
      ca_handler_args = [
        Some (Ethernet_args \<lparr>ea_destination = [2, 0, 0, 0, 0, 9], ea_ethernet_type = htons ETHERNET_TYPE_IPV4\<rparr>),
        Some (Ipv4_args \<lparr>ia_destination_ip = 0x0900000A, ia_protocol = 6\<rparr>)] @ replicate 8 None,
      ca_depth = 3\<rparr>"

definition example_active :: stack_mem where
  "example_active = example_server\<lparr>client_args := [5 \<mapsto> example_client_args]\<rparr>"

lemma htonl_zero [simp]: "htonl 0 = 0"
  by code_simp

lemma connect_overflows:
  assumes "sock_at s k = Inr sk" and "seq_x s + 142 < 2 ^ 31" and "malloc_slack s = 0"
  shows "tcp_socket_connect wr h k c ip port s = Inl Out_of_bounds"
  using assms tcp_create_overflows [OF assms(2,3)] by (simp add: tcp_socket_connect_def Let_def)

text \<open>What \<^verbatim>\<open>tcp_socket_connect\<close> does up to the call of \<^verbatim>\<open>tcp_write\<close>.\<close>

lemma connect_prepares:
  fixes s :: "'a stack_mem_scheme"
  defines "t \<equiv> length (tcbs s)"
  assumes sk: "sock_at s k = Inr sk" and slot: "None \<in> set (trans_control_block sk)"
    and cid: "cid = tcp_shared_calculate_connection_id ip port (sk_port sk)" "cid \<noteq> 0"
    and none: "tcp_get_transmission_control_block k cid s = Inr None"
    and ca: "client_args s c = Some ca" "tcp_client_args ca e a (sk_interface sk)"
    and mem: "seq_x s + 142 < 2 ^ 31" "0 < malloc_slack s"
  shows "\<exists>out qs s' tcb. (\<forall>wr. tcp_socket_connect wr H_tcp k (Some c) ip port s =
      sbind (wr H_tcp out (sk_interface sk) s') (\<lambda>(ok, s).
        if \<not> ok then Inr (0, s)
        else sbind (mod_tcb t (\<lambda>tcb. tcb\<lparr>send_next := send_next tcb + 1\<rparr>) s) (\<lambda>s. Inr (cid, s)))) \<and>
    out_at s' out = Inr qs \<and> wf_out qs \<and> out_stack_idx qs = 2 \<and> frame_of qs = [] \<and>
    ob_offset (out_buffer qs) = DEFAULT_PACKAGE_BUFFER_SIZE \<and> ob_size (out_buffer qs) = DEFAULT_PACKAGE_BUFFER_SIZE \<and>
    out_handlers qs = ca_handlers ca \<and> out_args qs = (ca_handler_args ca)[2 := Some (Tcp_args
      \<lparr>ta_connection_id = cid, ta_socket = Some k, ta_flags = TCP_SYN_FLAG\<rparr>)] \<and>
    connected s' k t tcb (with_slot t sk) \<and> syn_sent s cid (tcb\<lparr>send_next := send_next tcb + 1\<rparr>) \<and>
    tcb_remote_port tcb = port \<and> active_mode_args tcb = Some c \<and> receive_next tcb = 0 \<and>
    bb_invar (tcb_in_buffer tcb) \<and> bb_list (tcb_in_buffer tcb) = [] \<and>
    wire s' = wire s \<and> callbacks s' = callbacks s \<and> keeps_routes s s' \<and>
    (\<exists>args. client_args s' c = Some (ca\<lparr>ca_handler_args := (ca_handler_args ca)[2 := args]\<rparr>))"
proof -
  let ?hdr = "\<lparr>th_source_port = port, th_destination_port = 0, th_sequence_num = 0, th_acknowledgement_num = 0,
     th_data_offset = 0, th_control_bits = 0, th_window = 0, th_checksum = 0, th_urgent_pointer = 0\<rparr>"
  let ?args = "Tcp_args \<lparr>ta_connection_id = cid, ta_socket = Some k, ta_flags = TCP_SYN_FLAG\<rparr>"
  let ?ca = "ca\<lparr>ca_handler_args := (ca_handler_args ca)[2 := Some ?args]\<rparr>"
  obtain tcb0 where new: "tcp_create_transmission_control_block cid (Some ?hdr) ip SYN_SENT s =
        Inr (t, s\<lparr>seq_x := seq_x s + 100, tcbs := tcbs s @ [Some tcb0]\<rparr>)"
    and tcb0: "tcb_id tcb0 = cid" "tcb_remote_port tcb0 = port" "send_initial_sequence_num tcb0 = of_int (seq_x s + 142)"
      "receive_window tcb0 = of_int (tcp_window s)" "tcb_state tcb0 = SYN_SENT" "state_function tcb0 = Tcp_syn_sent"
      "bb_invar (tcb_in_buffer tcb0)" "bb_list (tcb_in_buffer tcb0) = []"
      "bb_invar (tcb_out_buffer tcb0)" "bb_list (tcb_out_buffer tcb0) = []"
      "send_next tcb0 = of_int (seq_x s + 142)" "receive_next tcb0 = 0"
    by (rule tcp_create_new [OF mem, of cid ?hdr ip SYN_SENT]) (simp add: t_def state_function_of_def)
  define tcb where "tcb = tcb0\<lparr>active_mode := True, active_mode_args := Some c\<rparr>"
  let ?s1 = "s\<lparr>seq_x := seq_x s + 100, tcbs := tcbs s @ [Some tcb]\<rparr>"
  let ?s2 = "?s1\<lparr>client_args := (client_args s)(c := Some ?ca)\<rparr>"
  obtain out s3 where out: "new_out_stack (ca_handlers ca) (ca_handler_args ?ca) DEFAULT_PACKAGE_BUFFER_SIZE 2 ?s2 = (out, s3)"
    by (metis surj_pair)
  have lens: "length (ca_handlers ca) = 10" "length (ca_handler_args ?ca) = 10"
    using ca(2) by (simp_all add: tcp_client_args_def)
  obtain qs where qs: "out_at s3 out = Inr qs" "wf_out qs" "out_stack_idx qs = 2" "out_args qs = ca_handler_args ?ca"
    "out_handlers qs = ca_handlers ca" "ob_offset (out_buffer qs) = DEFAULT_PACKAGE_BUFFER_SIZE" "frame_of qs = []"
    and s3: "s3 = ?s2\<lparr>out_stacks := out_stacks s3\<rparr>"
    and sz: "ob_size (out_buffer qs) = DEFAULT_PACKAGE_BUFFER_SIZE"
    by (rule new_out_stack_at [OF out lens])
  let ?s4 = "put_sock k (with_slot t sk) s3"
  have s3_simps: "tcbs s3 = tcbs s @ [Some tcb]" "sockets s3 = sockets s" "wire s3 = wire s" "callbacks s3 = callbacks s"
    "ethernet_type_to_handler s3 = ethernet_type_to_handler s" "ip_type_to_handler s3 = ip_type_to_handler s"
    "tcp_sockets s3 = tcp_sockets s" "client_args s3 = (client_args s)(c := Some ?ca)"
    by (subst s3, simp)+
  have add: "tcp_add_transmission_control_block k t s3 = Inr ?s4"
    using sk by (simp add: tcp_add_transmission_control_block_def with_slot_def sock_at_def s3_simps split: if_split_asm)
  have mod: "mod_tcb t (\<lambda>tcb. tcb\<lparr>active_mode := True, active_mode_args := Some c\<rparr>)
      (s\<lparr>seq_x := seq_x s + 100, tcbs := tcbs s @ [Some tcb0]\<rparr>) = Inr ?s1"
    by (simp add: mod_tcb_def tcb_at_def put_tcb_def t_def tcb_def list_update_append)
  have args: "set_top_args (Some c) ?args ?s1 = Inr (?ca, ?s2)"
    using ca by (simp add: set_top_args_def tcp_client_args_def Let_def)
  have same: "tcbs ?s4 = tcbs (opened k sk tcb s)" "sockets ?s4 = sockets (opened k sk tcb s)"
    by (simp_all add: opened_def put_sock_def s3_simps t_def with_slot_def)
  have "connected ?s4 k t tcb (with_slot t sk)"
    using connected_cong [OF same] connected_opened [OF sk _ slot, of tcb] none cid(2) tcb0
    by (simp add: t_def tcb_def with_slot_def)
  moreover have "keeps_routes s ?s4"
    using keeps_routes_opened [OF sk, of tcb]
    by (rule keeps_routes_trans) (rule keeps_routes_cong, simp_all add: same opened_def put_sock_def s3_simps with_slot_def t_def)
  moreover have "tcp_socket_connect wr H_tcp k (Some c) ip port s =
      sbind (wr H_tcp out (sk_interface sk) ?s4) (\<lambda>(ok, s).
        if \<not> ok then Inr (0, s)
        else sbind (mod_tcb t (\<lambda>tcb. tcb\<lparr>send_next := send_next tcb + 1\<rparr>) s) (\<lambda>s. Inr (cid, s)))" for wr
    using sk new mod args out add ca(2) unfolding cid(1)
    by (simp add: tcp_socket_connect_def Let_def tcp_client_args_def)
  moreover have "out_at ?s4 out = Inr qs" using qs(1) by (simp add: put_sock_def out_at_def split: if_split_asm)
  ultimately show ?thesis
    using qs sz tcb0
    by (intro exI [of _ out] exI [of _ qs] exI [of _ ?s4] exI [of _ tcb])
      (simp add: syn_sent_def tcb_def s3_simps put_sock_def, blast)
qed

lemma connect_run:
  fixes s :: "'a stack_mem_scheme"
  defines "t \<equiv> length (tcbs s)"
  assumes sk: "sock_at s k = Inr sk" and slot: "None \<in> set (trans_control_block sk)"
    and cid: "cid = tcp_shared_calculate_connection_id ip port (sk_port sk)" "cid \<noteq> 0"
    and none: "tcp_get_transmission_control_block k cid s = Inr None"
    and ca: "client_args s c = Some ca" "tcp_client_args ca e a (sk_interface sk)"
    and mem: "seq_x s + 142 < 2 ^ 31" "0 < malloc_slack s"
  shows "\<exists>s' syn tcb. tcp_socket_connect (op_write (Suc (Suc (Suc m)))) H_tcp k (Some c) ip port s = Inr (cid, s') \<and>
    wire s' = wire s @ [segment_frame e a (sk_interface sk) syn] \<and> syn_of s sk port syn \<and> idle s' k t tcb (with_slot t sk) \<and> syn_sent s cid tcb \<and>
    tcb_remote_port tcb = port \<and> active_mode_args tcb = Some c \<and> keeps_routes s s' \<and> callbacks s' = callbacks s \<and>
    (\<exists>args. client_args s' c = Some (ca\<lparr>ca_handler_args := (ca_handler_args ca)[2 := args]\<rparr>))"
proof -
  let ?sk = "with_slot t sk" and ?ifc = "sk_interface sk"
  obtain out qs s1 tcb where call: "\<And>wr. tcp_socket_connect wr H_tcp k (Some c) ip port s =
      sbind (wr H_tcp out ?ifc s1) (\<lambda>(ok, s). if \<not> ok then Inr (0, s)
        else sbind (mod_tcb t (\<lambda>tcb. tcb\<lparr>send_next := send_next tcb + 1\<rparr>) s) (\<lambda>s. Inr (cid, s)))"
    and qs: "out_at s1 out = Inr qs" "wf_out qs" "out_stack_idx qs = 2" "frame_of qs = []"
      "ob_offset (out_buffer qs) = DEFAULT_PACKAGE_BUFFER_SIZE" "ob_size (out_buffer qs) = DEFAULT_PACKAGE_BUFFER_SIZE"
      "out_handlers qs = ca_handlers ca" "out_args qs = (ca_handler_args ca)[2 := Some (Tcp_args
        \<lparr>ta_connection_id = cid, ta_socket = Some k, ta_flags = TCP_SYN_FLAG\<rparr>)]"
    and conn: "connected s1 k t tcb ?sk" and tcb: "syn_sent s cid (tcb\<lparr>send_next := send_next tcb + 1\<rparr>)"
      "tcb_remote_port tcb = port" "bb_invar (tcb_in_buffer tcb)" "bb_list (tcb_in_buffer tcb) = []"
      "active_mode_args tcb = Some c" "receive_next tcb = 0"
    and keep: "wire s1 = wire s" "callbacks s1 = callbacks s" "keeps_routes s s1"
    and args: "\<exists>args. client_args s1 c = Some (ca\<lparr>ca_handler_args := (ca_handler_args ca)[2 := args]\<rparr>)"
    using connect_prepares [OF sk slot cid none ca mem] unfolding t_def by blast
  let ?h = "tcp_final_header tcb ?sk TCP_SYN_FLAG 0"
  obtain bb ps' where bb: "bb_invar bb" "bb_list bb = []"
    and sent: "op_write (Suc (Suc (Suc m))) H_tcp out ?ifc s1 =
      Inr (True, put_tcb t ((tcb_sending tcb ?sk TCP_SYN_FLAG 0)\<lparr>tcb_out_buffer := bb\<rparr>)
        ((put_out out ps' s1)\<lparr>wire := wire s1 @ [segment_frame e a ?ifc ?h]\<rparr>))"
    using segment_sends [OF conn qs(1-3), of TCP_SYN_FLAG a e ?ifc m] ca(2) qs tcb(1)
    by (auto simp: tcp_client_args_def syn_sent_def)
  let ?tcb = "(tcb_sending tcb ?sk TCP_SYN_FLAG 0)\<lparr>tcb_out_buffer := bb, send_next := send_next tcb + 1\<rparr>"
  let ?s2 = "put_out out ps' s1\<lparr>wire := wire s @ [segment_frame e a ?ifc ?h]\<rparr>"
  have t: "t < length (tcbs ?s2)" using conn tcb_at_valid by (fastforce simp: connected_def)
  have "connected ?s2 k t tcb ?sk" using conn connected_cong [of ?s2 s1] by simp
  then have "connected (put_tcb t ?tcb ?s2) k t ?tcb ?sk" by (rule connected_put_tcb) (simp_all add: bb)
  then have "idle (put_tcb t ?tcb ?s2) k t ?tcb ?sk" using tcb(3,4) by (simp add: idle_def)
  moreover have "tcp_socket_connect (op_write (Suc (Suc (Suc m)))) H_tcp k (Some c) ip port s = Inr (cid, put_tcb t ?tcb ?s2)"
    using sent t keep(1) by (simp add: call mod_tcb_def del: op_write.simps)
  moreover have "keeps_routes s (put_tcb t ?tcb ?s2)"
    using keep(3) by (rule keeps_routes_trans) (rule keeps_routes_cong, simp_all add: put_tcb_def)
  moreover have "syn_sent s cid ?tcb" "syn_of s sk port ?h"
    using tcb by (simp_all add: syn_sent_def tcb_sending_def syn_of_def)
  ultimately show ?thesis
    using keep tcb(2,5) args
    by (intro exI [of _ "put_tcb t ?tcb ?s2"] exI [of _ ?h] exI [of _ ?tcb])
      (simp add: put_tcb_def del: op_write.simps)
qed

section \<open>The answer\<close>

lemma enqueue_syn_sent:
  assumes tcb: "tcb_at s t = Inr tcb" and inb: "bb_invar (tcb_in_buffer tcb)" "bb_list (tcb_in_buffer tcb) = []"
    and st: "tcb_state tcb = SYN_SENT"
  shows "\<exists>bb. bb_invar bb \<and>
    bb_list bb = [(ntohl (th_sequence_num hdr), ucast (tcp_get_payload_length iph hdr), Some p)] \<and>
    tcp_enqueue_and_run rd wr h p t iph hdr ifc s =
      run_state_function (state_function tcb) (Suc 0) rd wr h t ifc
        (put_tcb t (tcb\<lparr>tcb_in_buffer := bb, receive_next := ntohl (th_sequence_num hdr)\<rparr>) s)"
proof -
  obtain j bb where add: "tcp_block_buffer_add (tcb_in_buffer tcb) p (th_sequence_num hdr)
      (tcp_get_payload_length iph hdr) = Inr (Some j, bb)"
    "bb_invar bb" "bb_list bb = [(ntohl (th_sequence_num hdr), ucast (tcp_get_payload_length iph hdr), Some p)]"
    using bq.q_add_empty [OF inb] by blast
  have "tcp_block_buffer_num_ready bb (ntohl (th_sequence_num hdr)) = Inr 1"
    using bq.q_ready_single [OF add(2,3), of "ntohl (th_sequence_num hdr)"] by auto
  then show ?thesis
    using tcb add st by (intro exI [of _ bb]) (simp add: tcp_enqueue_and_run_def Let_def)
qed

text \<open>The control block that an acceptable SYN-ACK leaves, before the acknowledgement is sent and after.\<close>

definition tcb_synack :: "tcb_t \<Rightarrow> tcp_header_t \<Rightarrow> tcb_t" where
  "tcb_synack tcb hdr =
     tcb\<lparr>receive_initial_sequence_num := ntohl (th_sequence_num hdr), receive_next := ntohl (th_sequence_num hdr) + 1,
         send_unacknowledged := ntohl (th_acknowledgement_num hdr), tcb_state := ESTABLISHED, state_function := Tcp_others\<rparr>"

definition tcb_synack_window :: "tcb_t \<Rightarrow> tcp_header_t \<Rightarrow> tcb_t" where
  "tcb_synack_window tcb hdr =
     tcb\<lparr>send_window := ntohs (th_window hdr), send_last_update_sequence_num := ntohl (th_sequence_num hdr),
         send_last_update_acknowledgement_num := ntohl (th_acknowledgement_num hdr)\<rparr>"

lemma tcb_synack_simps [simp]:
  "tcb_id (tcb_synack tcb hdr) = tcb_id tcb" "tcb_in_buffer (tcb_synack tcb hdr) = tcb_in_buffer tcb"
  "tcb_out_buffer (tcb_synack tcb hdr) = tcb_out_buffer tcb" "tcb_state (tcb_synack tcb hdr) = ESTABLISHED"
  "state_function (tcb_synack tcb hdr) = Tcp_others" "send_next (tcb_synack tcb hdr) = send_next tcb"
  "receive_next (tcb_synack tcb hdr) = ntohl (th_sequence_num hdr) + 1"
  "send_unacknowledged (tcb_synack tcb hdr) = ntohl (th_acknowledgement_num hdr)"
  "tcb_remote_port (tcb_synack tcb hdr) = tcb_remote_port tcb" "receive_window (tcb_synack tcb hdr) = receive_window tcb"
  "active_mode_args (tcb_synack tcb hdr) = active_mode_args tcb"
  by (simp_all add: tcb_synack_def)

lemma tcb_synack_window_simps [simp]:
  "tcb_id (tcb_synack_window tcb hdr) = tcb_id tcb" "tcb_in_buffer (tcb_synack_window tcb hdr) = tcb_in_buffer tcb"
  "tcb_out_buffer (tcb_synack_window tcb hdr) = tcb_out_buffer tcb" "tcb_state (tcb_synack_window tcb hdr) = tcb_state tcb"
  "state_function (tcb_synack_window tcb hdr) = state_function tcb" "send_next (tcb_synack_window tcb hdr) = send_next tcb"
  "receive_next (tcb_synack_window tcb hdr) = receive_next tcb"
  "send_unacknowledged (tcb_synack_window tcb hdr) = send_unacknowledged tcb"
  "tcb_remote_port (tcb_synack_window tcb hdr) = tcb_remote_port tcb"
  "receive_window (tcb_synack_window tcb hdr) = receive_window tcb"
  "active_mode_args (tcb_synack_window tcb hdr) = active_mode_args tcb"
  "send_window (tcb_synack_window tcb hdr) = ntohs (th_window hdr)"
  by (simp_all add: tcb_synack_window_def)

lemma callbacks_put_tcb: "callbacks_update g (put_tcb t tcb s) = put_tcb t tcb (callbacks_update g s)"
  by (simp add: put_tcb_def)

lemma syn_sent_synack:
  fixes s :: "'a stack_mem_scheme"
  assumes arr: "arrived s p ips ta ia iph hdr k t tcb sk" and path: "reply_path ips e a ifc"
    and flags: "has_flag hdr TCP_SYN_FLAG" "has_flag hdr TCP_ACK_FLAG" "\<not> has_flag hdr TCP_RST_FLAG"
    and ack: "send_initial_sequence_num tcb < ntohl (th_acknowledgement_num hdr)"
      "ntohl (th_acknowledgement_num hdr) \<le> send_next tcb"
    and empty: "tcp_get_payload_length iph hdr = 0" and cb: "sk_on_connect sk = Some c"
  shows "\<exists>ib ob os ras. bb_invar ib \<and> bb_list ib = [] \<and> bb_invar ob \<and> bb_list ob = [] \<and>
    tcp_syn_sent (Suc 0) rd (op_write (Suc (Suc (Suc m)))) H_tcp t ifc s =
      Inr (Some 0, put_tcb t ((tcb_synack_window ((tcb_sending (tcb_synack tcb hdr) sk TCP_ACK_FLAG 0)
          \<lparr>tcb_out_buffer := ob\<rparr>) hdr)\<lparr>tcb_in_buffer := ib\<rparr>)
        (put_in p (ips\<lparr>return_args := ras\<rparr>) s
          \<lparr>out_stacks := os,
           wire := wire s @ [segment_frame e a ifc (tcp_final_header (tcb_synack tcb hdr) sk TCP_ACK_FLAG 0)],
           callbacks := callbacks s @ [c]\<rparr>))"
proof -
  let ?sg = "segment_of p ips ta ia" and ?tcb1 = "tcb_synack tcb hdr"
  have conn: "connected s k t tcb sk" and hdr: "load_tcp_header (in_frame ips) ta = hdr"
    and at: "in_at s p = Inr ips" using arr by (simp_all add: arrived_def carries_def)
  have tcb: "tcb_at s t = Inr tcb" and t: "t < length (tcbs s)" and sk: "sock_at s k = Inr sk"
    using conn tcb_at_valid by (auto simp: connected_def)
  have head: "head_segment tcb s = Inr ?sg"
    using arr path by (intro head_segment_at) (auto simp: arrived_def carries_def)
  have sock: "segment_socket ?sg s = Inr (Some k)" and size: "segment_payload_size ?sg = 0"
    using arr empty by (auto simp: arrived_def carries_def segment_socket_def segment_payload_size_def)
  have conn1: "connected (put_tcb t ?tcb1 s) k t ?tcb1 sk"
    using conn by (intro connected_put_tcb [OF conn]) (simp_all add: connected_def)
  have at1: "in_at (put_tcb t ?tcb1 s) p = Inr ips" using at by simp
  let ?h = "tcp_final_header ?tcb1 sk TCP_ACK_FLAG 0"
  obtain ob os where ob: "bb_invar ob" "bb_list ob = []"
    and sent: "tcp_reply (op_write (Suc (Suc (Suc m)))) H_tcp ?sg (Some k) t TCP_ACK_FLAG ifc (put_tcb t ?tcb1 s) =
      Inr (put_tcb t ((tcb_sending ?tcb1 sk TCP_ACK_FLAG 0)\<lparr>tcb_out_buffer := ob\<rparr>)
        (put_in p (ips\<lparr>return_args := (return_args ips)[2 := Some (Tcp_args
            \<lparr>ta_connection_id = tcb_id ?tcb1, ta_socket = Some k, ta_flags = TCP_ACK_FLAG\<rparr>)]\<rparr>) (put_tcb t ?tcb1 s)
          \<lparr>out_stacks := os, wire := wire (put_tcb t ?tcb1 s) @ [segment_frame e a ifc ?h]\<rparr>))"
    using tcp_reply_sends [OF conn1 at1 path, of ?sg m TCP_ACK_FLAG] by auto
  let ?ras = "(return_args ips)[2 := Some (Tcp_args
        \<lparr>ta_connection_id = tcb_id ?tcb1, ta_socket = Some k, ta_flags = TCP_ACK_FLAG\<rparr>)]"
  let ?s1 = "put_in p (ips\<lparr>return_args := ?ras\<rparr>) s\<lparr>out_stacks := os,
      wire := wire s @ [segment_frame e a ifc ?h], callbacks := callbacks s @ [c]\<rparr>"
  let ?tcb2 = "tcb_synack_window ((tcb_sending ?tcb1 sk TCP_ACK_FLAG 0)\<lparr>tcb_out_buffer := ob\<rparr>) hdr"
  have "tcb_at (put_tcb t ?tcb2 ?s1) t = Inr ?tcb2" using t by simp
  then obtain ib where ib: "bb_invar ib" "bb_list ib = []"
    and rem: "remove_head t (put_tcb t ?tcb2 ?s1) = Inr (put_tcb t (?tcb2\<lparr>tcb_in_buffer := ib\<rparr>) ?s1)"
    using remove_arrived [OF _ arr, of "put_tcb t ?tcb2 ?s1" ?tcb2] by auto
  have syn: "tcp_syn_sent_syn rd (op_write (Suc (Suc (Suc m)))) H_tcp ?sg (Some k) t ifc s =
      Inr (put_tcb t (?tcb2\<lparr>tcb_in_buffer := ib\<rparr>) ?s1)"
    using tcb t hdr sk size flags ack(1) sent rem cb
    by (simp add: tcp_syn_sent_syn_def mod_tcb_def run_callback_def Let_def tcb_synack_def tcb_synack_window_def
        callbacks_put_tcb del: op_write.simps)
  have "\<not> (ntohl (th_acknowledgement_num hdr) \<le> send_initial_sequence_num tcb \<or>
      send_next tcb < ntohl (th_acknowledgement_num hdr))" using ack by (simp add: not_le not_less)
  moreover have "th_control_bits hdr \<noteq> 0" using flags(1) by (auto simp: has_flag_def)
  ultimately have "tcp_syn_sent (Suc 0) rd (op_write (Suc (Suc (Suc m)))) H_tcp t ifc s =
      Inr (Some 0, put_tcb t (?tcb2\<lparr>tcb_in_buffer := ib\<rparr>) ?s1)"
    using tcb head sock flags syn hdr by (simp add: tcp_syn_sent_def Let_def del: op_write.simps)
  with ib ob show ?thesis by blast
qed

text \<open>The acknowledgement of a SYN-ACK, and the control block it leaves.\<close>

definition final_ack :: "tcb_t \<Rightarrow> tcp_socket_t \<Rightarrow> tcp_header_t \<Rightarrow> tcp_header_t \<Rightarrow> bool" where
  "final_ack tcb sk hdr reply \<longleftrightarrow> th_source_port reply = sk_port sk \<and> th_destination_port reply = tcb_remote_port tcb \<and>
     th_control_bits reply = TCP_ACK_FLAG \<and> th_sequence_num reply = htonl (send_next tcb) \<and>
     th_acknowledgement_num reply = htonl (ntohl (th_sequence_num hdr) + 1) \<and> th_data_offset reply = 0x50 \<and>
     th_window reply = htons (receive_window tcb)"

definition opened_by :: "tcb_t \<Rightarrow> tcp_header_t \<Rightarrow> tcb_t \<Rightarrow> bool" where
  "opened_by tcb hdr tcb' \<longleftrightarrow> tcb_state tcb' = ESTABLISHED \<and> state_function tcb' = Tcp_others \<and>
     receive_next tcb' = ntohl (th_sequence_num hdr) + 1 \<and> send_next tcb' = send_next tcb \<and>
     send_unacknowledged tcb' = ntohl (th_acknowledgement_num hdr) \<and> tcb_id tcb' = tcb_id tcb \<and>
     tcb_remote_port tcb' = tcb_remote_port tcb \<and> active_mode_args tcb' = active_mode_args tcb \<and>
     receive_window tcb' = receive_window tcb \<and> send_window tcb' = ntohs (th_window hdr)"

lemma tcp_read_synack:
  fixes s :: "'a stack_mem_scheme"
  assumes at: "in_at s p = Inr ips" and path: "reply_path ips e a ifc" and seg: "carries ips ta ia iph hdr"
    and sock: "tcp_get_socket (ih_destination_ip iph) (th_destination_port hdr) s = Inr (Some k)"
    and idle: "idle s k t tcb sk" and id: "tcb_id tcb = tcb_header_to_connection_id iph hdr"
    and st: "tcb_state tcb = SYN_SENT" "state_function tcb = Tcp_syn_sent"
    and flags: "has_flag hdr TCP_SYN_FLAG" "has_flag hdr TCP_ACK_FLAG" "\<not> has_flag hdr TCP_RST_FLAG"
    and ack: "send_initial_sequence_num tcb < ntohl (th_acknowledgement_num hdr)"
      "ntohl (th_acknowledgement_num hdr) \<le> send_next tcb"
    and empty: "tcp_get_payload_length iph hdr = 0" and cb: "sk_on_connect sk = Some c"
  shows "\<exists>s' reply tcb'. tcp_read rd (op_write (Suc (Suc (Suc m)))) H_tcp p ifc s = Inr (Some 0, s') \<and>
    wire s' = wire s @ [segment_frame e a ifc reply] \<and> final_ack tcb sk hdr reply \<and>
    callbacks s' = callbacks s @ [c] \<and> idle s' k t tcb' sk \<and> opened_by tcb hdr tcb' \<and>
    keeps_routes s s' \<and> keeps_app s s'"
proof -
  let ?s = "put_in p (with_tcp ips) s" and ?seq = "ntohl (th_sequence_num hdr)"
  have conn: "connected ?s k t tcb sk" using idle connected_cong [of ?s s] by (simp add: idle_def)
  have get: "tcp_get_transmission_control_block k (tcb_header_to_connection_id iph hdr) s = Inr (Some t)"
    and tcb: "tcb_at ?s t = Inr tcb" using idle id by (simp_all add: idle_def connected_def)
  obtain bb where bb: "bb_invar bb" "bb_list bb = [(?seq, ucast (tcp_get_payload_length iph hdr), Some p)]"
    and run: "tcp_enqueue_and_run rd (op_write (Suc (Suc (Suc m)))) H_tcp p t iph hdr ifc ?s =
      run_state_function Tcp_syn_sent (Suc 0) rd (op_write (Suc (Suc (Suc m)))) H_tcp t ifc
        (put_tcb t (tcb\<lparr>tcb_in_buffer := bb, receive_next := ?seq\<rparr>) ?s)"
    using enqueue_syn_sent [OF tcb _ _ st(1)] idle st(2) unfolding idle_def by metis
  let ?tcb = "tcb\<lparr>tcb_in_buffer := bb, receive_next := ?seq\<rparr>"
  let ?s1 = "put_tcb t ?tcb ?s" and ?tcb1 = "tcb_synack ?tcb hdr"
  have "connected ?s1 k t ?tcb sk"
    using conn by (intro connected_put_tcb [OF conn]) (simp_all add: connected_def)
  moreover have "tcp_get_socket (ih_destination_ip iph) (th_destination_port hdr) ?s1 = Inr (Some k)"
    using sock get_socket_cong [of ?s1 s] by simp
  ultimately have arr: "arrived ?s1 p (with_tcp ips) ta ia iph hdr k t ?tcb sk"
    using bb seg by (simp add: arrived_def)
  have path': "reply_path (with_tcp ips) e a ifc" using path by simp
  obtain ib ob os ras where ib: "bb_invar ib" "bb_list ib = []" and ob: "bb_invar ob" "bb_list ob = []"
    and res: "tcp_syn_sent (Suc 0) rd (op_write (Suc (Suc (Suc m)))) H_tcp t ifc ?s1 =
      Inr (Some 0, put_tcb t ((tcb_synack_window ((tcb_sending ?tcb1 sk TCP_ACK_FLAG 0)
          \<lparr>tcb_out_buffer := ob\<rparr>) hdr)\<lparr>tcb_in_buffer := ib\<rparr>)
        (put_in p (with_tcp ips\<lparr>return_args := ras\<rparr>) ?s1
          \<lparr>out_stacks := os, wire := wire ?s1 @ [segment_frame e a ifc (tcp_final_header ?tcb1 sk TCP_ACK_FLAG 0)],
           callbacks := callbacks ?s1 @ [c]\<rparr>))"
    using syn_sent_synack [OF arr path' flags _ _ empty cb, of rd m] ack by auto
  let ?tcb2 = "(tcb_synack_window ((tcb_sending ?tcb1 sk TCP_ACK_FLAG 0)\<lparr>tcb_out_buffer := ob\<rparr>) hdr)\<lparr>tcb_in_buffer := ib\<rparr>"
  let ?s2 = "put_tcb t ?tcb2 (put_in p (with_tcp ips\<lparr>return_args := ras\<rparr>) ?s1
          \<lparr>out_stacks := os, wire := wire ?s1 @ [segment_frame e a ifc (tcp_final_header ?tcb1 sk TCP_ACK_FLAG 0)],
           callbacks := callbacks ?s1 @ [c]\<rparr>)"
  have "idle ?s2 k t ?tcb2 sk"
    by (rule arrived_idle [OF arr]) (simp_all add: ib ob put_tcb_def)
  moreover have "tcp_read rd (op_write (Suc (Suc (Suc m)))) H_tcp p ifc s = Inr (Some 0, ?s2)"
    using tcp_read_known [OF at path seg sock get, of rd "op_write (Suc (Suc (Suc m)))"] run res
    by (simp add: run_state_function_def del: op_write.simps)
  moreover have "wire ?s2 = wire s @ [segment_frame e a ifc (tcp_final_header ?tcb1 sk TCP_ACK_FLAG 0)]"
    "callbacks ?s2 = callbacks s @ [c]"
    by (simp_all add: put_tcb_def)
  moreover have "keeps_routes s ?s2" by (rule keeps_routes_cong) (simp_all add: put_tcb_def)
  moreover have "keeps_app s ?s2" by (simp add: keeps_app_def put_tcb_def put_in_def)
  ultimately show ?thesis
    by (intro exI [of _ ?s2] exI [of _ "tcp_final_header ?tcb1 sk TCP_ACK_FLAG 0"] exI [of _ ?tcb2])
      (simp add: final_ack_def opened_by_def del: op_write.simps)
qed

lemma worker_synack:
  fixes s :: "'a stack_mem_scheme"
  assumes frame: "tcp_frame frame ifc eh iph hdr" and route: "routes_tcp s m m'"
    and sock: "tcp_get_socket (ipv4_addr ifc) (th_destination_port hdr) s = Inr (Some k)"
    and idle: "idle s k t tcb sk" and id: "tcb_id tcb = tcb_header_to_connection_id iph hdr"
    and st: "tcb_state tcb = SYN_SENT" "state_function tcb = Tcp_syn_sent"
    and flags: "has_flag hdr TCP_SYN_FLAG" "has_flag hdr TCP_ACK_FLAG" "\<not> has_flag hdr TCP_RST_FLAG"
    and ack: "send_initial_sequence_num tcb < ntohl (th_acknowledgement_num hdr)"
      "ntohl (th_acknowledgement_num hdr) \<le> send_next tcb"
    and empty: "tcp_get_payload_length iph hdr = 0" and cb: "sk_on_connect sk = Some c" and n: "6 \<le> n"
  shows "\<exists>s' reply tcb'. worker_packet [H_ethernet] n p (Some frame) ifc s = Inr s' \<and>
    wire s' = wire s @ [segment_frame (eth_return eh) (ip_return iph) ifc reply] \<and> final_ack tcb sk hdr reply \<and>
    callbacks s' = callbacks s @ [c] \<and> idle s' k t tcb' sk \<and> opened_by tcb hdr tcb' \<and>
    keeps_routes (s\<lparr>ethernet_type_to_handler := m, ip_type_to_handler := m'\<rparr>) s' \<and> keeps_app s s'"
proof -
  obtain j where j: "n = Suc (Suc (Suc (Suc (Suc (Suc j)))))"
    using n by (auto simp: numeral_eq_Suc Suc_le_eq less_iff_Suc_add)
  let ?r = "routed p frame eh iph m m' s"
  have sock': "tcp_get_socket (ih_destination_ip iph) (th_destination_port hdr) ?r = Inr (Some k)"
    using sock frame by (simp add: tcp_frame_def)
  have "idle ?r k t tcb sk" using idle idle_cong [of ?r s] by simp
  from tcp_read_synack [OF in_at_routed above_ip_path [OF frame] sock' this id st flags ack empty cb,
      of "op_read (Suc (Suc (Suc j)))" j]
  obtain s' reply tcb' where
    read: "tcp_read (op_read (Suc (Suc (Suc j)))) (op_write (Suc (Suc (Suc j)))) H_tcp p ifc ?r = Inr (Some 0, s')"
    and rest: "wire s' = wire s @ [segment_frame (eth_return eh) (ip_return iph) ifc reply]" "final_ack tcb sk hdr reply"
      "callbacks s' = callbacks s @ [c]" "idle s' k t tcb' sk" "opened_by tcb hdr tcb'" "keeps_routes ?r s'"
      "keeps_app s s'" by auto
  note ran = worker_in_order [OF frame route read]
  show ?thesis
    using ran rest j keeps_routes_worker [OF rest(6)]
    by (intro exI [of _ "s'\<lparr>in_stacks := (in_stacks s')(p := None)\<rparr>"] exI [of _ reply] exI [of _ tcb'])
      (simp del: worker_packet.simps)
qed

text \<open>C5: an active open. With the ten blocks that the code allocates for a block buffer,
  \<^verbatim>\<open>tcp_socket_connect\<close> writes the eleventh outside the allocation, and nothing is sent. If there is
  unused memory for that block behind the allocation, the call
  on a socket with a free slot sends exactly one SYN with the
  next initial sequence number; when the SYN-ACK of the other side arrives, the worker
  answers with exactly one ACK of it, calls the program's \<^verbatim>\<open>on_connect\<close> once, and the connection
  is established with nothing queued and both sequence numbers agreed. The SYN-ACK has to
  have the right ports and acknowledgement, but may come from any address.\<close>

theorem active_open_handshake:
  fixes s :: "'a stack_mem_scheme"
  assumes sk: "sock_at s k = Inr sk" "None \<in> set (trans_control_block sk)" "sk_on_connect sk = Some f"
    and cid: "tcp_shared_calculate_connection_id ip port (sk_port sk) = cid" "cid \<noteq> 0"
    and none: "tcp_get_transmission_control_block k cid s = Inr None"
    and ca: "client_args s c = Some ca" "tcp_client_args ca e a (sk_interface sk)"
    and mem: "0 \<le> seq_x s" "seq_x s + 142 < 2 ^ 31"
    and frame: "tcp_frame frame ifc eh iph hdr" and route: "routes_tcp s m m'"
    and sock: "tcp_get_socket (ipv4_addr ifc) (th_destination_port hdr) s = Inr (Some k)"
    and ports: "th_source_port hdr = port" "th_destination_port hdr = sk_port sk"
    and flags: "has_flag hdr TCP_SYN_FLAG" "has_flag hdr TCP_ACK_FLAG" "\<not> has_flag hdr TCP_RST_FLAG"
    and ack: "th_acknowledgement_num hdr = htonl (of_int (seq_x s + 142) + 1)"
    and empty: "tcp_get_payload_length iph hdr = 0" and n: "6 \<le> n"
  shows "if malloc_slack s = 0 then tcp_socket_connect (op_write n) H_tcp k (Some c) ip port s = Inl Out_of_bounds
    else \<exists>s1 s2 syn reply tcb. tcp_socket_connect (op_write n) H_tcp k (Some c) ip port s = Inr (cid, s1) \<and>
    worker_packet [H_ethernet] n p (Some frame) ifc s1 = Inr s2 \<and>
    wire s2 = wire s @ [segment_frame e a (sk_interface sk) syn,
      segment_frame (eth_return eh) (ip_return iph) ifc reply] \<and>
    syn_of s sk port syn \<and> th_source_port reply = sk_port sk \<and> th_destination_port reply = port \<and>
    th_control_bits reply = TCP_ACK_FLAG \<and> th_sequence_num reply = th_acknowledgement_num hdr \<and>
    th_acknowledgement_num reply = htonl (ntohl (th_sequence_num hdr) + 1) \<and>
    callbacks s2 = callbacks s @ [f] \<and> idle s2 k (length (tcbs s)) tcb (with_slot (length (tcbs s)) sk) \<and>
    tcb_state tcb = ESTABLISHED \<and> receive_next tcb = ntohl (th_sequence_num hdr) + 1 \<and>
    send_next tcb = ntohl (th_acknowledgement_num hdr)"
proof (cases "malloc_slack s")
  case 0
  with connect_overflows [OF sk(1) mem(2)] show ?thesis by (simp del: op_write.simps)
next
  case (Suc i)
  then have slack: "0 < malloc_slack s" by simp
  let ?t = "length (tcbs s)" and ?iss = "of_int (seq_x s + 142) :: u32"
  obtain j where j: "n = Suc (Suc (Suc (Suc (Suc (Suc j)))))"
    using n by (auto simp: numeral_eq_Suc Suc_le_eq less_iff_Suc_add)
  obtain s1 syn tcb1 where
    con: "tcp_socket_connect (op_write n) H_tcp k (Some c) ip port s = Inr (cid, s1)"
      "wire s1 = wire s @ [segment_frame e a (sk_interface sk) syn]" "syn_of s sk port syn"
    and idle1: "idle s1 k ?t tcb1 (with_slot ?t sk)" and tcb1: "syn_sent s cid tcb1" "tcb_remote_port tcb1 = port"
    and keep: "keeps_routes s s1" "callbacks s1 = callbacks s"
    using connect_run [OF sk(1,2) cid(1) [symmetric] cid(2) none ca mem(2) slack, of "Suc (Suc (Suc j))"] j by blast
  have route1: "routes_tcp s1 m m'" using route keep(1) by (simp add: routes_tcp_def keeps_routes_def)
  have sock1: "tcp_get_socket (ipv4_addr ifc) (th_destination_port hdr) s1 = Inr (Some k)"
    using sock keep(1) by (simp add: keeps_routes_def)
  have "tcb_id tcb1 = tcb_header_to_connection_id iph hdr"
    using tcb1 cid(1) ports by (simp add: syn_sent_def tcb_header_to_connection_id_def connection_id_ports)
  moreover have "?iss < ?iss + 1" by (rule iss_increases [OF mem(1,2)])
  ultimately obtain s2 reply tcb where ran: "worker_packet [H_ethernet] n p (Some frame) ifc s1 = Inr s2"
      "idle s2 k ?t tcb (with_slot ?t sk)"
    and "wire s2 = wire s1 @ [segment_frame (eth_return eh) (ip_return iph) ifc reply]"
      "final_ack tcb1 (with_slot ?t sk) hdr reply" "callbacks s2 = callbacks s1 @ [f]" "opened_by tcb1 hdr tcb"
    using worker_synack [OF frame route1 sock1 idle1 _ _ _ flags _ _ empty _ n, of f p] tcb1 ack sk(3)
    by (auto simp: syn_sent_def simp del: worker_packet.simps)
  with con keep(2) tcb1 ack
  have "wire s2 = wire s @ [segment_frame e a (sk_interface sk) syn, segment_frame (eth_return eh) (ip_return iph) ifc reply]"
    "callbacks s2 = callbacks s @ [f]" "th_source_port reply = sk_port sk" "th_destination_port reply = port"
    "th_control_bits reply = TCP_ACK_FLAG" "th_sequence_num reply = th_acknowledgement_num hdr"
    "th_acknowledgement_num reply = htonl (ntohl (th_sequence_num hdr) + 1)" "tcb_state tcb = ESTABLISHED"
    "receive_next tcb = ntohl (th_sequence_num hdr) + 1" "send_next tcb = ntohl (th_acknowledgement_num hdr)"
    by (simp_all add: final_ack_def opened_by_def syn_sent_def)
  with con ran Suc show ?thesis by (simp del: worker_packet.simps op_write.simps) blast
qed

lemma example_active_simps:
  "tcbs example_active = []" "seq_x example_active = 500" "malloc_slack example_active = 1"
  "wire example_active = []" "callbacks example_active = []" "sock_at example_active 0 = Inr example_socket"
  "tcp_get_socket (ipv4_addr example_interface) (htons 80) example_active = Inr (Some 0)"
  "tcp_get_transmission_control_block 0 c example_active = Inr None"
  "client_args example_active 5 = Some example_client_args"
  using example_server_simps get_socket_cong [of example_active example_server]
    get_tcb_cong [of example_active example_server]
  by (simp_all add: example_active_def)
    (simp_all add: example_server_state sock_at_def arp_init_handler_def static_tables_def example_blank_def)

theorem active_open_handshake_witness:
  "\<exists>s1 s2 tcb. tcp_socket_connect (op_write 6) H_tcp 0 (Some 5) 0x0900000A (htons 4000) example_active = Inr (example_id, s1) \<and>
    worker_packet [H_ethernet] 6 0 (Some (example_frame (example_segment 18 7 643))) example_interface s1 = Inr s2 \<and>
    length (wire s2) = 2 \<and> callbacks s2 = [1] \<and> tcb_at s2 0 = Inr tcb \<and> tcb_state tcb = ESTABLISHED \<and>
    receive_next tcb = 8 \<and> send_next tcb = 643"
proof -
  let ?hdr = "example_segment 18 7 643"
  let ?e = "\<lparr>ea_destination = [2, 0, 0, 0, 0, 9], ea_ethernet_type = htons ETHERNET_TYPE_IPV4\<rparr>"
  let ?a = "\<lparr>ia_destination_ip = 0x0900000A, ia_protocol = 6\<rparr>"
  obtain eh iph where frame: "tcp_frame (example_frame ?hdr) example_interface eh iph ?hdr"
    "ih_total_length iph = htons 40" "ih_flags_1 iph = 0x45"
    using example_frame_received by blast
  obtain m m' where route: "routes_tcp example_active m m'"
    using example_routes by (auto simp: routes_tcp_def example_active_def)
  have sk: "None \<in> set (trans_control_block example_socket)" "sk_on_connect example_socket = Some 1"
    "tcp_shared_calculate_connection_id 0x0900000A (htons 4000) (sk_port example_socket) = example_id"
    by (simp_all add: example_socket_def example_id_def)
  have args: "tcp_client_args example_client_args ?e ?a (sk_interface example_socket)"
    by (simp add: tcp_client_args_def example_client_args_def example_socket_def example_interface_def)
  have hdr: "tcp_get_socket (ipv4_addr example_interface) (th_destination_port ?hdr) example_active = Inr (Some 0)"
    "th_source_port ?hdr = htons 4000" "th_destination_port ?hdr = sk_port example_socket"
    "has_flag ?hdr TCP_SYN_FLAG" "has_flag ?hdr TCP_ACK_FLAG" "\<not> has_flag ?hdr TCP_RST_FLAG"
    "th_acknowledgement_num ?hdr = htonl (of_int (seq_x example_active + 142) + 1)"
    using example_active_simps(7)
    by (simp_all add: example_segment_def example_socket_def example_active_simps has_flag_def TCP_SYN_FLAG_def
        TCP_ACK_FLAG_def TCP_RST_FLAG_def)
  have mem: "0 \<le> seq_x example_active" "seq_x example_active + 142 < 2 ^ 31"
    by (simp_all add: example_active_simps)
  have num: "ntohl (th_sequence_num ?hdr) = 7" "ntohl (th_acknowledgement_num ?hdr) = 643"
    by (simp_all add: example_segment_def)
  have "(6 :: nat) \<le> 6" by simp
  from active_open_handshake [OF example_active_simps(6) sk(1,2,3) example_id_nonzero example_active_simps(8,9) args mem
      frame(1) route hdr(1-7) example_payload [OF frame(2,3)] this, of 0]
  show ?thesis
    unfolding num example_active_simps
    by (auto simp: idle_def connected_def simp del: worker_packet.simps op_write.simps)
qed

end
