(* ===== verification/Tcp_Stream.thy ===== *)
theory Tcp_Stream
  imports Tcp_Closing Tcp_Active
begin

text \<open>
  Data on an established connection, through all layers: what a program sends, and what a
  client gets that sends requests to a socket whose handler above TCP is the custom handler.
\<close>

section \<open>Segments with payload on the wire\<close>

definition data_frame ::
  "ethernet_write_args_t \<Rightarrow> ipv4_write_args_t \<Rightarrow> interface_t \<Rightarrow> tcp_header_t \<Rightarrow> u8 list \<Rightarrow> u8 list" where
  "data_frame e a ifc header bs =
     eth_bytes e ifc @ ipv4_header_bytes (ipv4_fill_header ifc a (htons (40 + of_nat (length bs)))) @
     tcp_header_bytes header @ bs"

lemma ucast_of_nat_u64 [simp]:
  "ucast (of_nat n :: u64) = (of_nat n :: u32)" "ucast (of_nat n :: u64) = (of_nat n :: u16)"
  by (simp_all add: unsigned_of_nat word_of_nat_eq_iff)

lemma unat_of_nat_u64 [simp]: "n \<le> 0xFFFF \<Longrightarrow> unat (of_nat n :: u64) = n"
  by (simp add: unat_of_nat)

text \<open>A stack with the arguments of all three layers and a payload sends one such frame.\<close>

lemma data_sends:
  fixes s :: "'a stack_mem_scheme"
  assumes conn: "connected s k t tcb sk" and at: "out_at s out = Inr qs" and wf: "wf_out qs" "out_stack_idx qs = 2"
    and args: "out_args qs ! 2 = Some (Tcp_args \<lparr>ta_connection_id = tcb_id tcb, ta_socket = Some k, ta_flags = flags\<rparr>)"
      "out_args qs ! 1 = Some (Ipv4_args a)" "out_args qs ! 0 = Some (Ethernet_args e)"
    and hs: "out_handlers qs ! 1 = Some H_ipv4" "out_handlers qs ! 0 = Some H_ethernet"
    and len: "length (ea_destination e) = 6" "length (mac ifc) = 6"
    and buf: "ob_size (out_buffer qs) = DEFAULT_PACKAGE_BUFFER_SIZE"
      "ob_offset (out_buffer qs) = DEFAULT_PACKAGE_BUFFER_SIZE - of_nat (length bs)" "frame_of qs = bs"
    and fits: "length bs \<le> 0xFFFF - 54" "length bs \<le> unat (ntohs (send_window tcb))"
  shows "\<exists>bb ps'. bb_invar bb \<and> bb_list bb = [] \<and> op_write (Suc (Suc (Suc m))) H_tcp out ifc s =
    Inr (True, put_tcb t ((tcb_sending tcb sk flags (of_nat (length bs)))\<lparr>tcb_out_buffer := bb\<rparr>)
      ((put_out out ps' s)\<lparr>wire := wire s @
         [data_frame e a ifc (tcp_final_header tcb sk flags (of_nat (length bs))) bs]\<rparr>))"
proof -
  have n: "ob_size (out_buffer qs) - ob_offset (out_buffer qs) = of_nat (length bs)" by (simp add: buf)
  have room: "54 \<le> unat (ob_offset (out_buffer qs))"
    using unat_minus_of_nat [of "length bs" DEFAULT_PACKAGE_BUFFER_SIZE] fits(1)
    by (simp add: buf DEFAULT_PACKAGE_BUFFER_SIZE_def)
  obtain bb ps' q where bb: "bb_invar bb" "bb_list bb = []"
    and sent: "op_write (Suc (Suc (Suc m))) H_tcp out ifc s =
      Inr (True, put_tcb t ((tcb_sending tcb sk flags (of_nat (length bs)))\<lparr>tcb_out_buffer := bb\<rparr>)
        ((put_out out ps' s)\<lparr>wire := wire s @ [eth_bytes e ifc @ ip_bytes a ifc q @
           tcp_header_bytes (tcp_final_header tcb sk flags (of_nat (length bs))) @ bs]\<rparr>))"
    and q: "ob_size (out_buffer q) = DEFAULT_PACKAGE_BUFFER_SIZE"
      "ob_offset (out_buffer q) = DEFAULT_PACKAGE_BUFFER_SIZE - of_nat (length bs) - 20"
    using tcp_sends [OF at wf args(1) _ args(2,3) hs len, of t tcb sk m] conn fits room
    unfolding n by (auto simp: connected_def buf simp del: op_write.simps)
  have "ip_bytes a ifc q = ipv4_header_bytes (ipv4_fill_header ifc a (htons (40 + of_nat (length bs))))"
  proof -
    have "ucast (40 + of_nat (length bs) :: u64) = (40 + of_nat (length bs) :: u16)"
      using ucast_of_nat_u64(2) [of "40 + length bs"] by simp
    then show ?thesis by (simp add: ip_bytes_def q add.commute)
  qed
  with bb sent show ?thesis by (auto simp: data_frame_def simp del: op_write.simps)
qed

section \<open>The answer of the custom handler\<close>

text \<open>The custom handler above TCP sends its preset bytes on the connection the data came from.\<close>

lemma custom_answers_data:
  fixes s :: "'a stack_mem_scheme"
  assumes conn: "connected s k t tcb sk" and path: "reply_path ips e a ifc"
    and at: "in_at s p = Inr (above_tcp (with_tcp ips) ta k (tcb_id tcb))"
    and resp: "custom_response (custom_priv s c) = Inr bs"
    and fits: "length bs \<le> 0xFFFF - 54" "length bs \<le> unat (ntohs (send_window tcb))"
  shows "\<exists>ob os ps. bb_invar ob \<and> bb_list ob = [] \<and>
    op_read (Suc (Suc (Suc (Suc (Suc m))))) (H_custom c) p ifc s =
      Inr (None, put_tcb t ((tcb_sending tcb sk TCP_ACK_FLAG (of_nat (length bs)))\<lparr>tcb_out_buffer := ob\<rparr>)
        (put_in p ps s\<lparr>out_stacks := os, wire := wire s @
           [data_frame e a ifc (tcp_final_header tcb sk TCP_ACK_FLAG (of_nat (length bs))) bs]\<rparr>))"
proof -
  let ?ps = "above_tcp (with_tcp ips) ta k (tcb_id tcb)"
  let ?hs = "(in_handlers ?ps)[3 := Some (H_custom c)]" and ?ps' = "?ps\<lparr>in_handlers := (in_handlers ?ps)[3 := Some (H_custom c)]\<rparr>"
  let ?s1 = "put_in p ?ps' s"
  have hs: "length ?hs = 10" "length (return_args ?ps) = 10" "?hs ! 2 = Some H_tcp" "?hs ! 1 = Some H_ipv4"
    "?hs ! 0 = Some H_ethernet" "?hs ! 3 = Some (H_custom c)"
    "return_args ?ps ! 2 = Some (Tcp_args \<lparr>ta_connection_id = tcb_id tcb, ta_socket = Some k, ta_flags = TCP_ACK_FLAG\<rparr>)"
    "return_args ?ps ! 1 = Some (Ipv4_args a)" "return_args ?ps ! 0 = Some (Ethernet_args e)"
    using path by (auto simp: reply_path_def above_tcp_def with_tcp_def)
  obtain out s2 where new: "new_out_stack ?hs (return_args ?ps) DEFAULT_PACKAGE_BUFFER_SIZE 3 ?s1 = (out, s2)"
    by (metis surj_pair)
  obtain qs where qs: "out_at s2 out = Inr qs" "wf_out qs" "out_stack_idx qs = 3" "out_args qs = return_args ?ps"
    "out_handlers qs = ?hs" "ob_offset (out_buffer qs) = DEFAULT_PACKAGE_BUFFER_SIZE" "frame_of qs = []"
    and s2: "s2 = ?s1\<lparr>out_stacks := out_stacks s2\<rparr>"
    and sz: "ob_size (out_buffer qs) = DEFAULT_PACKAGE_BUFFER_SIZE"
    by (rule new_out_stack_at [OF new hs(1,2)])
  have same: "tcbs s2 = tcbs s" "sockets s2 = sockets s" "wire s2 = wire s" "custom_priv s2 = custom_priv s"
    by (subst s2, simp add: put_in_def)+
  have bytes: "custom_layer_bytes s2 ifc qs = Some bs"
    using resp qs hs by (simp add: custom_layer_bytes_def same)
  have room: "length bs \<le> unat (ob_offset (out_buffer qs))"
    using fits(1) by (simp add: qs DEFAULT_PACKAGE_BUFFER_SIZE_def)
  let ?q = "(push_bytes bs qs)\<lparr>out_stack_idx := 2\<rparr>"
  have idx: "0 < out_stack_idx qs" "out_stack_idx qs \<le> 10" "out_handlers qs ! unat (out_stack_idx qs - 1) = Some H_tcp"
    using qs(3,5) hs(3) by simp_all
  note down = custom_layer.write_down [OF qs(1) bytes qs(2) room idx]
  have wrote: "op_write (Suc (Suc (Suc (Suc m)))) (H_custom c) out ifc s2 =
      op_write (Suc (Suc (Suc m))) H_tcp out ifc (put_out out ?q s2)"
    using down(1) [of handler_write "op_write (Suc (Suc (Suc m)))"] qs(3) by simp
  have conn2: "connected (put_out out ?q s2) k t tcb sk"
    using conn same(1,2) connected_cong [of "put_out out ?q s2" s] by (simp add: put_out_def)
  have q: "out_at (put_out out ?q s2) out = Inr ?q" "wf_out ?q" "frame_of ?q = bs"
    using out_at_valid [OF qs(1)] down(2,3) qs(7) by simp_all
  obtain bb qs' where bb: "bb_invar bb" "bb_list bb = []"
    and sent: "op_write (Suc (Suc (Suc m))) H_tcp out ifc (put_out out ?q s2) =
      Inr (True, put_tcb t ((tcb_sending tcb sk TCP_ACK_FLAG (of_nat (length bs)))\<lparr>tcb_out_buffer := bb\<rparr>)
        (put_out out qs' (put_out out ?q s2)\<lparr>wire := wire (put_out out ?q s2) @
           [data_frame e a ifc (tcp_final_header tcb sk TCP_ACK_FLAG (of_nat (length bs))) bs]\<rparr>))"
    using data_sends [OF conn2 q(1,2), of TCP_ACK_FLAG a e ifc bs m] hs qs(4,5,6) sz q(3) fits path
    by (auto simp: reply_path_def simp del: op_write.simps)
  have "op_read (Suc (Suc (Suc (Suc (Suc m))))) (H_custom c) p ifc s =
      sbind (op_write (Suc (Suc (Suc (Suc m)))) (H_custom c) out ifc s2) (\<lambda>(_, s). Inr (None, s))"
    using at hs(1) new by (simp add: custom_read_def above_tcp_def Let_def del: op_write.simps)
  moreover have "put_out out qs' s2 = ?s1\<lparr>out_stacks := (out_stacks s2)[out := qs']\<rparr>"
    by (subst s2) (simp add: put_out_def)
  ultimately show ?thesis
    using bb wrote sent same(3)
    by (intro exI [of _ bb] exI [of _ "(out_stacks s2)[out := qs']"] exI [of _ ?ps'])
      (simp del: op_write.simps op_read.simps)
qed

section \<open>A request\<close>

text \<open>
  An in-order segment with payload on an established connection whose socket hands data to
  the custom handler \<open>c\<close>.
\<close>

definition request ::
  "'a upper_mem_scheme \<Rightarrow> u8 list \<Rightarrow> ipv4_header_t \<Rightarrow> tcp_header_t \<Rightarrow> nat \<Rightarrow> nat \<Rightarrow> tcb_t \<Rightarrow> tcp_socket_t \<Rightarrow> bool" where
  "request s bs iph hdr k t tcb sk \<longleftrightarrow>
     in_order s iph hdr k t tcb sk \<and> tcb_state tcb = ESTABLISHED \<and>
     \<not> has_flag hdr TCP_RST_FLAG \<and> \<not> has_flag hdr TCP_SYN_FLAG \<and> has_flag hdr TCP_ACK_FLAG \<and>
     \<not> has_flag hdr TCP_FIN_FLAG \<and> ntohl (th_acknowledgement_num hdr) \<le> send_next tcb \<and>
     tcp_get_payload_length iph hdr \<noteq> 0 \<and>
     (\<exists>c. sk_next_handler sk = Some (H_custom c) \<and> custom_response (custom_priv s c) = Inr bs) \<and>
     length bs \<le> 0xFFFF - 54 \<and> length bs \<le> unat (ntohs (send_window (tcb_acked tcb hdr)))"

text \<open>
  What a client sees of a connection: the next sequence number it may send, how much of the
  window is left, and the next sequence number it will receive. A request of \<open>n\<close> bytes that
  is answered with \<open>bs\<close> advances all three.
\<close>

record conversation =
  next_in :: u32
  window_left :: u16
  next_out :: u32

definition conversation_of :: "tcb_t \<Rightarrow> conversation" where
  "conversation_of tcb =
     \<lparr>next_in = receive_next tcb, window_left = receive_window tcb, next_out = send_next tcb\<rparr>"

definition advance :: "u16 \<Rightarrow> u8 list \<Rightarrow> conversation \<Rightarrow> conversation" where
  "advance n bs v = \<lparr>next_in = next_in v + ucast n, window_left = window_left v - n,
     next_out = next_out v + of_nat (length bs)\<rparr>"

text \<open>The two segments that answer a request: the acknowledgement and the response.\<close>

definition answers_request ::
  "conversation \<Rightarrow> u16 \<Rightarrow> u16 \<Rightarrow> u16 \<Rightarrow> u8 list \<Rightarrow> tcp_header_t \<Rightarrow> tcp_header_t \<Rightarrow> bool" where
  "answers_request v port remote n bs ack dat \<longleftrightarrow>
     th_control_bits ack = TCP_ACK_FLAG \<and>
     th_control_bits dat = (if bs = [] then TCP_ACK_FLAG else TCP_ACK_FLAG OR TCP_PSH_FLAG) \<and>
     (\<forall>h \<in> {ack, dat}. th_source_port h = port \<and> th_destination_port h = remote \<and>
        th_sequence_num h = htonl (next_out v) \<and> th_data_offset h = 0x50 \<and>
        th_acknowledgement_num h = htonl (next_in (advance n bs v)) \<and>
        th_window h = htons (window_left (advance n bs v)))"

text \<open>The control block afterwards.\<close>

definition tcb_answered :: "tcb_t \<Rightarrow> tcp_header_t \<Rightarrow> u16 \<Rightarrow> u8 list \<Rightarrow> tcb_t \<Rightarrow> bool" where
  "tcb_answered tcb hdr n bs tcb' \<longleftrightarrow>
     tcb_id tcb' = tcb_id tcb \<and> tcb_state tcb' = ESTABLISHED \<and> state_function tcb' = state_function tcb \<and>
     tcb_remote_port tcb' = tcb_remote_port tcb \<and>
     conversation_of tcb' = advance n bs (conversation_of tcb) \<and>
     send_window tcb' = send_window (tcb_acked tcb hdr)"

lemma of_nat_length_u64: "length bs \<le> 0xFFFF \<Longrightarrow> (of_nat (length bs) :: u64) = 0 \<longleftrightarrow> bs = []"
  using unat_of_nat_u64 [of "length bs"] unat_eq_zero [of "of_nat (length bs) :: u64"] by auto

lemma tcb_taking_more [simp]:
  "send_window (tcb_taking tcb n) = send_window tcb" "state_function (tcb_taking tcb n) = state_function tcb"
  by (simp_all add: tcb_taking_def)

lemma tcp_read_request:
  fixes s :: "'a stack_mem_scheme"
  assumes at: "in_at s p = Inr ips" and path: "reply_path ips e a ifc" and seg: "carries ips ta ia iph hdr"
    and req: "request s bs iph hdr k t tcb sk"
  shows "\<exists>s' ack dat tcb'.
    tcp_read (op_read (Suc (Suc (Suc (Suc (Suc m)))))) (op_write (Suc (Suc (Suc (Suc (Suc m)))))) H_tcp p ifc s = Inr (None, s') \<and>
    wire s' = wire s @ [segment_frame e a ifc ack, data_frame e a ifc dat bs] \<and>
    answers_request (conversation_of tcb) (sk_port sk) (tcb_remote_port tcb) (tcp_get_payload_length iph hdr) bs ack dat \<and>
    idle s' k t tcb' sk \<and> tcb_answered tcb hdr (tcp_get_payload_length iph hdr) bs tcb' \<and>
    custom_priv s' = custom_priv s \<and> keeps_routes s s'"
proof -
  let ?n = "tcp_get_payload_length iph hdr" and ?rd = "op_read (Suc (Suc (Suc (Suc (Suc m)))))"
  obtain c where c: "sk_next_handler sk = Some (H_custom c)" "custom_response (custom_priv s c) = Inr bs"
    and ord: "in_order s iph hdr k t tcb sk"
    and fits: "length bs \<le> 0xFFFF - 54" "length bs \<le> unat (ntohs (send_window (tcb_acked tcb hdr)))"
    using req by (auto simp: request_def)
  obtain bb ob os tcb2 s1 where
    arr: "arrived (received p ips t tcb bb s) p (with_tcp ips) ta ia iph hdr k t (tcb\<lparr>tcb_in_buffer := bb\<rparr>) sk"
    and ob: "bb_invar ob" "bb_list ob = []" and tcb2: "tcb2 = tcb_taking ((tcb_acked tcb hdr)\<lparr>tcb_in_buffer := bb\<rparr>) ?n"
    and s1: "s1 = put_tcb t ((tcb_sending tcb2 sk TCP_ACK_FLAG 0)\<lparr>tcb_out_buffer := ob\<rparr>)
      (put_in p (above_tcp (with_tcp ips) ta k (tcb_id tcb)) s
        \<lparr>out_stacks := os, wire := wire s @ [segment_frame e a ifc (tcp_final_header tcb2 sk TCP_ACK_FLAG 0)]\<rparr>)"
    and read: "tcp_read ?rd (op_write (Suc (Suc (Suc (Suc (Suc m)))))) H_tcp p ifc s =
      sbind (sbind (?rd (H_custom c) p ifc s1) (\<lambda>(_, s). Inr s)) (\<lambda>s2. sbind (remove_head t s2) (\<lambda>s. Inr (None, s)))"
    using tcp_read_payload [OF at path seg ord, where rd = ?rd and m = "Suc (Suc m)", of ?n] req c(1)
    by (auto simp: request_def simp del: op_write.simps op_read.simps)
  let ?tcb3 = "(tcb_sending tcb2 sk TCP_ACK_FLAG 0)\<lparr>tcb_out_buffer := ob\<rparr>"
  have conn: "connected s k t tcb sk" using ord by (simp add: in_order_def idle_def)
  have "connected (put_tcb t ?tcb3 s) k t ?tcb3 sk"
    by (rule connected_put_tcb [OF conn]) (simp_all add: tcb2 ob)
  then have conn1: "connected s1 k t ?tcb3 sk"
    using connected_cong [of s1 "put_tcb t ?tcb3 s"] by (simp add: s1 put_tcb_def)
  have at1: "in_at s1 p = Inr (above_tcp (with_tcp ips) ta k (tcb_id ?tcb3))" by (simp add: s1 tcb2)
  have resp: "custom_response (custom_priv s1 c) = Inr bs" using c(2) by (simp add: s1 put_tcb_def put_in_def)
  have win: "length bs \<le> unat (ntohs (send_window ?tcb3))" using fits(2) by (simp add: tcb2)
  let ?l = "of_nat (length bs) :: u64"
  obtain ob2 os2 ps2 where ob2: "bb_invar ob2" "bb_list ob2 = []"
    and custom: "?rd (H_custom c) p ifc s1 =
      Inr (None, put_tcb t ((tcb_sending ?tcb3 sk TCP_ACK_FLAG ?l)\<lparr>tcb_out_buffer := ob2\<rparr>)
        (put_in p ps2 s1\<lparr>out_stacks := os2, wire := wire s1 @
           [data_frame e a ifc (tcp_final_header ?tcb3 sk TCP_ACK_FLAG ?l) bs]\<rparr>))"
    using custom_answers_data [OF conn1 path at1 resp fits(1) win, of m] by blast
  let ?tcb4 = "(tcb_sending ?tcb3 sk TCP_ACK_FLAG ?l)\<lparr>tcb_out_buffer := ob2\<rparr>"
  let ?w = "wire s @ [segment_frame e a ifc (tcp_final_header tcb2 sk TCP_ACK_FLAG 0),
      data_frame e a ifc (tcp_final_header ?tcb3 sk TCP_ACK_FLAG ?l) bs]"
  let ?s4 = "put_in p ps2 (received p ips t tcb bb s)\<lparr>out_stacks := os2, wire := ?w\<rparr>"
  have eq: "put_tcb t ?tcb4 (put_in p ps2 s1\<lparr>out_stacks := os2, wire := wire s1 @
        [data_frame e a ifc (tcp_final_header ?tcb3 sk TCP_ACK_FLAG ?l) bs]\<rparr>) = put_tcb t ?tcb4 ?s4"
    by (simp add: s1 received_def put_tcb_def put_in_def)
  have same: "tcbs ?s4 = tcbs (received p ips t tcb bb s)" "sockets ?s4 = sockets (received p ips t tcb bb s)"
    by simp_all
  obtain b2 where rem: "remove_head t (put_tcb t ?tcb4 ?s4) = Inr (put_tcb t (?tcb4\<lparr>tcb_in_buffer := b2\<rparr>) ?s4)"
    and idle: "idle (put_tcb t (?tcb4\<lparr>tcb_in_buffer := b2\<rparr>) ?s4) k t (?tcb4\<lparr>tcb_in_buffer := b2\<rparr>) sk"
    using after_fall [OF arr _ _ _ _ same, of ?tcb4] ob2 by (auto simp: tcb2)
  let ?s5 = "put_tcb t (?tcb4\<lparr>tcb_in_buffer := b2\<rparr>) ?s4"
  have "tcp_read ?rd (op_write (Suc (Suc (Suc (Suc (Suc m)))))) H_tcp p ifc s = Inr (None, ?s5)"
    using read custom eq rem by (simp del: op_write.simps op_read.simps)
  moreover have "wire ?s5 = ?w" "custom_priv ?s5 = custom_priv s"
    by (simp_all add: received_def put_tcb_def put_in_def)
  moreover have "keeps_routes s ?s5"
    by (rule keeps_routes_cong) (simp_all add: received_def put_tcb_def put_in_def)
  moreover have "answers_request (conversation_of tcb) (sk_port sk) (tcb_remote_port tcb) ?n bs (tcp_final_header tcb2 sk TCP_ACK_FLAG 0)
      (tcp_final_header ?tcb3 sk TCP_ACK_FLAG ?l)"
    using fits(1) of_nat_length_u64 [of bs] by (simp add: answers_request_def advance_def conversation_of_def tcb2)
  moreover have "tcb_answered tcb hdr ?n bs (?tcb4\<lparr>tcb_in_buffer := b2\<rparr>)"
    using req by (simp add: tcb_answered_def advance_def conversation_of_def tcb2 request_def)
  ultimately show ?thesis using idle by blast
qed

text \<open>
  Two simpler cases: a segment that only acknowledges, and data on a connection with no
  handler above.
\<close>

lemma tcb_acked_args [simp]: "active_mode_args (tcb_acked tcb hdr) = active_mode_args tcb"
  by (simp add: tcb_acked_def Let_def)

lemma tcb_taking_args [simp]: "active_mode_args (tcb_taking tcb n) = active_mode_args tcb"
  by (simp add: tcb_taking_def)

lemma tcp_read_pure_ack:
  fixes s :: "'a stack_mem_scheme"
  assumes at: "in_at s p = Inr ips" and path: "reply_path ips e a ifc" and seg: "carries ips ta ia iph hdr"
    and ord: "in_order s iph hdr k t tcb sk" and st: "tcb_state tcb = ESTABLISHED"
    and flags: "\<not> has_flag hdr TCP_RST_FLAG" "\<not> has_flag hdr TCP_SYN_FLAG" "has_flag hdr TCP_ACK_FLAG"
    and fin: "\<not> has_flag hdr TCP_FIN_FLAG" and ack: "ntohl (th_acknowledgement_num hdr) \<le> send_next tcb"
    and empty: "tcp_get_payload_length iph hdr = 0"
  shows "\<exists>s' bb. tcp_read rd wr H_tcp p ifc s = Inr (None, s') \<and> wire s' = wire s \<and>
    idle s' k t ((tcb_acked tcb hdr)\<lparr>tcb_in_buffer := bb\<rparr>) sk \<and> keeps_routes s s' \<and> keeps_app s s' \<and>
    callbacks s' = callbacks s"
proof -
  obtain b0 where
    arr: "arrived (received p ips t tcb b0 s) p (with_tcp ips) ta ia iph hdr k t (tcb\<lparr>tcb_in_buffer := b0\<rparr>) sk"
    and conn: "connected (received p ips t (tcb_acked tcb hdr) b0 s) k t ((tcb_acked tcb hdr)\<lparr>tcb_in_buffer := b0\<rparr>) sk"
    and read: "tcp_read rd wr H_tcp p ifc s = sbind (remove_head t (received p ips t (tcb_acked tcb hdr) b0 s)) (\<lambda>s. Inr (None, s))"
    using tcp_read_established [OF at path seg ord st flags ack, of rd wr] empty fin seg
    by (auto simp: tcp_others_fin_def carries_def with_tcp_def)
  let ?tcb = "(tcb_acked tcb hdr)\<lparr>tcb_in_buffer := b0\<rparr>"
  have eq: "received p ips t (tcb_acked tcb hdr) b0 s = put_tcb t ?tcb (received p ips t tcb b0 s)"
    by (simp add: received_def)
  obtain bb where rem: "remove_head t (put_tcb t ?tcb (received p ips t tcb b0 s)) =
      Inr (put_tcb t (?tcb\<lparr>tcb_in_buffer := bb\<rparr>) (received p ips t tcb b0 s))"
    and idle: "idle (put_tcb t (?tcb\<lparr>tcb_in_buffer := bb\<rparr>) (received p ips t tcb b0 s)) k t (?tcb\<lparr>tcb_in_buffer := bb\<rparr>) sk"
    using after_fall [OF arr, of ?tcb "received p ips t tcb b0 s"] conn by (auto simp: connected_def)
  let ?s = "put_tcb t (?tcb\<lparr>tcb_in_buffer := bb\<rparr>) (received p ips t tcb b0 s)"
  have "keeps_routes s ?s" by (rule keeps_routes_cong) (simp_all add: put_tcb_def)
  moreover have "keeps_app s ?s" "callbacks ?s = callbacks s" "wire ?s = wire s"
    by (simp_all add: keeps_app_def put_tcb_def received_def put_in_def)
  ultimately show ?thesis
    using read rem idle eq by (intro exI [of _ ?s] exI [of _ bb]) simp
qed

definition plain_ack :: "tcb_t \<Rightarrow> tcp_socket_t \<Rightarrow> tcp_header_t \<Rightarrow> bool" where
  "plain_ack tcb sk reply \<longleftrightarrow> th_source_port reply = sk_port sk \<and> th_destination_port reply = tcb_remote_port tcb \<and>
     th_control_bits reply = TCP_ACK_FLAG \<and> th_sequence_num reply = htonl (send_next tcb) \<and>
     th_acknowledgement_num reply = htonl (receive_next tcb) \<and> th_data_offset reply = 0x50 \<and>
     th_window reply = htons (receive_window tcb)"

lemma tcp_read_data:
  fixes s :: "'a stack_mem_scheme"
  assumes at: "in_at s p = Inr ips" and path: "reply_path ips e a ifc" and seg: "carries ips ta ia iph hdr"
    and ord: "in_order s iph hdr k t tcb sk" and st: "tcb_state tcb = ESTABLISHED"
    and flags: "\<not> has_flag hdr TCP_RST_FLAG" "\<not> has_flag hdr TCP_SYN_FLAG" "has_flag hdr TCP_ACK_FLAG"
      "\<not> has_flag hdr TCP_FIN_FLAG" and ack: "ntohl (th_acknowledgement_num hdr) \<le> send_next tcb"
    and data: "tcp_get_payload_length iph hdr = n" "n \<noteq> 0" and top: "sk_next_handler sk = None"
  shows "\<exists>s' reply tcb'. tcp_read rd (op_write (Suc (Suc (Suc m)))) H_tcp p ifc s = Inr (None, s') \<and>
    wire s' = wire s @ [segment_frame e a ifc reply] \<and> plain_ack tcb' sk reply \<and> idle s' k t tcb' sk \<and>
    tcb_answered tcb hdr n [] tcb' \<and> active_mode_args tcb' = active_mode_args tcb \<and>
    keeps_routes s s' \<and> keeps_app s s' \<and> callbacks s' = callbacks s"
proof -
  obtain bb ob os tcb2 s1 where
    arr: "arrived (received p ips t tcb bb s) p (with_tcp ips) ta ia iph hdr k t (tcb\<lparr>tcb_in_buffer := bb\<rparr>) sk"
    and ob: "bb_invar ob" "bb_list ob = []" and tcb2: "tcb2 = tcb_taking ((tcb_acked tcb hdr)\<lparr>tcb_in_buffer := bb\<rparr>) n"
    and s1: "s1 = put_tcb t ((tcb_sending tcb2 sk TCP_ACK_FLAG 0)\<lparr>tcb_out_buffer := ob\<rparr>)
      (put_in p (above_tcp (with_tcp ips) ta k (tcb_id tcb)) s
        \<lparr>out_stacks := os, wire := wire s @ [segment_frame e a ifc (tcp_final_header tcb2 sk TCP_ACK_FLAG 0)]\<rparr>)"
    and read: "tcp_read rd (op_write (Suc (Suc (Suc m)))) H_tcp p ifc s = sbind (remove_head t s1) (\<lambda>s. Inr (None, s))"
    using tcp_read_payload [OF at path seg ord st flags ack data, of rd m] top
    by (auto simp del: op_write.simps)
  let ?h = "tcp_final_header tcb2 sk TCP_ACK_FLAG 0"
  let ?s = "put_in p (above_tcp (with_tcp ips) ta k (tcb_id tcb)) (received p ips t tcb bb s)
      \<lparr>out_stacks := os, wire := wire s @ [segment_frame e a ifc ?h]\<rparr>"
  let ?tcb = "(tcb_sending tcb2 sk TCP_ACK_FLAG 0)\<lparr>tcb_out_buffer := ob\<rparr>"
  have eq: "s1 = put_tcb t ?tcb ?s" by (simp add: s1 received_def put_tcb_def put_in_def)
  obtain b2 where rem: "remove_head t (put_tcb t ?tcb ?s) = Inr (put_tcb t (?tcb\<lparr>tcb_in_buffer := b2\<rparr>) ?s)"
    and idle: "idle (put_tcb t (?tcb\<lparr>tcb_in_buffer := b2\<rparr>) ?s) k t (?tcb\<lparr>tcb_in_buffer := b2\<rparr>) sk"
    using after_fall [OF arr, of ?tcb ?s] ob by (auto simp: tcb2)
  let ?s2 = "put_tcb t (?tcb\<lparr>tcb_in_buffer := b2\<rparr>) ?s"
  have "keeps_routes s ?s2" by (rule keeps_routes_cong) (simp_all add: put_tcb_def)
  moreover have "keeps_app s ?s2" "callbacks ?s2 = callbacks s" "wire ?s2 = wire s @ [segment_frame e a ifc ?h]"
    by (simp_all add: keeps_app_def put_tcb_def received_def put_in_def)
  ultimately show ?thesis
    using read rem idle eq st
    by (intro exI [of _ ?s2] exI [of _ ?h] exI [of _ "?tcb\<lparr>tcb_in_buffer := b2\<rparr>"])
      (simp add: tcb2 tcb_answered_def conversation_of_def advance_def plain_ack_def del: op_write.simps)
qed

lemma request_routed [simp]:
  "request (routed p frame eh iph' m m' s) bs iph hdr k t tcb sk = request s bs iph hdr k t tcb sk"
  by (simp add: request_def) (simp add: routed_def put_in_def)

lemma routed_custom [simp]: "custom_priv (routed p frame eh iph m m' s) = custom_priv s"
  by (simp add: routed_def put_in_def)

lemma worker_request:
  fixes s :: "'a stack_mem_scheme"
  assumes frame: "tcp_frame frame ifc eh iph hdr" and route: "routes_tcp s m m'"
    and req: "request s bs iph hdr k t tcb sk" and n: "8 \<le> n"
  shows "\<exists>s' ack dat tcb'. worker_packet [H_ethernet] n p (Some frame) ifc s = Inr s' \<and>
    wire s' = wire s @ [segment_frame (eth_return eh) (ip_return iph) ifc ack,
      data_frame (eth_return eh) (ip_return iph) ifc dat bs] \<and>
    answers_request (conversation_of tcb) (sk_port sk) (tcb_remote_port tcb) (tcp_get_payload_length iph hdr) bs ack dat \<and>
    idle s' k t tcb' sk \<and> tcb_answered tcb hdr (tcp_get_payload_length iph hdr) bs tcb' \<and>
    custom_priv s' = custom_priv s \<and>
    keeps_routes (s\<lparr>ethernet_type_to_handler := m, ip_type_to_handler := m'\<rparr>) s'"
proof -
  obtain j where j: "n = Suc (Suc (Suc (Suc (Suc (Suc (Suc (Suc j)))))))"
    using n by (auto simp: numeral_eq_Suc Suc_le_eq less_iff_Suc_add)
  have req': "request (routed p frame eh iph m m' s) bs iph hdr k t tcb sk" using req by simp
  obtain s' ack dat tcb' where
    read: "tcp_read (op_read (Suc (Suc (Suc (Suc (Suc j)))))) (op_write (Suc (Suc (Suc (Suc (Suc j)))))) H_tcp p ifc
      (routed p frame eh iph m m' s) = Inr (None, s')"
    and rest: "wire s' = wire s @ [segment_frame (eth_return eh) (ip_return iph) ifc ack,
        data_frame (eth_return eh) (ip_return iph) ifc dat bs]"
      "answers_request (conversation_of tcb) (sk_port sk) (tcb_remote_port tcb) (tcp_get_payload_length iph hdr) bs ack dat"
      "idle s' k t tcb' sk" "tcb_answered tcb hdr (tcp_get_payload_length iph hdr) bs tcb'"
      "custom_priv s' = custom_priv s" "keeps_routes (routed p frame eh iph m m' s) s'"
    using tcp_read_request [OF in_at_routed above_ip_path [OF frame] req', of j] by auto
  note ran = worker_in_order [OF frame route read]
  show ?thesis
    using ran rest j keeps_routes_worker [OF rest(6)]
    by (intro exI [of _ "s'\<lparr>in_stacks := (in_stacks s')(p := None)\<rparr>"] exI [of _ ack] exI [of _ dat] exI [of _ tcb'])
      (simp del: worker_packet.simps)
qed

section \<open>A sequence of requests\<close>

text \<open>An established connection, ready for requests, and a sequence of requests that follow each other.\<close>

definition serving ::
  "'a upper_mem_scheme \<Rightarrow> interface_t \<Rightarrow> u8 list \<Rightarrow> nat \<Rightarrow> nat \<Rightarrow> tcb_t \<Rightarrow> tcp_socket_t \<Rightarrow> bool" where
  "serving s ifc bs k t tcb sk \<longleftrightarrow>
     idle s k t tcb sk \<and> tcb_state tcb = ESTABLISHED \<and> state_function tcb = Tcp_others \<and> routes_head s \<and>
     tcp_get_socket (ipv4_addr ifc) (sk_port sk) s = Inr (Some k) \<and>
     (\<exists>c. sk_next_handler sk = Some (H_custom c) \<and> custom_response (custom_priv s c) = Inr bs) \<and>
     length bs \<le> 0xFFFF - 54 \<and> length bs \<le> unat (ntohs (send_window tcb)) \<and>
     unat (receive_next tcb) + unat (receive_window tcb) < 2 ^ 32"

type_synonym request_frame = "mem8 \<times> ethernet_header_t \<times> ipv4_header_t \<times> tcp_header_t"

fun requests_follow ::
  "interface_t \<Rightarrow> u32 \<Rightarrow> u16 \<Rightarrow> u8 list \<Rightarrow> conversation \<Rightarrow> request_frame list \<Rightarrow> bool" where
  "requests_follow ifc cid port bs v [] = True"
| "requests_follow ifc cid port bs v ((frame, eh, iph, hdr) # rs) \<longleftrightarrow>
     (let n = tcp_get_payload_length iph hdr in
      tcp_frame frame ifc eh iph hdr \<and> tcb_header_to_connection_id iph hdr = cid \<and> th_destination_port hdr = port \<and>
      \<not> has_flag hdr TCP_RST_FLAG \<and> \<not> has_flag hdr TCP_SYN_FLAG \<and> has_flag hdr TCP_ACK_FLAG \<and>
      \<not> has_flag hdr TCP_FIN_FLAG \<and> ntohl (th_sequence_num hdr) = next_in v \<and>
      ntohl (th_acknowledgement_num hdr) \<le> next_out v \<and> n \<noteq> 0 \<and> n \<le> window_left v \<and>
      length bs \<le> unat (th_window hdr) \<and> requests_follow ifc cid port bs (advance n bs v) rs)"

text \<open>The frames that answer them.\<close>

fun requests_answered ::
  "interface_t \<Rightarrow> u16 \<Rightarrow> u16 \<Rightarrow> u8 list \<Rightarrow> conversation \<Rightarrow> request_frame list \<Rightarrow> u8 list list \<Rightarrow> bool" where
  "requests_answered ifc port remote bs v [] fs \<longleftrightarrow> fs = []"
| "requests_answered ifc port remote bs v ((frame, eh, iph, hdr) # rs) fs \<longleftrightarrow>
     (let n = tcp_get_payload_length iph hdr in
      \<exists>ack dat fs'. fs = segment_frame (eth_return eh) (ip_return iph) ifc ack #
          data_frame (eth_return eh) (ip_return iph) ifc dat bs # fs' \<and>
        answers_request v port remote n bs ack dat \<and>
        requests_answered ifc port remote bs (advance n bs v) rs fs')"

lemma window_takes:
  assumes "receive_next tcb = ntohl (th_sequence_num hdr)" and "n \<noteq> 0" and "n \<le> receive_window tcb"
    and "unat (receive_next tcb) + unat (receive_window tcb) < 2 ^ 32"
  shows "is_segment_in_window tcb hdr (ucast n)"
proof -
  let ?r = "receive_next tcb" and ?w = "receive_window tcb"
  have stop: "unat (?r + ucast ?w) = unat ?r + unat ?w"
    using assms(4) by (simp add: unat_add_u32 unat_ucast_u16_u32)
  have n: "0 < unat n" "unat n \<le> unat ?w" using assms(2,3) by (simp_all add: word_le_nat_alt unat_gt_0)
  have "unat (?r + ucast n) = unat ?r + unat n"
    using assms(4) n by (simp add: unat_add_u32 unat_ucast_u16_u32)
  moreover from this n have "?r + ucast n \<noteq> 0" by (metis add_gr_0 less_numeral_extra(3) unat_0)
  ultimately have "unat (?r + ucast n - 1) = unat ?r + unat n - 1" by (simp add: unat_minus_one)
  moreover have "(ucast n :: u32) \<noteq> 0" "?w \<noteq> 0" using n by (auto simp: unat_eq_zero [symmetric])
  ultimately show ?thesis
    using assms(1) stop n by (simp add: is_segment_in_window_def Let_def word_less_nat_alt)
qed

lemma acked_window:
  "send_window (tcb_acked tcb hdr) = send_window tcb \<or> send_window (tcb_acked tcb hdr) = ntohs (th_window hdr)"
  by (simp add: tcb_acked_def Let_def)

lemma serving_request:
  assumes "serving s ifc bs k t tcb sk"
    and "requests_follow ifc (tcb_id tcb) (sk_port sk) bs (conversation_of tcb) ((frame, eh, iph, hdr) # rs)"
  shows "request s bs iph hdr k t tcb sk"
proof -
  have "ih_destination_ip iph = ipv4_addr ifc" using assms(2) by (simp add: tcp_frame_def Let_def)
  moreover have "is_segment_in_window tcb hdr (ucast (tcp_get_payload_length iph hdr))"
    using assms by (intro window_takes) (auto simp: serving_def conversation_of_def Let_def)
  moreover have "length bs \<le> unat (ntohs (send_window (tcb_acked tcb hdr)))"
    using assms acked_window [of tcb hdr] by (auto simp: serving_def Let_def)
  ultimately show ?thesis
    using assms by (auto simp: request_def in_order_def serving_def conversation_of_def Let_def)
qed

lemma serving_again:
  fixes s s' :: "'a stack_mem_scheme"
  assumes sv: "serving s ifc bs k t tcb sk" and n: "n \<le> receive_window tcb" and w: "length bs \<le> unat (th_window hdr)"
    and idle: "idle s' k t tcb' sk" and ans: "tcb_answered tcb hdr n bs tcb'" and priv: "custom_priv s' = custom_priv s"
    and keep: "keeps_routes (s\<lparr>ethernet_type_to_handler := m, ip_type_to_handler := m'\<rparr>) s'"
    and head: "\<forall>s' :: 'a stack_mem_scheme. ethernet_type_to_handler s' = m \<longrightarrow> ip_type_to_handler s' = m' \<longrightarrow> routes_head s'"
  shows "serving s' ifc bs k t tcb' sk"
proof -
  have "tcp_get_socket ip port s' = tcp_get_socket ip port s" for ip port
    using keep get_socket_cong [of "s\<lparr>ethernet_type_to_handler := m, ip_type_to_handler := m'\<rparr>" s]
    by (simp add: keeps_routes_def)
  moreover have "routes_head s'" using head keep by (simp add: keeps_routes_def)
  moreover have "length bs \<le> unat (ntohs (send_window tcb'))"
    using sv w ans acked_window [of tcb hdr] by (auto simp: serving_def tcb_answered_def)
  moreover have "unat (receive_next tcb') + unat (receive_window tcb') < 2 ^ 32"
  proof -
    have "unat (receive_window tcb - n) = unat (receive_window tcb) - unat n" "unat n \<le> unat (receive_window tcb)"
      using n by (simp_all add: unat_sub word_le_nat_alt)
    moreover have "receive_next tcb' = receive_next tcb + ucast n" "receive_window tcb' = receive_window tcb - n"
      using ans by (simp_all add: tcb_answered_def conversation_of_def advance_def)
    ultimately show ?thesis using sv by (simp add: serving_def unat_add_u32 unat_ucast_u16_u32)
  qed
  ultimately show ?thesis using sv idle ans priv by (auto simp: serving_def tcb_answered_def)
qed

lemma requests_run:
  fixes s :: "'a stack_mem_scheme"
  assumes "serving s ifc bs k t tcb sk" and "8 \<le> n"
    and "requests_follow ifc (tcb_id tcb) (sk_port sk) bs (conversation_of tcb) rs"
  shows "\<exists>s' tcb' fs. consume_tasks (map (\<lambda>r. (fst r, ifc)) rs) [H_ethernet] n p s = Inr s' \<and> wire s' = wire s @ fs \<and>
    requests_answered ifc (sk_port sk) (tcb_remote_port tcb) bs (conversation_of tcb) rs fs \<and>
    serving s' ifc bs k t tcb' sk \<and> tcb_id tcb' = tcb_id tcb \<and>
    conversation_of tcb' = fold (\<lambda>(_, _, iph, hdr). advance (tcp_get_payload_length iph hdr) bs) rs (conversation_of tcb)"
  using assms(1,3)
proof (induction rs arbitrary: s tcb)
  case Nil
  then show ?case by (intro exI [of _ s] exI [of _ tcb] exI [of _ "[]"]) simp
next
  case (Cons r rs)
  obtain frame eh iph hdr where r: "r = (frame, eh, iph, hdr)" by (cases r)
  let ?n = "tcp_get_payload_length iph hdr"
  have follow: "requests_follow ifc (tcb_id tcb) (sk_port sk) bs (conversation_of tcb) ((frame, eh, iph, hdr) # rs)"
    using Cons.prems(2) by (simp only: r)
  then have hd: "tcp_frame frame ifc eh iph hdr" "?n \<le> receive_window tcb" "length bs \<le> unat (th_window hdr)"
    "requests_follow ifc (tcb_id tcb) (sk_port sk) bs (advance ?n bs (conversation_of tcb)) rs"
    by (simp_all add: Let_def conversation_of_def)
  have "routes_head s" using Cons.prems(1) by (simp add: serving_def)
  then obtain m m' where route: "routes_tcp s m m'" and again:
    "\<forall>s' :: 'a stack_mem_scheme. ethernet_type_to_handler s' = m \<longrightarrow> ip_type_to_handler s' = m' \<longrightarrow> routes_head s'"
    by (rule routes_headE)
  from worker_request [OF hd(1) route serving_request [OF Cons.prems(1) follow] assms(2), of p]
  obtain s1 ack dat tcb1 where w: "worker_packet [H_ethernet] n p (Some frame) ifc s = Inr s1"
    "wire s1 = wire s @ [segment_frame (eth_return eh) (ip_return iph) ifc ack,
      data_frame (eth_return eh) (ip_return iph) ifc dat bs]"
    "answers_request (conversation_of tcb) (sk_port sk) (tcb_remote_port tcb) ?n bs ack dat"
    "idle s1 k t tcb1 sk" "tcb_answered tcb hdr ?n bs tcb1" "custom_priv s1 = custom_priv s"
    "keeps_routes (s\<lparr>ethernet_type_to_handler := m, ip_type_to_handler := m'\<rparr>) s1" by blast
  have tcb1: "tcb_id tcb1 = tcb_id tcb" "tcb_remote_port tcb1 = tcb_remote_port tcb"
    "conversation_of tcb1 = advance ?n bs (conversation_of tcb)"
    using w(5) by (simp_all add: tcb_answered_def)
  have "serving s1 ifc bs k t tcb1 sk" by (rule serving_again [OF Cons.prems(1) hd(2,3) w(4-7) again])
  from Cons.IH [OF this] hd(4) obtain s' tcb' fs where
    IH: "consume_tasks (map (\<lambda>r. (fst r, ifc)) rs) [H_ethernet] n p s1 = Inr s'" "wire s' = wire s1 @ fs"
    "requests_answered ifc (sk_port sk) (tcb_remote_port tcb) bs (advance ?n bs (conversation_of tcb)) rs fs"
    "serving s' ifc bs k t tcb' sk" "tcb_id tcb' = tcb_id tcb"
    "conversation_of tcb' = fold (\<lambda>(_, _, iph, hdr). advance (tcp_get_payload_length iph hdr) bs) rs
      (advance ?n bs (conversation_of tcb))" unfolding tcb1 by blast
  show ?case
    using w(1,2,3) IH
    by (intro exI [of _ s'] exI [of _ tcb'] exI [of _ "segment_frame (eth_return eh) (ip_return iph) ifc ack #
          data_frame (eth_return eh) (ip_return iph) ifc dat bs # fs"])
      (simp add: r Let_def del: worker_packet.simps, blast)
qed

text \<open>C4: a server on this stack: an established connection whose socket passes data to a custom
  handler with a preset response, and any sequence of requests of the client that follow
  each other and fit the receive window. For every request exactly two segments go out, in
  this order: the acknowledgement of the request and the response, both with the sequence
  number that follows the responses so far and the acknowledgement number that follows the
  requests so far. Afterwards the connection is ready for more, with the window smaller by
  all the bytes received.\<close>

theorem requests_answered_in_order:
  fixes s :: "'a stack_mem_scheme"
  assumes "serving s ifc bs k t tcb sk" and "8 \<le> n"
    and "requests_follow ifc (tcb_id tcb) (sk_port sk) bs (conversation_of tcb) rs"
  shows "\<exists>s' tcb' fs. consume_tasks (map (\<lambda>r. (fst r, ifc)) rs) [H_ethernet] n p s = Inr s' \<and> wire s' = wire s @ fs \<and>
    requests_answered ifc (sk_port sk) (tcb_remote_port tcb) bs (conversation_of tcb) rs fs \<and>
    serving s' ifc bs k t tcb' sk \<and>
    conversation_of tcb' = fold (\<lambda>(_, _, iph, hdr). advance (tcp_get_payload_length iph hdr) bs) rs (conversation_of tcb)"
  using requests_run [OF assms] by blast

text \<open>An example: the server answers every request with two bytes.\<close>

definition example_serving :: stack_mem where
  "example_serving = custom_set_response 0 (Some [104, 105]) 2 ((example_open ESTABLISHED)
     \<lparr>sockets := [example_open_socket\<lparr>sk_next_handler := Some (H_custom 0)\<rparr>]\<rparr>)"

lemma example_serving_ready:
  "serving example_serving example_interface [104, 105] 0 0 (example_conn ESTABLISHED)
     (example_open_socket\<lparr>sk_next_handler := Some (H_custom 0)\<rparr>)"
proof -
  let ?tcb = "example_conn ESTABLISHED" and ?sk = "example_open_socket\<lparr>sk_next_handler := Some (H_custom 0)\<rparr>"
  have "idle example_serving 0 0 ?tcb ?sk"
    using example_empty_queue example_id_nonzero
    by (simp add: idle_def connected_def tcp_get_transmission_control_block_def sock_at_def tcb_at_def
        example_serving_def custom_set_response_def example_open_def example_open_socket_def) (simp add: example_conn_def)
  moreover have "routes_head example_serving"
    using example_syn_known(1)
    by (simp add: routes_head_def example_serving_def custom_set_response_def example_open_def)
  moreover have "tcp_get_socket (ipv4_addr example_interface) (sk_port ?sk) example_serving = Inr (Some 0)"
    by (simp add: tcp_get_socket_def example_serving_def custom_set_response_def example_open_def example_server_state
        sock_at_def example_open_socket_def example_socket_def example_interface_def)
  moreover have "custom_response (custom_priv example_serving 0) = Inr [104, 105]"
    by (simp add: example_serving_def custom_set_response_def custom_response_def)
  ultimately show ?thesis
    by (simp add: serving_def) (simp add: example_conn_def bswap16_def join16_def)
qed

lemma example_data_payload:
  assumes "ih_total_length iph = htons (40 + of_nat l)" and "ih_flags_1 iph = 0x45"
  shows "tcp_get_payload_length iph (example_segment f sq ak) = of_nat l"
  using assms by (simp add: tcp_get_payload_length_def example_segment_def TCP_DATA_OFFSET_MASK_def IPV4_IHL_MASK_def)

theorem requests_answered_in_order_witness:
  "\<exists>s' e1 i1 e2 i2 a1 d1 a2 d2.
     consume_tasks [(example_data_frame (example_segment 24 8 643) [71], example_interface),
       (example_data_frame (example_segment 24 9 645) [69, 84], example_interface)] [H_ethernet] 8 0 example_serving = Inr s' \<and>
     wire s' = wire example_serving @
       [segment_frame e1 i1 example_interface a1, data_frame e1 i1 example_interface d1 [104, 105],
        segment_frame e2 i2 example_interface a2, data_frame e2 i2 example_interface d2 [104, 105]] \<and>
     th_acknowledgement_num a1 = htonl 9 \<and> th_sequence_num d1 = htonl 643 \<and>
     th_acknowledgement_num a2 = htonl 11 \<and> th_sequence_num d2 = htonl 645 \<and> th_window d2 = htons 4093"
proof -
  let ?h1 = "example_segment 24 8 643" and ?h2 = "example_segment 24 9 645"
  let ?tcb = "example_conn ESTABLISHED" and ?sk = "example_open_socket\<lparr>sk_next_handler := Some (H_custom 0)\<rparr>"
  obtain eh1 iph1 where f1: "tcp_frame (example_data_frame ?h1 [71]) example_interface eh1 iph1 ?h1"
    "ih_total_length iph1 = htons (40 + of_nat 1)" "ih_flags_1 iph1 = 0x45"
    using example_data_received [of "[71]" ?h1] by auto
  obtain eh2 iph2 where f2: "tcp_frame (example_data_frame ?h2 [69, 84]) example_interface eh2 iph2 ?h2"
    "ih_total_length iph2 = htons (40 + of_nat 2)" "ih_flags_1 iph2 = 0x45"
    using example_data_received [of "[69, 84]" ?h2] by auto
  let ?rs = "[(example_data_frame ?h1 [71], eh1, iph1, ?h1), (example_data_frame ?h2 [69, 84], eh2, iph2, ?h2)]"
  note len = example_data_payload [OF f1(2,3)] example_data_payload [OF f2(2,3)]
  have conv: "conversation_of ?tcb = \<lparr>next_in = 8, window_left = 4096, next_out = 643\<rparr>"
    by (simp add: conversation_of_def example_conn_def)
  have seg: "has_flag (example_segment 24 sq ak) TCP_ACK_FLAG" "\<not> has_flag (example_segment 24 sq ak) TCP_RST_FLAG"
    "\<not> has_flag (example_segment 24 sq ak) TCP_SYN_FLAG" "\<not> has_flag (example_segment 24 sq ak) TCP_FIN_FLAG"
    "th_destination_port (example_segment 24 sq ak) = sk_port ?sk" "ntohl (th_sequence_num (example_segment 24 sq ak)) = sq"
    "ntohl (th_acknowledgement_num (example_segment 24 sq ak)) = ak" "Suc (Suc 0) \<le> unat (th_window (example_segment 24 sq ak))"
    for sq ak
    by (simp_all add: has_flag_def example_segment_def TCP_SYN_FLAG_def TCP_RST_FLAG_def TCP_ACK_FLAG_def
        TCP_FIN_FLAG_def example_open_socket_def example_socket_def bswap16_def join16_def)
  have "requests_follow example_interface (tcb_id ?tcb) (sk_port ?sk) [104, 105] (conversation_of ?tcb) ?rs"
    using f1(1) f2(1) example_id_of seg len by (simp add: conv advance_def) (simp add: example_conn_def)
  from requests_answered_in_order [OF example_serving_ready _ this, of 8 0]
  obtain s' fs where "consume_tasks (map (\<lambda>r. (fst r, example_interface)) ?rs) [H_ethernet] 8 0 example_serving = Inr s'"
    and "wire s' = wire example_serving @ fs"
    and "requests_answered example_interface (sk_port ?sk) (tcb_remote_port ?tcb) [104, 105] (conversation_of ?tcb) ?rs fs"
    by (auto simp del: consume_tasks.simps)
  then show ?thesis
    by (simp add: conv len advance_def answers_request_def del: consume_tasks.simps) (elim exE conjE, blast)
qed

section \<open>Sending\<close>

text \<open>A connection that a program has opened, with the arguments it opened it with.\<close>

definition can_send ::
  "'a tcp_mem_scheme \<Rightarrow> ethernet_write_args_t \<Rightarrow> ipv4_write_args_t \<Rightarrow> nat \<Rightarrow> nat \<Rightarrow> tcb_t \<Rightarrow> tcp_socket_t \<Rightarrow> bool" where
  "can_send s e a k t tcb sk \<longleftrightarrow> connected s k t tcb sk \<and>
     (\<exists>c ca. active_mode_args tcb = Some c \<and> client_args s c = Some ca \<and>
        tcp_client_args ca e a (sk_interface sk) \<and> ca_handlers ca ! 2 = Some H_tcp)"

text \<open>A program that sends one buffer after the other.\<close>

primrec send_all ::
  "'a tcp_mem_scheme writer \<Rightarrow> nat \<Rightarrow> u32 \<Rightarrow> u8 list list \<Rightarrow> 'a tcp_mem_scheme \<Rightarrow>
   fault + (bool list \<times> 'a tcp_mem_scheme)" where
  "send_all wr k cid [] s = Inr ([], s)"
| "send_all wr k cid (b # bs) s =
     sbind (tcp_socket_send wr k cid b s) (\<lambda>(ok, s).
     sbind (send_all wr k cid bs s) (\<lambda>(oks, s). Inr (ok # oks, s)))"

text \<open>One segment per buffer, with consecutive sequence numbers.\<close>

fun sent_in_order ::
  "ethernet_write_args_t \<Rightarrow> ipv4_write_args_t \<Rightarrow> tcp_socket_t \<Rightarrow> tcb_t \<Rightarrow> u32 \<Rightarrow> u8 list list \<Rightarrow> u8 list list \<Rightarrow> bool" where
  "sent_in_order e a sk tcb nxt [] fs \<longleftrightarrow> fs = []"
| "sent_in_order e a sk tcb nxt (b # bs) fs \<longleftrightarrow>
     (\<exists>h fs'. fs = data_frame e a (sk_interface sk) h b # fs' \<and> th_sequence_num h = htonl nxt \<and>
        th_acknowledgement_num h = htonl (receive_next tcb) \<and>
        th_control_bits h = TCP_ACK_FLAG OR TCP_PSH_FLAG \<and> th_window h = htons (receive_window tcb) \<and>
        th_source_port h = sk_port sk \<and> th_destination_port h = tcb_remote_port tcb \<and>
        sent_in_order e a sk tcb (nxt + of_nat (length b)) bs fs')"

lemma or_or_flag: "((x :: u8) OR y) OR y = x OR y"
  by (simp add: or.assoc)

lemma send_run:
  fixes s :: "'a stack_mem_scheme"
  assumes can: "can_send s e a k t tcb sk"
    and fits: "length bs \<le> 0xFFFF - 54" "length bs \<le> unat (ntohs (send_window tcb))"
  shows "\<exists>s' bb. tcp_socket_send (op_write (Suc (Suc (Suc m)))) k (tcb_id tcb) bs s = Inr (True, s') \<and>
    wire s' = wire s @ [data_frame e a (sk_interface sk)
      (tcp_final_header tcb sk (TCP_ACK_FLAG OR TCP_PSH_FLAG) (of_nat (length bs))) bs] \<and>
    can_send s' e a k t ((tcb_sending tcb sk (TCP_ACK_FLAG OR TCP_PSH_FLAG) (of_nat (length bs)))\<lparr>tcb_out_buffer := bb\<rparr>) sk \<and>
    keeps_routes s s' \<and> callbacks s' = callbacks s"
proof -
  let ?fl = "TCP_ACK_FLAG OR TCP_PSH_FLAG" and ?l = "of_nat (length bs) :: u64" and ?ifc = "sk_interface sk"
  obtain c ca where c: "active_mode_args tcb = Some c" "client_args s c = Some ca" "tcp_client_args ca e a ?ifc"
    "ca_handlers ca ! 2 = Some H_tcp" and conn: "connected s k t tcb sk"
    using can by (auto simp: can_send_def)
  let ?args = "Tcp_args \<lparr>ta_connection_id = tcb_id tcb, ta_socket = Some k, ta_flags = ?fl\<rparr>"
  let ?ca = "ca\<lparr>ca_handler_args := (ca_handler_args ca)[2 := Some ?args]\<rparr>"
  let ?s1 = "s\<lparr>client_args := (client_args s)(c := Some ?ca)\<rparr>"
  have args: "set_top_args (active_mode_args tcb) ?args s = Inr (?ca, ?s1)"
    using c by (simp add: set_top_args_def tcp_client_args_def Let_def)
  let ?off = "DEFAULT_PACKAGE_BUFFER_SIZE - ?l" and ?out = "length (out_stacks s)"
  let ?qs = "\<lparr>out_handlers = ca_handlers ca, out_args = ca_handler_args ?ca,
      out_buffer = \<lparr>buffer = store_bytes (malloc_bytes s ?out) (unat ?off) bs, ob_size = DEFAULT_PACKAGE_BUFFER_SIZE,
        ob_offset = ?off\<rparr>, out_stack_idx = 2\<rparr>"
  let ?s2 = "?s1\<lparr>out_stacks := out_stacks s @ [?qs]\<rparr>"
  have off: "unat ?off = 0xFFFF - length bs"
    using unat_minus_of_nat [of "length bs" DEFAULT_PACKAGE_BUFFER_SIZE] fits(1)
    by (simp add: DEFAULT_PACKAGE_BUFFER_SIZE_def)
  have call: "tcp_socket_send wr k (tcb_id tcb) bs s = wr H_tcp ?out ?ifc ?s2" for wr
    using conn args c fits(1)
    by (simp add: tcp_socket_send_def connected_def new_out_stack_def tcp_client_args_def out_at_def sock_at_def
        put_out_def Let_def DEFAULT_PACKAGE_BUFFER_SIZE_def split: if_split_asm)
  have qs: "out_at ?s2 ?out = Inr ?qs" "wf_out ?qs" "frame_of ?qs = bs"
    using c(3) off fits(1)
    by (simp_all add: out_at_def wf_out_def tcp_client_args_def frame_of_def word_le_nat_alt DEFAULT_PACKAGE_BUFFER_SIZE_def)
  have conn2: "connected ?s2 k t tcb sk" using conn connected_cong [of ?s2 s] by simp
  obtain bb ps' where bb: "bb_invar bb" "bb_list bb = []"
    and sent: "op_write (Suc (Suc (Suc m))) H_tcp ?out ?ifc ?s2 =
      Inr (True, put_tcb t ((tcb_sending tcb sk ?fl ?l)\<lparr>tcb_out_buffer := bb\<rparr>)
        (put_out ?out ps' ?s2\<lparr>wire := wire ?s2 @ [data_frame e a ?ifc (tcp_final_header tcb sk ?fl ?l) bs]\<rparr>))"
    using data_sends [OF conn2 qs(1,2), of ?fl a e ?ifc bs m] c qs(3) fits
    by (auto simp: tcp_client_args_def simp del: op_write.simps)
  let ?tcb = "(tcb_sending tcb sk ?fl ?l)\<lparr>tcb_out_buffer := bb\<rparr>"
  let ?s3 = "put_out ?out ps' ?s2\<lparr>wire := wire s @ [data_frame e a ?ifc (tcp_final_header tcb sk ?fl ?l) bs]\<rparr>"
  have "connected ?s3 k t tcb sk" using conn connected_cong [of ?s3 s] by simp
  then have "connected (put_tcb t ?tcb ?s3) k t ?tcb sk" by (rule connected_put_tcb) (simp_all add: bb)
  then have "can_send (put_tcb t ?tcb ?s3) e a k t ?tcb sk"
    using c by (auto simp: can_send_def tcp_client_args_def put_tcb_def put_out_def)
  moreover have "keeps_routes s (put_tcb t ?tcb ?s3)"
    by (rule keeps_routes_cong) (simp_all add: put_tcb_def put_out_def)
  moreover have "callbacks (put_tcb t ?tcb ?s3) = callbacks s" by (simp add: put_tcb_def put_out_def)
  ultimately show ?thesis
    using sent by (intro exI [of _ "put_tcb t ?tcb ?s3"] exI [of _ bb]) (simp add: call del: op_write.simps)
qed

lemma send_all_run:
  fixes s :: "'a stack_mem_scheme"
  assumes "can_send s e a k t tcb sk" and "\<forall>b \<in> set bs. b \<noteq> [] \<and> length b \<le> 0xFFFF - 54 \<and> length b \<le> unat (ntohs (send_window tcb))"
  shows "\<exists>s' fs tcb'. send_all (op_write (Suc (Suc (Suc m)))) k (tcb_id tcb) bs s = Inr (replicate (length bs) True, s') \<and>
    wire s' = wire s @ fs \<and> sent_in_order e a sk tcb (send_next tcb) bs fs \<and> can_send s' e a k t tcb' sk \<and>
    send_next tcb' = send_next tcb + of_nat (length (concat bs))"
  using assms
proof (induction bs arbitrary: s tcb)
  case Nil
  then show ?case by (intro exI [of _ s] exI [of _ "[]"] exI [of _ tcb]) simp
next
  case (Cons b bs)
  let ?fl = "TCP_ACK_FLAG OR TCP_PSH_FLAG" and ?l = "of_nat (length b) :: u64"
  let ?h = "tcp_final_header tcb sk ?fl ?l"
  from send_run [OF Cons.prems(1), of b m] Cons.prems(2) obtain s1 bb where
    w: "tcp_socket_send (op_write (Suc (Suc (Suc m)))) k (tcb_id tcb) b s = Inr (True, s1)"
      "wire s1 = wire s @ [data_frame e a (sk_interface sk) ?h b]"
    and can: "can_send s1 e a k t ((tcb_sending tcb sk ?fl ?l)\<lparr>tcb_out_buffer := bb\<rparr>) sk"
    by auto
  let ?tcb = "(tcb_sending tcb sk ?fl ?l)\<lparr>tcb_out_buffer := bb\<rparr>"
  have same: "sent_in_order e a sk ?tcb nxt bs fs = sent_in_order e a sk tcb nxt bs fs" for nxt bs fs
    by (induction bs arbitrary: nxt fs) simp_all
  from Cons.IH [OF can] Cons.prems(2) obtain s' fs tcb' where
    IH: "send_all (op_write (Suc (Suc (Suc m)))) k (tcb_id tcb) bs s1 = Inr (replicate (length bs) True, s')"
      "wire s' = wire s1 @ fs" "sent_in_order e a sk tcb (send_next tcb + of_nat (length b)) bs fs"
      "can_send s' e a k t tcb' sk" "send_next tcb' = send_next tcb + of_nat (length b) + of_nat (length (concat bs))"
    unfolding same by (auto simp del: op_write.simps)
  have "?l \<noteq> 0" using Cons.prems(2) of_nat_length_u64 [of b] by auto
  then have "sent_in_order e a sk tcb (send_next tcb) (b # bs) (data_frame e a (sk_interface sk) ?h b # fs)"
    using IH(3) by (simp add: or_or_flag) (intro exI [of _ ?h], simp add: or_or_flag)
  with w IH show ?case
    by (intro exI [of _ s'] exI [of _ "data_frame e a (sk_interface sk) ?h b # fs"] exI [of _ tcb'])
      (simp add: add.assoc del: op_write.simps sent_in_order.simps)
qed


text \<open>An example: the machine of \<open>Tcp_Active\<close> with a connection to its client.\<close>

definition example_active_conn :: tcb_t where
  "example_active_conn = (example_conn ESTABLISHED)\<lparr>active_mode := True, active_mode_args := Some 5\<rparr>"

definition example_sending :: stack_mem where
  "example_sending = (example_open ESTABLISHED)\<lparr>client_args := [5 \<mapsto> example_client_args], tcbs := [Some example_active_conn]\<rparr>"

lemma example_can_send:
  "can_send example_sending \<lparr>ea_destination = [2, 0, 0, 0, 0, 9], ea_ethernet_type = htons ETHERNET_TYPE_IPV4\<rparr>
     \<lparr>ia_destination_ip = 0x0900000A, ia_protocol = 6\<rparr> 0 0 example_active_conn example_open_socket"
proof -
  have "connected example_sending 0 0 example_active_conn example_open_socket"
    using example_empty_queue example_id_nonzero
    by (simp add: connected_def tcp_get_transmission_control_block_def sock_at_def tcb_at_def example_sending_def
        example_open_def example_server_state example_open_socket_def example_active_conn_def) (simp add: example_conn_def)
  then show ?thesis
    by (simp add: can_send_def example_sending_def example_active_conn_def tcp_client_args_def example_client_args_def
        example_open_socket_def example_socket_def example_interface_def)
qed


end
