(* ===== verification/Tcp_Window.thy ===== *)
theory Tcp_Window
  imports Tcp_Stream
begin

text \<open>
  The receive window of a connection. \<^verbatim>\<open>tcp_receive_payload\<close> subtracts what it has received, and
  nothing adds to the window when the data has been handed on: once the client has sent as
  many bytes as were announced, the connection takes no more data.
\<close>

section \<open>A segment outside the window\<close>

lemma closed_window_refuses:
  fixes n :: u16
  assumes "receive_window tcb = 0" and "n \<noteq> 0"
  shows "\<not> is_segment_in_window tcb hdr (ucast n)"
proof -
  have "(ucast n :: u32) \<noteq> 0" using assms(2) by (simp add: unat_eq_zero [symmetric] unat_ucast_u16_u32)
  then show ?thesis using assms(1) by (simp add: is_segment_in_window_def Let_def)
qed

text \<open>The next segment of a connection that does not lie in the window, without RST.\<close>

definition refused ::
  "'a tcp_mem_scheme \<Rightarrow> ipv4_header_t \<Rightarrow> tcp_header_t \<Rightarrow> nat \<Rightarrow> nat \<Rightarrow> tcb_t \<Rightarrow> tcp_socket_t \<Rightarrow> bool" where
  "refused s iph hdr k t tcb sk \<longleftrightarrow>
     idle s k t tcb sk \<and> tcb_id tcb = tcb_header_to_connection_id iph hdr \<and>
     tcp_get_socket (ih_destination_ip iph) (th_destination_port hdr) s = Inr (Some k) \<and>
     receive_next tcb = ntohl (th_sequence_num hdr) \<and>
     state_function tcb = Tcp_others \<and> tcb_state tcb \<noteq> SYN_SENT \<and> \<not> has_flag hdr TCP_RST_FLAG \<and>
     \<not> is_segment_in_window tcb hdr (ucast (tcp_get_payload_length iph hdr))"

lemma refused_routed [simp]:
  "refused (routed p frame eh iph' m m' s) iph hdr k t tcb sk = refused s iph hdr k t tcb sk"
  using idle_cong [of "routed p frame eh iph' m m' s" s] by (simp add: refused_def)

text \<open>What stays the same in the control block.\<close>

definition same_conversation :: "tcb_t \<Rightarrow> tcb_t \<Rightarrow> bool" where
  "same_conversation tcb tcb' \<longleftrightarrow>
     tcb_id tcb' = tcb_id tcb \<and> tcb_state tcb' = tcb_state tcb \<and> state_function tcb' = state_function tcb \<and>
     tcb_remote_port tcb' = tcb_remote_port tcb \<and> conversation_of tcb' = conversation_of tcb"

definition refusal :: "conversation \<Rightarrow> tcp_header_t \<Rightarrow> bool" where
  "refusal v h \<longleftrightarrow> th_control_bits h = TCP_ACK_FLAG \<and> th_sequence_num h = htonl (next_out v) \<and>
     th_acknowledgement_num h = htonl (next_in v) \<and> th_window h = htons (window_left v)"

lemma tcp_read_refused:
  fixes s :: "'a stack_mem_scheme"
  assumes at: "in_at s p = Inr ips" and path: "reply_path ips e a ifc" and seg: "carries ips ta ia iph hdr"
    and ref: "refused s iph hdr k t tcb sk"
  shows "\<exists>s' reply tcb'. tcp_read rd (op_write (Suc (Suc (Suc m)))) H_tcp p ifc s = Inr (None, s') \<and>
    wire s' = wire s @ [segment_frame e a ifc reply] \<and> refusal (conversation_of tcb) reply \<and>
    idle s' k t tcb' sk \<and> same_conversation tcb tcb' \<and> keeps_routes s s'"
proof -
  let ?wr = "op_write (Suc (Suc (Suc m)))" and ?sg = "segment_of p (with_tcp ips) ta ia"
  have ref': "idle s k t tcb sk" "tcb_id tcb = tcb_header_to_connection_id iph hdr"
    "tcp_get_socket (ih_destination_ip iph) (th_destination_port hdr) s = Inr (Some k)"
    "receive_next tcb = ntohl (th_sequence_num hdr)" "tcb_state tcb \<noteq> SYN_SENT" "state_function tcb = Tcp_others"
    "\<not> has_flag hdr TCP_RST_FLAG" "\<not> is_segment_in_window tcb hdr (ucast (tcp_get_payload_length iph hdr))"
    using ref by (simp_all add: refused_def)
  obtain bb where read: "tcp_read rd ?wr H_tcp p ifc s =
      run_state_function (state_function tcb) (Suc 0) rd ?wr H_tcp t ifc (received p ips t tcb bb s)"
    and arr: "arrived (received p ips t tcb bb s) p (with_tcp ips) ta ia iph hdr k t (tcb\<lparr>tcb_in_buffer := bb\<rparr>) sk"
    using tcp_read_arrived [OF at path seg ref'(3,1,2,4,5), of rd ?wr] unfolding received_def by blast
  let ?r = "received p ips t tcb bb s" and ?tcb = "tcb\<lparr>tcb_in_buffer := bb\<rparr>"
  have path': "reply_path (with_tcp ips) e a ifc" using path by simp
  have conn: "connected ?r k t ?tcb sk" using arr by (simp add: arrived_def)
  have sg: "sg_stack ?sg = p" by (simp add: segment_of_def)
  obtain ob os where ob: "bb_invar ob" "bb_list ob = []"
    and rep: "tcp_reply ?wr H_tcp ?sg (Some k) t TCP_ACK_FLAG ifc ?r =
      Inr (put_tcb t ((tcb_sending ?tcb sk TCP_ACK_FLAG 0)\<lparr>tcb_out_buffer := ob\<rparr>)
        (put_in p ((with_tcp ips)\<lparr>return_args := (return_args (with_tcp ips))[2 := Some (Tcp_args
            \<lparr>ta_connection_id = tcb_id ?tcb, ta_socket = Some k, ta_flags = TCP_ACK_FLAG\<rparr>)]\<rparr>) ?r
          \<lparr>out_stacks := os, wire := wire ?r @ [segment_frame e a ifc (tcp_final_header ?tcb sk TCP_ACK_FLAG 0)]\<rparr>))"
    using tcp_reply_sends [OF conn received_in_at path' sg, of m TCP_ACK_FLAG] by blast
  let ?tcb2 = "(tcb_sending ?tcb sk TCP_ACK_FLAG 0)\<lparr>tcb_out_buffer := ob\<rparr>"
  define s2 where "s2 = put_in p ((with_tcp ips)\<lparr>return_args := (return_args (with_tcp ips))[2 := Some (Tcp_args
            \<lparr>ta_connection_id = tcb_id ?tcb, ta_socket = Some k, ta_flags = TCP_ACK_FLAG\<rparr>)]\<rparr>) ?r
          \<lparr>out_stacks := os, wire := wire ?r @ [segment_frame e a ifc (tcp_final_header ?tcb sk TCP_ACK_FLAG 0)]\<rparr>"
  have same: "tcbs s2 = tcbs ?r" "sockets s2 = sockets ?r" by (simp_all add: s2_def)
  obtain b2 where rem: "remove_head t (put_tcb t ?tcb2 s2) = Inr (put_tcb t (?tcb2\<lparr>tcb_in_buffer := b2\<rparr>) s2)"
    and idle: "idle (put_tcb t (?tcb2\<lparr>tcb_in_buffer := b2\<rparr>) s2) k t (?tcb2\<lparr>tcb_in_buffer := b2\<rparr>) sk"
    using after_fall [OF arr _ _ _ _ same, of ?tcb2] ob by auto
  have "tcp_read rd ?wr H_tcp p ifc s = Inr (None, put_tcb t (?tcb2\<lparr>tcb_in_buffer := b2\<rparr>) s2)"
    using read tcp_others_arrived [OF arr path', of rd ?wr H_tcp] rep rem ref'(6,7,8)
    by (simp add: run_state_function_def s2_def del: op_write.simps)
  moreover have "wire (put_tcb t (?tcb2\<lparr>tcb_in_buffer := b2\<rparr>) s2) =
      wire s @ [segment_frame e a ifc (tcp_final_header ?tcb sk TCP_ACK_FLAG 0)]"
    by (simp add: s2_def put_tcb_def)
  moreover have "keeps_routes s (put_tcb t (?tcb2\<lparr>tcb_in_buffer := b2\<rparr>) s2)"
    by (rule keeps_routes_cong) (simp_all add: s2_def received_def put_tcb_def put_in_def)
  moreover have "refusal (conversation_of tcb) (tcp_final_header ?tcb sk TCP_ACK_FLAG 0)"
    by (simp add: refusal_def conversation_of_def)
  moreover have "same_conversation tcb (?tcb2\<lparr>tcb_in_buffer := b2\<rparr>)"
    by (simp add: same_conversation_def conversation_of_def)
  ultimately show ?thesis using idle by blast
qed

lemma worker_refused:
  fixes s :: "'a stack_mem_scheme"
  assumes frame: "tcp_frame frame ifc eh iph hdr" and route: "routes_tcp s m m'"
    and ref: "refused s iph hdr k t tcb sk" and n: "6 \<le> n"
  shows "\<exists>s' reply tcb'. worker_packet [H_ethernet] n p (Some frame) ifc s = Inr s' \<and>
    wire s' = wire s @ [segment_frame (eth_return eh) (ip_return iph) ifc reply] \<and>
    refusal (conversation_of tcb) reply \<and> idle s' k t tcb' sk \<and> same_conversation tcb tcb' \<and>
    keeps_routes (s\<lparr>ethernet_type_to_handler := m, ip_type_to_handler := m'\<rparr>) s'"
proof -
  obtain j where j: "n = Suc (Suc (Suc (Suc (Suc (Suc j)))))"
    using n by (auto simp: numeral_eq_Suc Suc_le_eq less_iff_Suc_add)
  have ref': "refused (routed p frame eh iph m m' s) iph hdr k t tcb sk" using ref by simp
  obtain s' reply tcb' where
    read: "tcp_read (op_read (Suc (Suc (Suc j)))) (op_write (Suc (Suc (Suc j)))) H_tcp p ifc
      (routed p frame eh iph m m' s) = Inr (None, s')"
    and rest: "wire s' = wire s @ [segment_frame (eth_return eh) (ip_return iph) ifc reply]"
      "refusal (conversation_of tcb) reply" "idle s' k t tcb' sk" "same_conversation tcb tcb'"
      "keeps_routes (routed p frame eh iph m m' s) s'"
    using tcp_read_refused [OF in_at_routed above_ip_path [OF frame] ref', of "op_read (Suc (Suc (Suc j)))" j] by auto
  note ran = worker_in_order [OF frame route read]
  show ?thesis
    using ran rest j keeps_routes_worker [OF rest(5)]
    by (intro exI [of _ "s'\<lparr>in_stacks := (in_stacks s')(p := None)\<rparr>"] exI [of _ reply] exI [of _ tcb'])
      (simp del: worker_packet.simps)
qed

section \<open>A connection whose window is used up\<close>

definition used_up ::
  "'a upper_mem_scheme \<Rightarrow> interface_t \<Rightarrow> nat \<Rightarrow> nat \<Rightarrow> tcb_t \<Rightarrow> tcp_socket_t \<Rightarrow> bool" where
  "used_up s ifc k t tcb sk \<longleftrightarrow>
     idle s k t tcb sk \<and> tcb_state tcb \<noteq> SYN_SENT \<and> state_function tcb = Tcp_others \<and> routes_head s \<and>
     tcp_get_socket (ipv4_addr ifc) (sk_port sk) s = Inr (Some k) \<and> receive_window tcb = 0"

text \<open>Segments with data, each with the sequence number that is expected next, without RST.\<close>

definition more_data :: "interface_t \<Rightarrow> u32 \<Rightarrow> u16 \<Rightarrow> u32 \<Rightarrow> request_frame \<Rightarrow> bool" where
  "more_data ifc cid port nxt d \<longleftrightarrow>
     (case d of (frame, eh, iph, hdr) \<Rightarrow>
        tcp_frame frame ifc eh iph hdr \<and> tcb_header_to_connection_id iph hdr = cid \<and> th_destination_port hdr = port \<and>
        \<not> has_flag hdr TCP_RST_FLAG \<and> ntohl (th_sequence_num hdr) = nxt \<and> tcp_get_payload_length iph hdr \<noteq> 0)"

text \<open>The frames that answer them: one acknowledgement each.\<close>

fun only_acknowledged :: "interface_t \<Rightarrow> conversation \<Rightarrow> request_frame list \<Rightarrow> u8 list list \<Rightarrow> bool" where
  "only_acknowledged ifc v [] fs \<longleftrightarrow> fs = []"
| "only_acknowledged ifc v ((frame, eh, iph, hdr) # ds) fs \<longleftrightarrow>
     (\<exists>reply fs'. fs = segment_frame (eth_return eh) (ip_return iph) ifc reply # fs' \<and> refusal v reply \<and>
        only_acknowledged ifc v ds fs')"

lemma used_up_refuses:
  assumes "used_up s ifc k t tcb sk"
    and "more_data ifc (tcb_id tcb) (sk_port sk) (receive_next tcb) (frame, eh, iph, hdr)"
  shows "refused s iph hdr k t tcb sk" and "tcp_frame frame ifc eh iph hdr"
proof -
  show f: "tcp_frame frame ifc eh iph hdr" using assms(2) by (simp add: more_data_def)
  have "ih_destination_ip iph = ipv4_addr ifc" using f by (simp add: tcp_frame_def)
  then show "refused s iph hdr k t tcb sk"
    using assms closed_window_refuses [of tcb "tcp_get_payload_length iph hdr" hdr]
    by (auto simp: refused_def used_up_def more_data_def)
qed

lemma used_up_again:
  fixes s s' :: "'a stack_mem_scheme"
  assumes up: "used_up s ifc k t tcb sk" and idle: "idle s' k t tcb' sk" and same: "same_conversation tcb tcb'"
    and keep: "keeps_routes (s\<lparr>ethernet_type_to_handler := m, ip_type_to_handler := m'\<rparr>) s'"
    and head: "\<forall>s' :: 'a stack_mem_scheme. ethernet_type_to_handler s' = m \<longrightarrow> ip_type_to_handler s' = m' \<longrightarrow> routes_head s'"
  shows "used_up s' ifc k t tcb' sk"
proof -
  have "tcp_get_socket ip port s' = tcp_get_socket ip port s" for ip port
    using keep get_socket_cong [of "s\<lparr>ethernet_type_to_handler := m, ip_type_to_handler := m'\<rparr>" s]
    by (simp add: keeps_routes_def)
  moreover have "routes_head s'" using head keep by (simp add: keeps_routes_def)
  ultimately show ?thesis using up idle same by (simp add: used_up_def same_conversation_def conversation_of_def)
qed

lemma refused_run:
  fixes s :: "'a stack_mem_scheme"
  assumes "used_up s ifc k t tcb sk" and "6 \<le> n"
    and "\<forall>d \<in> set ds. more_data ifc (tcb_id tcb) (sk_port sk) (receive_next tcb) d"
  shows "\<exists>s' tcb' fs. consume_tasks (map (\<lambda>r. (fst r, ifc)) ds) [H_ethernet] n p s = Inr s' \<and> wire s' = wire s @ fs \<and>
    only_acknowledged ifc (conversation_of tcb) ds fs \<and> used_up s' ifc k t tcb' sk \<and> same_conversation tcb tcb'"
  using assms(1,3)
proof (induction ds arbitrary: s tcb)
  case Nil
  then show ?case by (intro exI [of _ s] exI [of _ tcb] exI [of _ "[]"]) (simp add: same_conversation_def)
next
  case (Cons d ds)
  obtain frame eh iph hdr where d: "d = (frame, eh, iph, hdr)" by (cases d)
  have "more_data ifc (tcb_id tcb) (sk_port sk) (receive_next tcb) (frame, eh, iph, hdr)" using Cons.prems(2) d by simp
  note ref = used_up_refuses [OF Cons.prems(1) this]
  have "routes_head s" using Cons.prems(1) by (simp add: used_up_def)
  then obtain m m' where route: "routes_tcp s m m'" and again:
    "\<forall>s' :: 'a stack_mem_scheme. ethernet_type_to_handler s' = m \<longrightarrow> ip_type_to_handler s' = m' \<longrightarrow> routes_head s'"
    by (rule routes_headE)
  from worker_refused [OF ref(2) route ref(1) assms(2), of p]
  obtain s1 reply tcb1 where w: "worker_packet [H_ethernet] n p (Some frame) ifc s = Inr s1"
    "wire s1 = wire s @ [segment_frame (eth_return eh) (ip_return iph) ifc reply]"
    "refusal (conversation_of tcb) reply" "idle s1 k t tcb1 sk" "same_conversation tcb tcb1"
    "keeps_routes (s\<lparr>ethernet_type_to_handler := m, ip_type_to_handler := m'\<rparr>) s1" by blast
  have tcb1: "tcb_id tcb1 = tcb_id tcb" "receive_next tcb1 = receive_next tcb" "conversation_of tcb1 = conversation_of tcb"
    using w(5) by (simp_all add: same_conversation_def conversation_of_def)
  have "used_up s1 ifc k t tcb1 sk" by (rule used_up_again [OF Cons.prems(1) w(4-6) again])
  from Cons.IH [OF this] Cons.prems(2) obtain s' tcb' fs where
    IH: "consume_tasks (map (\<lambda>r. (fst r, ifc)) ds) [H_ethernet] n p s1 = Inr s'" "wire s' = wire s1 @ fs"
    "only_acknowledged ifc (conversation_of tcb) ds fs" "used_up s' ifc k t tcb' sk" "same_conversation tcb1 tcb'"
    unfolding tcb1 by auto
  have "same_conversation tcb tcb'" using w(5) IH(5) by (simp add: same_conversation_def)
  then show ?case
    using w(1,2,3) IH(1-4)
    by (intro exI [of _ s'] exI [of _ tcb'] exI [of _ "segment_frame (eth_return eh) (ip_return iph) ifc reply # fs"])
      (simp add: d del: worker_packet.simps, blast)
qed

lemma consume_tasks_append:
  "consume_tasks (xs @ ys) hs n p s = sbind (consume_tasks xs hs n p s) (consume_tasks ys hs n p)"
  by (induction xs arbitrary: s) (simp_all add: sbind_assoc del: worker_packet.simps)

text \<open>C9: a connection takes as many bytes as the window it announced when it was opened, and no more. A
  client sends requests that use up the window and are all answered; every further segment with data,
  as often as the client sends it, is only acknowledged, with the old acknowledgement number and a
  window of zero: its data does not reach the handler above, and the window does not open again.\<close>

theorem window_never_reopens:
  fixes s :: "'a stack_mem_scheme"
  assumes "serving s ifc bs k t tcb sk" and "8 \<le> n"
    and "requests_follow ifc (tcb_id tcb) (sk_port sk) bs (conversation_of tcb) rs"
    and "v = fold (\<lambda>(_, _, iph, hdr). advance (tcp_get_payload_length iph hdr) bs) rs (conversation_of tcb)"
    and "window_left v = 0"
    and "\<forall>d \<in> set ds. more_data ifc (tcb_id tcb) (sk_port sk) (next_in v) d"
  shows "\<exists>s' tcb' fs gs. consume_tasks (map (\<lambda>r. (fst r, ifc)) (rs @ ds)) [H_ethernet] n p s = Inr s' \<and>
    wire s' = wire s @ fs @ gs \<and>
    requests_answered ifc (sk_port sk) (tcb_remote_port tcb) bs (conversation_of tcb) rs fs \<and>
    only_acknowledged ifc v ds gs \<and> idle s' k t tcb' sk \<and> conversation_of tcb' = v"
proof -
  obtain s1 tcb1 fs where run: "consume_tasks (map (\<lambda>r. (fst r, ifc)) rs) [H_ethernet] n p s = Inr s1"
    "wire s1 = wire s @ fs" "requests_answered ifc (sk_port sk) (tcb_remote_port tcb) bs (conversation_of tcb) rs fs"
    "serving s1 ifc bs k t tcb1 sk" "conversation_of tcb1 = v" and id: "tcb_id tcb1 = tcb_id tcb"
    using requests_run [OF assms(1-3), of p] assms(4) by blast
  have win: "receive_window tcb1 = 0" "receive_next tcb1 = next_in v"
    using run(5) assms(5) by (auto simp: conversation_of_def)
  then have "used_up s1 ifc k t tcb1 sk" using run(4) by (simp add: used_up_def serving_def)
  moreover have "\<forall>d \<in> set ds. more_data ifc (tcb_id tcb1) (sk_port sk) (receive_next tcb1) d"
    using assms(6) by (simp add: id win)
  ultimately obtain s' tcb' gs where
    ref: "consume_tasks (map (\<lambda>r. (fst r, ifc)) ds) [H_ethernet] n p s1 = Inr s'" "wire s' = wire s1 @ gs"
    "only_acknowledged ifc v ds gs" "used_up s' ifc k t tcb' sk" "same_conversation tcb1 tcb'"
    using refused_run [of s1 ifc k t tcb1 sk n ds p] assms(2) run(5) by auto
  have "consume_tasks (map (\<lambda>r. (fst r, ifc)) (rs @ ds)) [H_ethernet] n p s = Inr s'"
    using run(1) ref(1) by (simp add: consume_tasks_append)
  then show ?thesis
    using run(2,3,5) ref(2-5)
    by (intro exI [of _ s'] exI [of _ tcb'] exI [of _ fs] exI [of _ gs])
      (simp add: used_up_def same_conversation_def)
qed

text \<open>The server of the example with one byte of its window left.\<close>

definition example_narrow_tcb :: tcb_t where
  "example_narrow_tcb = (example_conn ESTABLISHED)\<lparr>receive_window := 1\<rparr>"

definition example_narrow :: stack_mem where
  "example_narrow = example_serving\<lparr>tcbs := [Some example_narrow_tcb]\<rparr>"

lemma example_narrow_serving:
  "serving example_narrow example_interface [104, 105] 0 0 example_narrow_tcb
     (example_open_socket\<lparr>sk_next_handler := Some (H_custom 0)\<rparr>)"
proof -
  let ?sk = "example_open_socket\<lparr>sk_next_handler := Some (H_custom 0)\<rparr>"
  have sv: "serving example_serving example_interface [104, 105] 0 0 (example_conn ESTABLISHED) ?sk"
    by (rule example_serving_ready)
  then have idle: "idle example_serving 0 0 (example_conn ESTABLISHED) ?sk" by (simp add: serving_def)
  have "tcp_get_transmission_control_block 0 example_id example_narrow = Inr (Some 0)"
    using idle
    by (simp add: idle_def connected_def tcp_get_transmission_control_block_def sock_at_def tcb_at_def example_narrow_def
        example_narrow_tcb_def example_serving_def custom_set_response_def example_open_def example_open_socket_def)
      (simp add: example_conn_def)
  then have "idle example_narrow 0 0 example_narrow_tcb ?sk"
    using idle
    by (simp add: idle_def connected_def sock_at_def tcb_at_def example_narrow_def example_narrow_tcb_def
        split: if_split_asm) (simp add: example_conn_def)
  moreover have "routes_head example_narrow" "custom_priv example_narrow = custom_priv example_serving"
    "tcp_get_socket (ipv4_addr example_interface) (sk_port ?sk) example_narrow = Inr (Some 0)"
    using sv get_socket_cong [of example_narrow example_serving]
    by (simp_all add: serving_def routes_head_def example_narrow_def)
  ultimately show ?thesis
    using sv by (simp add: serving_def example_narrow_tcb_def) (simp add: example_conn_def)
qed

theorem window_never_reopens_witness:
  "\<exists>s' f1 f2 e1 i1 e2 i2 a1 a2.
     consume_tasks [(example_data_frame (example_segment 24 8 643) [71], example_interface),
       (example_data_frame (example_segment 24 9 645) [69, 84], example_interface),
       (example_data_frame (example_segment 24 9 645) [69, 84], example_interface)] [H_ethernet] 8 0 example_narrow = Inr s' \<and>
     wire s' = wire example_narrow @ [f1, f2, segment_frame e1 i1 example_interface a1, segment_frame e2 i2 example_interface a2] \<and>
     th_acknowledgement_num a1 = htonl 9 \<and> th_window a1 = htons 0 \<and>
     th_acknowledgement_num a2 = htonl 9 \<and> th_window a2 = htons 0"
proof -
  let ?h1 = "example_segment 24 8 643" and ?h2 = "example_segment 24 9 645"
  let ?tcb = example_narrow_tcb and ?sk = "example_open_socket\<lparr>sk_next_handler := Some (H_custom 0)\<rparr>"
  obtain eh1 iph1 where f1: "tcp_frame (example_data_frame ?h1 [71]) example_interface eh1 iph1 ?h1"
    "ih_total_length iph1 = htons (40 + of_nat 1)" "ih_flags_1 iph1 = 0x45"
    using example_data_received [of "[71]" ?h1] by auto
  obtain eh2 iph2 where f2: "tcp_frame (example_data_frame ?h2 [69, 84]) example_interface eh2 iph2 ?h2"
    "ih_total_length iph2 = htons (40 + of_nat 2)" "ih_flags_1 iph2 = 0x45"
    using example_data_received [of "[69, 84]" ?h2] by auto
  let ?rs = "[(example_data_frame ?h1 [71], eh1, iph1, ?h1)]" and ?d = "(example_data_frame ?h2 [69, 84], eh2, iph2, ?h2)"
  note len = example_data_payload [OF f1(2,3)] example_data_payload [OF f2(2,3)]
  have conv: "conversation_of ?tcb = \<lparr>next_in = 8, window_left = 1, next_out = 643\<rparr>" "tcb_id ?tcb = example_id"
    by (simp_all add: conversation_of_def example_narrow_tcb_def example_conn_def)
  have seg: "has_flag (example_segment 24 sq ak) TCP_ACK_FLAG" "\<not> has_flag (example_segment 24 sq ak) TCP_RST_FLAG"
    "\<not> has_flag (example_segment 24 sq ak) TCP_SYN_FLAG" "\<not> has_flag (example_segment 24 sq ak) TCP_FIN_FLAG"
    "th_destination_port (example_segment 24 sq ak) = sk_port ?sk" "ntohl (th_sequence_num (example_segment 24 sq ak)) = sq"
    "ntohl (th_acknowledgement_num (example_segment 24 sq ak)) = ak" "Suc (Suc 0) \<le> unat (th_window (example_segment 24 sq ak))"
    for sq ak
    by (simp_all add: has_flag_def example_segment_def TCP_SYN_FLAG_def TCP_RST_FLAG_def TCP_ACK_FLAG_def
        TCP_FIN_FLAG_def example_open_socket_def example_socket_def bswap16_def join16_def)
  let ?v = "fold (\<lambda>(_, _, iph, hdr). advance (tcp_get_payload_length iph hdr) [104, 105]) ?rs (conversation_of ?tcb)"
  have v: "?v = \<lparr>next_in = 9, window_left = 0, next_out = 645\<rparr>" using len by (simp add: conv advance_def)
  have follow: "requests_follow example_interface (tcb_id ?tcb) (sk_port ?sk) [104, 105] (conversation_of ?tcb) ?rs"
    using f1(1) example_id_of seg len by (simp add: conv)
  have more: "\<forall>d \<in> set [?d, ?d]. more_data example_interface (tcb_id ?tcb) (sk_port ?sk) (next_in ?v) d"
    using f2(1) example_id_of seg len by (simp add: more_data_def conv advance_def)
  have zero: "window_left ?v = 0" unfolding v by simp
  from window_never_reopens [OF example_narrow_serving _ follow refl zero more, of 8 0]
  obtain s' fs gs where
    "consume_tasks (map (\<lambda>r. (fst r, example_interface)) (?rs @ [?d, ?d])) [H_ethernet] 8 0 example_narrow = Inr s'"
    and "wire s' = wire example_narrow @ fs @ gs"
    and "requests_answered example_interface (sk_port ?sk) (tcb_remote_port ?tcb) [104, 105] (conversation_of ?tcb) ?rs fs"
    and "only_acknowledged example_interface \<lparr>next_in = 9, window_left = 0, next_out = 645\<rparr> [?d, ?d] gs"
    unfolding v by (metis order_refl)
  then show ?thesis
    by (simp add: refusal_def Let_def del: consume_tasks.simps) (elim exE conjE, hypsubst, simp only: append.simps, blast)
qed

section \<open>The end of the sequence space\<close>

text \<open>
  \<^verbatim>\<open>is_segment_in_window\<close> compares sequence numbers as plain 32-bit numbers. A segment that starts
  in the window and runs over the end of the sequence space ends at a small number, which is
  taken to be in the window.
\<close>

lemma overlong_in_window:
  assumes "receive_next tcb = ntohl (th_sequence_num hdr)" and "receive_window tcb \<noteq> 0"
    and "unat (receive_next tcb) + unat (receive_window tcb) < 2 ^ 32" and "2 ^ 32 < unat (receive_next tcb) + unat n"
  shows "is_segment_in_window tcb hdr (ucast (n :: u16))"
proof -
  let ?r = "receive_next tcb" and ?w = "receive_window tcb"
  have stop: "unat (?r + ucast ?w) = unat ?r + unat ?w"
    using assms(3) by (simp add: unat_add_u32 unat_ucast_u16_u32)
  have over: "unat (?r + ucast n) = unat ?r + unat n - 2 ^ 32"
    using assms(4) by (simp add: unat_add_u32 unat_ucast_u16_u32)
  then have "unat (?r + ucast n - 1) = unat ?r + unat n - 2 ^ 32 - 1"
    using assms(4) by (subst unat_minus_one) auto
  moreover have "(ucast n :: u32) \<noteq> 0"
    using assms(4) unat_u32_less [of ?r] by (auto simp: unat_ucast_u16_u32 simp flip: unat_eq_zero)
  moreover have "0 < unat ?w" using assms(2) by (simp add: unat_gt_0)
  ultimately show ?thesis
    using assms stop unat_u16_le [of n] unat_u32_less [of ?r]
    by (simp add: is_segment_in_window_def Let_def word_less_nat_alt)
qed

text \<open>C18: near the end of the sequence space the receive window does not protect: an in-order segment
  with more data than the window allows, long enough to run over the end of the 32-bit
  sequence numbers, is accepted as a whole, acknowledged, and the subtraction of its length
  wraps the window around, so that the acknowledgement announces more than there was before.\<close>

theorem overlong_segment_opens_window:
  fixes s :: "'a stack_mem_scheme"
  assumes frame: "tcp_frame frame ifc eh iph hdr" and route: "routes_tcp s m m'" and idle: "idle s k t tcb sk"
    and id: "tcb_id tcb = tcb_header_to_connection_id iph hdr"
    and sock: "tcp_get_socket (ipv4_addr ifc) (th_destination_port hdr) s = Inr (Some k)"
    and st: "tcb_state tcb = ESTABLISHED" "state_function tcb = Tcp_others"
    and flags: "\<not> has_flag hdr TCP_RST_FLAG" "\<not> has_flag hdr TCP_SYN_FLAG" "has_flag hdr TCP_ACK_FLAG"
      "\<not> has_flag hdr TCP_FIN_FLAG"
    and nums: "ntohl (th_acknowledgement_num hdr) \<le> send_next tcb" "receive_next tcb = ntohl (th_sequence_num hdr)"
    and top: "sk_next_handler sk = None" and n: "6 \<le> n" and win: "receive_window tcb \<noteq> 0"
      "unat (receive_next tcb) + unat (receive_window tcb) < 2 ^ 32"
      "2 ^ 32 < unat (receive_next tcb) + unat (tcp_get_payload_length iph hdr)"
  shows "\<exists>s' reply tcb'. worker_packet [H_ethernet] n p (Some frame) ifc s = Inr s' \<and>
    wire s' = wire s @ [segment_frame (eth_return eh) (ip_return iph) ifc reply] \<and> plain_ack tcb' sk reply \<and>
    idle s' k t tcb' sk \<and> receive_next tcb' = receive_next tcb + ucast (tcp_get_payload_length iph hdr) \<and>
    unat (receive_window tcb) < unat (receive_window tcb') \<and>
    unat (receive_window tcb') = 2 ^ 16 + unat (receive_window tcb) - unat (tcp_get_payload_length iph hdr)"
proof -
  let ?n = "tcp_get_payload_length iph hdr"
  obtain j where j: "n = Suc (Suc (Suc (Suc (Suc (Suc j)))))"
    using n by (auto simp: numeral_eq_Suc Suc_le_eq less_iff_Suc_add)
  let ?r = "routed p frame eh iph m m' s"
  have big: "unat (receive_window tcb) < unat ?n" "unat ?n < 2 ^ 16"
    using win(2,3) unat_u16_le [of ?n] by simp_all
  then have ne: "?n \<noteq> 0" by auto
  have "in_order s iph hdr k t tcb sk"
    using idle id sock st nums win frame overlong_in_window by (simp add: in_order_def tcp_frame_def)
  then have ord: "in_order ?r iph hdr k t tcb sk" by simp
  obtain s' reply tcb' where
    read: "tcp_read (op_read (Suc (Suc (Suc j)))) (op_write (Suc (Suc (Suc j)))) H_tcp p ifc ?r = Inr (None, s')"
    and rest: "wire s' = wire s @ [segment_frame (eth_return eh) (ip_return iph) ifc reply]" "plain_ack tcb' sk reply"
      "idle s' k t tcb' sk" "tcb_answered tcb hdr ?n [] tcb'"
    using tcp_read_data [OF in_at_routed above_ip_path [OF frame] ord st(1) flags nums(1) refl ne top,
        of "op_read (Suc (Suc (Suc j)))" j] by auto
  have "receive_next tcb' = receive_next tcb + ucast ?n" "receive_window tcb' = receive_window tcb - ?n"
    using rest(4) by (simp_all add: tcb_answered_def conversation_of_def advance_def)
  moreover have "unat (receive_window tcb - ?n) = 2 ^ 16 + unat (receive_window tcb) - unat ?n"
    using big by (simp add: unat_sub_if_size word_size word_le_nat_alt)
  ultimately show ?thesis
    using worker_in_order [OF frame route read] rest j big
    by (intro exI [of _ "s'\<lparr>in_stacks := (in_stacks s')(p := None)\<rparr>"] exI [of _ reply] exI [of _ tcb'])
      (simp del: worker_packet.simps)
qed

text \<open>An example: ten bytes of the window are left, 16 bytes before the end of the sequence space.\<close>

definition example_edge_tcb :: tcb_t where
  "example_edge_tcb = (example_conn ESTABLISHED)\<lparr>receive_next := 0xFFFFFFF0, receive_window := 10\<rparr>"

definition example_edge :: stack_mem where
  "example_edge = (example_open ESTABLISHED)\<lparr>tcbs := [Some example_edge_tcb]\<rparr>"

theorem overlong_segment_opens_window_witness:
  "\<exists>s' e a reply tcb'. worker_packet [H_ethernet] 6 0
      (Some (example_data_frame (example_segment 24 0xFFFFFFF0 643) (replicate 40 65))) example_interface example_edge = Inr s' \<and>
    wire s' = wire example_edge @ [segment_frame e a example_interface reply] \<and> plain_ack tcb' example_open_socket reply \<and>
    receive_next tcb' = 24 \<and> unat (receive_window tcb') = 65506"
proof -
  let ?hdr = "example_segment 24 0xFFFFFFF0 643" and ?tcb = example_edge_tcb and ?sk = example_open_socket
  let ?wrapped = "0x100000018 :: u32"
  obtain eh iph where frame: "tcp_frame (example_data_frame ?hdr (replicate 40 65)) example_interface eh iph ?hdr"
    "ih_total_length iph = htons (40 + of_nat 40)" "ih_flags_1 iph = 0x45"
    using example_data_received [of "replicate 40 65" ?hdr] by auto
  have len: "tcp_get_payload_length iph ?hdr = 40" using example_data_payload [OF frame(2,3)] by simp
  have idle: "idle example_edge 0 0 ?tcb ?sk"
    using example_empty_queue example_id_nonzero
    by (simp add: idle_def connected_def tcp_get_transmission_control_block_def sock_at_def tcb_at_def example_edge_def
        example_open_def example_server_state example_open_socket_def example_edge_tcb_def) (simp add: example_conn_def)
  obtain m m' where route: "routes_tcp example_edge m m'"
    using example_routes by (auto simp: routes_tcp_def example_edge_def example_open_def)
  have sock: "tcp_get_socket (ipv4_addr example_interface) (th_destination_port ?hdr) example_edge = Inr (Some 0)"
    by (simp add: tcp_get_socket_def example_edge_def example_open_def example_server_state sock_at_def
        example_socket_def example_interface_def example_segment_def)
  have tcb: "tcb_id ?tcb = tcb_header_to_connection_id iph ?hdr" "tcb_state ?tcb = ESTABLISHED" "state_function ?tcb = Tcp_others"
    "ntohl (th_acknowledgement_num ?hdr) \<le> send_next ?tcb" "receive_next ?tcb = ntohl (th_sequence_num ?hdr)"
    "receive_window ?tcb \<noteq> 0" "sk_next_handler ?sk = None" "receive_window ?tcb = 10" "receive_next ?tcb = 0xFFFFFFF0"
    unfolding example_id_of
    by (simp_all add: example_edge_tcb_def example_conn_def example_segment_def example_open_socket_def example_socket_def)
  have flags: "\<not> has_flag ?hdr TCP_RST_FLAG" "\<not> has_flag ?hdr TCP_SYN_FLAG" "has_flag ?hdr TCP_ACK_FLAG"
    "\<not> has_flag ?hdr TCP_FIN_FLAG"
    by (simp_all add: has_flag_def example_segment_def TCP_SYN_FLAG_def TCP_RST_FLAG_def TCP_ACK_FLAG_def TCP_FIN_FLAG_def)
  have win: "unat (receive_next ?tcb) + unat (receive_window ?tcb) < 2 ^ 32"
    "2 ^ 32 < unat (receive_next ?tcb) + unat (tcp_get_payload_length iph ?hdr)"
    by (simp_all add: tcb(8,9) len)
  from overlong_segment_opens_window [OF frame(1) route idle tcb(1) sock tcb(2,3) flags tcb(4,5,7) _ tcb(6) win, of 6 0]
  have "\<exists>s' reply tcb'. worker_packet [H_ethernet] 6 0
      (Some (example_data_frame ?hdr (replicate 40 65))) example_interface example_edge = Inr s' \<and>
    wire s' = wire example_edge @ [segment_frame (eth_return eh) (ip_return iph) example_interface reply] \<and>
    plain_ack tcb' ?sk reply \<and> receive_next tcb' = ?wrapped \<and> unat (receive_window tcb') = 65506"
    by (simp add: tcb(8,9) len del: worker_packet.simps) blast
  moreover have "?wrapped = (24 :: u32)" by (simp add: word_eq_iff_unsigned)
  ultimately show ?thesis by (simp only:) blast
qed

end
