(* ===== verification/Tcp_Order.thy ===== *)
theory Tcp_Order
  imports Tcp_Closing
begin

text \<open>
  Segments that do not arrive in order, through all layers: a segment that is not the next one
  waits in the input buffer, and as the packet stack it points to is a local variable of the
  worker and the buffer can only be entered behind its first block, it decides the rest of the
  connection's life.
\<close>

section \<open>A connection whose first queued segment is not the next one\<close>

definition blocked :: "'a tcp_mem_scheme \<Rightarrow> nat \<Rightarrow> nat \<Rightarrow> tcb_t \<Rightarrow> tcp_socket_t \<Rightarrow> u32 \<Rightarrow> bool" where
  "blocked s k t tcb sk first \<longleftrightarrow> connected s k t tcb sk \<and> bb_invar (tcb_in_buffer tcb) \<and>
     bb_list (tcb_in_buffer tcb) \<noteq> [] \<and> fst (hd (bb_list (tcb_in_buffer tcb))) = first \<and>
     first \<notin> {receive_next tcb, receive_next tcb + 1} \<and> tcb_state tcb \<noteq> SYN_SENT"

text \<open>A frame with a segment of the connection.\<close>

definition segment_for ::
  "'a tcp_mem_scheme \<Rightarrow> interface_t \<Rightarrow> nat \<Rightarrow> tcb_t \<Rightarrow> mem8 \<times> ethernet_header_t \<times> ipv4_header_t \<times> tcp_header_t \<Rightarrow> bool" where
  "segment_for s ifc k tcb = (\<lambda>(frame, eh, iph, hdr). tcp_frame frame ifc eh iph hdr \<and>
     tcb_header_to_connection_id iph hdr = tcb_id tcb \<and>
     tcp_get_socket (ipv4_addr ifc) (th_destination_port hdr) s = Inr (Some k))"

definition seq_of :: "mem8 \<times> ethernet_header_t \<times> ipv4_header_t \<times> tcp_header_t \<Rightarrow> u32" where
  "seq_of = (\<lambda>(frame, eh, iph, hdr). ntohl (th_sequence_num hdr))"

text \<open>The block with which it is queued: it points to the packet stack of the worker.\<close>

definition block_for :: "nat \<Rightarrow> mem8 \<times> ethernet_header_t \<times> ipv4_header_t \<times> tcp_header_t \<Rightarrow> block" where
  "block_for p = (\<lambda>(frame, eh, iph, hdr).
     (ntohl (th_sequence_num hdr), ucast (tcp_get_payload_length iph hdr), Some p))"

text \<open>Adding a block to one buffer gives the other, inside the allocation while there is room in it.\<close>

definition adds :: "tcp_block_buffer_t \<Rightarrow> block \<Rightarrow> tcp_block_buffer_t \<Rightarrow> bool" where
  "adds bb b bb' \<longleftrightarrow> (length (bb_list bb) < 11 \<longrightarrow> bb_list bb' = queue_insert b (bb_list bb)) \<and>
     (length (bb_list bb) < 10 \<longrightarrow> within_alloc bb \<longrightarrow> within_alloc bb')"

lemma queue_not_ready: "bs \<noteq> [] \<Longrightarrow> fst (hd bs) \<notin> {st, st + 1} \<Longrightarrow> queue_ready bs st = 0"
  by (cases bs) auto

lemma queue_insert_head:
  "bs \<noteq> [] \<Longrightarrow> fst (hd bs) \<le> fst b \<Longrightarrow> queue_insert b bs \<noteq> [] \<and> hd (queue_insert b bs) = hd bs"
  by (cases bs) auto

text \<open>A segment that is added and leaves nothing ready only waits.\<close>

lemma enqueue_waits:
  assumes "tcb_at s t = Inr tcb" and "tcb_state tcb \<noteq> SYN_SENT"
    and "tcp_block_buffer_add (tcb_in_buffer tcb) p (th_sequence_num hdr) (tcp_get_payload_length iph hdr) = Inr (r, bb)"
    and "bb_invar bb" and "queue_ready (bb_list bb) (receive_next tcb) = 0"
  shows "tcp_enqueue_and_run rd wr h p t iph hdr ifc s = Inr (Some 0, put_tcb t (tcb\<lparr>tcb_in_buffer := bb\<rparr>) s)"
proof -
  have "tcp_block_buffer_num_ready bb (receive_next tcb) = Inr 0"
    using bq.q_ready [OF assms(4), of "receive_next tcb"] assms(5) by simp
  moreover have "tcb\<lparr>tcb_in_buffer := bb, receive_next := receive_next tcb\<rparr> = tcb\<lparr>tcb_in_buffer := bb\<rparr>"
    by (cases tcb) simp
  ultimately show ?thesis using assms by (simp add: tcp_enqueue_and_run_def Let_def)
qed

text \<open>What adding a segment to the buffer does when the first block is not the next one.\<close>

lemma add_not_ready:
  assumes inv: "bb_invar bb" and ready: "bb_list bb = [] \<Longrightarrow> ntohl seq \<notin> {st, st + 1}"
    and head: "bb_list bb \<noteq> [] \<Longrightarrow> fst (hd (bb_list bb)) \<notin> {st, st + 1} \<and> fst (hd (bb_list bb)) \<le> ntohl seq"
  shows "\<exists>r bb'. tcp_block_buffer_add bb d seq n = Inr (r, bb') \<and> bb_invar bb' \<and> bb_list bb' \<noteq> [] \<and>
    fst (hd (bb_list bb')) = (if bb_list bb = [] then ntohl seq else fst (hd (bb_list bb))) \<and>
    queue_ready (bb_list bb') st = 0 \<and> adds bb (ntohl seq, ucast n, Some d) bb'"
proof (cases "length (bb_list bb) = 11")
  case True
  moreover from this have "bb_list bb \<noteq> []" by auto
  ultimately show ?thesis using bq.q_full [OF inv] inv head queue_not_ready by (auto simp: adds_def)
next
  case False
  with bq.q_bound [OF inv] have room: "length (bb_list bb) < 11" by simp
  let ?b = "(ntohl seq, ucast n :: u32, Some d)"
  obtain i bb' where add: "tcp_block_buffer_add bb d seq n = Inr (Some i, bb')" "bb_invar bb'"
    "bb_list bb' = queue_insert ?b (bb_list bb)"
    and cell: "free bb = i # free bb'" "set (used bb') = insert i (set (used bb))"
    using add_correct [OF inv room, of seq d n] head by blast
  have ne: "bb_list bb' \<noteq> []" "fst (hd (bb_list bb')) = (if bb_list bb = [] then ntohl seq else fst (hd (bb_list bb)))"
    using queue_insert_head [of "bb_list bb" ?b] head add(3) by (cases "bb_list bb = []"; simp)+
  then have "fst (hd (bb_list bb')) \<notin> {st, st + 1}" using ready head by (simp split: if_splits)
  moreover have "adds bb ?b bb'"
    using add(3) within_alloc_add(2) [OF add(2) _ cell] by (simp add: adds_def)
  ultimately show ?thesis using add(1,2) ne queue_not_ready by metis
qed

section \<open>One segment\<close>

lemma segment_for_path:
  assumes "segment_for s ifc k tcb (frame, eh, iph, hdr)" and "connected s k t tcb sk"
  shows "tcp_read rd wr H_tcp p ifc (routed p frame eh iph m m' s) =
    tcp_enqueue_and_run rd wr H_tcp p t iph hdr ifc (put_in p (with_tcp (above_ip frame eh iph)) (routed p frame eh iph m m' s))"
proof -
  have frame: "tcp_frame frame ifc eh iph hdr" "ih_destination_ip iph = ipv4_addr ifc"
    using assms(1) by (auto simp: segment_for_def tcp_frame_def)
  show ?thesis
    by (rule tcp_read_known [OF in_at_routed above_ip_path [OF frame(1)], where k = k])
      (use assms frame(2) in \<open>simp_all add: segment_for_def connected_def\<close>)
qed

text \<open>The routing tables and sockets after a segment that only waits.\<close>

lemma waiting_state:
  fixes s :: "'a stack_mem_scheme"
  assumes conn: "connected s k t tcb sk" and tcb': "tcb' = tcb\<lparr>tcb_in_buffer := bb\<rparr>"
    and s': "s' = (put_tcb t tcb' (put_in p ips (routed p frame eh iph m m' s)))\<lparr>in_stacks := f\<rparr>"
  shows "connected s' k t tcb' sk" and "wire s' = wire s" and "callbacks s' = callbacks s"
    and "ethernet_type_to_handler s' = m" and "ip_type_to_handler s' = m'"
    and "tcp_get_socket ip port s' = tcp_get_socket ip port s"
proof -
  have "connected (put_tcb t tcb' s) k t tcb' sk"
    by (rule connected_put_tcb [OF conn]) (use conn in \<open>simp_all add: tcb' connected_def\<close>)
  then show "connected s' k t tcb' sk"
    using connected_cong [of s' "put_tcb t tcb' s"] by (simp add: s' put_tcb_def)
  show "tcp_get_socket ip port s' = tcp_get_socket ip port s"
    using get_socket_cong [of s' s] by (simp add: s' put_tcb_def)
qed (simp_all add: s' put_tcb_def routed_def put_in_def)

lemma worker_waits:
  fixes s :: "'a stack_mem_scheme"
  assumes conn: "connected s k t tcb sk" and inv: "bb_invar (tcb_in_buffer tcb)" and st: "tcb_state tcb \<noteq> SYN_SENT"
    and seg: "segment_for s ifc k tcb r" and routes: "routes_head s" and n: "3 \<le> n"
    and ready: "bb_list (tcb_in_buffer tcb) = [] \<Longrightarrow> seq_of r \<notin> {receive_next tcb, receive_next tcb + 1}"
    and head: "bb_list (tcb_in_buffer tcb) \<noteq> [] \<Longrightarrow> blocked s k t tcb sk first \<and> first \<le> seq_of r"
  shows "\<exists>s' bb. worker_packet [H_ethernet] n p (Some (fst r)) ifc s = Inr s' \<and> wire s' = wire s \<and>
    callbacks s' = callbacks s \<and> routes_head s' \<and> (\<forall>ip port. tcp_get_socket ip port s' = tcp_get_socket ip port s) \<and>
    blocked s' k t (tcb\<lparr>tcb_in_buffer := bb\<rparr>) sk (if bb_list (tcb_in_buffer tcb) = [] then seq_of r else first) \<and>
    adds (tcb_in_buffer tcb) (block_for p r) bb"
proof -
  obtain frame eh iph hdr where r: "r = (frame, eh, iph, hdr)" by (cases r)
  obtain j where j: "n = Suc (Suc (Suc j))" using n by (auto simp: numeral_eq_Suc Suc_le_eq less_iff_Suc_add)
  obtain m m' where route: "routes_tcp s m m'" and again:
    "\<forall>s' :: 'a stack_mem_scheme. ethernet_type_to_handler s' = m \<longrightarrow> ip_type_to_handler s' = m' \<longrightarrow> routes_head s'"
    using routes by (rule routes_headE)
  have frame: "tcp_frame frame ifc eh iph hdr" using seg by (simp add: r segment_for_def)
  have ready': "bb_list (tcb_in_buffer tcb) = [] \<Longrightarrow>
      ntohl (th_sequence_num hdr) \<notin> {receive_next tcb, receive_next tcb + 1}"
    using ready by (simp add: r seq_of_def)
  have head': "bb_list (tcb_in_buffer tcb) \<noteq> [] \<Longrightarrow>
      fst (hd (bb_list (tcb_in_buffer tcb))) \<notin> {receive_next tcb, receive_next tcb + 1} \<and>
      fst (hd (bb_list (tcb_in_buffer tcb))) \<le> ntohl (th_sequence_num hdr)"
    using head by (simp add: r seq_of_def blocked_def)
  obtain res bb where add: "tcp_block_buffer_add (tcb_in_buffer tcb) p (th_sequence_num hdr) (tcp_get_payload_length iph hdr) = Inr (res, bb)"
    and bb: "bb_invar bb" "bb_list bb \<noteq> []" "fst (hd (bb_list bb)) =
      (if bb_list (tcb_in_buffer tcb) = [] then ntohl (th_sequence_num hdr) else fst (hd (bb_list (tcb_in_buffer tcb))))"
    and zero: "queue_ready (bb_list bb) (receive_next tcb) = 0"
    and adds: "adds (tcb_in_buffer tcb) (ntohl (th_sequence_num hdr), ucast (tcp_get_payload_length iph hdr), Some p) bb"
    using add_not_ready [OF inv ready' head'] by blast
  let ?s = "put_in p (with_tcp (above_ip frame eh iph)) (routed p frame eh iph m m' s)"
  let ?s1 = "put_tcb t (tcb\<lparr>tcb_in_buffer := bb\<rparr>) ?s"
  have "tcb_at ?s t = Inr tcb" using conn by (simp add: connected_def)
  from enqueue_waits [OF this st add bb(1) zero] segment_for_path [OF seg [unfolded r] conn]
  have "tcp_read (op_read j) (op_write j) H_tcp p ifc (routed p frame eh iph m m' s) = Inr (Some 0, ?s1)" by simp
  note ran = worker_in_order [OF frame route this]
  let ?s2 = "?s1\<lparr>in_stacks := (in_stacks ?s1)(p := None)\<rparr>"
  note after = waiting_state [OF conn refl refl, where f = "(in_stacks ?s1)(p := None)" and bb = bb and p = p
      and m = m and m' = m' and frame = frame and eh = eh and iph = iph and ips = "with_tcp (above_ip frame eh iph)"]
  have "fst (hd (bb_list bb)) \<notin> {receive_next tcb, receive_next tcb + 1}"
    using bb(3) ready' head' by (simp split: if_splits)
  moreover have "fst (hd (bb_list bb)) = (if bb_list (tcb_in_buffer tcb) = [] then seq_of r else first)"
    using bb(3) head by (simp add: r seq_of_def blocked_def split: if_splits)
  ultimately have "blocked ?s2 k t (tcb\<lparr>tcb_in_buffer := bb\<rparr>) sk (if bb_list (tcb_in_buffer tcb) = [] then seq_of r else first)"
    using after(1) bb(1,2) st by (simp add: blocked_def)
  moreover have "routes_head ?s2" using again after(4,5) by blast
  ultimately show ?thesis
    using ran after(2,3,6) adds j r
    by (intro exI [of _ ?s2] exI [of _ bb]) (simp add: block_for_def del: worker_packet.simps)
qed

text \<open>A segment in front of the first queued one.\<close>

lemma worker_crashes:
  fixes s :: "'a stack_mem_scheme"
  assumes blk: "blocked s k t tcb sk first" and room: "length (bb_list (tcb_in_buffer tcb)) < 11"
    and seg: "segment_for s ifc k tcb r" and routes: "routes_head s" and n: "3 \<le> n" and before: "seq_of r < first"
  shows "worker_packet [H_ethernet] n p (Some (fst r)) ifc s = Inl Null_deref"
proof -
  obtain frame eh iph hdr where r: "r = (frame, eh, iph, hdr)" by (cases r)
  obtain j where j: "n = Suc (Suc (Suc j))" using n by (auto simp: numeral_eq_Suc Suc_le_eq less_iff_Suc_add)
  obtain m m' where route: "routes_tcp s m m'" using routes by (rule routes_headE)
  have frame: "tcp_frame frame ifc eh iph hdr" and conn: "connected s k t tcb sk"
    using seg blk by (simp_all add: r segment_for_def blocked_def)
  have "tcp_block_buffer_add (tcb_in_buffer tcb) p (th_sequence_num hdr) (tcp_get_payload_length iph hdr) = Inl Null_deref"
    using bq.q_before [OF _ room] blk before by (simp add: blocked_def r seq_of_def)
  then have "tcp_read (op_read j) (op_write j) H_tcp p ifc (routed p frame eh iph m m' s) = Inl Null_deref"
    using segment_for_path [OF seg [unfolded r] conn, of "op_read j" "op_write j" p m m'] conn
    by (simp add: tcp_enqueue_and_run_def connected_def)
  then show ?thesis
    using tcp_delivers [OF frame route, of "Suc j" p] j r by (simp del: worker_packet.simps)
qed

section \<open>Sequences of segments\<close>

lemma segment_for_cong:
  assumes "\<forall>ip port. tcp_get_socket ip port s' = tcp_get_socket ip port s" and "tcb_id tcb' = tcb_id tcb"
  shows "segment_for s' ifc k tcb' r = segment_for s ifc k tcb r"
  using assms by (cases r) (simp add: segment_for_def)

lemma blocked_run:
  fixes s :: "'a stack_mem_scheme"
  assumes "blocked s k t tcb sk first" and "routes_head s" and "3 \<le> n"
    and "\<forall>r \<in> set rs. segment_for s ifc k tcb r \<and> first \<le> seq_of r"
  shows "\<exists>s' bb. consume_tasks (map (\<lambda>r. (fst r, ifc)) rs) [H_ethernet] n p s = Inr s' \<and> wire s' = wire s \<and>
    callbacks s' = callbacks s \<and> blocked s' k t (tcb\<lparr>tcb_in_buffer := bb\<rparr>) sk first \<and>
    (length (bb_list (tcb_in_buffer tcb)) + length rs \<le> 10 \<longrightarrow>
      bb_list bb = fold (\<lambda>r. queue_insert (block_for p r)) rs (bb_list (tcb_in_buffer tcb)) \<and>
      (within_alloc (tcb_in_buffer tcb) \<longrightarrow> within_alloc bb))"
  using assms
proof (induction rs arbitrary: s tcb)
  case Nil
  then show ?case by (intro exI [of _ s] exI [of _ "tcb_in_buffer tcb"]) simp
next
  case (Cons r rs)
  have b: "connected s k t tcb sk" "bb_invar (tcb_in_buffer tcb)" "tcb_state tcb \<noteq> SYN_SENT"
    "bb_list (tcb_in_buffer tcb) \<noteq> []" using Cons.prems(1) by (simp_all add: blocked_def)
  have r: "segment_for s ifc k tcb r" "first \<le> seq_of r" using Cons.prems(4) by simp_all
  from worker_waits [OF b(1-3) r(1) Cons.prems(2,3), of first p] b(4) Cons.prems(1) r(2)
  obtain s1 bb where w: "worker_packet [H_ethernet] n p (Some (fst r)) ifc s = Inr s1" "wire s1 = wire s"
    "callbacks s1 = callbacks s" "routes_head s1" "\<forall>ip port. tcp_get_socket ip port s1 = tcp_get_socket ip port s"
    "blocked s1 k t (tcb\<lparr>tcb_in_buffer := bb\<rparr>) sk first" "adds (tcb_in_buffer tcb) (block_for p r) bb"
    by (auto simp del: worker_packet.simps)
  have "\<forall>r \<in> set rs. segment_for s1 ifc k (tcb\<lparr>tcb_in_buffer := bb\<rparr>) r \<and> first \<le> seq_of r"
    using Cons.prems(4) segment_for_cong [OF w(5), of "tcb\<lparr>tcb_in_buffer := bb\<rparr>" tcb ifc k] by simp
  from Cons.IH [OF w(6,4) Cons.prems(3) this] obtain s' bb' where
    run: "consume_tasks (map (\<lambda>r. (fst r, ifc)) rs) [H_ethernet] n p s1 = Inr s'" "wire s' = wire s1" "callbacks s' = callbacks s1"
      "blocked s' k t (tcb\<lparr>tcb_in_buffer := bb'\<rparr>) sk first"
    and list: "length (bb_list bb) + length rs \<le> 10 \<longrightarrow>
      bb_list bb' = fold (\<lambda>r. queue_insert (block_for p r)) rs (bb_list bb) \<and> (within_alloc bb \<longrightarrow> within_alloc bb')"
    by auto
  have "length (bb_list (tcb_in_buffer tcb)) + length (r # rs) \<le> 10 \<longrightarrow>
      bb_list bb' = fold (\<lambda>r. queue_insert (block_for p r)) (r # rs) (bb_list (tcb_in_buffer tcb)) \<and>
      (within_alloc (tcb_in_buffer tcb) \<longrightarrow> within_alloc bb')"
    using list w(7) by (simp add: adds_def)
  with run w(1-3) show ?case
    by (intro exI [of _ s'] exI [of _ bb']) (simp del: worker_packet.simps)
qed

text \<open>The first stray segment on an idle connection.\<close>

lemma stray_waits:
  fixes s :: "'a stack_mem_scheme"
  assumes "idle s k t tcb sk" and "tcb_state tcb \<noteq> SYN_SENT" and "routes_head s" and "3 \<le> n"
    and "segment_for s ifc k tcb r" and "seq_of r \<notin> {receive_next tcb, receive_next tcb + 1}"
  shows "\<exists>s' bb. worker_packet [H_ethernet] n p (Some (fst r)) ifc s = Inr s' \<and> wire s' = wire s \<and>
    callbacks s' = callbacks s \<and> routes_head s' \<and> (\<forall>ip port. tcp_get_socket ip port s' = tcp_get_socket ip port s) \<and>
    blocked s' k t (tcb\<lparr>tcb_in_buffer := bb\<rparr>) sk (seq_of r) \<and> bb_list bb = [block_for p r] \<and>
    (within_alloc (tcb_in_buffer tcb) \<longrightarrow> within_alloc bb)"
proof -
  have i: "connected s k t tcb sk" "bb_invar (tcb_in_buffer tcb)" "bb_list (tcb_in_buffer tcb) = []"
    using assms(1) by (simp_all add: idle_def)
  from worker_waits [OF i(1,2) assms(2,5,3,4), of _ p] i(3) assms(6)
  obtain s' bb where w: "worker_packet [H_ethernet] n p (Some (fst r)) ifc s = Inr s'" "wire s' = wire s"
    "callbacks s' = callbacks s" "routes_head s'" "\<forall>ip port. tcp_get_socket ip port s' = tcp_get_socket ip port s"
    "blocked s' k t (tcb\<lparr>tcb_in_buffer := bb\<rparr>) sk (seq_of r)" and "adds (tcb_in_buffer tcb) (block_for p r) bb"
    by (auto simp del: worker_packet.simps)
  then have "bb_list bb = [block_for p r]" "within_alloc (tcb_in_buffer tcb) \<longrightarrow> within_alloc bb"
    using i(3) by (simp_all add: adds_def)
  with w show ?thesis by blast
qed

text \<open>C14: two segments of a connection that arrive in the wrong order crash the stack: on an idle
  connection, a segment that is not the next one is queued, and if the next packet of the
  connection carries a smaller sequence number (as the missing segment does) the insertion
  into the input buffer dereferences a null pointer.\<close>

theorem reordered_segments_crash:
  fixes s :: "'a stack_mem_scheme"
  assumes "idle s k t tcb sk" and "tcb_state tcb \<noteq> SYN_SENT" and "routes_head s" and "3 \<le> n"
    and "segment_for s ifc k tcb r1" and "segment_for s ifc k tcb r2"
    and "seq_of r1 \<notin> {receive_next tcb, receive_next tcb + 1}" and "seq_of r2 < seq_of r1"
  shows "consume_tasks [(fst r1, ifc), (fst r2, ifc)] [H_ethernet] n p s = Inl Null_deref"
proof -
  obtain s1 bb where w: "worker_packet [H_ethernet] n p (Some (fst r1)) ifc s = Inr s1" "routes_head s1"
    "\<forall>ip port. tcp_get_socket ip port s1 = tcp_get_socket ip port s"
    "blocked s1 k t (tcb\<lparr>tcb_in_buffer := bb\<rparr>) sk (seq_of r1)" "bb_list bb = [block_for p r1]"
    using stray_waits [OF assms(1-5,7), of p] by blast
  have "segment_for s1 ifc k (tcb\<lparr>tcb_in_buffer := bb\<rparr>) r2"
    using assms(6) segment_for_cong [OF w(3), of "tcb\<lparr>tcb_in_buffer := bb\<rparr>" tcb ifc k] by simp
  from worker_crashes [OF w(4) _ this w(2) assms(4,8), of p] w(1,5) show ?thesis
    by (simp del: worker_packet.simps)
qed

text \<open>C15: one stray segment ends the life of a connection: after a segment that is not the next
  one (a retransmission of data already taken, for instance), up to nine later segments of the
  connection whose sequence numbers are not smaller than that of the stray one are swallowed, the
  expected ones among them included: nothing is sent, no callback runs, and the control block
  is as before, but for its input buffer, which holds exactly the blocks of all these segments
  in sequence order, the stray one first, each with the address of the worker's local packet
  stack. The ten blocks are then in use, those of the allocation if no more had been in use before.
  (A segment with a smaller number crashes the program, which is another property; the eleventh is written
  outside the allocation.)\<close>

theorem stray_segment_blocks_connection:
  fixes s :: "'a stack_mem_scheme"
  assumes "idle s k t tcb sk" and "tcb_state tcb \<noteq> SYN_SENT" and "routes_head s" and "3 \<le> n"
    and "segment_for s ifc k tcb r0" and "seq_of r0 \<notin> {receive_next tcb, receive_next tcb + 1}"
    and "\<forall>r \<in> set rs. segment_for s ifc k tcb r \<and> seq_of r0 \<le> seq_of r" and "length rs \<le> 9"
  shows "\<exists>s' bb. consume_tasks (map (\<lambda>r. (fst r, ifc)) (r0 # rs)) [H_ethernet] n p s = Inr s' \<and> wire s' = wire s \<and>
    callbacks s' = callbacks s \<and> tcb_at s' t = Inr (tcb\<lparr>tcb_in_buffer := bb\<rparr>) \<and> bb_invar bb \<and>
    bb_list bb = fold (\<lambda>r. queue_insert (block_for p r)) rs [block_for p r0] \<and>
    fst (hd (bb_list bb)) = seq_of r0 \<and> (within_alloc (tcb_in_buffer tcb) \<longrightarrow> within_alloc bb)"
proof -
  obtain s1 bb where w: "worker_packet [H_ethernet] n p (Some (fst r0)) ifc s = Inr s1" "wire s1 = wire s"
    "callbacks s1 = callbacks s" "routes_head s1" "\<forall>ip port. tcp_get_socket ip port s1 = tcp_get_socket ip port s"
    "blocked s1 k t (tcb\<lparr>tcb_in_buffer := bb\<rparr>) sk (seq_of r0)" "bb_list bb = [block_for p r0]"
    "within_alloc (tcb_in_buffer tcb) \<longrightarrow> within_alloc bb"
    using stray_waits [OF assms(1-6), of p] by blast
  have "\<forall>r \<in> set rs. segment_for s1 ifc k (tcb\<lparr>tcb_in_buffer := bb\<rparr>) r \<and> seq_of r0 \<le> seq_of r"
    using assms(7) segment_for_cong [OF w(5), of "tcb\<lparr>tcb_in_buffer := bb\<rparr>" tcb ifc k] by simp
  from blocked_run [OF w(6,4) assms(4) this, of p] w(1-3,7,8) assms(8) show ?thesis
    by (auto simp: blocked_def connected_def simp del: worker_packet.simps)
qed

section \<open>Examples\<close>

lemma example_segment_for:
  assumes "tcp_frame frame example_interface eh iph (example_segment f sq ak)"
  shows "segment_for (example_open ESTABLISHED) example_interface 0 (example_conn ESTABLISHED) (frame, eh, iph, example_segment f sq ak)"
    and "seq_of (frame, eh, iph, example_segment f sq ak) = sq"
proof -
  have "tcp_get_socket (ipv4_addr example_interface) (htons 80) (example_open ESTABLISHED) = Inr (Some 0)"
    by (simp add: tcp_get_socket_def example_open_def example_server_state sock_at_def example_socket_def example_interface_def)
  moreover have "tcb_id (example_conn ESTABLISHED) = example_id" by (simp add: example_conn_def)
  ultimately show "segment_for (example_open ESTABLISHED) example_interface 0 (example_conn ESTABLISHED)
      (frame, eh, iph, example_segment f sq ak)"
    using assms example_id_of by (simp add: segment_for_def) (simp add: example_segment_def)
qed (simp add: seq_of_def example_segment_def)

lemma example_data_sent:
  assumes "length bs \<le> 1000"
  obtains eh iph where "tcp_frame (example_data_frame hdr bs) example_interface eh iph hdr"
  using example_data_received [OF assms, of hdr] by blast

lemma example_open_head: "routes_head (example_open st)"
  using example_syn_known(1) by (simp add: routes_head_def example_open_def)

lemma example_conn_simps: "tcb_state (example_conn st) = st" "receive_next (example_conn st) = 8"
  by (simp_all add: example_conn_def)

theorem reordered_segments_crash_witness:
  "consume_tasks [(example_data_frame (example_segment 24 10 643) [66], example_interface),
     (example_data_frame (example_segment 24 8 643) [65, 65], example_interface)] [H_ethernet] 3 0 (example_open ESTABLISHED)
   = Inl Null_deref"
proof -
  obtain eh1 iph1 where f1: "tcp_frame (example_data_frame (example_segment 24 10 643) [66]) example_interface eh1 iph1
      (example_segment 24 10 643)" using example_data_sent [of "[66]"] by auto
  obtain eh2 iph2 where f2: "tcp_frame (example_data_frame (example_segment 24 8 643) [65, 65]) example_interface eh2 iph2
      (example_segment 24 8 643)" using example_data_sent [of "[65, 65]"] by auto
  note s1 = example_segment_for [OF f1] and s2 = example_segment_for [OF f2]
  note crash = reordered_segments_crash [OF example_open_idle [of ESTABLISHED] _ example_open_head _ s1(1) s2(1), of 3 0]
  show ?thesis using crash unfolding s1(2) s2(2) example_conn_simps by simp
qed

theorem stray_segment_blocks_connection_witness:
  "\<exists>s' tcb'. consume_tasks [(example_data_frame (example_segment 24 7 643) [66], example_interface),
     (example_data_frame (example_segment 24 8 643) [65, 65], example_interface)] [H_ethernet] 3 0 (example_open ESTABLISHED)
     = Inr s' \<and> wire s' = [] \<and> tcb_at s' 0 = Inr tcb' \<and> receive_next tcb' = 8 \<and>
     map fst (bb_list (tcb_in_buffer tcb')) = [7, 8]"
proof -
  obtain eh1 iph1 where f1: "tcp_frame (example_data_frame (example_segment 24 7 643) [66]) example_interface eh1 iph1
      (example_segment 24 7 643)" using example_data_sent [of "[66]"] by auto
  obtain eh2 iph2 where f2: "tcp_frame (example_data_frame (example_segment 24 8 643) [65, 65]) example_interface eh2 iph2
      (example_segment 24 8 643)" using example_data_sent [of "[65, 65]"] by auto
  note s1 = example_segment_for [OF f1] and s2 = example_segment_for [OF f2]
  have num: "block_for 0 (fr, eh, iph, example_segment 24 q 643) =
      (q, ucast (tcp_get_payload_length iph (example_segment 24 q 643)), Some 0)" for fr eh iph q
    by (simp add: block_for_def example_segment_def)
  note blocks = stray_segment_blocks_connection [OF example_open_idle [of ESTABLISHED] _ example_open_head _ s1(1), of 3
      "[(example_data_frame (example_segment 24 8 643) [65, 65], eh2, iph2, example_segment 24 8 643)]" 0]
  show ?thesis
    using blocks s2(1) unfolding s1(2) example_conn_simps example_open_wire
    by (auto simp: s2(2) example_conn_simps num simp del: consume_tasks.simps)
qed

end
