(* ===== verification/Tcp_Hosts.thy ===== *)
theory Tcp_Hosts
  imports Tcp_Stream
begin

text \<open>
  Two machines that run this stack, joined by a link: the frames that one gives to its
  driver are what the other's worker reads. One opens a connection to the other and they
  exchange requests and responses.

  How a received frame lies in memory is a parameter \<open>place\<close> (the driver and the network card
  decide that): the frame is at the start of a buffer, what follows it is arbitrary.
\<close>

section \<open>The link\<close>

definition receives :: "(u8 list \<Rightarrow> mem8) \<Rightarrow> bool" where
  "receives place \<longleftrightarrow> (\<forall>bs. read_bytes (place bs) 0 (length bs) = bs)"

text \<open>
  The frames \<open>fs\<close> that the first machine has sent are read by the second; what that sends
  in turn is read by the first, and so on until nothing is sent any more. The fuel bounds
  the number of turns.
\<close>

fun exchange ::
  "nat \<Rightarrow> (u8 list \<Rightarrow> mem8) \<Rightarrow> nat \<Rightarrow> nat \<Rightarrow> interface_t \<Rightarrow> interface_t \<Rightarrow> u8 list list \<Rightarrow>
   'a stack_mem_scheme \<Rightarrow> 'a stack_mem_scheme \<Rightarrow> fault + ('a stack_mem_scheme \<times> 'a stack_mem_scheme)" where
  "exchange 0 place n p ifa ifb fs a b = Inl No_return"
| "exchange (Suc i) place n p ifa ifb fs a b =
     (if fs = [] then Inr (a, b)
      else sbind (consume_tasks (map (\<lambda>f. (place f, ifb)) fs) [H_ethernet] n p b) (\<lambda>b'.
           sbind (exchange i place n p ifb ifa (drop (length (wire b)) (wire b')) b' a) (\<lambda>(b'', a').
           Inr (a', b''))))"

text \<open>The arguments for frames to a machine.\<close>

definition eth_to :: "interface_t \<Rightarrow> ethernet_write_args_t" where
  "eth_to ifc = \<lparr>ea_destination = mac ifc, ea_ethernet_type = htons ETHERNET_TYPE_IPV4\<rparr>"

definition ip_to :: "interface_t \<Rightarrow> ipv4_write_args_t" where
  "ip_to ifc = \<lparr>ia_destination_ip = ipv4_addr ifc, ia_protocol = 6\<rparr>"

text \<open>One end of an established connection.\<close>

definition endpoint :: "'a stack_mem_scheme \<Rightarrow> interface_t \<Rightarrow> nat \<Rightarrow> nat \<Rightarrow> tcb_t \<Rightarrow> tcp_socket_t \<Rightarrow> bool" where
  "endpoint s ifc k t tcb sk \<longleftrightarrow>
     idle s k t tcb sk \<and> tcb_state tcb = ESTABLISHED \<and> state_function tcb = Tcp_others \<and> routes_head s \<and>
     tcp_get_socket (ipv4_addr ifc) (sk_port sk) s = Inr (Some k) \<and> length (mac ifc) = 6 \<and>
     tcb_id tcb = tcp_shared_calculate_connection_id 0 (tcb_remote_port tcb) (sk_port sk) \<and>
     unat (receive_next tcb) + unat (receive_window tcb) < 2 ^ 32"

text \<open>The two ends agree on the ports and on what has been sent and received.\<close>

definition agree :: "tcb_t \<Rightarrow> tcp_socket_t \<Rightarrow> tcb_t \<Rightarrow> tcp_socket_t \<Rightarrow> bool" where
  "agree tcba ska tcbb skb \<longleftrightarrow>
     tcb_remote_port tcba = sk_port skb \<and> tcb_remote_port tcbb = sk_port ska \<and>
     send_next tcba = receive_next tcbb \<and> send_next tcbb = receive_next tcba"

text \<open>
  A machine before the connection: the counters are in range, and a socket has a free slot and no connection with this identifier.
\<close>

definition can_open :: "'a stack_mem_scheme \<Rightarrow> interface_t \<Rightarrow> nat \<Rightarrow> tcp_socket_t \<Rightarrow> u16 \<Rightarrow> bool" where
  "can_open s ifc k sk remote \<longleftrightarrow>
     0 \<le> seq_x s \<and> seq_x s + 142 < 2 ^ 31 \<and> 0 < tcp_window s \<and> tcp_window s < 2 ^ 16 \<and>
     routes_head s \<and> length (mac ifc) = 6 \<and> sock_at s k = Inr sk \<and> None \<in> set (trans_control_block sk) \<and>
     tcp_get_socket (ipv4_addr ifc) (sk_port sk) s = Inr (Some k) \<and> sk_port sk \<noteq> 0 \<and>
     tcp_get_transmission_control_block k (tcp_shared_calculate_connection_id 0 remote (sk_port sk)) s = Inr None"

text \<open>
  A segment and the frame that carries it from one machine to the other: the addresses of both,
  the ports, the numbers, the flags, the window and the payload. The two checksums are those
  that the code computes, the urgent pointer is not described.
\<close>

record segment =
  seg_flags :: u8
  seg_seq :: u32
  seg_ack :: u32
  seg_window :: u16
  seg_payload :: "u8 list"

definition carried :: "interface_t \<Rightarrow> interface_t \<Rightarrow> u16 \<Rightarrow> u16 \<Rightarrow> segment \<Rightarrow> u8 list \<Rightarrow> bool" where
  "carried ifa ifb source dest g frame \<longleftrightarrow>
     (\<exists>h. frame = data_frame (eth_to ifb) (ip_to ifb) ifa h (seg_payload g) \<and>
        th_source_port h = source \<and> th_destination_port h = dest \<and> th_control_bits h = seg_flags g \<and>
        th_sequence_num h = htonl (seg_seq g) \<and> th_acknowledgement_num h = htonl (seg_ack g) \<and>
        th_data_offset h = 0x50 \<and> th_window h = htons (seg_window g))"

text \<open>The arguments that the program on the first machine has prepared.\<close>

definition client_of :: "'a stack_mem_scheme \<Rightarrow> interface_t \<Rightarrow> interface_t \<Rightarrow> nat \<Rightarrow> tcp_socket_t \<Rightarrow> nat \<Rightarrow> bool" where
  "client_of s ifa ifb k sk c \<longleftrightarrow> sk_interface sk = ifa \<and>
     (\<exists>ca. client_args s c = Some ca \<and> tcp_client_args ca (eth_to ifb) (ip_to ifb) ifa \<and> ca_handlers ca ! 2 = Some H_tcp)"

section \<open>Frames between the machines\<close>

lemma data_frame_empty: "data_frame e a ifc header [] = segment_frame e a ifc header"
  by (simp add: data_frame_def segment_frame_def)

lemma carriedI:
  assumes "th_source_port h = source" "th_destination_port h = dest" "th_control_bits h = seg_flags g"
    "th_sequence_num h = htonl (seg_seq g)" "th_acknowledgement_num h = htonl (seg_ack g)" "th_data_offset h = 0x50"
    "th_window h = htons (seg_window g)"
  shows "carried ifa ifb source dest g (data_frame (eth_to ifb) (ip_to ifb) ifa h (seg_payload g))"
    and "seg_payload g = [] \<Longrightarrow> carried ifa ifb source dest g (segment_frame (eth_to ifb) (ip_to ifb) ifa h)"
  using assms by (auto simp: carried_def data_frame_empty [symmetric])

lemma frame_received:
  assumes place: "receives place" and mac: "length (mac ifa) = 6" "length (mac ifb) = 6"
  obtains eh iph where "tcp_frame (place (data_frame (eth_to ifb) (ip_to ifb) ifa hdr bs)) ifb eh iph hdr"
    and "eth_return eh = eth_to ifa" and "ip_return iph = ip_to ifa"
    and "th_data_offset hdr = 0x50 \<Longrightarrow> tcp_get_payload_length iph hdr = of_nat (length bs)"
proof -
  let ?len = "htons (40 + of_nat (length bs))" and ?f = "data_frame (eth_to ifb) (ip_to ifb) ifa hdr bs"
  let ?hs = "eth_bytes (eth_to ifb) ifa @ ipv4_header_bytes (ipv4_fill_header ifa (ip_to ifb) ?len) @ tcp_header_bytes hdr"
  have f: "?f = ?hs @ bs" and len: "length ?hs = 54"
    using mac by (simp_all add: data_frame_def eth_bytes_def ethernet_header_bytes_def eth_to_def)
  have "read_bytes (place ?f) 0 (54 + length bs) = ?hs @ bs"
    using place len f unfolding receives_def by (metis length_append)
  then have "read_bytes (place ?f) 0 54 @ read_bytes (place ?f) (0 + 54) (length bs) = ?hs @ bs"
    by (simp only: read_bytes_add)
  then have "read_bytes (place ?f) 0 54 = ?hs"
    by (subst (asm) append_eq_append_conv) (simp_all only: len read_bytes_length simp_thms)
  from headers_received [OF this, of ifb] mac
  have "tcp_frame (place ?f) ifb \<lparr>eh_destination = mac ifb, eh_source = mac ifa, eh_ethernet_type = htons ETHERNET_TYPE_IPV4\<rparr>
      (ipv4_fill_header ifa (ip_to ifb) ?len) hdr"
    by (simp add: eth_to_def ip_to_def)
  then show thesis
    by (rule that)
      (simp_all add: eth_return_def ip_return_def eth_to_def ip_to_def tcp_get_payload_length_def
        TCP_DATA_OFFSET_MASK_def IPV4_IHL_MASK_def)
qed

lemmas segment_received = frame_received [where bs = "[]", unfolded data_frame_empty, simplified]

lemma connection_id_any:
  "tcb_header_to_connection_id iph hdr =
     tcp_shared_calculate_connection_id 0 (th_source_port hdr) (th_destination_port hdr)"
  by (simp add: tcb_header_to_connection_id_def connection_id_ports)

lemma connection_id_nonzero: "host_port \<noteq> 0 \<Longrightarrow> tcp_shared_calculate_connection_id ip remote_port host_port \<noteq> 0"
  using connection_id_halves(2) [of ip remote_port host_port] by auto

lemma connection_id_ip: "tcp_shared_calculate_connection_id ip r h = tcp_shared_calculate_connection_id 0 r h"
  by (simp add: connection_id_ports)

section \<open>Opening the connection\<close>

text \<open>The first machine sends the SYN.\<close>

lemma host_connects:
  fixes a :: "'a stack_mem_scheme"
  defines "t \<equiv> length (tcbs a)"
  assumes opn: "can_open a ifa k sk port" and client: "client_of a ifa ifb k sk c" and n: "6 \<le> n"
    and mem: "0 < malloc_slack a"
    and cid_def: "cid = tcp_shared_calculate_connection_id 0 port (sk_port sk)"
  shows "\<exists>a1 syn tcb. tcp_socket_connect (op_write n) H_tcp k (Some c) (ipv4_addr ifb) port a = Inr (cid, a1) \<and>
    wire a1 = wire a @ [segment_frame (eth_to ifb) (ip_to ifb) ifa syn] \<and> syn_of a sk port syn \<and> idle a1 k t tcb (with_slot t sk) \<and> syn_sent a cid tcb \<and>
    tcb_remote_port tcb = port \<and> active_mode_args tcb = Some c \<and> keeps_routes a a1 \<and> callbacks a1 = callbacks a \<and>
    client_of a1 ifa ifb k (with_slot t sk) c"
proof -
  obtain ca where ca: "client_args a c = Some ca" "tcp_client_args ca (eth_to ifb) (ip_to ifb) (sk_interface sk)"
    and ifa: "sk_interface sk = ifa" and h: "ca_handlers ca ! 2 = Some H_tcp"
    using client by (auto simp: client_of_def)
  obtain j where j: "n = Suc (Suc (Suc j))" using n by (auto simp: numeral_eq_Suc Suc_le_eq less_iff_Suc_add)
  have cid: "cid = tcp_shared_calculate_connection_id (ipv4_addr ifb) port (sk_port sk)" "cid \<noteq> 0"
    using opn connection_id_nonzero unfolding cid_def by (simp_all add: connection_id_ports can_open_def)
  have pre: "sock_at a k = Inr sk" "None \<in> set (trans_control_block sk)"
    "tcp_get_transmission_control_block k cid a = Inr None" "seq_x a + 142 < 2 ^ 31"
    using opn by (simp_all add: can_open_def cid_def)
  obtain a1 syn tcb args where run:
    "tcp_socket_connect (op_write n) H_tcp k (Some c) (ipv4_addr ifb) port a = Inr (cid, a1)"
    "wire a1 = wire a @ [segment_frame (eth_to ifb) (ip_to ifb) ifa syn]" "syn_of a sk port syn" "idle a1 k t tcb (with_slot t sk)" "syn_sent a cid tcb"
    "tcb_remote_port tcb = port" "active_mode_args tcb = Some c" "keeps_routes a a1" "callbacks a1 = callbacks a"
    and args: "client_args a1 c = Some (ca\<lparr>ca_handler_args := (ca_handler_args ca)[2 := args]\<rparr>)"
    using connect_run [OF pre(1,2) cid pre(3) ca pre(4) mem, of j] unfolding t_def j ifa by blast
  have "client_of a1 ifa ifb k (with_slot t sk) c"
    using ca(2) ifa h args by (simp add: client_of_def tcp_client_args_def)
  with run show ?thesis by blast
qed

text \<open>The second machine answers with a SYN-ACK.\<close>

lemma routes_keptE:
  fixes s :: "'a stack_mem_scheme"
  assumes "routes_head s"
  obtains m m' where "routes_tcp s m m'"
    and "\<And>s' ip port. keeps_routes (s\<lparr>ethernet_type_to_handler := m, ip_type_to_handler := m'\<rparr>) s' \<Longrightarrow>
      routes_head s' \<and> tcp_get_socket ip port s' = tcp_get_socket ip port s"
proof -
  obtain m m' where "routes_tcp s m m'" and again:
    "\<forall>s' :: 'a stack_mem_scheme. ethernet_type_to_handler s' = m \<longrightarrow> ip_type_to_handler s' = m' \<longrightarrow> routes_head s'"
    using assms by (rule routes_headE)
  then show thesis
    using that get_socket_cong [of "s\<lparr>ethernet_type_to_handler := m, ip_type_to_handler := m'\<rparr>" s]
    by (simp add: keeps_routes_def)
qed

lemma host_answers_overflows:
  fixes b :: "'a stack_mem_scheme"
  assumes place: "receives place" and mac: "length (mac ifa) = 6"
    and opn: "can_open b ifb l sk (th_source_port syn)" and n: "6 \<le> n" and mem: "malloc_slack b = 0"
    and syn: "th_control_bits syn = TCP_SYN_FLAG" "th_destination_port syn = sk_port sk"
  shows "worker_packet [H_ethernet] n p (Some (place (segment_frame (eth_to ifb) (ip_to ifb) ifa syn))) ifb b = Inl Out_of_bounds"
proof -
  have macb: "length (mac ifb) = 6" and head: "routes_head b" using opn by (simp_all add: can_open_def)
  obtain eh iph where f: "tcp_frame (place (segment_frame (eth_to ifb) (ip_to ifb) ifa syn)) ifb eh iph syn"
    by (rule segment_received [OF place mac macb])
  obtain m m' where route: "routes_tcp b m m'" using head by (rule routes_headE)
  have "has_flag syn TCP_SYN_FLAG" using syn(1) by (simp add: has_flag_def TCP_SYN_FLAG_def)
  moreover have "tcp_get_socket (ipv4_addr ifb) (th_destination_port syn) b = Inr (Some l)" "seq_x b + 142 < 2 ^ 31"
    "tcp_get_transmission_control_block l (tcb_header_to_connection_id iph syn) b = Inr None"
    using opn syn(2) by (simp_all add: can_open_def connection_id_any)
  ultimately show ?thesis using worker_syn_overflows [OF f route _ _ _ _ mem n, of l p] by blast
qed

lemma host_answers:
  fixes b :: "'a stack_mem_scheme"
  defines "u \<equiv> length (tcbs b)"
  assumes place: "receives place" and mac: "length (mac ifa) = 6" and mem: "0 < malloc_slack b"
    and opn: "can_open b ifb l sk (th_source_port syn)" and n: "6 \<le> n"
    and syn: "th_control_bits syn = TCP_SYN_FLAG" "th_destination_port syn = sk_port sk"
  shows "\<exists>b1 reply tcb iph. worker_packet [H_ethernet] n p (Some (place (segment_frame (eth_to ifb) (ip_to ifb) ifa syn))) ifb b = Inr b1 \<and>
    wire b1 = wire b @ [segment_frame (eth_to ifa) (ip_to ifa) ifb reply] \<and> syn_ack b sk syn reply \<and>
    connected b1 l u tcb (with_slot u sk) \<and> half_open b iph syn tcb \<and> routes_head b1 \<and>
    tcp_get_socket (ipv4_addr ifb) (sk_port sk) b1 = Inr (Some l) \<and> keeps_app b b1 \<and> callbacks b1 = callbacks b"
proof -
  have macb: "length (mac ifb) = 6" and head: "routes_head b" using opn by (simp_all add: can_open_def)
  obtain eh iph where f: "tcp_frame (place (segment_frame (eth_to ifb) (ip_to ifb) ifa syn)) ifb eh iph syn"
    and ret: "eth_return eh = eth_to ifa" "ip_return iph = ip_to ifa"
    by (rule segment_received [OF place mac macb])
  obtain m m' where route: "routes_tcp b m m'"
    and kept: "\<And>s' ip port. keeps_routes (b\<lparr>ethernet_type_to_handler := m, ip_type_to_handler := m'\<rparr>) s' \<Longrightarrow>
      routes_head s' \<and> tcp_get_socket ip port s' = tcp_get_socket ip port b"
    using head by (rule routes_keptE) blast
  have flags: "has_flag syn TCP_SYN_FLAG" "\<not> has_flag syn TCP_RST_FLAG" "\<not> has_flag syn TCP_ACK_FLAG"
    using syn(1) by (simp_all add: has_flag_def TCP_SYN_FLAG_def TCP_RST_FLAG_def TCP_ACK_FLAG_def)
  have id: "tcb_header_to_connection_id iph syn \<noteq> 0"
    and none: "tcp_get_transmission_control_block l (tcb_header_to_connection_id iph syn) b = Inr None"
    using opn syn(2) connection_id_nonzero [of "sk_port sk"] by (simp_all add: can_open_def connection_id_any)
  from opn have pre: "tcp_get_socket (ipv4_addr ifb) (th_destination_port syn) b = Inr (Some l)" "sock_at b l = Inr sk"
    "None \<in> set (trans_control_block sk)" "seq_x b + 142 < 2 ^ 31"
    by (simp_all add: can_open_def syn(2))
  from worker_syn [OF f route pre(1-3) none id flags pre(4) mem n, of p] obtain b1 reply tcb where
    w: "worker_packet [H_ethernet] n p (Some (place (segment_frame (eth_to ifb) (ip_to ifb) ifa syn))) ifb b = Inr b1"
      "wire b1 = wire b @ [segment_frame (eth_to ifa) (ip_to ifa) ifb reply]" "syn_ack b sk syn reply"
      "connected b1 l u tcb (with_slot u sk)" "half_open b iph syn tcb" "keeps_app b b1" "callbacks b1 = callbacks b"
    and keep: "keeps_routes (b\<lparr>ethernet_type_to_handler := m, ip_type_to_handler := m'\<rparr>) b1"
    unfolding ret u_def by blast
  then show ?thesis using w opn kept [OF keep] unfolding can_open_def by metis
qed

text \<open>The first machine completes its side and acknowledges.\<close>

lemma host_completes:
  fixes a1 :: "'a stack_mem_scheme"
  assumes place: "receives place" and mac: "length (mac ifa) = 6" "length (mac ifb) = 6" and n: "6 \<le> n"
    and head: "routes_head a1" and sock: "tcp_get_socket (ipv4_addr ifa) (sk_port sk) a1 = Inr (Some k)"
    and idle: "idle a1 k t tcb sk" and cb: "sk_on_connect sk = Some f" and x: "0 \<le> seq_x a" "seq_x a + 142 < 2 ^ 31"
    and sent: "syn_sent a (tcp_shared_calculate_connection_id 0 (th_source_port reply) (sk_port sk)) tcb"
    and syn: "th_sequence_num syn = htonl (of_int (seq_x a + 142))" "th_source_port syn = sk_port sk"
    and reply: "syn_ack b skb syn reply"
  shows "\<exists>a2 ack tcb'. worker_packet [H_ethernet] n p (Some (place (segment_frame (eth_to ifa) (ip_to ifa) ifb reply))) ifa a1 = Inr a2 \<and>
    wire a2 = wire a1 @ [segment_frame (eth_to ifb) (ip_to ifb) ifa ack] \<and> final_ack tcb sk reply ack \<and>
    callbacks a2 = callbacks a1 @ [f] \<and> idle a2 k t tcb' sk \<and> opened_by tcb reply tcb' \<and> routes_head a2 \<and>
    tcp_get_socket (ipv4_addr ifa) (sk_port sk) a2 = Inr (Some k) \<and> keeps_app a1 a2"
proof -
  obtain eh iph where f: "tcp_frame (place (segment_frame (eth_to ifa) (ip_to ifa) ifb reply)) ifa eh iph reply"
    and ret: "eth_return eh = eth_to ifb" "ip_return iph = ip_to ifb"
    and len: "th_data_offset reply = 0x50 \<Longrightarrow> tcp_get_payload_length iph reply = 0"
    by (rule segment_received [OF place mac(2,1)]) blast
  obtain m m' where route: "routes_tcp a1 m m'"
    and kept: "\<And>s' ip port. keeps_routes (a1\<lparr>ethernet_type_to_handler := m, ip_type_to_handler := m'\<rparr>) s' \<Longrightarrow>
      routes_head s' \<and> tcp_get_socket ip port s' = tcp_get_socket ip port a1"
    using head by (rule routes_keptE) blast
  have flags: "has_flag reply TCP_SYN_FLAG" "has_flag reply TCP_ACK_FLAG" "\<not> has_flag reply TCP_RST_FLAG"
    using reply by (simp_all add: syn_ack_def has_flag_def TCP_SYN_FLAG_def TCP_RST_FLAG_def TCP_ACK_FLAG_def)
  have pre: "tcp_get_socket (ipv4_addr ifa) (th_destination_port reply) a1 = Inr (Some k)"
    "tcb_id tcb = tcb_header_to_connection_id iph reply" "tcb_state tcb = SYN_SENT" "state_function tcb = Tcp_syn_sent"
    "tcp_get_payload_length iph reply = 0"
    using sock sent reply syn(2) len by (simp_all add: syn_ack_def syn_sent_def connection_id_any)
  have ack: "send_initial_sequence_num tcb < ntohl (th_acknowledgement_num reply)"
    "ntohl (th_acknowledgement_num reply) \<le> send_next tcb"
    using sent reply syn(1) iss_increases [OF x] by (simp_all add: syn_ack_def syn_sent_def)
  from worker_synack [OF f route pre(1) idle pre(2-4) flags ack pre(5) cb n, of p]
  obtain a2 where keep: "keeps_routes (a1\<lparr>ethernet_type_to_handler := m, ip_type_to_handler := m'\<rparr>) a2"
    and w: "\<exists>ack tcb'. worker_packet [H_ethernet] n p (Some (place (segment_frame (eth_to ifa) (ip_to ifa) ifb reply))) ifa a1 = Inr a2 \<and>
      wire a2 = wire a1 @ [segment_frame (eth_to ifb) (ip_to ifb) ifa ack] \<and> final_ack tcb sk reply ack \<and>
      callbacks a2 = callbacks a1 @ [f] \<and> idle a2 k t tcb' sk \<and> opened_by tcb reply tcb' \<and> keeps_app a1 a2"
    unfolding ret by blast
  from kept [OF keep, of "ipv4_addr ifa" "sk_port sk"] sock w show ?thesis by (elim exE conjE) force
qed

text \<open>One turn of the link in which one frame is read.\<close>

lemma exchange_one:
  assumes "worker_packet [H_ethernet] n p (Some (place f)) ifb b = Inr b'" and "wire b' = wire b @ gs"
  shows "exchange (Suc i) place n p ifa ifb [f] a b =
    sbind (exchange i place n p ifb ifa gs b' a) (\<lambda>(b'', a'). Inr (a', b''))"
  using assms by (simp del: worker_packet.simps)

lemma exchange_quiet: "exchange (Suc i) place n p ifa ifb [] a b = Inr (a, b)"
  by simp

lemma iss_room:
  assumes "0 \<le> x" "x + 142 < 2 ^ 31" "0 < w" "w < 2 ^ 16"
  shows "unat (of_int (x + 142) + 1 :: u32) + unat (of_int w :: u16) < 2 ^ 32"
    and "unat (of_int (x + 142) + 1 :: u32) + nat w < 2 ^ 32"
proof -
  have "unat (of_int (x + 143) :: u32) = nat (x + 143)" using assms by (intro unat_of_int_small) simp_all
  moreover have "(of_int (x + 142) + 1 :: u32) = of_int (x + 143)" by simp
  ultimately have "unat (of_int (x + 142) + 1 :: u32) = nat (x + 143)" by (simp only:)
  moreover have "unat (of_int w :: u16) = nat w" using assms by (intro unat_of_int_small) simp_all
  moreover have "nat (x + 143) + nat w < 2 ^ 32" using assms by simp
  ultimately show "unat (of_int (x + 142) + 1 :: u32) + unat (of_int w :: u16) < 2 ^ 32"
    "unat (of_int (x + 142) + 1 :: u32) + nat w < 2 ^ 32"
    by (simp_all only:)
qed

lemma half_open_completed:
  assumes "half_open b iph syn tcb"
  shows "tcb_id ((tcb_established tcb ack)\<lparr>tcb_in_buffer := bb\<rparr>) =
      tcp_shared_calculate_connection_id 0 (th_source_port syn) (th_destination_port syn)"
    "tcb_remote_port ((tcb_established tcb ack)\<lparr>tcb_in_buffer := bb\<rparr>) = th_source_port syn"
    "receive_next ((tcb_established tcb ack)\<lparr>tcb_in_buffer := bb\<rparr>) = ntohl (th_sequence_num syn) + 1"
    "send_next ((tcb_established tcb ack)\<lparr>tcb_in_buffer := bb\<rparr>) = of_int (seq_x b + 142) + 1"
    "receive_window ((tcb_established tcb ack)\<lparr>tcb_in_buffer := bb\<rparr>) = of_int (tcp_window b)"
    "send_window ((tcb_established tcb ack)\<lparr>tcb_in_buffer := bb\<rparr>) = ntohs (th_window ack)"
    "tcb_state ((tcb_established tcb ack)\<lparr>tcb_in_buffer := bb\<rparr>) = ESTABLISHED"
    "state_function ((tcb_established tcb ack)\<lparr>tcb_in_buffer := bb\<rparr>) = Tcp_others"
  using assms by (simp_all add: half_open_def tcb_established_def connection_id_any)

text \<open>The second machine completes its side.\<close>

lemma host_completed:
  fixes b1 :: "'a stack_mem_scheme"
  assumes place: "receives place" and mac: "length (mac ifa) = 6" "length (mac ifb) = 6" and n: "6 \<le> n"
    and head: "routes_head b1" and sock: "tcp_get_socket (ipv4_addr ifb) (sk_port sk) b1 = Inr (Some l)"
    and conn: "connected b1 l u tcb sk" and half: "half_open b iph1 syn tcb" and fits: "window_fits b syn"
    and syn: "th_destination_port syn = sk_port sk"
    and ack: "th_source_port ack = th_source_port syn" "th_destination_port ack = sk_port sk"
      "th_control_bits ack = TCP_ACK_FLAG" "th_data_offset ack = 0x50"
      "th_sequence_num ack = htonl (ntohl (th_sequence_num syn) + 1)"
      "th_acknowledgement_num ack = htonl (of_int (seq_x b + 142) + 1)"
  shows "\<exists>b2 bb. worker_packet [H_ethernet] n p (Some (place (segment_frame (eth_to ifb) (ip_to ifb) ifa ack))) ifb b1 = Inr b2 \<and>
    wire b2 = wire b1 \<and> callbacks b2 = callbacks b1 \<and> keeps_app b1 b2 \<and>
    endpoint b2 ifb l u ((tcb_established tcb ack)\<lparr>tcb_in_buffer := bb\<rparr>) sk"
proof -
  obtain eh iph where f: "tcp_frame (place (segment_frame (eth_to ifb) (ip_to ifb) ifa ack)) ifb eh iph ack"
    and len: "th_data_offset ack = 0x50 \<Longrightarrow> tcp_get_payload_length iph ack = 0"
    by (rule segment_received [OF place mac]) blast
  obtain m m' where route: "routes_tcp b1 m m'"
    and kept: "\<And>s' ip port. keeps_routes (b1\<lparr>ethernet_type_to_handler := m, ip_type_to_handler := m'\<rparr>) s' \<Longrightarrow>
      routes_head s' \<and> tcp_get_socket ip port s' = tcp_get_socket ip port b1"
    using head by (rule routes_keptE) blast
  have "completes b syn iph ack"
    using ack syn len
    by (simp add: completes_def has_flag_def TCP_SYN_FLAG_def TCP_RST_FLAG_def TCP_ACK_FLAG_def TCP_FIN_FLAG_def)
  moreover have "3 \<le> n" using n by simp
  moreover have "tcp_get_socket (ipv4_addr ifb) (th_destination_port syn) b1 = Inr (Some l)" using sock syn by simp
  ultimately obtain b2 bb where
    w: "worker_packet [H_ethernet] n p (Some (place (segment_frame (eth_to ifb) (ip_to ifb) ifa ack))) ifb b1 = Inr b2"
      "wire b2 = wire b1" "idle b2 l u ((tcb_established tcb ack)\<lparr>tcb_in_buffer := bb\<rparr>) sk" "keeps_app b1 b2"
      "callbacks b2 = callbacks b1"
    and keep: "keeps_routes (b1\<lparr>ethernet_type_to_handler := m, ip_type_to_handler := m'\<rparr>) b2"
    using worker_completes [OF f route conn half fits, of n p] by blast
  have "unat (ntohl (th_sequence_num syn) + 1) + unat (of_int (tcp_window b) :: u16) < 2 ^ 32"
    using fits unat_of_int_small [of "tcp_window b", where 'w = 16] by (simp add: window_fits_def)
  then have "endpoint b2 ifb l u ((tcb_established tcb ack)\<lparr>tcb_in_buffer := bb\<rparr>) sk"
    using w(3) mac(2) sock kept [OF keep] syn by (simp add: endpoint_def half_open_completed [OF half])
  with w show ?thesis by blast
qed

text \<open>The third segment of the handshake.\<close>

definition completing_ack :: "'a tcp_mem_scheme \<Rightarrow> 'a tcp_mem_scheme \<Rightarrow> tcp_socket_t \<Rightarrow> tcp_socket_t \<Rightarrow> tcp_header_t \<Rightarrow> bool" where
  "completing_ack a b ska skb ack \<longleftrightarrow> th_source_port ack = sk_port ska \<and> th_destination_port ack = sk_port skb \<and>
     th_control_bits ack = TCP_ACK_FLAG \<and> th_sequence_num ack = htonl (of_int (seq_x a + 142) + 1) \<and>
     th_acknowledgement_num ack = htonl (of_int (seq_x b + 142) + 1) \<and> th_data_offset ack = 0x50 \<and>
     th_window ack = htons (of_int (tcp_window a))"

text \<open>All of it: the call of the program and three frames.\<close>

lemma hosts_open:
  fixes a b :: "'a stack_mem_scheme"
  defines "t \<equiv> length (tcbs a)" and "u \<equiv> length (tcbs b)"
  assumes place: "receives place" and n: "6 \<le> n"
    and opna: "can_open a ifa k ska (sk_port skb)" and opnb: "can_open b ifb l skb (sk_port ska)"
    and client: "client_of a ifa ifb k ska c" and cb: "sk_on_connect ska = Some f"
    and mem: "0 < malloc_slack a" "0 < malloc_slack b"
  shows "\<exists>cid a1 a2 b2 syn synack ack tcba tcbb.
    tcp_socket_connect (op_write n) H_tcp k (Some c) (ipv4_addr ifb) (sk_port skb) a = Inr (cid, a1) \<and>
    exchange 4 place n p ifa ifb (drop (length (wire a)) (wire a1)) a1 b = Inr (a2, b2) \<and>
    wire a2 = wire a @ [segment_frame (eth_to ifb) (ip_to ifb) ifa syn, segment_frame (eth_to ifb) (ip_to ifb) ifa ack] \<and>
    wire b2 = wire b @ [segment_frame (eth_to ifa) (ip_to ifa) ifb synack] \<and>
    syn_of a ska (sk_port skb) syn \<and> syn_ack b skb syn synack \<and>
    completing_ack a b ska skb ack \<and>
    callbacks a2 = callbacks a @ [f] \<and> callbacks b2 = callbacks b \<and>
    endpoint a2 ifa k t tcba (with_slot t ska) \<and> endpoint b2 ifb l u tcbb (with_slot u skb) \<and>
    agree tcba (with_slot t ska) tcbb (with_slot u skb) \<and> tcb_id tcba = cid \<and>
    can_send a2 (eth_to ifb) (ip_to ifb) k t tcba (with_slot t ska) \<and> keeps_app b b2 \<and>
    send_window tcba = receive_window tcbb \<and> send_window tcbb = receive_window tcba \<and>
    receive_window tcba = of_int (tcp_window a) \<and> receive_window tcbb = of_int (tcp_window b) \<and>
    send_next tcba = of_int (seq_x a + 142) + 1 \<and> send_next tcbb = of_int (seq_x b + 142) + 1"
proof -
  let ?ska = "with_slot t ska" and ?skb = "with_slot u skb" and ?port = "sk_port skb"
  let ?cid = "tcp_shared_calculate_connection_id 0 ?port (sk_port ska)"
  let ?x = "of_int (seq_x a + 142) :: u32" and ?y = "of_int (seq_x b + 142) :: u32"
  have mac: "length (mac ifa) = 6" "length (mac ifb) = 6" and xa: "0 \<le> seq_x a" "seq_x a + 142 < 2 ^ 31"
    "0 < tcp_window a" "tcp_window a < 2 ^ 16" and xb: "0 \<le> seq_x b" "seq_x b + 142 < 2 ^ 31"
    "0 < tcp_window b" "tcp_window b < 2 ^ 16"
    using opna opnb by (simp_all add: can_open_def)
  obtain a1 syn tcb1 where con: "tcp_socket_connect (op_write n) H_tcp k (Some c) (ipv4_addr ifb) ?port a = Inr (?cid, a1)"
      "wire a1 = wire a @ [segment_frame (eth_to ifb) (ip_to ifb) ifa syn]" "callbacks a1 = callbacks a"
    and syn: "th_control_bits syn = TCP_SYN_FLAG" "th_sequence_num syn = htonl ?x" "th_source_port syn = sk_port ska"
      "th_destination_port syn = ?port" "syn_of a ska ?port syn"
    and idle1: "idle a1 k t tcb1 ?ska" and tcb1: "syn_sent a ?cid tcb1" "tcb_remote_port tcb1 = ?port" "active_mode_args tcb1 = Some c"
    and keep1: "keeps_routes a a1" and client1: "client_of a1 ifa ifb k ?ska c"
    using host_connects [OF opna client n mem(1) refl] unfolding t_def syn_of_def by blast
  obtain b1 synack tcb2 iph where
    w2: "worker_packet [H_ethernet] n p (Some (place (segment_frame (eth_to ifb) (ip_to ifb) ifa syn))) ifb b = Inr b1"
      "wire b1 = wire b @ [segment_frame (eth_to ifa) (ip_to ifa) ifb synack]" "callbacks b1 = callbacks b" "keeps_app b b1"
    and synack: "syn_ack b skb syn synack" and conn2: "connected b1 l u tcb2 ?skb" and half: "half_open b iph syn tcb2"
    and route2: "routes_head b1" "tcp_get_socket (ipv4_addr ifb) (sk_port ?skb) b1 = Inr (Some l)"
    using host_answers [OF place mac(1) mem(2), of ifb l skb syn n p] opnb n syn unfolding u_def by auto
  have route1: "routes_head a1" "tcp_get_socket (ipv4_addr ifa) (sk_port ?ska) a1 = Inr (Some k)"
    using opna keep1 by (simp_all add: can_open_def keeps_routes_def routes_head_def)
  have sent: "syn_sent a (tcp_shared_calculate_connection_id 0 (th_source_port synack) (sk_port ?ska)) tcb1"
    "sk_on_connect ?ska = Some f" "th_source_port syn = sk_port ?ska"
    using tcb1 synack cb syn by (simp_all add: syn_ack_def)
  obtain a2 ack tcba where
    w3: "worker_packet [H_ethernet] n p (Some (place (segment_frame (eth_to ifa) (ip_to ifa) ifb synack))) ifa a1 = Inr a2"
      "wire a2 = wire a1 @ [segment_frame (eth_to ifb) (ip_to ifb) ifa ack]" "callbacks a2 = callbacks a1 @ [f]"
    and ack: "final_ack tcb1 ?ska synack ack" and tcba: "idle a2 k t tcba ?ska" "opened_by tcb1 synack tcba"
    and route3: "routes_head a2" "tcp_get_socket (ipv4_addr ifa) (sk_port ?ska) a2 = Inr (Some k)" "keeps_app a1 a2"
    using host_completes [OF place mac n route1 idle1 sent(2) xa(1,2) sent(1) syn(2) sent(3) synack, of p] by blast
  have fits: "window_fits b syn" using xa xb iss_room(2) [OF xa(1,2) xb(3,4)] syn(2) by (simp add: window_fits_def)
  obtain b2 bb where
    w4: "worker_packet [H_ethernet] n p (Some (place (segment_frame (eth_to ifb) (ip_to ifb) ifa ack))) ifb b1 = Inr b2"
      "wire b2 = wire b1" "callbacks b2 = callbacks b1" "keeps_app b1 b2"
    and endb: "endpoint b2 ifb l u ((tcb_established tcb2 ack)\<lparr>tcb_in_buffer := bb\<rparr>) ?skb"
    using host_completed [OF place mac n route2 conn2 half fits, of ack p] ack syn synack tcb1
    by (auto simp: final_ack_def syn_ack_def syn_sent_def simp del: worker_packet.simps)
  let ?tcbb = "(tcb_established tcb2 ack)\<lparr>tcb_in_buffer := bb\<rparr>"
  have acked: "completing_ack a b ska skb ack"
    using tcb1(1,2) ack synack by (simp add: final_ack_def completing_ack_def syn_ack_def syn_sent_def)
  have enda: "endpoint a2 ifa k t tcba ?ska"
    using tcba route3 mac(1) tcb1 synack iss_room(1) [OF xb(1,2) xa(3,4)]
    by (simp add: endpoint_def opened_by_def syn_sent_def syn_ack_def)
  have agree: "agree tcba ?ska ?tcbb ?skb" "send_window tcba = receive_window ?tcbb" "send_window ?tcbb = receive_window tcba"
    "receive_window tcba = of_int (tcp_window a)" "receive_window ?tcbb = of_int (tcp_window b)"
    "send_next tcba = ?x + 1" "send_next ?tcbb = ?y + 1"
    using tcba(2) tcb1 synack ack syn
    by (simp_all add: agree_def half_open_completed [OF half] opened_by_def syn_sent_def syn_ack_def final_ack_def)
  have can: "can_send a2 (eth_to ifb) (ip_to ifb) k t tcba ?ska" "tcb_id tcba = ?cid"
    using tcba tcb1 client1 route3(3)
    by (auto simp: can_send_def idle_def opened_by_def client_of_def keeps_app_def syn_sent_def)
  have "exchange 4 place n p ifa ifb (drop (length (wire a)) (wire a1)) a1 b = Inr (a2, b2)"
    using exchange_one [where place = place, OF w2(1,2), of 3] exchange_one [where place = place, OF w3(1,2), of 2] exchange_one [where place = place, OF w4(1), of "[]" 1] w4(2) con(2)
    by (simp add: numeral_eq_Suc exchange_quiet del: exchange.simps)
  then show ?thesis
    using con w2(2-4) w3(2,3) w4(2-4) syn(5) synack acked enda endb agree can
    by (intro exI [of _ ?cid] exI [of _ a1] exI [of _ a2] exI [of _ b2] exI [of _ syn] exI [of _ synack] exI [of _ ack]
        exI [of _ tcba] exI [of _ ?tcbb]) (simp add: keeps_app_def)
qed

end
