(* ===== verification/Tcp_Session.thy ===== *)
theory Tcp_Session
  imports Tcp_Hosts
begin

text \<open>
  A session between the two machines of \<open>Tcp_Hosts\<close>: the program on the first sends requests
  one after the other, the custom handler on the second answers each, and all
  acknowledgements in between are delivered.
\<close>

section \<open>What the ends do with the segments of the other\<close>

text \<open>A header that continues the conversation at an end with the control block \<open>tcb\<close>.\<close>

definition continues :: "tcb_t \<Rightarrow> tcp_socket_t \<Rightarrow> tcp_header_t \<Rightarrow> bool" where
  "continues tcb sk h \<longleftrightarrow> th_source_port h = tcb_remote_port tcb \<and> th_destination_port h = sk_port sk \<and>
     th_sequence_num h = htonl (receive_next tcb) \<and> th_acknowledgement_num h = htonl (send_next tcb) \<and>
     th_data_offset h = 0x50 \<and> th_control_bits h \<in> {TCP_ACK_FLAG, TCP_ACK_FLAG OR TCP_PSH_FLAG}"

text \<open>A program that sends one request after the other, with everything delivered in between.\<close>

fun session ::
  "(u8 list \<Rightarrow> mem8) \<Rightarrow> nat \<Rightarrow> nat \<Rightarrow> interface_t \<Rightarrow> interface_t \<Rightarrow> nat \<Rightarrow> u32 \<Rightarrow> u8 list list \<Rightarrow>
   'a stack_mem_scheme \<Rightarrow> 'a stack_mem_scheme \<Rightarrow> fault + ('a stack_mem_scheme \<times> 'a stack_mem_scheme)" where
  "session place n p ifa ifb k cid [] a b = Inr (a, b)"
| "session place n p ifa ifb k cid (r # rs) a b =
     sbind (tcp_socket_send (op_write n) k cid r a) (\<lambda>(ok, a1).
     sbind (exchange 4 place n p ifa ifb (drop (length (wire a)) (wire a1)) a1 b) (\<lambda>(a2, b2).
     session place n p ifa ifb k cid rs a2 b2))"

text \<open>
  The segments of the client and of the server in a session, when every request is answered with
  \<open>bs\<close>: \<open>x\<close> is the next number of the sender, \<open>y\<close> that of the other side, \<open>w\<close> the window of the sender.
\<close>

fun client_sends :: "u32 \<Rightarrow> u32 \<Rightarrow> u16 \<Rightarrow> u8 list \<Rightarrow> u8 list list \<Rightarrow> segment list" where
  "client_sends x y w bs [] = []"
| "client_sends x y w bs (r # rs) =
     \<lparr>seg_flags = TCP_ACK_FLAG OR TCP_PSH_FLAG, seg_seq = x, seg_ack = y, seg_window = w, seg_payload = r\<rparr> #
     \<lparr>seg_flags = TCP_ACK_FLAG, seg_seq = x + of_nat (length r), seg_ack = y + of_nat (length bs),
      seg_window = w - of_nat (length bs), seg_payload = []\<rparr> #
     client_sends (x + of_nat (length r)) (y + of_nat (length bs)) (w - of_nat (length bs)) bs rs"

fun server_sends :: "u32 \<Rightarrow> u32 \<Rightarrow> u16 \<Rightarrow> u8 list \<Rightarrow> u8 list list \<Rightarrow> segment list" where
  "server_sends x y w bs [] = []"
| "server_sends x y w bs (r # rs) =
     \<lparr>seg_flags = TCP_ACK_FLAG, seg_seq = x, seg_ack = y + of_nat (length r),
      seg_window = w - of_nat (length r), seg_payload = []\<rparr> #
     \<lparr>seg_flags = TCP_ACK_FLAG OR TCP_PSH_FLAG, seg_seq = x, seg_ack = y + of_nat (length r),
      seg_window = w - of_nat (length r), seg_payload = bs\<rparr> #
     server_sends (x + of_nat (length bs)) (y + of_nat (length r)) (w - of_nat (length r)) bs rs"

text \<open>The segment with which a program's data leaves.\<close>

definition data_segment :: "tcb_t \<Rightarrow> u8 list \<Rightarrow> segment" where
  "data_segment tcb bs =
     \<lparr>seg_flags = TCP_ACK_FLAG OR TCP_PSH_FLAG, seg_seq = send_next tcb, seg_ack = receive_next tcb,
      seg_window = receive_window tcb, seg_payload = bs\<rparr>"

lemma continues_flags:
  assumes "continues tcb sk h"
  shows "\<not> has_flag h TCP_RST_FLAG" "\<not> has_flag h TCP_SYN_FLAG" "has_flag h TCP_ACK_FLAG" "\<not> has_flag h TCP_FIN_FLAG"
    "ntohl (th_acknowledgement_num h) \<le> send_next tcb" "ntohl (th_sequence_num h) = receive_next tcb"
  using assms
  by (auto simp: continues_def has_flag_def TCP_SYN_FLAG_def TCP_RST_FLAG_def TCP_ACK_FLAG_def TCP_FIN_FLAG_def TCP_PSH_FLAG_def)

lemma endpoint_in_order:
  assumes ep: "endpoint s ifc k t tcb sk" and con: "continues tcb sk h" and frame: "tcp_frame frame ifc eh iph h"
    and len: "tcp_get_payload_length iph h = n" "n \<le> receive_window tcb" "receive_window tcb \<noteq> 0"
  shows "in_order s iph h k t tcb sk"
proof -
  have "is_segment_in_window tcb h (ucast n)"
    using window_at_edge [of tcb h] window_takes [of tcb h n] ep len continues_flags(6) [OF con]
    by (cases "n = 0") (simp_all add: endpoint_def)
  then show ?thesis
    using ep con frame len(1)
    by (simp add: in_order_def endpoint_def tcp_frame_def connection_id_any continues_def)
qed

text \<open>An end after a step that took \<open>n\<close> bytes and sent \<open>bs\<close>.\<close>

lemma endpoint_again:
  assumes ep: "endpoint s ifc k t tcb sk" and idle: "idle s' k t tcb' sk" and ans: "tcb_answered tcb hdr n bs tcb'"
    and n: "n \<le> receive_window tcb" and head: "routes_head s'"
    and sock: "tcp_get_socket (ipv4_addr ifc) (sk_port sk) s' = tcp_get_socket (ipv4_addr ifc) (sk_port sk) s"
  shows "endpoint s' ifc k t tcb' sk"
proof -
  have "unat (receive_window tcb - n) = unat (receive_window tcb) - unat n" "unat n \<le> unat (receive_window tcb)"
    using n by (simp_all add: unat_sub word_le_nat_alt)
  moreover have "receive_next tcb' = receive_next tcb + ucast n" "receive_window tcb' = receive_window tcb - n"
    using ans by (simp_all add: tcb_answered_def conversation_of_def advance_def)
  ultimately have "unat (receive_next tcb') + unat (receive_window tcb') < 2 ^ 32"
    using ep by (simp add: endpoint_def unat_add_u32 unat_ucast_u16_u32)
  then show ?thesis using ep idle ans head sock by (simp add: endpoint_def tcb_answered_def)
qed

text \<open>The way of a segment of the other end to \<^verbatim>\<open>tcp_read\<close>.\<close>

lemma end_reads:
  fixes s :: "'a stack_mem_scheme"
  assumes place: "receives place" and mac: "length (mac peer) = 6"
    and ep: "endpoint s ifc k t tcb sk" and con: "continues tcb sk h"
    and len: "of_nat (length bs) \<le> receive_window tcb" "receive_window tcb \<noteq> 0"
  obtains eh iph m m' where "tcp_frame (place (data_frame (eth_to ifc) (ip_to ifc) peer h bs)) ifc eh iph h"
    and "eth_return eh = eth_to peer" and "ip_return iph = ip_to peer" and "routes_tcp s m m'"
    and "tcp_get_payload_length iph h = of_nat (length bs)" and "in_order s iph h k t tcb sk"
    and "\<And>s' tcb' bs'. keeps_routes (s\<lparr>ethernet_type_to_handler := m, ip_type_to_handler := m'\<rparr>) s' \<Longrightarrow>
      idle s' k t tcb' sk \<Longrightarrow> tcb_answered tcb h (of_nat (length bs)) bs' tcb' \<Longrightarrow> endpoint s' ifc k t tcb' sk"
proof -
  have macs: "length (mac ifc) = 6" and head: "routes_head s" using ep by (simp_all add: endpoint_def)
  obtain eh iph where f: "tcp_frame (place (data_frame (eth_to ifc) (ip_to ifc) peer h bs)) ifc eh iph h"
    and ret: "eth_return eh = eth_to peer" "ip_return iph = ip_to peer"
    and pl: "th_data_offset h = 0x50 \<Longrightarrow> tcp_get_payload_length iph h = of_nat (length bs)"
    by (rule frame_received [OF place mac macs]) blast
  obtain m m' where route: "routes_tcp s m m'"
    and kept: "\<And>s' ip port. keeps_routes (s\<lparr>ethernet_type_to_handler := m, ip_type_to_handler := m'\<rparr>) s' \<Longrightarrow>
      routes_head s' \<and> tcp_get_socket ip port s' = tcp_get_socket ip port s"
    using head by (rule routes_keptE) blast
  have n: "tcp_get_payload_length iph h = of_nat (length bs)" using pl con by (simp add: continues_def)
  have "endpoint s' ifc k t tcb' sk" if "keeps_routes (s\<lparr>ethernet_type_to_handler := m, ip_type_to_handler := m'\<rparr>) s'"
    "idle s' k t tcb' sk" "tcb_answered tcb h (of_nat (length bs)) bs' tcb'" for s' tcb' bs'
    using endpoint_again [OF ep that(2,3) len(1)] kept [OF that(1)] by blast
  from that [OF f ret route n endpoint_in_order [OF ep con f n len] this] show thesis .
qed

lemmas end_reads_empty = end_reads [where bs = "[]", unfolded data_frame_empty, simplified]

lemma endpoint_simps:
  "endpoint s ifc k t tcb sk \<Longrightarrow> tcb_state tcb = ESTABLISHED"
  "endpoint s ifc k t tcb sk \<Longrightarrow> connected s k t tcb sk"
  by (simp_all add: endpoint_def idle_def)

text \<open>An acknowledgement is taken in silence.\<close>

lemma end_takes_ack:
  fixes s :: "'a stack_mem_scheme"
  assumes place: "receives place" and mac: "length (mac peer) = 6" and n: "8 \<le> n"
    and ep: "endpoint s ifc k t tcb sk" and con: "continues tcb sk h" and win: "receive_window tcb \<noteq> 0"
  shows "\<exists>s' tcb'. worker_packet [H_ethernet] n p (Some (place (segment_frame (eth_to ifc) (ip_to ifc) peer h))) ifc s = Inr s' \<and>
    wire s' = wire s \<and> endpoint s' ifc k t tcb' sk \<and> tcb_answered tcb h 0 [] tcb' \<and>
    active_mode_args tcb' = active_mode_args tcb \<and> keeps_app s s' \<and> callbacks s' = callbacks s"
proof -
  obtain eh iph m m' where f: "tcp_frame (place (segment_frame (eth_to ifc) (ip_to ifc) peer h)) ifc eh iph h"
    and route: "routes_tcp s m m'" and empty: "tcp_get_payload_length iph h = 0" and ord: "in_order s iph h k t tcb sk"
    and again: "\<And>s' tcb' bs'. keeps_routes (s\<lparr>ethernet_type_to_handler := m, ip_type_to_handler := m'\<rparr>) s' \<Longrightarrow>
      idle s' k t tcb' sk \<Longrightarrow> tcb_answered tcb h 0 bs' tcb' \<Longrightarrow> endpoint s' ifc k t tcb' sk"
    by (rule end_reads_empty [OF place mac ep con win]) blast
  obtain j where j: "n = Suc (Suc (Suc j))" using n by (auto simp: numeral_eq_Suc Suc_le_eq less_iff_Suc_add)
  let ?r = "routed p (place (segment_frame (eth_to ifc) (ip_to ifc) peer h)) eh iph m m' s"
  have ord': "in_order ?r iph h k t tcb sk" using ord by simp
  obtain s' bb where read: "tcp_read (op_read j) (op_write j) H_tcp p ifc ?r = Inr (None, s')"
    and s': "wire s' = wire s" "idle s' k t ((tcb_acked tcb h)\<lparr>tcb_in_buffer := bb\<rparr>) sk" "keeps_routes ?r s'"
      "keeps_app s s'" "callbacks s' = callbacks s"
    using tcp_read_pure_ack [OF in_at_routed above_ip_path [OF f] ord' endpoint_simps(1) [OF ep]
        continues_flags(1-5) [OF con] empty, of "op_read j" "op_write j"] by auto
  let ?tcb = "(tcb_acked tcb h)\<lparr>tcb_in_buffer := bb\<rparr>" and ?s = "s'\<lparr>in_stacks := (in_stacks s')(p := None)\<rparr>"
  have ans: "tcb_answered tcb h 0 [] ?tcb"
    using endpoint_simps(1) [OF ep] by (simp add: tcb_answered_def conversation_of_def advance_def)
  have "endpoint ?s ifc k t ?tcb sk"
    by (rule again [OF keeps_routes_worker [OF s'(3)] _ ans]) (use s'(2) in simp)
  with worker_in_order [OF f route read] s' ans j show ?thesis
    by (intro exI [of _ ?s] exI [of _ ?tcb]) (simp del: worker_packet.simps)
qed

lemma length_in_window:
  fixes w :: u16
  assumes "bs \<noteq> []" and "length bs \<le> unat w"
  shows "of_nat (length bs) \<le> w" "(of_nat (length bs) :: u16) \<noteq> 0" "w \<noteq> 0" "unat (of_nat (length bs) :: u16) = length bs"
proof -
  show l: "unat (of_nat (length bs) :: u16) = length bs"
    using le_less_trans [OF assms(2) unsigned_less] by (simp add: unat_of_nat)
  have "0 < length bs" using assms(1) by simp
  with l assms(2) show "of_nat (length bs) \<le> w" "(of_nat (length bs) :: u16) \<noteq> 0" "w \<noteq> 0"
    by (auto simp: word_le_nat_alt)
qed

text \<open>Data is acknowledged when there is no handler above.\<close>

lemma end_takes_data:
  fixes s :: "'a stack_mem_scheme"
  assumes place: "receives place" and mac: "length (mac peer) = 6" and n: "8 \<le> n"
    and ep: "endpoint s ifc k t tcb sk" and con: "continues tcb sk h"
    and bs: "bs \<noteq> []" "length bs \<le> unat (receive_window tcb)" and top: "sk_next_handler sk = None"
  shows "\<exists>s' reply tcb'. worker_packet [H_ethernet] n p (Some (place (data_frame (eth_to ifc) (ip_to ifc) peer h bs))) ifc s = Inr s' \<and>
    wire s' = wire s @ [segment_frame (eth_to peer) (ip_to peer) ifc reply] \<and> plain_ack tcb' sk reply \<and>
    endpoint s' ifc k t tcb' sk \<and> tcb_answered tcb h (of_nat (length bs)) [] tcb' \<and>
    active_mode_args tcb' = active_mode_args tcb \<and> keeps_app s s' \<and> callbacks s' = callbacks s"
proof -
  note len = length_in_window [OF bs]
  obtain eh iph m m' where f: "tcp_frame (place (data_frame (eth_to ifc) (ip_to ifc) peer h bs)) ifc eh iph h"
    and ret: "eth_return eh = eth_to peer" "ip_return iph = ip_to peer"
    and route: "routes_tcp s m m'" and pl: "tcp_get_payload_length iph h = of_nat (length bs)"
    and ord: "in_order s iph h k t tcb sk"
    and again: "\<And>s' tcb' bs'. keeps_routes (s\<lparr>ethernet_type_to_handler := m, ip_type_to_handler := m'\<rparr>) s' \<Longrightarrow>
      idle s' k t tcb' sk \<Longrightarrow> tcb_answered tcb h (of_nat (length bs)) bs' tcb' \<Longrightarrow> endpoint s' ifc k t tcb' sk"
    by (rule end_reads [OF place mac ep con len(1,3)]) blast
  obtain j where j: "n = Suc (Suc (Suc (Suc (Suc (Suc j)))))"
    using n by (auto simp: numeral_eq_Suc Suc_le_eq less_iff_Suc_add)
  let ?r = "routed p (place (data_frame (eth_to ifc) (ip_to ifc) peer h bs)) eh iph m m' s"
  have ord': "in_order ?r iph h k t tcb sk" using ord by simp
  from tcp_read_data [OF in_at_routed above_ip_path [OF f] ord' endpoint_simps(1) [OF ep] continues_flags(1-5) [OF con]
      pl len(2) top, of "op_read (Suc (Suc (Suc j)))" j]
  obtain s' reply tcb' where
    read: "tcp_read (op_read (Suc (Suc (Suc j)))) (op_write (Suc (Suc (Suc j)))) H_tcp p ifc ?r = Inr (None, s')"
    and s': "wire s' = wire s @ [segment_frame (eth_to peer) (ip_to peer) ifc reply]" "plain_ack tcb' sk reply"
      "idle s' k t tcb' sk" "tcb_answered tcb h (of_nat (length bs)) [] tcb'" "active_mode_args tcb' = active_mode_args tcb"
      "keeps_routes ?r s'" "keeps_app s s'" "callbacks s' = callbacks s"
    unfolding ret by auto
  let ?s = "s'\<lparr>in_stacks := (in_stacks s')(p := None)\<rparr>"
  have "endpoint ?s ifc k t tcb' sk"
    by (rule again [OF keeps_routes_worker [OF s'(6)] _ s'(4)]) (use s'(3) in simp)
  with worker_in_order [OF f route read] s' j show ?thesis
    by (intro exI [of _ ?s] exI [of _ reply] exI [of _ tcb']) (simp del: worker_packet.simps)
qed

text \<open>A request is acknowledged and answered when the handler above is the custom handler.\<close>

definition answers :: "'a upper_mem_scheme \<Rightarrow> tcp_socket_t \<Rightarrow> u8 list \<Rightarrow> bool" where
  "answers s sk bs \<longleftrightarrow> (\<exists>c. sk_next_handler sk = Some (H_custom c) \<and> custom_response (custom_priv s c) = Inr bs)"

lemma end_serves:
  fixes s :: "'a stack_mem_scheme"
  assumes place: "receives place" and mac: "length (mac peer) = 6" and n: "8 \<le> n"
    and ep: "endpoint s ifc k t tcb sk" and con: "continues tcb sk h"
    and req: "req \<noteq> []" "length req \<le> unat (receive_window tcb)" and top: "answers s sk bs"
    and bs: "length bs \<le> 0xFFFF - 54" "length bs \<le> unat (ntohs (send_window tcb))" "length bs \<le> unat (th_window h)"
  shows "\<exists>s' ack dat tcb'. worker_packet [H_ethernet] n p (Some (place (data_frame (eth_to ifc) (ip_to ifc) peer h req))) ifc s = Inr s' \<and>
    wire s' = wire s @ [segment_frame (eth_to peer) (ip_to peer) ifc ack, data_frame (eth_to peer) (ip_to peer) ifc dat bs] \<and>
    answers_request (conversation_of tcb) (sk_port sk) (tcb_remote_port tcb) (of_nat (length req)) bs ack dat \<and>
    endpoint s' ifc k t tcb' sk \<and> tcb_answered tcb h (of_nat (length req)) bs tcb' \<and> answers s' sk bs"
proof -
  note len = length_in_window [OF req]
  obtain eh iph m m' where f: "tcp_frame (place (data_frame (eth_to ifc) (ip_to ifc) peer h req)) ifc eh iph h"
    and ret: "eth_return eh = eth_to peer" "ip_return iph = ip_to peer"
    and route: "routes_tcp s m m'" and pl: "tcp_get_payload_length iph h = of_nat (length req)"
    and ord: "in_order s iph h k t tcb sk"
    and again: "\<And>s' tcb' bs'. keeps_routes (s\<lparr>ethernet_type_to_handler := m, ip_type_to_handler := m'\<rparr>) s' \<Longrightarrow>
      idle s' k t tcb' sk \<Longrightarrow> tcb_answered tcb h (of_nat (length req)) bs' tcb' \<Longrightarrow> endpoint s' ifc k t tcb' sk"
    by (rule end_reads [OF place mac ep con len(1,3)]) blast
  have "length bs \<le> unat (ntohs (send_window (tcb_acked tcb h)))"
    using acked_window [of tcb h] bs by auto
  then have "request s bs iph h k t tcb sk"
    using ord endpoint_simps(1) [OF ep] continues_flags [OF con] pl len(2) top bs(1)
    by (simp add: request_def answers_def)
  from worker_request [OF f route this n, of p] obtain s' ack dat tcb' where
    "worker_packet [H_ethernet] n p (Some (place (data_frame (eth_to ifc) (ip_to ifc) peer h req))) ifc s = Inr s'"
    "wire s' = wire s @ [segment_frame (eth_to peer) (ip_to peer) ifc ack, data_frame (eth_to peer) (ip_to peer) ifc dat bs]"
    "answers_request (conversation_of tcb) (sk_port sk) (tcb_remote_port tcb) (of_nat (length req)) bs ack dat"
    and idle: "idle s' k t tcb' sk" "tcb_answered tcb h (of_nat (length req)) bs tcb'" "custom_priv s' = custom_priv s"
      "keeps_routes (s\<lparr>ethernet_type_to_handler := m, ip_type_to_handler := m'\<rparr>) s'"
    unfolding ret pl by blast
  moreover from again [OF idle(4,1,2)] have "endpoint s' ifc k t tcb' sk" .
  moreover have "answers s' sk bs" using top idle(3) by (simp add: answers_def)
  ultimately show ?thesis by blast
qed

text \<open>The program sends a request.\<close>

lemma end_sends:
  fixes s :: "'a stack_mem_scheme"
  assumes ep: "endpoint s ifc k t tcb sk" and can: "can_send s e a k t tcb sk" and n: "8 \<le> n" and ifc: "sk_interface sk = ifc"
    and req: "req \<noteq> []" "length req \<le> 0xFFFF - 54" "length req \<le> unat (ntohs (send_window tcb))"
  shows "\<exists>s' h tcb'. tcp_socket_send (op_write n) k (tcb_id tcb) req s = Inr (True, s') \<and>
    wire s' = wire s @ [data_frame e a ifc h req] \<and> can_send s' e a k t tcb' sk \<and> endpoint s' ifc k t tcb' sk \<and>
    tcb_id tcb' = tcb_id tcb \<and> tcb_remote_port tcb' = tcb_remote_port tcb \<and> send_window tcb' = send_window tcb \<and>
    conversation_of tcb' = advance 0 req (conversation_of tcb) \<and> callbacks s' = callbacks s \<and>
    th_source_port h = sk_port sk \<and> th_destination_port h = tcb_remote_port tcb \<and>
    th_control_bits h = TCP_ACK_FLAG OR TCP_PSH_FLAG \<and> th_sequence_num h = htonl (send_next tcb) \<and>
    th_acknowledgement_num h = htonl (receive_next tcb) \<and> th_data_offset h = 0x50 \<and> th_window h = htons (receive_window tcb)"
proof -
  obtain j where j: "n = Suc (Suc (Suc j))" using n by (auto simp: numeral_eq_Suc Suc_le_eq less_iff_Suc_add)
  let ?fl = "TCP_ACK_FLAG OR TCP_PSH_FLAG" and ?l = "of_nat (length req) :: u64"
  from send_run [OF can req(2,3), of j] obtain s' bb where
    w: "tcp_socket_send (op_write n) k (tcb_id tcb) req s = Inr (True, s')"
      "wire s' = wire s @ [data_frame e a ifc (tcp_final_header tcb sk ?fl ?l) req]"
      "can_send s' e a k t ((tcb_sending tcb sk ?fl ?l)\<lparr>tcb_out_buffer := bb\<rparr>) sk"
      "keeps_routes s s'" "callbacks s' = callbacks s"
    unfolding j ifc by blast
  let ?tcb = "(tcb_sending tcb sk ?fl ?l)\<lparr>tcb_out_buffer := bb\<rparr>" and ?h = "tcp_final_header tcb sk ?fl ?l"
  have "?l \<noteq> 0" using req(1,2) of_nat_length_u64 [of req] by auto
  moreover have "endpoint s' ifc k t ?tcb sk"
    using ep w(3,4) by (simp add: endpoint_def can_send_def idle_def keeps_routes_def routes_head_def)
  ultimately show ?thesis
    using w by (intro exI [of _ s'] exI [of _ ?h] exI [of _ ?tcb])
      (simp add: or_or_flag conversation_of_def advance_def del: op_write.simps)
qed

section \<open>A round\<close>

text \<open>
  The window of the other side is converted twice to host byte order before it is compared
  with the length of a segment, so a window \<open>w\<close> lets through what its swapped value allows; that
  is at least \<open>w div 256\<close>.
\<close>

lemma swapped_window:
  assumes "256 * m \<le> unat w"
  shows "m \<le> unat (bswap16 w)"
proof -
  have "(ucast (bswap16 w) :: u8) = ucast (drop_bit 8 w)" by (simp add: bswap16_def)
  then have "unat (ucast (bswap16 w) :: u8) = unat (ucast (drop_bit 8 w) :: u8)" by (simp only:)
  then have "unat (bswap16 w) mod 256 = (unat w div 256) mod 256"
    by (simp add: unsigned_ucast_eq take_bit_eq_mod drop_bit_eq_div unat_div)
  moreover have "unat w div 256 < 256" using unat_u16_le [of w] by simp
  ultimately have "unat w div 256 \<le> unat (bswap16 w)" by (metis mod_less mod_less_eq_dividend)
  moreover have "m \<le> unat w div 256" using assms by simp
  ultimately show ?thesis by simp
qed

lemma window_updated:
  assumes "m \<le> unat (ntohs (send_window tcb))" and "256 * m \<le> unat w" and "th_window h = htons w"
    and "tcb_answered tcb h n bs tcb'"
  shows "m \<le> unat (ntohs (send_window tcb'))"
  using assms swapped_window [of m w] acked_window [of tcb h] by (auto simp: tcb_answered_def)

lemma unat_window_left:
  assumes "length bs + m \<le> unat (w :: u16)"
  shows "unat (w - of_nat (length bs)) = unat w - length bs" "m \<le> unat (w - of_nat (length bs))"
proof -
  have "unat (of_nat (length bs) :: u16) = length bs"
    using unat_u16_le [of w] assms by (simp add: unat_of_nat)
  then show "unat (w - of_nat (length bs)) = unat w - length bs"
    using assms by (simp add: unat_sub word_le_nat_alt)
  then show "m \<le> unat (w - of_nat (length bs))" using assms by simp
qed

text \<open>Both ends of a connection on which requests of at most \<open>m\<close> bytes are answered with \<open>bs\<close>.\<close>

definition in_session ::
  "nat \<Rightarrow> u8 list \<Rightarrow> interface_t \<Rightarrow> interface_t \<Rightarrow> nat \<Rightarrow> nat \<Rightarrow> nat \<Rightarrow> nat \<Rightarrow> tcp_socket_t \<Rightarrow> tcp_socket_t \<Rightarrow>
   'a stack_mem_scheme \<Rightarrow> 'a stack_mem_scheme \<Rightarrow> tcb_t \<Rightarrow> tcb_t \<Rightarrow> bool" where
  "in_session m bs ifa ifb k t l u ska skb a b tcba tcbb \<longleftrightarrow>
     endpoint a ifa k t tcba ska \<and> endpoint b ifb l u tcbb skb \<and> agree tcba ska tcbb skb \<and>
     can_send a (eth_to ifb) (ip_to ifb) k t tcba ska \<and> sk_interface ska = ifa \<and> sk_next_handler ska = None \<and>
     answers b skb bs \<and> m \<le> unat (ntohs (send_window tcba)) \<and> m \<le> unat (ntohs (send_window tcbb))"

lemma exchange_two:
  assumes "worker_packet [H_ethernet] n p (Some (place f)) ifb b = Inr b1"
    and "worker_packet [H_ethernet] n p (Some (place g)) ifb b1 = Inr b2" and "wire b2 = wire b @ gs"
  shows "exchange (Suc i) place n p ifa ifb [f, g] a b =
    sbind (exchange i place n p ifb ifa gs b2 a) (\<lambda>(b'', a'). Inr (a', b''))"
  using assms by (simp del: worker_packet.simps)

lemma can_send_kept:
  assumes "can_send s e a k t tcb sk" and "keeps_app s s'" and "endpoint s' ifc k t tcb' sk"
    and "active_mode_args tcb' = active_mode_args tcb"
  shows "can_send s' e a k t tcb' sk"
  using assms by (auto simp: can_send_def keeps_app_def endpoint_def idle_def)

text \<open>The client's part of a round: it takes the acknowledgement and then the response, which it acknowledges.\<close>

lemma client_takes:
  fixes a :: "'a stack_mem_scheme"
  assumes place: "receives place" and mac: "length (mac ifb) = 6" and n: "8 \<le> n"
    and ep: "endpoint a ifa k t tcb sk" and can: "can_send a (eth_to ifb) (ip_to ifb) k t tcb sk"
    and top: "sk_next_handler sk = None" and con: "continues tcb sk ack" "continues tcb sk dat"
    and bs: "bs \<noteq> []" "length bs \<le> unat (receive_window tcb)"
    and win: "m \<le> unat (ntohs (send_window tcb))" "256 * m \<le> unat w" "th_window ack = htons w" "th_window dat = htons w"
  shows "\<exists>a1 a2 reply tcb'.
    worker_packet [H_ethernet] n p (Some (place (segment_frame (eth_to ifa) (ip_to ifa) ifb ack))) ifa a = Inr a1 \<and>
    worker_packet [H_ethernet] n p (Some (place (data_frame (eth_to ifa) (ip_to ifa) ifb dat bs))) ifa a1 = Inr a2 \<and>
    wire a2 = wire a @ [segment_frame (eth_to ifb) (ip_to ifb) ifa reply] \<and> plain_ack tcb' sk reply \<and>
    endpoint a2 ifa k t tcb' sk \<and> can_send a2 (eth_to ifb) (ip_to ifb) k t tcb' sk \<and> callbacks a2 = callbacks a \<and>
    tcb_id tcb' = tcb_id tcb \<and> tcb_remote_port tcb' = tcb_remote_port tcb \<and>
    conversation_of tcb' = advance (of_nat (length bs)) [] (conversation_of tcb) \<and> m \<le> unat (ntohs (send_window tcb'))"
proof -
  have "receive_window tcb \<noteq> 0" using length_in_window(3) [OF bs] .
  from end_takes_ack [OF place mac n ep con(1) this, of p] obtain a1 tcb1 where
    w1: "worker_packet [H_ethernet] n p (Some (place (segment_frame (eth_to ifa) (ip_to ifa) ifb ack))) ifa a = Inr a1"
      "wire a1 = wire a" "keeps_app a a1" "callbacks a1 = callbacks a"
    and ep1: "endpoint a1 ifa k t tcb1 sk" and tcb1: "tcb_answered tcb ack 0 [] tcb1" "active_mode_args tcb1 = active_mode_args tcb"
    by blast
  have same: "receive_next tcb1 = receive_next tcb" "receive_window tcb1 = receive_window tcb" "send_next tcb1 = send_next tcb"
    "tcb_remote_port tcb1 = tcb_remote_port tcb"
    using tcb1 by (simp_all add: tcb_answered_def conversation_of_def advance_def)
  have "continues tcb1 sk dat" "length bs \<le> unat (receive_window tcb1)" using con(2) bs(2) same by (simp_all add: continues_def)
  from end_takes_data [OF place mac n ep1 this(1) bs(1) this(2) top, of p] obtain a2 reply tcb2 where
    w2: "worker_packet [H_ethernet] n p (Some (place (data_frame (eth_to ifa) (ip_to ifa) ifb dat bs))) ifa a1 = Inr a2"
      "wire a2 = wire a1 @ [segment_frame (eth_to ifb) (ip_to ifb) ifa reply]" "plain_ack tcb2 sk reply"
      "keeps_app a1 a2" "callbacks a2 = callbacks a1"
    and ep2: "endpoint a2 ifa k t tcb2 sk" and tcb2: "tcb_answered tcb1 dat (of_nat (length bs)) [] tcb2"
      "active_mode_args tcb2 = active_mode_args tcb1"
    by blast
  have "can_send a2 (eth_to ifb) (ip_to ifb) k t tcb2 sk"
    using can_send_kept [OF can_send_kept [OF can w1(3) ep1 tcb1(2)] w2(4) ep2 tcb2(2)] .
  moreover have "m \<le> unat (ntohs (send_window tcb2))"
    using window_updated [OF window_updated [OF win(1-3) tcb1(1)] win(2,4) tcb2(1)] .
  moreover have "tcb_id tcb2 = tcb_id tcb" "tcb_remote_port tcb2 = tcb_remote_port tcb"
    "conversation_of tcb2 = advance (of_nat (length bs)) [] (conversation_of tcb)"
    using tcb1 tcb2 by (simp_all add: tcb_answered_def advance_def)
  ultimately show ?thesis using w1 w2 ep2 by (intro exI [of _ a1] exI [of _ a2] exI [of _ reply] exI [of _ tcb2]) simp
qed

text \<open>The first half of a round: the request is sent, acknowledged and answered.\<close>

lemma in_session_macs:
  assumes "in_session m bs ifa ifb k t l u ska skb a b tcba tcbb"
  shows "length (mac ifa) = 6" "length (mac ifb) = 6"
  using assms by (simp_all add: in_session_def endpoint_def)

lemma short_length_cast: "length xs \<le> 255 \<Longrightarrow> (ucast (of_nat (length xs) :: u16) :: u32) = of_nat (length xs)"
  by (simp add: unsigned_of_nat take_bit_nat_eq_self)

lemma round_request:
  fixes a b :: "'a stack_mem_scheme"
  assumes place: "receives place" and n: "8 \<le> n"
    and ses: "in_session m bs ifa ifb k t l u ska skb a b tcba tcbb"
    and len: "req \<noteq> []" "length req \<le> m" "bs \<noteq> []" "length bs \<le> m" "m \<le> 255"
    and win: "length req \<le> unat (receive_window tcbb)" "256 * m \<le> unat (receive_window tcba)"
  shows "\<exists>a1 h tcb1 b1 ack dat tcb2. tcp_socket_send (op_write n) k (tcb_id tcba) req a = Inr (True, a1) \<and>
    wire a1 = wire a @ [data_frame (eth_to ifb) (ip_to ifb) ifa h req] \<and>
    can_send a1 (eth_to ifb) (ip_to ifb) k t tcb1 ska \<and> endpoint a1 ifa k t tcb1 ska \<and>
    tcb_id tcb1 = tcb_id tcba \<and> tcb_remote_port tcb1 = tcb_remote_port tcba \<and> send_window tcb1 = send_window tcba \<and>
    conversation_of tcb1 = advance 0 req (conversation_of tcba) \<and> th_window h = htons (receive_window tcba) \<and>
    carried ifa ifb (sk_port ska) (sk_port skb) (data_segment tcba req) (data_frame (eth_to ifb) (ip_to ifb) ifa h req) \<and>
    th_control_bits ack = TCP_ACK_FLAG \<and> th_control_bits dat = TCP_ACK_FLAG OR TCP_PSH_FLAG \<and>
    worker_packet [H_ethernet] n p (Some (place (data_frame (eth_to ifb) (ip_to ifb) ifa h req))) ifb b = Inr b1 \<and>
    wire b1 = wire b @ [segment_frame (eth_to ifa) (ip_to ifa) ifb ack, data_frame (eth_to ifa) (ip_to ifa) ifb dat bs] \<and>
    endpoint b1 ifb l u tcb2 skb \<and> tcb_answered tcbb h (of_nat (length req)) bs tcb2 \<and> answers b1 skb bs \<and>
    continues tcb1 ska ack \<and> continues tcb1 ska dat \<and>
    th_window ack = htons (receive_window tcbb - of_nat (length req)) \<and>
    th_window dat = htons (receive_window tcbb - of_nat (length req))"
proof -
  let ?r = "of_nat (length req) :: u16"
  have epa: "endpoint a ifa k t tcba ska" and epb: "endpoint b ifb l u tcbb skb" and agr: "agree tcba ska tcbb skb"
    and can: "can_send a (eth_to ifb) (ip_to ifb) k t tcba ska" and ifa: "sk_interface ska = ifa" and ans: "answers b skb bs"
    and sw: "m \<le> unat (ntohs (send_window tcba))" "m \<le> unat (ntohs (send_window tcbb))"
    using ses by (simp_all add: in_session_def)
  have lens: "length req \<le> 0xFFFF - 54" "length req \<le> unat (ntohs (send_window tcba))" using len sw by simp_all
  obtain a1 h tcb1 where s1: "tcp_socket_send (op_write n) k (tcb_id tcba) req a = Inr (True, a1)"
      "wire a1 = wire a @ [data_frame (eth_to ifb) (ip_to ifb) ifa h req]"
      "can_send a1 (eth_to ifb) (ip_to ifb) k t tcb1 ska" "endpoint a1 ifa k t tcb1 ska"
    and tcb1: "tcb_id tcb1 = tcb_id tcba" "tcb_remote_port tcb1 = tcb_remote_port tcba" "send_window tcb1 = send_window tcba"
      "conversation_of tcb1 = advance 0 req (conversation_of tcba)"
    and h: "th_source_port h = sk_port ska" "th_destination_port h = tcb_remote_port tcba"
      "th_control_bits h = TCP_ACK_FLAG OR TCP_PSH_FLAG" "th_sequence_num h = htonl (send_next tcba)"
      "th_acknowledgement_num h = htonl (receive_next tcba)" "th_data_offset h = 0x50" "th_window h = htons (receive_window tcba)"
    using end_sends [OF epa can n ifa len(1) lens] by blast
  have con: "continues tcbb skb h" using h agr by (simp add: continues_def agree_def)
  have fits: "length bs \<le> 0xFFFF - 54" "length bs \<le> unat (ntohs (send_window tcbb))" "length bs \<le> unat (th_window h)"
    using len sw h(7) swapped_window [OF win(2)] by simp_all
  obtain b1 ack dat tcb2 where
    s2: "worker_packet [H_ethernet] n p (Some (place (data_frame (eth_to ifb) (ip_to ifb) ifa h req))) ifb b = Inr b1"
      "wire b1 = wire b @ [segment_frame (eth_to ifa) (ip_to ifa) ifb ack, data_frame (eth_to ifa) (ip_to ifa) ifb dat bs]"
    and rep: "answers_request (conversation_of tcbb) (sk_port skb) (tcb_remote_port tcbb) ?r bs ack dat"
    and b1: "endpoint b1 ifb l u tcb2 skb" "tcb_answered tcbb h ?r bs tcb2" "answers b1 skb bs"
    using end_serves [OF place in_session_macs(1) [OF ses] n epb con len(1) win(1) ans fits, of p] by blast
  have sent: "carried ifa ifb (sk_port ska) (sk_port skb) (data_segment tcba req) (data_frame (eth_to ifb) (ip_to ifb) ifa h req)"
    using carriedI(1) [of h "sk_port ska" "sk_port skb" "data_segment tcba req" ifa ifb] h agr
    by (simp add: agree_def data_segment_def)
  have "(ucast ?r :: u32) = of_nat (length req)" using len by (intro short_length_cast) simp
  then have "continues tcb1 ska ack" "continues tcb1 ska dat" "th_window ack = htons (receive_window tcbb - ?r)"
    "th_window dat = htons (receive_window tcbb - ?r)" "th_control_bits ack = TCP_ACK_FLAG"
    "th_control_bits dat = TCP_ACK_FLAG OR TCP_PSH_FLAG"
    using rep agr tcb1 len(3)
    by (simp_all add: continues_def answers_request_def agree_def conversation_of_def advance_def)
  with s1 tcb1 h(7) sent s2 b1 show ?thesis by blast
qed

text \<open>A whole round: request, acknowledgement and response, acknowledgement of the response.\<close>

lemma session_round:
  fixes a b :: "'a stack_mem_scheme"
  assumes place: "receives place" and n: "8 \<le> n"
    and ses: "in_session m bs ifa ifb k t l u ska skb a b tcba tcbb"
    and len: "req \<noteq> []" "length req \<le> m" "bs \<noteq> []" "length bs \<le> m"
    and win: "length req + 256 * m \<le> unat (receive_window tcbb)" "length bs + 256 * m \<le> unat (receive_window tcba)"
  shows "\<exists>a1 a2 b2 fs gs tcba' tcbb'. tcp_socket_send (op_write n) k (tcb_id tcba) req a = Inr (True, a1) \<and>
    exchange 4 place n p ifa ifb (drop (length (wire a)) (wire a1)) a1 b = Inr (a2, b2) \<and>
    wire a2 = wire a @ fs \<and> wire b2 = wire b @ gs \<and>
    list_all2 (carried ifa ifb (sk_port ska) (sk_port skb))
      (client_sends (send_next tcba) (send_next tcbb) (receive_window tcba) bs [req]) fs \<and>
    list_all2 (carried ifb ifa (sk_port skb) (sk_port ska))
      (server_sends (send_next tcbb) (send_next tcba) (receive_window tcbb) bs [req]) gs \<and>
    in_session m bs ifa ifb k t l u ska skb a2 b2 tcba' tcbb' \<and> tcb_id tcba' = tcb_id tcba \<and>
    receive_next tcba' = receive_next tcba + of_nat (length bs) \<and>
    receive_next tcbb' = receive_next tcbb + of_nat (length req) \<and>
    receive_window tcba' = receive_window tcba - of_nat (length bs) \<and>
    receive_window tcbb' = receive_window tcbb - of_nat (length req)"
proof -
  let ?r = "of_nat (length req) :: u16" and ?q = "of_nat (length bs) :: u16"
  note mac = in_session_macs [OF ses]
  have small: "m \<le> 255" "length req \<le> unat (receive_window tcbb)" "256 * m \<le> unat (receive_window tcba)"
    "length bs \<le> unat (receive_window tcba)"
    using win unat_u16_le [of "receive_window tcba"] by simp_all
  have left: "256 * m \<le> unat (receive_window tcbb - ?r)" "256 * m \<le> unat (receive_window tcba - ?q)"
    "unat (receive_window tcba - ?q) = unat (receive_window tcba) - length bs"
    "unat (receive_window tcbb - ?r) = unat (receive_window tcbb) - length req"
    using unat_window_left [OF win(1)] unat_window_left [OF win(2)] by simp_all
  have cast: "(ucast ?r :: u32) = of_nat (length req)" "(ucast ?q :: u32) = of_nat (length bs)"
    using small len by (simp_all add: short_length_cast)
  have old: "agree tcba ska tcbb skb" "sk_interface ska = ifa" "sk_next_handler ska = None"
    "m \<le> unat (ntohs (send_window tcba))" "m \<le> unat (ntohs (send_window tcbb))"
    using ses by (simp_all add: in_session_def)
  obtain a1 h tcb1 b1 ack dat tcb2 where s1: "tcp_socket_send (op_write n) k (tcb_id tcba) req a = Inr (True, a1)"
      "wire a1 = wire a @ [data_frame (eth_to ifb) (ip_to ifb) ifa h req]"
      "can_send a1 (eth_to ifb) (ip_to ifb) k t tcb1 ska" "endpoint a1 ifa k t tcb1 ska"
    and tcb1: "tcb_id tcb1 = tcb_id tcba" "tcb_remote_port tcb1 = tcb_remote_port tcba" "send_window tcb1 = send_window tcba"
      "conversation_of tcb1 = advance 0 req (conversation_of tcba)" and h: "th_window h = htons (receive_window tcba)"
    and sent: "carried ifa ifb (sk_port ska) (sk_port skb) (data_segment tcba req)
      (data_frame (eth_to ifb) (ip_to ifb) ifa h req)"
    and fl: "th_control_bits ack = TCP_ACK_FLAG" "th_control_bits dat = TCP_ACK_FLAG OR TCP_PSH_FLAG"
    and s2: "worker_packet [H_ethernet] n p (Some (place (data_frame (eth_to ifb) (ip_to ifb) ifa h req))) ifb b = Inr b1"
      "wire b1 = wire b @ [segment_frame (eth_to ifa) (ip_to ifa) ifb ack, data_frame (eth_to ifa) (ip_to ifa) ifb dat bs]"
    and b1: "endpoint b1 ifb l u tcb2 skb" "tcb_answered tcbb h ?r bs tcb2" "answers b1 skb bs"
    and con: "continues tcb1 ska ack" "continues tcb1 ska dat" "th_window ack = htons (receive_window tcbb - ?r)"
      "th_window dat = htons (receive_window tcbb - ?r)"
    using round_request [OF place n ses len small(1-3), of p] by (elim exE conjE) (rule that)
  have fits1: "length bs \<le> unat (receive_window tcb1)" "m \<le> unat (ntohs (send_window tcb1))"
    using small tcb1 old by (simp_all add: conversation_of_def advance_def)
  obtain a2 a3 reply tcb3 where
    s3: "worker_packet [H_ethernet] n p (Some (place (segment_frame (eth_to ifa) (ip_to ifa) ifb ack))) ifa a1 = Inr a2"
      "worker_packet [H_ethernet] n p (Some (place (data_frame (eth_to ifa) (ip_to ifa) ifb dat bs))) ifa a2 = Inr a3"
      "wire a3 = wire a1 @ [segment_frame (eth_to ifb) (ip_to ifb) ifa reply]"
    and a3: "plain_ack tcb3 ska reply" "endpoint a3 ifa k t tcb3 ska" "can_send a3 (eth_to ifb) (ip_to ifb) k t tcb3 ska"
    and tcb3: "tcb_id tcb3 = tcb_id tcb1" "tcb_remote_port tcb3 = tcb_remote_port tcb1"
      "conversation_of tcb3 = advance ?q [] (conversation_of tcb1)" "m \<le> unat (ntohs (send_window tcb3))"
    using client_takes [OF place mac(2) n s1(4,3) old(3) con(1,2) len(3) fits1 left(1) con(3,4), of p] by blast
  have v3: "receive_next tcb3 = receive_next tcba + of_nat (length bs)" "send_next tcb3 = send_next tcba + of_nat (length req)"
    "receive_window tcb3 = receive_window tcba - ?q" "tcb_remote_port tcb3 = tcb_remote_port tcba"
    and v2: "receive_next tcb2 = receive_next tcbb + of_nat (length req)" "send_next tcb2 = send_next tcbb + of_nat (length bs)"
      "receive_window tcb2 = receive_window tcbb - ?r" "tcb_remote_port tcb2 = tcb_remote_port tcbb"
    using tcb3(2,3) tcb1(2,4) b1(2) cast by (simp_all add: conversation_of_def advance_def tcb_answered_def)
  have con2: "continues tcb2 skb reply" using a3(1) old(1) v2 v3 by (simp add: continues_def plain_ack_def agree_def)
  have "0 < length bs" using len(3) by simp
  then have pos: "receive_window tcb2 \<noteq> 0" using left(1) len(4) v2(3) by auto
  obtain b2 tcb4 where
    s4: "worker_packet [H_ethernet] n p (Some (place (segment_frame (eth_to ifb) (ip_to ifb) ifa reply))) ifb b1 = Inr b2"
      "wire b2 = wire b1" "keeps_app b1 b2" and b2: "endpoint b2 ifb l u tcb4 skb" "tcb_answered tcb2 reply 0 [] tcb4"
    using end_takes_ack [OF place mac(1) n b1(1) con2 pos, of p] by blast
  have v4: "receive_next tcb4 = receive_next tcb2" "send_next tcb4 = send_next tcb2" "receive_window tcb4 = receive_window tcb2"
    "tcb_remote_port tcb4 = tcb_remote_port tcb2"
    using b2(2) by (simp_all add: conversation_of_def advance_def tcb_answered_def)
  have ex: "exchange 4 place n p ifa ifb (drop (length (wire a)) (wire a1)) a1 b = Inr (a3, b2)"
    using exchange_one [where place = place, OF s2, of 3] exchange_two [where place = place, OF s3, of 2]
      exchange_one [where place = place, OF s4(1), of "[]" 1] s4(2) s1(2)
    by (simp add: numeral_eq_Suc exchange_quiet del: exchange.simps)
  have "th_window reply = htons (receive_window tcba - ?q)" using a3(1) v3 by (simp add: plain_ack_def)
  from window_updated [OF window_updated [OF old(5) small(3) h b1(2)] left(2) this b2(2)]
  have ses': "in_session m bs ifa ifb k t l u ska skb a3 b2 tcb3 tcb4"
    using a3 b2(1) b1(3) old s4(3) tcb3(4) v2 v3 v4 by (simp add: in_session_def agree_def answers_def keeps_app_def)
  let ?fs = "[data_frame (eth_to ifb) (ip_to ifb) ifa h req, segment_frame (eth_to ifb) (ip_to ifb) ifa reply]"
  let ?gs = "[segment_frame (eth_to ifa) (ip_to ifa) ifb ack, data_frame (eth_to ifa) (ip_to ifa) ifb dat bs]"
  have v1: "receive_next tcb1 = receive_next tcba" "send_next tcb1 = send_next tcba + of_nat (length req)"
    using tcb1(4) by (simp_all add: conversation_of_def advance_def)
  have "list_all2 (carried ifa ifb (sk_port ska) (sk_port skb))
      (client_sends (send_next tcba) (send_next tcbb) (receive_window tcba) bs [req]) ?fs"
    using sent old(1) a3(1) v3 by (auto simp: agree_def plain_ack_def data_segment_def intro!: carriedI(2))
  moreover have "list_all2 (carried ifb ifa (sk_port skb) (sk_port ska))
      (server_sends (send_next tcbb) (send_next tcba) (receive_window tcbb) bs [req]) ?gs"
  proof -
    let ?g1 = "\<lparr>seg_flags = TCP_ACK_FLAG, seg_seq = send_next tcbb, seg_ack = send_next tcba + of_nat (length req),
      seg_window = receive_window tcbb - ?r, seg_payload = []\<rparr>"
    let ?g2 = "\<lparr>seg_flags = TCP_ACK_FLAG OR TCP_PSH_FLAG, seg_seq = send_next tcbb,
      seg_ack = send_next tcba + of_nat (length req), seg_window = receive_window tcbb - ?r, seg_payload = bs\<rparr>"
    have "carried ifb ifa (sk_port skb) (sk_port ska) ?g1 (segment_frame (eth_to ifa) (ip_to ifa) ifb ack)"
      using con fl old(1) tcb1(2) v1 by (intro carriedI(2)) (simp_all add: continues_def agree_def)
    moreover have "carried ifb ifa (sk_port skb) (sk_port ska) ?g2 (data_frame (eth_to ifa) (ip_to ifa) ifb dat (seg_payload ?g2))"
      using con fl old(1) tcb1(2) v1 by (intro carriedI(1)) (simp_all add: continues_def agree_def)
    ultimately show ?thesis by simp
  qed
  moreover have "wire a3 = wire a @ ?fs" "wire b2 = wire b @ ?gs" using s1(2) s2(2) s3(3) s4(2) by simp_all
  moreover have "tcb_id tcb3 = tcb_id tcba" "receive_window tcb4 = receive_window tcbb - ?r"
    "receive_next tcb4 = receive_next tcbb + of_nat (length req)"
    using tcb1(1) tcb3(1) v2 v4 by simp_all
  ultimately show ?thesis
    using s1(1) ex ses' v3(1,3)
    by (intro exI [of _ a1] exI [of _ a3] exI [of _ b2] exI [of _ ?fs] exI [of _ ?gs] exI [of _ tcb3] exI [of _ tcb4] conjI)
qed

section \<open>The session\<close>

lemma session_run:
  fixes a b :: "'a stack_mem_scheme"
  assumes place: "receives place" and n: "8 \<le> n" and bs: "bs \<noteq> []" "length bs \<le> m"
    and ses: "in_session m bs ifa ifb k t l u ska skb a b tcba tcbb"
    and rs: "\<forall>r \<in> set rs. r \<noteq> [] \<and> length r \<le> m"
    and win: "length (concat rs) + 256 * m \<le> unat (receive_window tcbb)"
      "length rs * length bs + 256 * m \<le> unat (receive_window tcba)"
  shows "\<exists>a' b' fs gs tcba' tcbb'. session place n p ifa ifb k (tcb_id tcba) rs a b = Inr (a', b') \<and>
    wire a' = wire a @ fs \<and> wire b' = wire b @ gs \<and>
    list_all2 (carried ifa ifb (sk_port ska) (sk_port skb))
      (client_sends (send_next tcba) (send_next tcbb) (receive_window tcba) bs rs) fs \<and>
    list_all2 (carried ifb ifa (sk_port skb) (sk_port ska))
      (server_sends (send_next tcbb) (send_next tcba) (receive_window tcbb) bs rs) gs \<and>
    in_session m bs ifa ifb k t l u ska skb a' b' tcba' tcbb' \<and>
    receive_next tcba' = receive_next tcba + of_nat (length rs * length bs) \<and>
    receive_next tcbb' = receive_next tcbb + of_nat (length (concat rs))"
  using ses rs win
proof (induction rs arbitrary: a b tcba tcbb)
  case Nil
  then show ?case
    by (intro exI [of _ a] exI [of _ b] exI [of _ "[]"] exI [of _ tcba] exI [of _ tcbb]) simp
next
  case (Cons r rs)
  have len: "r \<noteq> []" "length r \<le> m" "length r + 256 * m \<le> unat (receive_window tcbb)"
    "length bs + 256 * m \<le> unat (receive_window tcba)"
    using Cons.prems(2-4) by simp_all
  from session_round [OF place n Cons.prems(1) len(1,2) bs len(3,4), of p] obtain a1 a2 b2 fs gs tcba1 tcbb1 where
    w: "tcp_socket_send (op_write n) k (tcb_id tcba) r a = Inr (True, a1)"
      "exchange 4 place n p ifa ifb (drop (length (wire a)) (wire a1)) a1 b = Inr (a2, b2)"
      "wire a2 = wire a @ fs" "wire b2 = wire b @ gs"
      "list_all2 (carried ifa ifb (sk_port ska) (sk_port skb))
        (client_sends (send_next tcba) (send_next tcbb) (receive_window tcba) bs [r]) fs"
      "list_all2 (carried ifb ifa (sk_port skb) (sk_port ska))
        (server_sends (send_next tcbb) (send_next tcba) (receive_window tcbb) bs [r]) gs"
      "in_session m bs ifa ifb k t l u ska skb a2 b2 tcba1 tcbb1" "tcb_id tcba1 = tcb_id tcba"
      "receive_next tcba1 = receive_next tcba + of_nat (length bs)"
      "receive_next tcbb1 = receive_next tcbb + of_nat (length r)"
      "receive_window tcba1 = receive_window tcba - of_nat (length bs)"
      "receive_window tcbb1 = receive_window tcbb - of_nat (length r)"
    by (elim exE conjE) (rule that)
  have rest: "\<forall>r \<in> set rs. r \<noteq> [] \<and> length r \<le> m" "length (concat rs) + 256 * m \<le> unat (receive_window tcbb1)"
    "length rs * length bs + 256 * m \<le> unat (receive_window tcba1)"
    using Cons.prems(2-4) unat_window_left(1) [OF len(3)] unat_window_left(1) [OF len(4)] by (simp_all add: w(11,12))
  have nums: "send_next tcba1 = send_next tcba + of_nat (length r)" "send_next tcbb1 = send_next tcbb + of_nat (length bs)"
    using w(7,9,10) Cons.prems(1) by (simp_all add: in_session_def agree_def)
  from Cons.IH [OF w(7) rest] obtain a' b' fs' gs' tcba' tcbb' where
    "session place n p ifa ifb k (tcb_id tcba1) rs a2 b2 = Inr (a', b')" "wire a' = wire a2 @ fs'" "wire b' = wire b2 @ gs'"
    and more: "list_all2 (carried ifa ifb (sk_port ska) (sk_port skb))
      (client_sends (send_next tcba1) (send_next tcbb1) (receive_window tcba1) bs rs) fs'"
    "list_all2 (carried ifb ifa (sk_port skb) (sk_port ska))
      (server_sends (send_next tcbb1) (send_next tcba1) (receive_window tcbb1) bs rs) gs'"
    and "in_session m bs ifa ifb k t l u ska skb a' b' tcba' tcbb'"
    "receive_next tcba' = receive_next tcba1 + of_nat (length rs * length bs)"
    "receive_next tcbb' = receive_next tcbb1 + of_nat (length (concat rs))"
    by blast
  moreover have "list_all2 (carried ifa ifb (sk_port ska) (sk_port skb))
      (client_sends (send_next tcba) (send_next tcbb) (receive_window tcba) bs (r # rs)) (fs @ fs')"
    using list_all2_appendI [OF w(5) more(1)] by (simp add: nums w(11))
  moreover have "list_all2 (carried ifb ifa (sk_port skb) (sk_port ska))
      (server_sends (send_next tcbb) (send_next tcba) (receive_window tcbb) bs (r # rs)) (gs @ gs')"
    using list_all2_appendI [OF w(6) more(2)] by (simp add: nums w(12))
  ultimately show ?case
    using w(1-4,8-10)
    by (intro exI [of _ a'] exI [of _ b'] exI [of _ "fs @ fs'"] exI [of _ "gs @ gs'"] exI [of _ tcba'] exI [of _ tcbb'])
      (simp add: add.assoc del: exchange.simps op_write.simps client_sends.simps server_sends.simps)
qed

text \<open>The handshake and the session together.\<close>

lemma session_opened:
  fixes a b :: "'a stack_mem_scheme"
  defines "t \<equiv> length (tcbs a)" and "u \<equiv> length (tcbs b)"
    and "x \<equiv> of_int (seq_x a + 142)" and "y \<equiv> of_int (seq_x b + 142)"
  assumes place: "receives place" and n: "8 \<le> n"
    and opna: "can_open a ifa k ska (sk_port skb)" and opnb: "can_open b ifb l skb (sk_port ska)"
    and client: "client_of a ifa ifb k ska c" and cb: "sk_on_connect ska = Some f" and top: "sk_next_handler ska = None"
    and ans: "answers b skb bs" and mem: "0 < malloc_slack a" "0 < malloc_slack b"
    and win: "256 * m \<le> nat (tcp_window b)" "256 * m \<le> nat (tcp_window a)"
  shows "\<exists>cid a1 a2 b2 fs gs tcba tcbb.
    tcp_socket_connect (op_write n) H_tcp k (Some c) (ipv4_addr ifb) (sk_port skb) a = Inr (cid, a1) \<and>
    exchange 4 place n p ifa ifb (drop (length (wire a)) (wire a1)) a1 b = Inr (a2, b2) \<and> callbacks a2 = callbacks a @ [f] \<and>
    wire a2 = wire a @ fs \<and> wire b2 = wire b @ gs \<and> tcb_id tcba = cid \<and>
    list_all2 (carried ifa ifb (sk_port ska) (sk_port skb))
      [\<lparr>seg_flags = TCP_SYN_FLAG, seg_seq = x, seg_ack = 0, seg_window = of_int (tcp_window a), seg_payload = []\<rparr>,
       \<lparr>seg_flags = TCP_ACK_FLAG, seg_seq = x + 1, seg_ack = y + 1, seg_window = of_int (tcp_window a), seg_payload = []\<rparr>] fs \<and>
    list_all2 (carried ifb ifa (sk_port skb) (sk_port ska))
      [\<lparr>seg_flags = TCP_ACK_FLAG OR TCP_SYN_FLAG, seg_seq = y, seg_ack = x + 1, seg_window = of_int (tcp_window b),
        seg_payload = []\<rparr>] gs \<and>
    in_session m bs ifa ifb k t l u (with_slot t ska) (with_slot u skb) a2 b2 tcba tcbb \<and>
    receive_window tcba = of_int (tcp_window a) \<and> receive_window tcbb = of_int (tcp_window b) \<and>
    send_next tcba = x + 1 \<and> send_next tcbb = y + 1"
proof -
  let ?ska = "with_slot t ska" and ?skb = "with_slot u skb"
  have six: "6 \<le> n" and ifa: "sk_interface ska = ifa" using n client by (simp_all add: client_of_def)
  have small: "nat (tcp_window a) = unat (of_int (tcp_window a) :: u16)" "nat (tcp_window b) = unat (of_int (tcp_window b) :: u16)"
    using opna opnb unat_of_int_small [of "tcp_window a", where 'w = 16] unat_of_int_small [of "tcp_window b", where 'w = 16]
    by (simp_all add: can_open_def)
  obtain cid a1 a2 b2 syn synack ack tcba tcbb where
    run: "tcp_socket_connect (op_write n) H_tcp k (Some c) (ipv4_addr ifb) (sk_port skb) a = Inr (cid, a1)"
      "exchange 4 place n p ifa ifb (drop (length (wire a)) (wire a1)) a1 b = Inr (a2, b2)" "callbacks a2 = callbacks a @ [f]"
      "wire a2 = wire a @ [segment_frame (eth_to ifb) (ip_to ifb) ifa syn, segment_frame (eth_to ifb) (ip_to ifb) ifa ack]"
      "wire b2 = wire b @ [segment_frame (eth_to ifa) (ip_to ifa) ifb synack]"
    and hdrs: "syn_of a ska (sk_port skb) syn" "syn_ack b skb syn synack"
      "completing_ack a b ska skb ack"
    and ends: "endpoint a2 ifa k t tcba ?ska" "endpoint b2 ifb l u tcbb ?skb" "agree tcba ?ska tcbb ?skb" "tcb_id tcba = cid"
      "can_send a2 (eth_to ifb) (ip_to ifb) k t tcba ?ska" "keeps_app b b2"
    and wins: "send_window tcba = receive_window tcbb" "send_window tcbb = receive_window tcba"
      "receive_window tcba = of_int (tcp_window a)" "receive_window tcbb = of_int (tcp_window b)"
    and nums: "send_next tcba = x + 1" "send_next tcbb = y + 1"
    using hosts_open [OF place six opna opnb client cb mem, of p, folded t_def u_def x_def y_def]
    by (elim exE conjE) (rule that)
  have "m \<le> unat (bswap16 (receive_window tcbb))" "m \<le> unat (bswap16 (receive_window tcba))"
    using win small wins by (auto intro: swapped_window)
  then have "in_session m bs ifa ifb k t l u ?ska ?skb a2 b2 tcba tcbb"
    using ends wins ifa top ans by (simp add: in_session_def answers_def keeps_app_def)
  moreover have "list_all2 (carried ifa ifb (sk_port ska) (sk_port skb))
      [\<lparr>seg_flags = TCP_SYN_FLAG, seg_seq = x, seg_ack = 0, seg_window = of_int (tcp_window a), seg_payload = []\<rparr>,
       \<lparr>seg_flags = TCP_ACK_FLAG, seg_seq = x + 1, seg_ack = y + 1, seg_window = of_int (tcp_window a), seg_payload = []\<rparr>]
      [segment_frame (eth_to ifb) (ip_to ifb) ifa syn, segment_frame (eth_to ifb) (ip_to ifb) ifa ack]"
    using hdrs by (auto simp: syn_of_def completing_ack_def x_def y_def intro!: carriedI(2))
  moreover have "list_all2 (carried ifb ifa (sk_port skb) (sk_port ska))
      [\<lparr>seg_flags = TCP_ACK_FLAG OR TCP_SYN_FLAG, seg_seq = y, seg_ack = x + 1, seg_window = of_int (tcp_window b),
        seg_payload = []\<rparr>] [segment_frame (eth_to ifa) (ip_to ifa) ifb synack]"
    using hdrs(1,2) by (auto simp: syn_of_def syn_ack_def x_def y_def intro!: carriedI(2))
  ultimately show ?thesis
    using run ends(4) wins(3,4) nums by (intro exI conjI)
qed

lemma session_overflows:
  fixes a b :: "'a stack_mem_scheme"
  assumes place: "receives place" and n: "6 \<le> n"
    and opna: "can_open a ifa k ska (sk_port skb)" and opnb: "can_open b ifb l skb (sk_port ska)"
    and client: "client_of a ifa ifb k ska c" and mem: "0 < malloc_slack a" "malloc_slack b = 0"
  shows "\<exists>cid a1. tcp_socket_connect (op_write n) H_tcp k (Some c) (ipv4_addr ifb) (sk_port skb) a = Inr (cid, a1) \<and>
    exchange 4 place n p ifa ifb (drop (length (wire a)) (wire a1)) a1 b = Inl Out_of_bounds"
proof -
  obtain cid a1 syn where con: "tcp_socket_connect (op_write n) H_tcp k (Some c) (ipv4_addr ifb) (sk_port skb) a = Inr (cid, a1)"
      "wire a1 = wire a @ [segment_frame (eth_to ifb) (ip_to ifb) ifa syn]" "syn_of a ska (sk_port skb) syn"
    using host_connects [OF opna client n mem(1) refl] by (elim exE conjE) (rule that)
  have "length (mac ifa) = 6" using opna by (simp add: can_open_def)
  with host_answers_overflows [OF place _ _ n mem(2), of ifa ifb l skb syn p] opnb con(3)
  have "worker_packet [H_ethernet] n p (Some (place (segment_frame (eth_to ifb) (ip_to ifb) ifa syn))) ifb b = Inl Out_of_bounds"
    by (simp add: syn_of_def del: worker_packet.simps)
  with con show ?thesis by (simp add: numeral_eq_Suc del: worker_packet.simps op_write.simps)
qed


section \<open>The example\<close>

text \<open>The machine of \<open>Tcp_Active\<close> and its client, now with this stack and a server on port 4000.\<close>

definition example_peer_socket :: tcp_socket_t where
  "example_peer_socket = example_socket\<lparr>sk_port := htons 4000, sk_ipv4 := 0x0900000A, sk_interface := example_client,
     sk_next_handler := Some (H_custom 0)\<rparr>"

definition example_peer :: stack_mem where
  "example_peer = custom_set_response 0 (Some [104, 105, 33]) 3 (example_server\<lparr>sockets := [example_peer_socket]\<rparr>)"

lemma example_peer_simps:
  "tcbs example_peer = []" "seq_x example_peer = 500" "malloc_slack example_peer = 1" "wire example_peer = []"
  "tcp_window example_peer = 4096" "sock_at example_peer 0 = Inr example_peer_socket"
  "tcp_get_socket 0x0900000A (htons 4000) example_peer = Inr (Some 0)"
  "tcp_get_transmission_control_block 0 c example_peer = Inr None" "routes_head example_peer"
proof -
  show "routes_head example_peer"
    using example_syn_known(1) by (simp add: routes_head_def example_peer_def custom_set_response_def)
qed (simp_all add: example_peer_def custom_set_response_def example_server_simps,
    simp_all add: example_server_state arp_init_handler_def static_tables_def example_blank_def sock_at_def
      tcp_get_socket_def example_peer_socket_def example_socket_def tcp_get_transmission_control_block_def replicate_numeral)

lemma example_can_open:
  "can_open example_active example_interface 0 example_socket (htons 4000)"
  "can_open example_peer example_client 0 example_peer_socket (htons 80)"
proof -
  have port: "htons 80 \<noteq> 0" "htons 4000 \<noteq> 0" by (simp_all add: bswap16_def join16_def)
  have "tcp_window example_active = 4096" "routes_head example_active"
    using example_server_simps(5) example_syn_known(1) by (simp_all add: example_active_def routes_head_def)
  moreover have sock: "tcp_get_socket 0x0200000A (htons 80) example_active = Inr (Some 0)"
    using example_active_simps(7) by (simp add: example_interface_def)
  ultimately show "can_open example_active example_interface 0 example_socket (htons 4000)"
    using port sock by (simp add: can_open_def example_active_simps) (simp add: example_socket_def example_interface_def)
  show "can_open example_peer example_client 0 example_peer_socket (htons 80)"
    using port
    by (simp add: can_open_def example_peer_simps)
      (simp add: example_peer_simps(7) example_peer_socket_def example_socket_def example_client_def)
qed

lemma example_client_of: "client_of example_active example_interface example_client 0 example_socket 5"
  by (simp add: client_of_def example_active_simps tcp_client_args_def example_client_args_def example_socket_def
      example_interface_def example_client_def eth_to_def ip_to_def)

lemma receives_mem_of: "receives mem_of"
  by (simp add: receives_def read_mem_of_all)


end
