(* ===== verification/Arp_Hosts.thy ===== *)
theory Arp_Hosts
  imports Tcp_Hosts
begin

text \<open>
  Address resolution between two machines that run this stack, on the link of \<open>Tcp_Hosts\<close>: a
  program on one sends a request through the ARP socket, the other answers, and both know
  each other's hardware address.
\<close>

section \<open>The machines\<close>

text \<open>ARP packets reach the ARP handler, nothing watches its socket, and there is room for an address.\<close>

definition arp_ready :: "'a stack_mem_scheme \<Rightarrow> u32 \<Rightarrow> bool" where
  "arp_ready s ip \<longleftrightarrow>
     (\<exists>m. get_value (ethernet_type_to_handler s) (htons ETHERNET_TYPE_ARP) = Inr (Some H_arp, m)) \<and>
     arp_invar (resolution_list s) \<and> Option.bind (arp_socket s) as_next_handler = None \<and>
     (arp_table (resolution_list s) ip \<noteq> None \<or> card (dom (arp_table (resolution_list s))) < 256)"

text \<open>A request of one machine for the address of another, and the arguments to send it with.\<close>

definition asks :: "interface_t \<Rightarrow> u32 \<Rightarrow> arp_header_t \<Rightarrow> bool" where
  "asks ifc ip req \<longleftrightarrow> hdw_type req = ARP_HDW_TYPE_ETHERNET \<and> pro_type req = ETHERNET_TYPE_IPV6 \<and>
     operation req = ARP_OPERATION_REQUEST \<and> sender_hardware_addr req = mac ifc \<and>
     sender_protocol_addr req = ipv4_addr ifc \<and> length (target_hardware_addr req) = 6 \<and> target_protocol_addr req = ip"

definition arp_client_args :: "socket_client_args \<Rightarrow> u8 list \<Rightarrow> arp_header_t \<Rightarrow> bool" where
  "arp_client_args ca dst req \<longleftrightarrow> ca_depth ca = 2 \<and> length (ca_handlers ca) = 10 \<and> length (ca_handler_args ca) = 10 \<and>
     ca_handlers ca ! 0 = Some H_ethernet \<and> length dst = 6 \<and>
     ca_handler_args ca ! 0 = Some (Ethernet_args \<lparr>ea_destination = dst, ea_ethernet_type = htons ETHERNET_TYPE_ARP\<rparr>) \<and>
     ca_handler_args ca ! 1 = Some (Arp_args req)"

text \<open>The frame of an ARP packet.\<close>

definition arp_frame :: "u8 list \<Rightarrow> u8 list \<Rightarrow> arp_header_t \<Rightarrow> u8 list" where
  "arp_frame dst src h =
     ethernet_header_bytes \<lparr>eh_destination = dst, eh_source = src, eh_ethernet_type = htons ETHERNET_TYPE_ARP\<rparr> @
     arp_header_bytes h"

section \<open>The packets\<close>

lemma arp_ready_cong:
  "ethernet_type_to_handler s' = ethernet_type_to_handler s \<Longrightarrow> resolution_list s' = resolution_list s \<Longrightarrow>
   arp_socket s' = arp_socket s \<Longrightarrow> arp_ready s' ip = arp_ready s ip"
  by (simp add: arp_ready_def)

lemma arp_frame_placed:
  assumes "receives place" and "length dst = 6" "length src = 6"
    and "length (sender_hardware_addr h) = 6" "length (target_hardware_addr h) = 6"
  shows "read_bytes (place (arp_frame dst src h)) 0 42 = arp_frame dst src h"
proof -
  have "length (arp_frame dst src h) = 42" using assms(2-) by (simp add: arp_frame_def ethernet_header_bytes_def)
  then show ?thesis using assms(1) unfolding receives_def by metis
qed

text \<open>The request goes out.\<close>

lemma host_asks:
  fixes a :: "'a stack_mem_scheme"
  assumes ca: "arp_client_args ca dst req" and req: "asks ifa ip req" and mac: "length (mac ifa) = 6"
    and ifa: "as_interface sock = ifa" and n: "4 \<le> n"
  shows "\<exists>a1. arp_socket_send (op_write n) H_arp sock ca a = Inr (True, a1) \<and>
    wire a1 = wire a @ [arp_frame dst (mac ifa) req] \<and> ethernet_type_to_handler a1 = ethernet_type_to_handler a \<and>
    resolution_list a1 = resolution_list a \<and> arp_socket a1 = arp_socket a"
proof -
  let ?e = "\<lparr>ea_destination = dst, ea_ethernet_type = htons ETHERNET_TYPE_ARP\<rparr>"
  obtain k where k: "n = Suc (Suc k)" using n by (auto simp: numeral_eq_Suc Suc_le_eq less_iff_Suc_add)
  obtain out s1 where new: "new_out_stack (ca_handlers ca) (ca_handler_args ca) DEFAULT_PACKAGE_BUFFER_SIZE 1 a = (out, s1)"
    by (metis surj_pair)
  have lens: "length (ca_handlers ca) = 10" "length (ca_handler_args ca) = 10"
    using ca by (simp_all add: arp_client_args_def)
  obtain qs where qs: "out_at s1 out = Inr qs" "wf_out qs" "out_stack_idx qs = 1" "out_args qs = ca_handler_args ca"
    "out_handlers qs = ca_handlers ca" "ob_offset (out_buffer qs) = DEFAULT_PACKAGE_BUFFER_SIZE" "frame_of qs = []"
    and s1: "s1 = a\<lparr>out_stacks := out_stacks s1\<rparr>"
    by (rule new_out_stack_at [OF new lens])
  have same: "wire s1 = wire a" "ethernet_type_to_handler s1 = ethernet_type_to_handler a"
    "resolution_list s1 = resolution_list a" "arp_socket s1 = arp_socket a"
    by (subst s1, simp)+
  have "arp_socket_send (op_write n) H_arp sock ca a = op_write n H_arp out ifa s1"
    using new ca ifa by (simp add: arp_socket_send_def arp_client_args_def del: op_write.simps)
  moreover have "\<exists>ps'. op_write n H_arp out ifa s1 =
      Inr (True, (put_out out ps' s1)\<lparr>wire := wire s1 @ [eth_bytes ?e ifa @ arp_header_bytes req]\<rparr>)"
    using arp_sends [OF qs(1-3), of req ?e ifa k] qs(4-7) ca req mac
    by (auto simp: k arp_client_args_def asks_def DEFAULT_PACKAGE_BUFFER_SIZE_def)
  ultimately show ?thesis using same by (auto simp: eth_bytes_def arp_frame_def put_out_def)
qed

text \<open>A packet that answers is remembered and causes no other.\<close>

lemma arp_response_learned:
  fixes s :: "'a stack_mem_scheme"
  assumes frame: "read_bytes frame 0 42 = arp_frame dst src h" and ready: "arp_ready s (sender_protocol_addr h)"
    and len: "length dst = 6" "length src = 6" "length (sender_hardware_addr h) = 6" "length (target_hardware_addr h) = 6"
    and h: "hdw_type h = ARP_HDW_TYPE_ETHERNET" "pro_type h = ETHERNET_TYPE_IPV6" "operation h = ARP_OPERATION_RESPONSE"
      "target_protocol_addr h = ipv4_addr ifc" and n: "4 \<le> n"
  shows "\<exists>s'. worker_packet [H_ethernet] n p (Some frame) ifc s = Inr s' \<and> wire s' = wire s \<and>
    arp_invar (resolution_list s') \<and> arp_table (resolution_list s') =
      (arp_table (resolution_list s))(sender_protocol_addr h \<mapsto> sender_hardware_addr h)"
proof -
  let ?eh = "\<lparr>eh_destination = dst, eh_source = src, eh_ethernet_type = htons ETHERNET_TYPE_ARP\<rparr>"
  obtain k where k: "n = Suc (Suc k)" using n by (auto simp: numeral_eq_Suc Suc_le_eq less_iff_Suc_add)
  obtain m where get: "get_value (ethernet_type_to_handler s) (htons ETHERNET_TYPE_ARP) = Inr (Some H_arp, m)"
    using ready by (auto simp: arp_ready_def)
  have split: "read_bytes frame 0 14 @ read_bytes frame 14 28 = ethernet_header_bytes ?eh @ arp_header_bytes h"
    using frame read_bytes_add [of frame 0 14 28] by (simp add: arp_frame_def)
  have eb: "length (ethernet_header_bytes ?eh) = 14" using len by (simp add: ethernet_header_bytes_def)
  have eh: "load_ethernet_header frame 0 = ?eh"
    using load_ethernet_header_bytes [of ?eh frame 0] split eb len by simp
  have hdr: "load_arp_header frame 14 = h" using load_arp_header_bytes [OF len(3,4), of frame 14] split eb by simp
  let ?s = "put_in p (above_ethernet frame ?eh) s\<lparr>ethernet_type_to_handler := m\<rparr>"
  let ?ps = "above_ethernet frame ?eh\<lparr>in_handlers := (in_handlers (above_ethernet frame ?eh))[1 := Some H_arp]\<rparr>"
  have read: "op_read (Suc k) H_arp p ifc ?s = arp_process (op_write k) H_arp p 1 14 ifc (put_in p ?ps ?s)"
    using arp_read_no_watcher [of ?s p "above_ethernet frame ?eh" 14] ready by (simp add: arp_ready_def)
  have at: "in_at (put_in p ?ps ?s) p = Inr ?ps" by simp
  have room: "arp_table (resolution_list (put_in p ?ps ?s)) (sender_protocol_addr h) \<noteq> None \<or>
      length (arp_entries (resolution_list (put_in p ?ps ?s))) < 256"
    using ready card_dom_arp_table by (auto simp: arp_ready_def)
  obtain l where l: "arp_invar l" "arp_table l = rfc826_merge True h (arp_table (resolution_list s))"
    "arp_process (op_write k) H_arp p 1 14 ifc (put_in p ?ps ?s) = Inr (Some 0, put_in p ?ps ?s\<lparr>resolution_list := l\<rparr>)"
    using arp_process_merge [OF _ at _ h(1,2) room, of 14 1 ifc "op_write k" H_arp] ready hdr h
    by (auto simp: arp_ready_def ARP_OPERATION_REQUEST_def ARP_OPERATION_RESPONSE_def)
  have "ntohs 0x0600 < eh_ethernet_type ?eh" by (simp add: ETHERNET_TYPE_ARP_def bswap16_def join16_def)
  from ethernet_delivers [OF eh this, of s H_arp m "Suc k" p ifc] get read l
  have "worker_packet [H_ethernet] n p (Some frame) ifc s =
      Inr ((put_in p ?ps ?s\<lparr>resolution_list := l\<rparr>)\<lparr>in_stacks := (in_stacks (put_in p ?ps ?s))(p := None)\<rparr>)"
    by (simp add: k del: op_read.simps worker_packet.simps)
  with l show ?thesis by (auto simp: rfc826_merge_def simp del: worker_packet.simps)
qed

section \<open>Resolution\<close>

text \<open>C7: two machines that run this stack resolve each other: when a program on one sends a request
  for the address of the other through the ARP socket, exactly one frame goes each way, the
  request and the reply, nothing else follows, and afterwards each machine has the hardware
  address of the other in its table, with all other entries as they were.\<close>

theorem hosts_resolve_each_other:
  fixes a b :: "'a stack_mem_scheme"
  assumes place: "receives place" and n: "4 \<le> n" and mac: "length (mac ifa) = 6" "length (mac ifb) = 6"
    and ca: "arp_client_args ca dst req" and req: "asks ifa (ipv4_addr ifb) req" and sock: "as_interface sock = ifa"
    and ready: "arp_ready a (ipv4_addr ifb)" "arp_ready b (ipv4_addr ifa)"
  shows "\<exists>a1 a2 b2. arp_socket_send (op_write n) H_arp sock ca a = Inr (True, a1) \<and>
    exchange 3 place n p ifa ifb (drop (length (wire a)) (wire a1)) a1 b = Inr (a2, b2) \<and>
    wire a2 = wire a @ [arp_frame dst (mac ifa) req] \<and>
    wire b2 = wire b @ [arp_frame (mac ifa) (mac ifb) (arp_reply ifb req)] \<and>
    arp_table (resolution_list a2) = (arp_table (resolution_list a))(ipv4_addr ifb \<mapsto> mac ifb) \<and>
    arp_table (resolution_list b2) = (arp_table (resolution_list b))(ipv4_addr ifa \<mapsto> mac ifa)"
proof -
  let ?f = "arp_frame dst (mac ifa) req" and ?rep = "arp_reply ifb req"
  let ?g = "arp_frame (mac ifa) (mac ifb) ?rep"
  obtain a1 where a1: "arp_socket_send (op_write n) H_arp sock ca a = Inr (True, a1)" "wire a1 = wire a @ [?f]"
      "resolution_list a1 = resolution_list a"
    and ready1: "arp_ready a1 (ipv4_addr ifb)"
    using host_asks [OF ca req mac(1) sock n, of a] ready(1) arp_ready_cong by metis
  have dst: "length dst = 6" using ca by (simp add: arp_client_args_def)
  have r: "length (sender_hardware_addr req) = 6" "length (target_hardware_addr req) = 6" "hdw_type req = ARP_HDW_TYPE_ETHERNET"
    "pro_type req = ETHERNET_TYPE_IPV6" "operation req = ARP_OPERATION_REQUEST" "target_protocol_addr req = ipv4_addr ifb"
    "sender_protocol_addr req = ipv4_addr ifa" "sender_hardware_addr req = mac ifa"
    using req mac by (simp_all add: asks_def)
  let ?eh = "\<lparr>eh_destination = dst, eh_source = mac ifa, eh_ethernet_type = htons ETHERNET_TYPE_ARP\<rparr>"
  obtain m where "get_value (ethernet_type_to_handler b) (htons ETHERNET_TYPE_ARP) = Inr (Some H_arp, m)"
    using ready(2) by (auto simp: arp_ready_def)
  then obtain b1 where b1: "worker_packet [H_ethernet] n p (Some (place ?f)) ifb b = Inr b1" "wire b1 = wire b @ [?g]"
    "arp_table (resolution_list b1) = (arp_table (resolution_list b))(ipv4_addr ifa \<mapsto> mac ifa)"
    using arp_request_answered [of ?eh req ifb "place ?f" b m n p] arp_frame_placed [OF place dst mac(1) r(1,2)]
      dst mac r ready(2) n
    by (auto simp: arp_ready_def arp_frame_def simp del: worker_packet.simps)
  have rep: "length (sender_hardware_addr ?rep) = 6" "length (target_hardware_addr ?rep) = 6"
    "hdw_type ?rep = ARP_HDW_TYPE_ETHERNET" "pro_type ?rep = ETHERNET_TYPE_IPV6" "operation ?rep = ARP_OPERATION_RESPONSE"
    "target_protocol_addr ?rep = ipv4_addr ifa" "sender_protocol_addr ?rep = ipv4_addr ifb" "sender_hardware_addr ?rep = mac ifb"
    using r mac by (simp_all add: arp_reply_def)
  obtain a2 where a2: "worker_packet [H_ethernet] n p (Some (place ?g)) ifa a1 = Inr a2" "wire a2 = wire a1"
    "arp_table (resolution_list a2) = (arp_table (resolution_list a))(ipv4_addr ifb \<mapsto> mac ifb)"
    using arp_response_learned [OF arp_frame_placed [OF place mac rep(1,2)], of a1 ifa n p] ready1 mac rep n a1(3) by auto
  have "exchange 3 place n p ifa ifb (drop (length (wire a)) (wire a1)) a1 b = Inr (a2, b1)"
    using exchange_one [where place = place, OF b1(1,2), of 2] exchange_one [where place = place, OF a2(1), of "[]" 1] a1(2) a2(2)
    by (simp add: numeral_eq_Suc exchange_quiet del: exchange.simps)
  with a1 a2 b1 show ?thesis by (intro exI [of _ a1] exI [of _ a2] exI [of _ b1]) simp
qed

text \<open>An example: two machines that have just started.\<close>

definition example_ask :: arp_header_t where
  "example_ask = \<lparr>hdw_type = ARP_HDW_TYPE_ETHERNET, pro_type = ETHERNET_TYPE_IPV6, hdw_addr_length = 6, pro_addr_length = 4,
     operation = ARP_OPERATION_REQUEST, sender_hardware_addr = [2, 0, 0, 0, 0, 1], sender_protocol_addr = 0x0200000A,
     target_hardware_addr = [0, 0, 0, 0, 0, 0], target_protocol_addr = 0x0900000A\<rparr>"

definition example_ask_args :: socket_client_args where
  "example_ask_args =
     \<lparr>ca_handlers = [Some H_ethernet, Some H_arp] @ replicate 8 None,
      ca_handler_args = [
        Some (Ethernet_args \<lparr>ea_destination = replicate 6 255, ea_ethernet_type = htons ETHERNET_TYPE_ARP\<rparr>),
        Some (Arp_args example_ask)] @ replicate 8 None,
      ca_depth = 2\<rparr>"

theorem hosts_resolve_each_other_witness:
  "\<exists>a1 a2 b2. arp_socket_send (op_write 4) H_arp (arp_create_socket None example_interface True) example_ask_args
      example_started = Inr (True, a1) \<and>
    exchange 3 mem_of 4 0 example_interface example_client (wire a1) a1 example_started = Inr (a2, b2) \<and>
    length (wire a2) = 1 \<and> length (wire b2) = 1 \<and>
    arp_table (resolution_list a2) = [0x0900000A \<mapsto> [2, 0, 0, 0, 0, 9]] \<and>
    arp_table (resolution_list b2) = [0x0200000A \<mapsto> [2, 0, 0, 0, 0, 1]]"
proof -
  have ifc: "mac example_interface = [2, 0, 0, 0, 0, 1]" "mac example_client = [2, 0, 0, 0, 0, 9]"
    "ipv4_addr example_interface = 0x0200000A" "ipv4_addr example_client = 0x0900000A"
    by (simp_all add: example_interface_def example_client_def)
  have rl: "arp_invar (resolution_list example_started)" "arp_table (resolution_list example_started) = Map.empty"
    using arp_init_invar [of "static_tables example_blank"] by (simp_all add: example_started_state)
  have sock: "Option.bind (arp_socket example_started) as_next_handler = None" and w: "wire example_started = []"
    by (simp_all add: example_started_state arp_init_handler_def static_tables_def example_blank_def)
  have key: "htons ETHERNET_TYPE_ARP = 0x0608" by (simp add: ETHERNET_TYPE_ARP_def bswap16_def join16_def)
  have "\<exists>m. get_value (ethernet_type_to_handler example_started) (htons ETHERNET_TYPE_ARP) = Inr (Some H_arp, m)"
    using get_value_table [of 0 "[eth_entry 0x0608 0 H_arp, eth_entry 0x0008 0 H_ipv4]" 512 "0x0608"]
    by (simp add: example_started_state key get_value_hit_table eth_entry_def)
  then have ready: "arp_ready example_started ip" for ip using rl sock by (simp add: arp_ready_def)
  have args: "arp_client_args example_ask_args (replicate 6 255) example_ask" "asks example_interface (ipv4_addr example_client) example_ask"
    by (simp_all add: arp_client_args_def example_ask_args_def asks_def example_ask_def ifc)
  have len: "length (mac example_interface) = 6" "length (mac example_client) = 6"
    "as_interface (arp_create_socket None example_interface True) = example_interface"
    by (simp_all add: ifc arp_create_socket_def)
  have placed: "receives mem_of" by (simp add: receives_def read_mem_of_all)
  from hosts_resolve_each_other [OF placed _ len(1,2) args len(3) ready ready, of 4 0] show ?thesis
    unfolding ifc rl w by (auto simp del: exchange.simps op_write.simps)
qed

end
