(* ===== verification/Arp_Startup.thy ===== *)
theory Arp_Startup
  imports Net_Stack
begin

text \<open>
  The resolution list from start-up on. \<^verbatim>\<open>arp_init_handler\<close> empties the list and does not set the
  insert index, so that what the machine does with the first requests it receives depends on the
  value that the allocation held there. Here frames with requests for this host go through the
  worker of a freshly initialised stack, for every value of the index.
\<close>

section \<open>Requests\<close>

text \<open>A received frame that asks for this host, what it asks, and the frame that answers it.\<close>

definition request_of :: "mem8 \<Rightarrow> arp_header_t" where
  "request_of frame = load_arp_header frame 14"

definition request_for :: "interface_t \<Rightarrow> mem8 \<Rightarrow> bool" where
  "request_for ifc frame \<longleftrightarrow>
     eh_ethernet_type (load_ethernet_header frame 0) = htons ETHERNET_TYPE_ARP \<and>
     hdw_type (request_of frame) = ARP_HDW_TYPE_ETHERNET \<and> pro_type (request_of frame) = ETHERNET_TYPE_IPV6 \<and>
     operation (request_of frame) = ARP_OPERATION_REQUEST \<and>
     target_protocol_addr (request_of frame) = ipv4_addr ifc"

definition reply_to :: "interface_t \<Rightarrow> mem8 \<Rightarrow> u8 list" where
  "reply_to ifc frame =
     ethernet_header_bytes \<lparr>eh_destination = eh_source (load_ethernet_header frame 0), eh_source = mac ifc,
       eh_ethernet_type = htons ETHERNET_TYPE_ARP\<rparr> @ arp_header_bytes (arp_reply ifc (request_of frame))"

definition entry_of :: "mem8 \<Rightarrow> arp_entry_t" where
  "entry_of frame =
     \<lparr>ae_ipv4 = sender_protocol_addr (request_of frame), ae_mac = sender_hardware_addr (request_of frame)\<rparr>"

text \<open>The state between two requests: ARP is found first in the Ethernet table, and nothing watches.\<close>

definition arp_first :: "'a stack_mem_scheme \<Rightarrow> bool" where
  "arp_first s \<longleftrightarrow> arp_socket s = None \<and>
     (\<exists>k. ethernet_type_to_handler s = table 512 [eth_entry 0x0608 k H_arp, eth_entry 0x0008 0 H_ipv4])"

lemma arp_first_found:
  assumes "ethernet_type_to_handler s = table 512 [eth_entry 0x0608 k H_arp, eth_entry 0x0008 0 H_ipv4]"
  shows "get_value (ethernet_type_to_handler s) (htons ETHERNET_TYPE_ARP) =
    Inr (Some H_arp, table 512 [eth_entry 0x0608 (k + 1) H_arp, eth_entry 0x0008 0 H_ipv4])"
  using get_value_table [of 0 "[eth_entry 0x0608 k H_arp, eth_entry 0x0008 0 H_ipv4]" 512 "0x0608"]
  by (simp add: assms ETHERNET_TYPE_ARP_def bswap16_def join16_def get_value_hit_table eth_entry_def)

lemma worker_answers_request:
  assumes "arp_first s" and req: "request_for ifc frame" and mac: "length (mac ifc) = 6" and n: "4 \<le> n"
  shows "case arp_learn (resolution_list s) (request_of frame) of
      Inl f \<Rightarrow> worker_packet [H_ethernet] n p (Some frame) ifc s = Inl f
    | Inr l \<Rightarrow> \<exists>s'. worker_packet [H_ethernet] n p (Some frame) ifc s = Inr s' \<and>
        wire s' = wire s @ [reply_to ifc frame] \<and> resolution_list s' = l \<and> arp_first s'"
proof -
  obtain k where k: "n = Suc (Suc (Suc (Suc k)))" using n by (auto simp: numeral_eq_Suc Suc_le_eq less_iff_Suc_add)
  from assms(1) obtain c where sock: "arp_socket s = None"
    and tab: "ethernet_type_to_handler s = table 512 [eth_entry 0x0608 c H_arp, eth_entry 0x0008 0 H_ipv4]"
    by (auto simp: arp_first_def)
  let ?eh = "load_ethernet_header frame 0" and ?m = "table 512 [eth_entry 0x0608 (c + 1) H_arp, eth_entry 0x0008 0 H_ipv4]"
  let ?s = "put_in p (above_ethernet frame ?eh) s\<lparr>ethernet_type_to_handler := ?m\<rparr>"
  have ty: "eh_ethernet_type ?eh = htons ETHERNET_TYPE_ARP" using req by (simp add: request_for_def)
  have get: "get_value (ethernet_type_to_handler s) (eh_ethernet_type ?eh) = Inr (Some H_arp, ?m)"
    unfolding ty by (rule arp_first_found [OF tab])
  have "ntohs 0x0600 < eh_ethernet_type ?eh" unfolding ty by (simp add: ETHERNET_TYPE_ARP_def bswap16_def join16_def)
  note step = ethernet_delivers [OF refl this get, of "Suc (Suc (Suc k))" p ifc]
  have "length (eh_source ?eh) = 6" by (simp add: load_ethernet_header_def)
  note read = arp_request_read [of ?s p frame ?eh "request_of frame" ifc k, OF _ _ this _ _ _ _ _ mac]
  have hdr: "load_arp_header frame 14 = request_of frame" by (simp add: request_of_def)
  have rl: "resolution_list ?s = resolution_list s" by simp
  show ?thesis
  proof (cases "arp_learn (resolution_list s) (request_of frame)")
    case (Inl f)
    with read req sock hdr rl have "op_read (Suc (Suc (Suc k))) H_arp p ifc ?s = Inl f"
      by (simp add: request_for_def del: op_read.simps)
    with Inl step show ?thesis by (simp add: k sbind_def del: op_read.simps worker_packet.simps)
  next
    case (Inr l)
    with read req sock hdr rl obtain s' where "op_read (Suc (Suc (Suc k))) H_arp p ifc ?s = Inr (Some 0, s')"
      "wire s' = wire s @ [reply_to ifc frame]" "resolution_list s' = l" "arp_socket s' = None"
      "ethernet_type_to_handler s' = ?m"
      by (auto simp: request_for_def reply_to_def simp del: op_read.simps)
    with Inr step show ?thesis by (auto simp: k arp_first_def simp del: op_read.simps worker_packet.simps)
  qed
qed

text \<open>A run over many requests does to the list what learning from them one after the other does.\<close>

lemma worker_answers_requests:
  assumes "arp_first s" and "\<forall>f \<in> set frames. request_for ifc f" and "length (mac ifc) = 6" and "4 \<le> n"
  shows "case arp_cache.learn_all (resolution_list s) (map request_of frames) of
      Inl f \<Rightarrow> consume_tasks (map (\<lambda>f. (f, ifc)) frames) [H_ethernet] n p s = Inl f
    | Inr l \<Rightarrow> \<exists>s'. consume_tasks (map (\<lambda>f. (f, ifc)) frames) [H_ethernet] n p s = Inr s' \<and>
        wire s' = wire s @ map (reply_to ifc) frames \<and> resolution_list s' = l"
  using assms(1,2)
proof (induction frames arbitrary: s)
  case (Cons frame frames)
  have one: "request_for ifc frame" using Cons.prems(2) by simp
  note step = worker_answers_request [OF Cons.prems(1) one assms(3,4), of p]
  show ?case
  proof (cases "arp_learn (resolution_list s) (request_of frame)")
    case (Inl f)
    with step show ?thesis by (simp add: sbind_def del: worker_packet.simps)
  next
    case (Inr l)
    with step obtain s1 where s1: "worker_packet [H_ethernet] n p (Some frame) ifc s = Inr s1"
      "wire s1 = wire s @ [reply_to ifc frame]" "resolution_list s1 = l" "arp_first s1"
      by (auto simp del: worker_packet.simps)
    with Cons.IH [OF s1(4)] Cons.prems(2) Inr show ?thesis
      by (simp add: s1(2) del: worker_packet.simps split: sum.split_asm sum.split)
  qed
qed simp

section \<open>A list that starts in the middle\<close>

text \<open>With an empty first slot no lookup finds anything, and every request is stored anew.\<close>

lemma learn_in_the_middle:
  assumes "rl_list l = replicate r None @ map Some es @ replicate (256 - r - length es) None"
    and "0 < r" and "unat (rl_insert_idx l) = r + length es" and "r + length es < 256"
  shows "\<exists>l'. arp_learn l h = Inr l' \<and>
    rl_list l' = replicate r None @
      map Some (es @ [\<lparr>ae_ipv4 = sender_protocol_addr h, ae_mac = sender_hardware_addr h\<rparr>]) @
      replicate (256 - r - Suc (length es)) None \<and>
    unat (rl_insert_idx l') = (r + Suc (length es)) mod 256"
proof -
  obtain r' where r: "r = Suc r'" using assms(2) by (cases r) auto
  have none: "arp_get_ip_mapping l ip = None" for ip by (simp add: arp_get_ip_mapping_def assms(1) r)
  obtain m where m: "256 - r - length es = Suc m" using assms(4) by (metis Suc_diff_Suc diff_diff_left zero_less_diff)
  have next_i: "unat ((rl_insert_idx l + 1) mod 256) = (r + Suc (length es)) mod 256"
    using assms(3,4) by (simp add: unat_mod unat_word_ariths)
  have "(rl_list l)[r + length es := x] = replicate r None @ map Some es @ x # replicate m None" for x
    unfolding assms(1) m by (simp add: list_update_append)
  moreover have "256 - r - Suc (length es) = m" using m by simp
  moreover have "r + length es < length (rl_list l)" using assms(4) by (simp add: assms(1))
  ultimately show ?thesis
    using none next_i assms(3)
    by (simp add: arp_learn_def arp_refresh_mapping_def arp_learn_mapping_def arp_insert_mapping_def upd_def
        ARP_RESOLUTION_LIST_SIZE_def sbind_def)
qed

lemma learn_all_in_the_middle:
  assumes "rl_list l = replicate r None @ map Some es @ replicate (256 - r - length es) None"
    and "0 < r" and "unat (rl_insert_idx l) = (r + length es) mod 256" and "r + length es + length hs \<le> 256"
  shows "\<exists>l'. arp_cache.learn_all l hs = Inr l' \<and>
    rl_list l' = replicate r None @
      map Some (es @ map (\<lambda>h. \<lparr>ae_ipv4 = sender_protocol_addr h, ae_mac = sender_hardware_addr h\<rparr>) hs) @
      replicate (256 - r - (length es + length hs)) None"
  using assms(1,3,4)
proof (induction hs arbitrary: l es)
  case (Cons h hs)
  have less: "r + length es < 256" using Cons.prems(3) by simp
  then have idx: "unat (rl_insert_idx l) = r + length es" using Cons.prems(2) by simp
  let ?es = "es @ [\<lparr>ae_ipv4 = sender_protocol_addr h, ae_mac = sender_hardware_addr h\<rparr>]"
  obtain l1 where l1: "arp_learn l h = Inr l1"
    "rl_list l1 = replicate r None @ map Some ?es @ replicate (256 - r - length ?es) None"
    "unat (rl_insert_idx l1) = (r + length ?es) mod 256"
    using learn_in_the_middle [OF Cons.prems(1) assms(2) idx less, of h] by auto
  show ?case using Cons.IH [OF l1(2,3)] Cons.prems(3) l1(1) by simp
qed simp

section \<open>The first requests\<close>


text \<open>The example: two requests of one sender, which changes its hardware address, to a stack whose
  index was 0, 3 and 300.\<close>

definition example_second_request :: arp_header_t where
  "example_second_request = example_arp_request\<lparr>sender_hardware_addr := [2, 0, 0, 0, 0, 7]\<rparr>"

definition example_requests :: "mem8 list" where
  "example_requests =
     [mem_of (ethernet_header_bytes (example_eth 0x0806) @ arp_header_bytes example_arp_request),
      mem_of (ethernet_header_bytes (example_eth 0x0806) @ arp_header_bytes example_second_request)]"

lemma example_requests_ok:
  "\<forall>f \<in> set example_requests. request_for example_interface f"
  "map entry_of example_requests =
    [\<lparr>ae_ipv4 = 0x0900000A, ae_mac = [2, 0, 0, 0, 0, 9]\<rparr>, \<lparr>ae_ipv4 = 0x0900000A, ae_mac = [2, 0, 0, 0, 0, 7]\<rparr>]"
  by code_simp+

definition example_first_requests :: "u16 \<Rightarrow> fault + stack_mem" where
  "example_first_requests raw =
     sbind (net_stack_init raw (replicate 64 None) (static_tables example_blank))
       (consume_tasks (map (\<lambda>f. (f, example_interface)) example_requests) [H_ethernet] 4 0)"


end
