(* ===== verification/Worker.thy ===== *)
theory Worker
  imports Net_Stack
begin

text \<open>
  \<^verbatim>\<open>worker.c\<close>, \<^verbatim>\<open>worker.h\<close> and \<^verbatim>\<open>dpdk/packet.c\<close>: the execution context, its thread, and the
  functions \<^verbatim>\<open>start\<close> and \<^verbatim>\<open>stop\<close> that another thread calls.

  Two threads run interleaved on the shared execution context. The thread that controls the
  worker executes a list of actions (one per statement of \<^verbatim>\<open>start\<close> and \<^verbatim>\<open>stop\<close>); the worker
  thread is at one of the places of its loop. A step of either, or of the network side that
  puts a packet into the work queue, is a step of the whole (\<open>rt_step\<close>). An action that has
  to wait (a taken mutex, a join of a thread that has not ended) has no step.

  The work queue is a DPDK ring, which is not part of the repository: the loop takes
  \<^verbatim>\<open>rte_ring_dequeue\<close> as the parameter \<open>deq\<close>, and \<open>fifo_ring\<close> states what DPDK documents of
  it. A packet is a \<^verbatim>\<open>struct rte_mbuf\<close>: the address of its data and the port it came in on.
\<close>

section \<open>Data\<close>

record rte_mbuf =
  mb_data :: mem8
  mb_port :: u16

datatype Execution_state =
    NET_STACK_EXECUTION_STARTING
  | NET_STACK_EXECUTION_STOPPED
  | NET_STACK_EXECUTION_STOPPING
  | NET_STACK_EXECUTION_RUNNING

text \<open>
  The state is \<open>None\<close> until \<^verbatim>\<open>start\<close> sets it: \<^verbatim>\<open>create_netstack_execution_context\<close> leaves the
  field as \<^verbatim>\<open>malloc\<close> delivered it.
\<close>

record 'q execution_context_t =
  worker_id :: u8
  work_queue :: 'q
  ec_state :: "Execution_state option"
  state_locked :: bool
  ec_handlers :: "handler list"
  num_handlers :: u8

definition QUEUE_SIZE :: nat where "QUEUE_SIZE = 64"

definition create_netstack_execution_context ::
  "(nat \<Rightarrow> 'q) \<Rightarrow> u8 \<Rightarrow> handler list \<Rightarrow> u8 \<Rightarrow> 'q execution_context_t" where
  "create_netstack_execution_context ring_create worker handlers n =
     \<lparr>worker_id = worker, work_queue = ring_create QUEUE_SIZE, ec_state = None, state_locked = False,
      ec_handlers = handlers, num_handlers = n\<rparr>"

section \<open>Packets of the network card\<close>

definition dpdk_packet_get_packet_buffer :: "rte_mbuf \<Rightarrow> mem8" where
  "dpdk_packet_get_packet_buffer packet = mb_data packet"

definition dpdk_packet_get_interface :: "interface_t list \<Rightarrow> rte_mbuf \<Rightarrow> fault + interface_t" where
  "dpdk_packet_get_interface interfaces packet = idx interfaces (unat (mb_port packet))"

section \<open>The threads\<close>

datatype action =
    Mutex_lock
  | Set_state Execution_state
  | Thread_create
  | Thread_join
  | Mutex_unlock

definition start_code :: "action list" where
  "start_code = [Mutex_lock, Set_state NET_STACK_EXECUTION_RUNNING, Thread_create, Mutex_unlock]"

definition stop_code :: "action list" where
  "stop_code = [Mutex_lock, Thread_join, Set_state NET_STACK_EXECUTION_STOPPED, Mutex_unlock]"

text \<open>Where the worker thread is. \<open>W_fault\<close> is a handler that ran into undefined behaviour.\<close>

datatype worker_at =
    W_none
  | W_test
  | W_dequeue
  | W_packet rte_mbuf
  | W_exit
  | W_fault fault

record ('q, 's) runtime =
  ctx :: "'q execution_context_t"
  control :: "action list"
  worker :: worker_at
  rt_mem :: 's

text \<open>
  The next statement of the controlling thread, if it can be executed. The creation of the thread is
  taken to succeed: the code ignores the results of \<^verbatim>\<open>rte_eal_remote_launch\<close> and \<^verbatim>\<open>pthread_create\<close>.
  (\<open>Main_Program\<close> has the case that the launch fails.)
\<close>

fun control_step :: "('q, 's) runtime \<Rightarrow> ('q, 's) runtime option" where
  "control_step r =
     (case control r of
        [] \<Rightarrow> None
      | Mutex_lock # as \<Rightarrow>
          if state_locked (ctx r) then None
          else Some (r\<lparr>ctx := (ctx r)\<lparr>state_locked := True\<rparr>, control := as\<rparr>)
      | Set_state st # as \<Rightarrow> Some (r\<lparr>ctx := (ctx r)\<lparr>ec_state := Some st\<rparr>, control := as\<rparr>)
      | Thread_create # as \<Rightarrow> Some (r\<lparr>worker := W_test, control := as\<rparr>)
      | Thread_join # as \<Rightarrow> if worker r = W_exit then Some (r\<lparr>control := as\<rparr>) else None
      | Mutex_unlock # as \<Rightarrow> Some (r\<lparr>ctx := (ctx r)\<lparr>state_locked := False\<rparr>, control := as\<rparr>))"

text \<open>The handlers on one packet: the loop over \<^verbatim>\<open>num_handlers\<close>.\<close>

definition handle_packet ::
  "interface_t list \<Rightarrow> nat \<Rightarrow> nat \<Rightarrow> 'q execution_context_t \<Rightarrow> rte_mbuf \<Rightarrow> 'a stack_mem_scheme \<Rightarrow>
   fault + 'a stack_mem_scheme" where
  "handle_packet interfaces n p c packet s =
     (if num_handlers c = 0 then Inr s
      else if length (ec_handlers c) < unat (num_handlers c) then Inl Out_of_bounds
      else sbind (dpdk_packet_get_interface interfaces packet) (\<lambda>ifc.
        worker_packet (take (unat (num_handlers c)) (ec_handlers c)) n p
          (Some (dpdk_packet_get_packet_buffer packet)) ifc s))"

text \<open>One statement of \<^verbatim>\<open>consume_tasks\<close>.\<close>

fun worker_step ::
  "('q \<Rightarrow> rte_mbuf option \<times> 'q) \<Rightarrow> interface_t list \<Rightarrow> nat \<Rightarrow> nat \<Rightarrow> ('q, 'a stack_mem_scheme) runtime \<Rightarrow>
   ('q, 'a stack_mem_scheme) runtime option" where
  "worker_step deq interfaces n p r =
     (case worker r of
        W_test \<Rightarrow>
          Some (r\<lparr>worker := (if ec_state (ctx r) = Some NET_STACK_EXECUTION_RUNNING then W_dequeue else W_exit)\<rparr>)
      | W_dequeue \<Rightarrow>
          (case deq (work_queue (ctx r)) of
             (None, q) \<Rightarrow> Some (r\<lparr>ctx := (ctx r)\<lparr>work_queue := q\<rparr>, worker := W_test\<rparr>)
           | (Some packet, q) \<Rightarrow> Some (r\<lparr>ctx := (ctx r)\<lparr>work_queue := q\<rparr>, worker := W_packet packet\<rparr>))
      | W_packet packet \<Rightarrow>
          (case handle_packet interfaces n p (ctx r) packet (rt_mem r) of
             Inr s \<Rightarrow> Some (r\<lparr>rt_mem := s, worker := W_test\<rparr>)
           | Inl e \<Rightarrow> Some (r\<lparr>worker := W_fault e\<rparr>))
      | _ \<Rightarrow> None)"

inductive rt_step ::
  "('q \<Rightarrow> rte_mbuf option \<times> 'q) \<Rightarrow> ('q \<Rightarrow> rte_mbuf \<Rightarrow> 'q) \<Rightarrow> interface_t list \<Rightarrow> nat \<Rightarrow> nat \<Rightarrow>
   ('q, 'a stack_mem_scheme) runtime \<Rightarrow> ('q, 'a stack_mem_scheme) runtime \<Rightarrow> bool"
  for deq enq interfaces n p where
  by_control: "control_step r = Some r' \<Longrightarrow> rt_step deq enq interfaces n p r r'"
| by_worker: "worker_step deq interfaces n p r = Some r' \<Longrightarrow> rt_step deq enq interfaces n p r r'"
| by_network: "rt_step deq enq interfaces n p r
    (r\<lparr>ctx := (ctx r)\<lparr>work_queue := enq (work_queue (ctx r)) packet\<rparr>\<rparr>)"

text \<open>What DPDK documents of a ring: it hands out what it holds in order, and nothing when empty.\<close>

definition fifo_ring :: "('q \<Rightarrow> 'p option \<times> 'q) \<Rightarrow> ('q \<Rightarrow> 'p list) \<Rightarrow> bool" where
  "fifo_ring deq contents \<longleftrightarrow>
     (\<forall>q. case contents q of
        [] \<Rightarrow> fst (deq q) = None \<and> contents (snd (deq q)) = []
      | x # xs \<Rightarrow> fst (deq q) = Some x \<and> contents (snd (deq q)) = xs)"

primrec worker_steps ::
  "nat \<Rightarrow> ('q \<Rightarrow> rte_mbuf option \<times> 'q) \<Rightarrow> interface_t list \<Rightarrow> nat \<Rightarrow> nat \<Rightarrow>
   ('q, 'a stack_mem_scheme) runtime \<Rightarrow> ('q, 'a stack_mem_scheme) runtime option" where
  "worker_steps 0 deq interfaces n p r = Some r"
| "worker_steps (Suc k) deq interfaces n p r =
     (case worker_step deq interfaces n p r of None \<Rightarrow> None | Some r' \<Rightarrow> worker_steps k deq interfaces n p r')"

section \<open>The worker consumes its queue in order\<close>

lemma fifo_ring_Cons:
  "fifo_ring deq contents \<Longrightarrow> contents q = x # xs \<Longrightarrow> \<exists>q'. deq q = (Some x, q') \<and> contents q' = xs"
  unfolding fifo_ring_def by (drule spec [of _ q]) (cases "deq q", simp)

text \<open>A packet as the worker hands it to the handlers.\<close>

definition delivered :: "interface_t list \<Rightarrow> rte_mbuf \<Rightarrow> (mem8 \<times> interface_t) option" where
  "delivered interfaces packet =
     (if unat (mb_port packet) < length interfaces
      then Some (mb_data packet, interfaces ! unat (mb_port packet)) else None)"

lemma handle_packet_delivered:
  assumes "delivered interfaces packet = Some d" and "num_handlers c \<noteq> 0"
    and "unat (num_handlers c) \<le> length (ec_handlers c)"
  shows "handle_packet interfaces n p c packet s =
    worker_packet (take (unat (num_handlers c)) (ec_handlers c)) n p (Some (fst d)) (snd d) s"
  using assms
  by (auto simp: delivered_def handle_packet_def dpdk_packet_get_interface_def dpdk_packet_get_packet_buffer_def
      split: if_splits)

lemma handle_packet_queue [simp]:
  "handle_packet interfaces n p (c\<lparr>work_queue := q\<rparr>) packet s = handle_packet interfaces n p c packet s"
  by (simp add: handle_packet_def)

lemma worker_round:
  assumes "worker r = W_test" and "ec_state (ctx r) = Some NET_STACK_EXECUTION_RUNNING"
    and "deq (work_queue (ctx r)) = (Some packet, q)"
    and "handle_packet interfaces n p (ctx r) packet (rt_mem r) = Inr s"
  shows "worker_steps (Suc (Suc (Suc k))) deq interfaces n p r =
    worker_steps k deq interfaces n p (r\<lparr>ctx := (ctx r)\<lparr>work_queue := q\<rparr>, rt_mem := s, worker := W_test\<rparr>)"
  using assms by simp

lemma worker_steps_consume:
  assumes ring: "fifo_ring deq contents" and "worker r = W_test"
    and "ec_state (ctx r) = Some NET_STACK_EXECUTION_RUNNING"
    and "map (delivered interfaces) (contents (work_queue (ctx r))) = map Some ds"
    and "num_handlers (ctx r) \<noteq> 0" and "unat (num_handlers (ctx r)) \<le> length (ec_handlers (ctx r))"
    and "consume_tasks ds (take (unat (num_handlers (ctx r))) (ec_handlers (ctx r))) n p (rt_mem r) = Inr s"
  shows "\<exists>q. contents q = [] \<and> worker_steps (3 * length ds) deq interfaces n p r =
    Some (r\<lparr>ctx := (ctx r)\<lparr>work_queue := q\<rparr>, rt_mem := s, worker := W_test\<rparr>)"
  using assms(2-)
proof (induction ds arbitrary: r)
  case Nil
  then show ?case by (intro exI [of _ "work_queue (ctx r)"]) simp
next
  case (Cons d ds)
  let ?hs = "take (unat (num_handlers (ctx r))) (ec_handlers (ctx r))"
  from Cons.prems(3) obtain packet packets where q: "contents (work_queue (ctx r)) = packet # packets"
    "delivered interfaces packet = Some d" "map (delivered interfaces) packets = map Some ds" by auto
  obtain q' where deq: "deq (work_queue (ctx r)) = (Some packet, q')" "contents q' = packets"
    using fifo_ring_Cons [OF ring q(1)] by blast
  from Cons.prems(6) obtain s1 where s1: "worker_packet ?hs n p (Some (fst d)) (snd d) (rt_mem r) = Inr s1"
    "consume_tasks ds ?hs n p s1 = Inr s" by auto
  let ?r = "r\<lparr>ctx := (ctx r)\<lparr>work_queue := q'\<rparr>, rt_mem := s1, worker := W_test\<rparr>"
  have "handle_packet interfaces n p (ctx r) packet (rt_mem r) = Inr s1"
    using handle_packet_delivered [OF q(2) Cons.prems(4,5), of n p "rt_mem r"] s1(1) by (simp only:)
  from worker_round [where deq = deq, OF Cons.prems(1,2) deq(1) this, of "3 * length ds"]
  have step: "worker_steps (3 * length (d # ds)) deq interfaces n p r =
      worker_steps (3 * length ds) deq interfaces n p ?r"
    by (simp add: numeral_3_eq_3 del: worker_step.simps worker_steps.simps)
  show ?case unfolding step using Cons.IH [of ?r] Cons.prems q deq(2) s1(2) by auto
qed

text \<open>A root handler that answers every packet with preset bytes.\<close>

lemma custom_answers:
  fixes s :: "'a stack_mem_scheme"
  assumes resp: "custom_response (custom_priv s c) = Inr bs" and len: "length bs \<le> 0xFFFF"
  shows "\<exists>s'. worker_packet [H_custom c] (Suc (Suc n)) p (Some frame) ifc s = Inr s' \<and>
    wire s' = wire s @ [bs] \<and> custom_priv s' = custom_priv s"
proof -
  let ?hs = "(replicate 10 None)[0 := Some (H_custom c)] :: handler option list" and ?as = "replicate 10 None :: write_args option list"
  let ?ps = "(fresh_in_stack frame)\<lparr>in_handlers := ?hs\<rparr>" and ?s1 = "put_in p (fresh_in_stack frame) s"
  obtain out s2 where new: "new_out_stack ?hs ?as DEFAULT_PACKAGE_BUFFER_SIZE 0 (put_in p ?ps ?s1) = (out, s2)"
    by (metis surj_pair)
  have lens: "length ?hs = 10" "length ?as = 10" by simp_all
  obtain qs where qs: "out_at s2 out = Inr qs" "wf_out qs" "out_stack_idx qs = 0" "out_args qs = ?as"
    "out_handlers qs = ?hs" "ob_offset (out_buffer qs) = DEFAULT_PACKAGE_BUFFER_SIZE" "frame_of qs = []"
    and s2: "s2 = (put_in p ?ps ?s1)\<lparr>out_stacks := out_stacks s2\<rparr>"
    and "ob_size (out_buffer qs) = DEFAULT_PACKAGE_BUFFER_SIZE"
    by (rule new_out_stack_at [OF new lens])
  have priv: "custom_priv s2 = custom_priv s" "wire s2 = wire s" by (subst s2, simp add: put_in_def)+
  have bytes: "custom_layer_bytes s2 ifc qs = Some bs"
    using resp qs by (simp add: custom_layer_bytes_def priv)
  have room: "length bs \<le> unat (ob_offset (out_buffer qs))"
    using len by (simp add: qs DEFAULT_PACKAGE_BUFFER_SIZE_def)
  have put: "out_at (put_out out (push_bytes bs qs) s2) out = Inr (push_bytes bs qs)"
    using out_at_valid [OF qs(1)] by simp
  note w = custom_layer.write_bottom [OF qs(1) bytes qs(2) room qs(3)]
  have "op_write (Suc n) (H_custom c) out ifc s2 =
      Inr (True, (put_out out (push_bytes bs qs) s2)\<lparr>wire := wire s @ [bs]\<rparr>)"
    using w(1) [of handler_write "op_write n"] w(2) handler_write_at [OF put] qs(7) priv(2) by simp
  with new priv show ?thesis
    by (simp add: custom_read_def fresh_in_stack_def put_out_def)
qed

text \<open>C11: a running worker, left alone with the packets in its queue, handles all of them, each with
  every handler, in the order of the queue, within three statements per packet, and then
  waits with an empty queue: its memory is what the sequential loop \<open>consume_tasks\<close> makes of
  the packets.\<close>

theorem worker_consumes_queue:
  assumes "fifo_ring deq contents" and "worker r = W_test"
    and "ec_state (ctx r) = Some NET_STACK_EXECUTION_RUNNING"
    and "map (delivered interfaces) (contents (work_queue (ctx r))) = map Some ds"
    and "num_handlers (ctx r) \<noteq> 0" and "unat (num_handlers (ctx r)) \<le> length (ec_handlers (ctx r))"
    and "consume_tasks ds (take (unat (num_handlers (ctx r))) (ec_handlers (ctx r))) n p (rt_mem r) = Inr s"
  shows "\<exists>r'. worker_steps (3 * length ds) deq interfaces n p r = Some r' \<and> rt_mem r' = s \<and>
    worker r' = W_test \<and> contents (work_queue (ctx r')) = [] \<and>
    ec_state (ctx r') = Some NET_STACK_EXECUTION_RUNNING"
  using worker_steps_consume [OF assms] assms(3) by auto

definition list_deq :: "'p list \<Rightarrow> 'p option \<times> 'p list" where
  "list_deq q = (case q of [] \<Rightarrow> (None, []) | x # xs \<Rightarrow> (Some x, xs))"

lemma list_fifo: "fifo_ring list_deq (\<lambda>q. q)"
  by (simp add: fifo_ring_def list_deq_def split: list.split)

definition example_busy :: "(rte_mbuf list, stack_mem) runtime" where
  "example_busy =
     \<lparr>ctx = \<lparr>worker_id = 1, work_queue = replicate 2 \<lparr>mb_data = (\<lambda>_. 0), mb_port = 0\<rparr>,
        ec_state = Some NET_STACK_EXECUTION_RUNNING, state_locked = False,
        ec_handlers = [H_custom 0], num_handlers = 1\<rparr>,
      control = [], worker = W_test, rt_mem = custom_set_response 0 (Some [104, 105]) 2 example_started\<rparr>"

theorem worker_consumes_queue_witness:
  "\<exists>r'. worker_steps 6 list_deq [example_interface] 2 0 example_busy = Some r' \<and>
     wire (rt_mem r') = [[104, 105], [104, 105]] \<and> work_queue (ctx r') = []"
proof -
  let ?s = "custom_set_response 0 (Some [104, 105]) 2 example_started" and ?p = "(\<lambda>_. 0 :: u8, example_interface)"
  have resp: "custom_response (custom_priv ?s 0) = Inr [104, 105]" "wire ?s = []"
    by (simp_all add: custom_response_def custom_set_response_def example_started_state arp_init_handler_def
        static_tables_def example_blank_def)
  obtain s1 where s1: "worker_packet [H_custom 0] 2 0 (Some (fst ?p)) example_interface ?s = Inr s1"
    "wire s1 = [[104, 105]]" "custom_priv s1 = custom_priv ?s"
    using custom_answers [OF resp(1), of 0 0 "fst ?p" example_interface] resp(2)
    by (auto simp: numeral_2_eq_2 simp del: worker_packet.simps)
  obtain s2 where s2: "worker_packet [H_custom 0] 2 0 (Some (fst ?p)) example_interface s1 = Inr s2"
    "wire s2 = [[104, 105], [104, 105]]"
    using custom_answers [of s1 0 "[104, 105]" 0 0 "fst ?p" example_interface] resp(1) s1(2,3)
    by (auto simp: numeral_2_eq_2 simp del: worker_packet.simps)
  have run: "consume_tasks [?p, ?p] [H_custom 0] 2 0 ?s = Inr s2"
    using s1(1) s2(1) by (simp del: worker_packet.simps)
  have deliv: "map (delivered [example_interface]) (work_queue (ctx example_busy)) = map Some [?p, ?p]"
    by (simp add: example_busy_def delivered_def numeral_2_eq_2)
  have "consume_tasks [?p, ?p] (take (unat (num_handlers (ctx example_busy))) (ec_handlers (ctx example_busy))) 2 0
      (rt_mem example_busy) = Inr s2" using run by (simp add: example_busy_def del: consume_tasks.simps)
  from worker_consumes_queue [OF list_fifo _ _ deliv _ _ this] s2(2) show ?thesis
    by (auto simp: example_busy_def simp del: worker_steps.simps worker_step.simps)
qed

section \<open>Stopping\<close>

text \<open>
  The life of a context whose controlling thread calls \<^verbatim>\<open>start\<close> and then \<^verbatim>\<open>stop\<close>, up to the
  join: the thread is created after the state has been set.
\<close>

definition at_action :: "nat \<Rightarrow> ('q, 's) runtime \<Rightarrow> bool" where
  "at_action i r \<longleftrightarrow> control r = drop i (start_code @ stop_code) \<and>
     (if i \<le> 2 then worker r = W_none else worker r \<noteq> W_none \<and> worker r \<noteq> W_exit) \<and>
     (2 \<le> i \<longrightarrow> ec_state (ctx r) = Some NET_STACK_EXECUTION_RUNNING)"

definition lifecycle :: "('q, 's) runtime \<Rightarrow> bool" where
  "lifecycle r \<longleftrightarrow> (\<exists>i \<le> 5. at_action i r)"

lemma lifecycle_cases:
  assumes "lifecycle r"
  obtains i where "i \<in> {0, 1, 2, 3, 4, 5}" and "at_action i r"
proof -
  from assms obtain i where "i \<le> 5" and at: "at_action i r" by (auto simp: lifecycle_def)
  then have "i = 0 \<or> i = 1 \<or> i = 2 \<or> i = 3 \<or> i = 4 \<or> i = 5" by linarith
  with at show thesis using that by blast
qed

lemma control_advances:
  assumes "control_step r = Some r'" and "at_action i r" and "i \<in> {0, 1, 2, 3, 4, 5}"
  shows "at_action (Suc i) r' \<and> i < 5"
  using assms(3,1,2)
  by (elim insertE) (auto simp: at_action_def start_code_def stop_code_def split: if_split_asm)

lemma lifecycle_control:
  assumes "control_step r = Some r'" and "lifecycle r"
  shows "lifecycle r'"
  using lifecycle_cases [OF assms(2)] control_advances [OF assms(1)] Suc_leI
  unfolding lifecycle_def by metis

lemma lifecycle_worker:
  assumes "worker_step deq interfaces n p r = Some r'" and "lifecycle r"
  shows "lifecycle r'"
proof -
  from assms(2) obtain i where i: "i \<le> 5" "at_action i r" by (auto simp: lifecycle_def)
  have "at_action i r'"
    using assms(1) i(2)
    by (cases "worker r")
      (auto simp: at_action_def split: prod.split_asm option.split_asm sum.split_asm if_split_asm)
  with i(1) show ?thesis by (auto simp: lifecycle_def)
qed

lemma lifecycle_step: "rt_step deq enq interfaces n p r r' \<Longrightarrow> lifecycle r \<Longrightarrow> lifecycle r'"
proof (erule rt_step.cases)
  fix u v
  assume "lifecycle r" "r = u" "r' = v" "control_step u = Some v"
  then show "lifecycle r'" using lifecycle_control by blast
next
  fix u v
  assume "lifecycle r" "r = u" "r' = v" "worker_step deq interfaces n p u = Some v"
  then show "lifecycle r'" using lifecycle_worker by blast
next
  fix u packet
  assume "lifecycle r" "r = u" "r' = u\<lparr>ctx := (ctx u)\<lparr>work_queue := enq (work_queue (ctx u)) packet\<rparr>\<rparr>"
  moreover from this have "at_action i r' = at_action i r" for i by (simp add: at_action_def)
  ultimately show "lifecycle r'" by (simp add: lifecycle_def)
qed

lemma lifecycle_reachable: "(rt_step deq enq interfaces n p)\<^sup>*\<^sup>* r r' \<Longrightarrow> lifecycle r \<Longrightarrow> lifecycle r'"
  by (induction rule: rtranclp_induct) (auto intro: lifecycle_step)

lemma worker_progress:
  assumes "lifecycle r" and "worker r \<noteq> W_none" and "\<forall>e. worker r \<noteq> W_fault e"
  shows "\<exists>r'. worker_step deq interfaces n p r = Some r'"
proof (cases "worker r")
  case W_dequeue
  then show ?thesis by (cases "deq (work_queue (ctx r))", cases "fst (deq (work_queue (ctx r)))") auto
next
  case (W_packet packet)
  then show ?thesis by (cases "handle_packet interfaces n p (ctx r) packet (rt_mem r)") auto
qed (use assms in \<open>auto simp: lifecycle_def at_action_def split: if_split_asm\<close>)

text \<open>A worker thread whose state is running goes on.\<close>

lemma worker_step_stays:
  assumes "worker_step deq interfaces n p r = Some x" and "ec_state (ctx r) = Some NET_STACK_EXECUTION_RUNNING"
  shows "worker x \<noteq> W_none" "worker x \<noteq> W_exit" "ec_state (ctx x) = ec_state (ctx r)"
    "state_locked (ctx x) = state_locked (ctx r)" "worker r \<noteq> W_none"
  using assms by (auto split: worker_at.splits option.splits prod.splits sum.splits)

text \<open>C16: \<^verbatim>\<open>stop\<close> never returns. A context is created and one thread calls \<^verbatim>\<open>start\<close> and then \<^verbatim>\<open>stop\<close>;
  \<^verbatim>\<open>stop\<close> joins the worker thread before it sets the state that would end the worker's loop.
  So in every interleaving of the two threads and the network the caller has the join still
  before it, the worker has not ended, and as soon as it exists the state is
  \<open>NET_STACK_EXECUTION_RUNNING\<close> and, unless a handler has failed, the worker can execute its
  next statement.\<close>

theorem stop_never_returns:
  fixes r :: "('q, 'a stack_mem_scheme) runtime"
  assumes "ctx r = create_netstack_execution_context ring_create w hs k"
    and "control r = start_code @ stop_code" and "worker r = W_none"
    and "(rt_step deq enq interfaces n p)\<^sup>*\<^sup>* r r'"
  shows "Thread_join \<in> set (control r') \<and> worker r' \<noteq> W_exit \<and>
    (worker r' = W_none \<or> ec_state (ctx r') = Some NET_STACK_EXECUTION_RUNNING \<and>
      ((\<exists>e. worker r' = W_fault e) \<or> (\<exists>r''. worker_step deq interfaces n p r' = Some r'')))"
proof -
  have "at_action 0 r" using assms(2,3) by (simp add: at_action_def)
  then have "lifecycle r" unfolding lifecycle_def by blast
  then have life: "lifecycle r'" using lifecycle_reachable assms(4) by blast
  then obtain i where i: "i \<in> {0, 1, 2, 3, 4, 5}" and at: "at_action i r'" by (rule lifecycle_cases)
  from i have "Thread_join \<in> set (drop i (start_code @ stop_code))"
    by (elim insertE) (simp_all add: start_code_def stop_code_def)
  with worker_progress [OF life, of deq interfaces n p] at show ?thesis
    by (auto simp: at_action_def split: if_split_asm simp del: worker_step.simps drop_append)
qed

definition example_runtime :: "(rte_mbuf list, stack_mem) runtime" where
  "example_runtime =
     \<lparr>ctx = create_netstack_execution_context (\<lambda>_. []) 1 [H_ethernet] 1, control = start_code @ stop_code,
      worker = W_none, rt_mem = example_started\<rparr>"

text \<open>Three statements later the worker runs.\<close>

definition example_running :: "(rte_mbuf list, stack_mem) runtime" where
  "example_running = example_runtime\<lparr>worker := W_test, control := Mutex_unlock # stop_code,
     ctx := (ctx example_runtime)\<lparr>ec_state := Some NET_STACK_EXECUTION_RUNNING, state_locked := True\<rparr>\<rparr>"

lemma example_running_reached: "(rt_step deq enq interfaces n p)\<^sup>*\<^sup>* example_runtime example_running"
proof -
  let ?c = "ctx example_runtime" and ?as = "start_code @ stop_code"
  let ?r1 = "example_runtime\<lparr>ctx := ?c\<lparr>state_locked := True\<rparr>, control := drop 1 ?as\<rparr>"
  let ?r2 = "?r1\<lparr>ctx := (ctx ?r1)\<lparr>ec_state := Some NET_STACK_EXECUTION_RUNNING\<rparr>, control := drop 2 ?as\<rparr>"
  have "control_step example_runtime = Some ?r1" "control_step ?r1 = Some ?r2" "control_step ?r2 = Some example_running"
    by (simp_all add: example_runtime_def example_running_def start_code_def stop_code_def
        create_netstack_execution_context_def)
  then show ?thesis
    by (meson by_control converse_rtranclp_into_rtranclp rtranclp.rtrancl_refl)
qed

theorem stop_never_returns_witness:
  "(rt_step list_deq (\<lambda>q x. q @ [x]) [example_interface] 6 0)\<^sup>*\<^sup>* example_runtime example_running \<and>
   Thread_join \<in> set (control example_running) \<and>
   (\<exists>r''. worker_step list_deq [example_interface] 6 0 example_running = Some r'')"
proof -
  have "ctx example_runtime = create_netstack_execution_context (\<lambda>_. []) 1 [H_ethernet] 1"
    "control example_runtime = start_code @ stop_code" "worker example_runtime = W_none"
    by (simp_all add: example_runtime_def)
  note stop_never_returns [OF this example_running_reached [of list_deq "\<lambda>q x. q @ [x]" "[example_interface]" 6 0]]
  moreover have "worker example_running = W_test" by (simp add: example_running_def)
  ultimately show ?thesis using example_running_reached by (simp del: worker_step.simps)
qed

end
