(* ===== verification/Offloader.thy ===== *)
theory Offloader
  imports Worker
begin

text \<open>
  \<^verbatim>\<open>offloader_loop\<close> of \<^verbatim>\<open>main.c\<close> and \<^verbatim>\<open>dpdk/write.c\<close>: the thread that moves packets between the
  network card, the work queues of the workers and the write queue the handlers fill.

  DPDK is not part of the repository. The functions the loop calls are the fields of a record
  \<open>dpdk\<close>, over a device state \<open>'d\<close> (card and buffer pool), work queues \<open>'q\<close> and a write queue
  \<open>'w\<close>; the definitions \<open>bounded_ring\<close>, \<open>bulk_ring\<close> and \<open>mbuf_pool\<close> state what DPDK documents of
  rings and pools. An mbuf for sending is a number; the loop owns the ones it allocated until
  it has sent them. The array \<^verbatim>\<open>write_buffers\<close> lives as long as the loop, and an entry is
  \<open>None\<close> until an allocation has set it. The write queue holds the addresses of packet stacks,
  whose bytes are read when the packet is sent.
\<close>

section \<open>Data\<close>

definition MAX_PKT_BURST :: nat where "MAX_PKT_BURST = 32"

record ('d, 'q, 'w) dpdk =
  rte_eth_rx_burst :: "u16 \<Rightarrow> nat \<Rightarrow> 'd \<Rightarrow> rte_mbuf list \<times> 'd"
  rte_eth_tx_burst :: "u16 \<Rightarrow> (nat \<times> u8 list) list \<Rightarrow> 'd \<Rightarrow> u16 \<times> 'd"
  rte_pktmbuf_alloc_bulk :: "nat \<Rightarrow> 'd \<Rightarrow> nat list option \<times> 'd"
  rte_ring_sp_enqueue :: "rte_mbuf \<Rightarrow> 'q \<Rightarrow> bool \<times> 'q"
  rte_ring_enqueue :: "nat \<Rightarrow> 'w \<Rightarrow> bool \<times> 'w"
  rte_ring_dequeue_bulk :: "nat \<Rightarrow> 'w \<Rightarrow> nat list \<times> 'w"

record ('d, 'q, 'w) offloader =
  device :: 'd
  work_queues :: "'q list"
  write_queue :: 'w
  write_buffers :: "nat option list"
  owned :: "nat \<Rightarrow> bool"
  mbuf_bytes :: "nat \<Rightarrow> u8 list"
  tx_requests :: "u8 list list list"

section \<open>Operations\<close>

text \<open>\<^verbatim>\<open>dpdk_write_write\<close>: a packet that does not fit is only logged.\<close>

definition dpdk_write_write :: "('d, 'q, 'w) dpdk \<Rightarrow> nat \<Rightarrow> ('d, 'q, 'w) offloader \<Rightarrow> ('d, 'q, 'w) offloader" where
  "dpdk_write_write dp p off = off\<lparr>write_queue := snd (rte_ring_enqueue dp p (write_queue off))\<rparr>"

text \<open>The received packets go round robin to the workers (lines 172 to 175).\<close>

primrec distribute :: "('d, 'q, 'w) dpdk \<Rightarrow> u8 \<Rightarrow> nat \<Rightarrow> rte_mbuf list \<Rightarrow> 'q list \<Rightarrow> fault + 'q list" where
  "distribute dp num j [] queues = Inr queues"
| "distribute dp num j (packet # packets) queues =
     (if num = 0 then Inl Division_by_zero
      else sbind (idx queues (j mod unat num)) (\<lambda>q.
        distribute dp num (Suc j) packets (queues[j mod unat num := snd (rte_ring_sp_enqueue dp packet q)])))"

text \<open>
  The packets to write are copied into the write buffers (lines 186 to 194): \<open>room\<close> is the
  size of the data area of an mbuf.
\<close>

definition data_length :: "out_buffer_t \<Rightarrow> u16" where
  "data_length b = ucast (ob_size b - ob_offset b)"

primrec fill_buffers ::
  "nat \<Rightarrow> 'a net_mem_scheme \<Rightarrow> nat \<Rightarrow> nat list \<Rightarrow> ('d, 'q, 'w) offloader \<Rightarrow> fault + ('d, 'q, 'w) offloader" where
  "fill_buffers room s i [] off = Inr off"
| "fill_buffers room s i (p # ps) off =
     sbind (out_at s p) (\<lambda>out.
     sbind (idx (write_buffers off) i) (\<lambda>w.
     sbind (deref w) (\<lambda>w.
     let b = out_buffer out; n = unat (data_length b) in
     if \<not> owned off w then Inl Dangling
     else if room < n then Inl Out_of_bounds
     else fill_buffers room s (Suc i) ps
       (off\<lparr>mbuf_bytes := (mbuf_bytes off)(w := read_bytes (buffer b) (unat (ob_offset b)) n)\<rparr>))))"

text \<open>The first two write buffers, as they are handed to the card.\<close>

definition burst :: "('d, 'q, 'w) offloader \<Rightarrow> fault + (nat \<times> u8 list) list" where
  "burst off =
     sbind (idx (write_buffers off) 0) (\<lambda>v. sbind (idx (write_buffers off) 1) (\<lambda>w.
     sbind (deref v) (\<lambda>v. sbind (deref w) (\<lambda>w. Inr [(v, mbuf_bytes off v), (w, mbuf_bytes off w)]))))"

definition take_buffers :: "nat list option \<Rightarrow> ('d, 'q, 'w) offloader \<Rightarrow> ('d, 'q, 'w) offloader" where
  "take_buffers xs off =
     (case xs of
        None \<Rightarrow> off
      | Some xs \<Rightarrow> off\<lparr>write_buffers := map Some xs @ drop (length xs) (write_buffers off),
          owned := (\<lambda>w. w \<in> set xs \<or> owned off w)\<rparr>)"

text \<open>One round of the loop.\<close>

definition offloader_round ::
  "('d, 'q, 'w) dpdk \<Rightarrow> nat \<Rightarrow> u16 \<Rightarrow> u8 \<Rightarrow> 'a net_mem_scheme \<Rightarrow> ('d, 'q, 'w) offloader \<Rightarrow>
   fault + ('d, 'q, 'w) offloader" where
  "offloader_round dp room port num s off =
     (let (packets, d) = rte_eth_rx_burst dp port MAX_PKT_BURST (device off);
          off = off\<lparr>device := d\<rparr> in
      if packets = [] then Inr off
      else
        sbind (distribute dp num 0 packets (work_queues off)) (\<lambda>queues.
        let (ps, wq) = rte_ring_dequeue_bulk dp 2 (write_queue off);
            (bufs, d) = rte_pktmbuf_alloc_bulk dp 2 d;
            off = take_buffers bufs (off\<lparr>device := d, work_queues := queues, write_queue := wq\<rparr>) in
        if ps = [] then Inr off
        else
          sbind (fill_buffers room s 0 ps off) (\<lambda>off.
          sbind (burst off) (\<lambda>request.
          let (sent, d) = rte_eth_tx_burst dp port request (device off) in
          Inr (off\<lparr>device := d, tx_requests := tx_requests off @ [map snd request],
            owned := (\<lambda>w. w \<notin> set (take (unat sent) (map fst request)) \<and> owned off w)\<rparr>)))))"

text \<open>The loop until \<^verbatim>\<open>force_quit\<close> is seen: one round per element, which is the memory it finds.\<close>

primrec offloader_loop ::
  "('d, 'q, 'w) dpdk \<Rightarrow> nat \<Rightarrow> u16 \<Rightarrow> u8 \<Rightarrow> 'a net_mem_scheme list \<Rightarrow> ('d, 'q, 'w) offloader \<Rightarrow>
   fault + ('d, 'q, 'w) offloader" where
  "offloader_loop dp room port num [] off = Inr off"
| "offloader_loop dp room port num (s # ss) off =
     sbind (offloader_round dp room port num s off) (\<lambda>off. offloader_loop dp room port num ss off)"

section \<open>What DPDK documents\<close>

definition bounded_ring :: "('p \<Rightarrow> 'q \<Rightarrow> bool \<times> 'q) \<Rightarrow> ('q \<Rightarrow> 'p list) \<Rightarrow> nat \<Rightarrow> bool" where
  "bounded_ring enq contents capacity \<longleftrightarrow>
     (\<forall>x q. contents (snd (enq x q)) =
        (if length (contents q) < capacity then contents q @ [x] else contents q))"

definition bulk_ring :: "(nat \<Rightarrow> 'q \<Rightarrow> 'p list \<times> 'q) \<Rightarrow> ('q \<Rightarrow> 'p list) \<Rightarrow> bool" where
  "bulk_ring deq contents \<longleftrightarrow>
     (\<forall>n q. if n \<le> length (contents q)
        then fst (deq n q) = take n (contents q) \<and> contents (snd (deq n q)) = drop n (contents q)
        else fst (deq n q) = [] \<and> contents (snd (deq n q)) = contents q)"

definition mbuf_pool :: "(nat \<Rightarrow> 'd \<Rightarrow> nat list option \<times> 'd) \<Rightarrow> ('d \<Rightarrow> nat) \<Rightarrow> bool" where
  "mbuf_pool alloc available \<longleftrightarrow>
     (\<forall>n d. if n \<le> available d
        then (\<exists>xs. fst (alloc n d) = Some xs \<and> length xs = n \<and> distinct xs) \<and>
          available (snd (alloc n d)) = available d - n
        else fst (alloc n d) = None \<and> available (snd (alloc n d)) = available d)"

text \<open>
  An example: rings that are lists, a pool that is a number of buffers, and a card that
  receives three packets in every burst and sends everything.
\<close>

definition example_dpdk :: "(nat, rte_mbuf list, nat list) dpdk" where
  "example_dpdk =
     \<lparr>rte_eth_rx_burst = (\<lambda>port n d. (map (\<lambda>i. \<lparr>mb_data = (\<lambda>_. i), mb_port = 0\<rparr>) [1, 2, 3], d)),
      rte_eth_tx_burst = (\<lambda>port request d. (of_nat (length request), d)),
      rte_pktmbuf_alloc_bulk = (\<lambda>n d. if n \<le> d then (Some (map (\<lambda>i. d + i) [0..<n]), d - n) else (None, d)),
      rte_ring_sp_enqueue = (\<lambda>x q. if length q < 63 then (True, q @ [x]) else (False, q)),
      rte_ring_enqueue = (\<lambda>x q. if length q < 7 then (True, q @ [x]) else (False, q)),
      rte_ring_dequeue_bulk = (\<lambda>n q. if n \<le> length q then (take n q, drop n q) else ([], q))\<rparr>"

definition example_offloader :: "nat list \<Rightarrow> (nat, rte_mbuf list, nat list) offloader" where
  "example_offloader q =
     \<lparr>device = 10, work_queues = [[], []], write_queue = q, write_buffers = replicate 32 None,
      owned = (\<lambda>_. False), mbuf_bytes = (\<lambda>_. []), tx_requests = []\<rparr>"

definition example_frames :: net_mem where
  "example_frames =
     \<lparr>in_stacks = (\<lambda>_. None), out_stacks = map (\<lambda>i. \<lparr>out_handlers = [], out_args = [],
        out_buffer = \<lparr>buffer = (\<lambda>_. i), ob_size = 100, ob_offset = 98\<rparr>, out_stack_idx = 0\<rparr>) [7, 8],
      malloc_bytes = (\<lambda>_ _. 0)\<rparr>"

lemma example_dpdk_laws:
  "bounded_ring (rte_ring_sp_enqueue example_dpdk) (\<lambda>q. q) 63"
  "bulk_ring (rte_ring_dequeue_bulk example_dpdk) (\<lambda>q. q)"
  "mbuf_pool (rte_pktmbuf_alloc_bulk example_dpdk) (\<lambda>d. d)"
  by (simp_all add: example_dpdk_def bounded_ring_def bulk_ring_def mbuf_pool_def distinct_map)

section \<open>Lemmas on the parts\<close>

lemma take_buffers_keeps [simp]:
  "work_queues (take_buffers xs off) = work_queues off" "write_queue (take_buffers xs off) = write_queue off"
  "device (take_buffers xs off) = device off" "tx_requests (take_buffers xs off) = tx_requests off"
  by (simp_all add: take_buffers_def split: option.split)

lemma fill_buffers_keeps:
  assumes "fill_buffers room s i ps off = Inr off'"
  shows "work_queues off' = work_queues off" and "write_queue off' = write_queue off"
    and "device off' = device off" and "tx_requests off' = tx_requests off"
  using assms
  by (induction ps arbitrary: i off) (auto simp: Let_def split: if_split_asm)

section \<open>Receiving\<close>

lemma distribute_queues:
  assumes ring: "bounded_ring (rte_ring_sp_enqueue dp) contents capacity" and num: "num \<noteq> 0"
    and "length queues = unat num"
    and "\<forall>i < unat num. length (contents (queues ! i)) + length packets \<le> capacity"
  shows "\<exists>queues'. distribute dp num j packets queues = Inr queues' \<and> length queues' = length queues \<and>
    (\<forall>i < unat num. contents (queues' ! i) =
      contents (queues ! i) @ nths packets {k. (j + k) mod unat num = i})"
  using assms(3,4)
proof (induction packets arbitrary: j queues)
  case Nil
  then show ?case by simp
next
  case (Cons packet packets)
  let ?i = "j mod unat num"
  let ?queues = "queues[?i := snd (rte_ring_sp_enqueue dp packet (queues ! ?i))]"
  have pos: "0 < unat num" using num by (simp add: unat_gt_0)
  then have i: "?i < length queues" using Cons.prems(1) by simp
  have new: "contents (?queues ! i') = contents (queues ! i') @ (if ?i = i' then [packet] else [])" if "i' < unat num" for i'
  proof -
    have "length (contents (queues ! i')) < capacity" using Cons.prems(2) that by fastforce
    with ring i that Cons.prems(1) show ?thesis by (auto simp: bounded_ring_def)
  qed
  have room: "\<forall>i < unat num. length (contents (?queues ! i)) + length packets \<le> capacity"
    using Cons.prems(2) new by fastforce
  obtain queues' where q: "distribute dp num (Suc j) packets ?queues = Inr queues'" "length queues' = length ?queues"
    "\<forall>i < unat num. contents (queues' ! i) = contents (?queues ! i) @ nths packets {k. (Suc j + k) mod unat num = i}"
    using Cons.IH [of ?queues "Suc j"] Cons.prems(1) room by auto
  then show ?case using num i new by (auto simp: nths_Cons)
qed

text \<open>C23: the packets of a receive burst reach the workers round robin and in order: with room in
  the work queues, the queue of worker \<open>i\<close> grows by exactly the packets whose position in
  the burst is \<open>i\<close> modulo the number of workers.\<close>

theorem burst_distributed:
  assumes "bounded_ring (rte_ring_sp_enqueue dp) contents capacity" and "num \<noteq> 0"
    and "length (work_queues off) = unat num"
    and "rte_eth_rx_burst dp port MAX_PKT_BURST (device off) = (packets, d)"
    and "\<forall>i < unat num. length (contents (work_queues off ! i)) + length packets \<le> capacity"
    and "offloader_round dp room port num s off = Inr off'"
  shows "\<forall>i < unat num. contents (work_queues off' ! i) =
    contents (work_queues off ! i) @ nths packets {k. k mod unat num = i}"
proof -
  obtain queues where q: "distribute dp num 0 packets (work_queues off) = Inr queues"
    "\<forall>i < unat num. contents (queues ! i) =
      contents (work_queues off ! i) @ nths packets {k. k mod unat num = i}"
    using distribute_queues [OF assms(1-3,5), of 0] by auto
  have "work_queues off' = queues"
    using assms(4,6) q(1)
    by (cases "packets = []")
      (auto simp: offloader_round_def Let_def take_buffers_keeps fill_buffers_keeps
        split: prod.split_asm if_split_asm)
  with q(2) show ?thesis by simp
qed

theorem burst_distributed_witness:
  "\<exists>off'. offloader_round example_dpdk 2048 0 2 example_frames (example_offloader []) = Inr off' \<and>
    map mb_data (work_queues off' ! 0) = [\<lambda>_. 1, \<lambda>_. 3] \<and> map mb_data (work_queues off' ! 1) = [\<lambda>_. 2]"
proof -
  have rx: "rte_eth_rx_burst example_dpdk 0 MAX_PKT_BURST (device (example_offloader [])) =
      (map (\<lambda>i. \<lparr>mb_data = (\<lambda>_. i), mb_port = 0\<rparr>) [1, 2, 3], 10)"
    by (simp add: example_dpdk_def example_offloader_def)
  obtain off' where run: "offloader_round example_dpdk 2048 0 2 example_frames (example_offloader []) = Inr off'"
    by (simp add: offloader_round_def example_dpdk_def example_offloader_def)
  have two: "\<forall>i < 2. length (work_queues (example_offloader []) ! i) + 3 \<le> 63" "work_queues (example_offloader []) = [[], []]"
    by (simp_all add: example_offloader_def less_Suc_eq numeral_2_eq_2)
  from burst_distributed [OF example_dpdk_laws(1) _ _ rx _ run] two
  have "\<forall>i < 2. work_queues off' ! i = [[], []] ! i @
      nths (map (\<lambda>i. \<lparr>mb_data = (\<lambda>_. i), mb_port = 0\<rparr>) [1, 2, 3]) {k. k mod 2 = i}" by simp
  from this [rule_format, of 0] this [rule_format, of 1] run show ?thesis by (simp add: nths_Cons)
qed

section \<open>Sending\<close>

text \<open>What the card is given for a packet stack: its frame, when that is shorter than 64 KiB.\<close>

definition sendable :: "nat \<Rightarrow> out_packet_stack_t \<Rightarrow> bool" where
  "sendable room out \<longleftrightarrow> ob_offset (out_buffer out) \<le> ob_size (out_buffer out) \<and>
     length (frame_of out) \<le> room \<and> length (frame_of out) < 65536"

lemma sendable_bytes:
  assumes "sendable room out"
  shows "read_bytes (buffer (out_buffer out)) (unat (ob_offset (out_buffer out)))
      (unat (data_length (out_buffer out))) = frame_of out"
    and "unat (data_length (out_buffer out)) \<le> room"
proof -
  have "unat (ob_size (out_buffer out) - ob_offset (out_buffer out)) = length (frame_of out)"
    using assms by (simp add: sendable_def frame_of_def unat_sub word_le_nat_alt Let_def)
  then have "unat (data_length (out_buffer out)) = length (frame_of out)"
    using assms by (simp add: sendable_def data_length_def unsigned_ucast_eq take_bit_nat_eq_self)
  with assms show "read_bytes (buffer (out_buffer out)) (unat (ob_offset (out_buffer out)))
      (unat (data_length (out_buffer out))) = frame_of out"
    and "unat (data_length (out_buffer out)) \<le> room"
    by (simp_all add: sendable_def) (simp add: frame_of_def Let_def)
qed

lemma distribute_total:
  assumes "num \<noteq> 0" and "unat num \<le> length queues"
  shows "\<exists>queues'. distribute dp num j packets queues = Inr queues' \<and> length queues' = length queues"
  using assms(2)
proof (induction packets arbitrary: j queues)
  case (Cons packet packets)
  have "j mod unat num < unat num" using assms(1) by (simp add: unat_gt_0)
  then have "j mod unat num < length queues" using Cons.prems by simp
  with Cons.IH [of "queues[j mod unat num := snd (rte_ring_sp_enqueue dp packet (queues ! (j mod unat num)))]" "Suc j"]
    assms(1) Cons.prems show ?case by auto
qed simp

lemma bulk_ring_two:
  assumes "bulk_ring deq contents"
  shows "contents q = x # y # zs \<Longrightarrow> \<exists>q'. deq 2 q = ([x, y], q') \<and> contents q' = zs"
    and "length (contents q) < 2 \<Longrightarrow> \<exists>q'. deq 2 q = ([], q') \<and> contents q' = contents q"
proof -
  have law: "if 2 \<le> length (contents q)
      then fst (deq 2 q) = take 2 (contents q) \<and> contents (snd (deq 2 q)) = drop 2 (contents q)
      else fst (deq 2 q) = [] \<and> contents (snd (deq 2 q)) = contents q"
    using assms unfolding bulk_ring_def by blast
  show "contents q = x # y # zs \<Longrightarrow> \<exists>q'. deq 2 q = ([x, y], q') \<and> contents q' = zs"
    using law by (cases "deq 2 q") (simp add: numeral_2_eq_2)
  show "length (contents q) < 2 \<Longrightarrow> \<exists>q'. deq 2 q = ([], q') \<and> contents q' = contents q"
    using law by (cases "deq 2 q") simp
qed

lemma mbuf_pool_two:
  assumes "mbuf_pool alloc available" and "2 \<le> available d"
  shows "\<exists>v w d'. alloc 2 d = (Some [v, w], d') \<and> v \<noteq> w \<and> available d' = available d - 2"
proof -
  have "(\<exists>xs. fst (alloc 2 d) = Some xs \<and> length xs = 2 \<and> distinct xs) \<and>
      available (snd (alloc 2 d)) = available d - 2"
    using assms unfolding mbuf_pool_def by meson
  then obtain xs where "fst (alloc 2 d) = Some xs" "length xs = 2" "distinct xs"
    "available (snd (alloc 2 d)) = available d - 2" by blast
  then show ?thesis
    by (cases "alloc 2 d") (auto simp: length_Suc_conv numeral_2_eq_2)
qed

text \<open>C22: when the card has received something and at least two packets wait in the write queue, and
  the pool has two buffers, the round sends exactly the first two: their frames go to the card
  in one burst, in the order in which they were queued, and they leave the queue. The frames
  must fit an mbuf.\<close>

theorem two_frames_sent:
  assumes "rte_eth_rx_burst dp port MAX_PKT_BURST (device off) = (packets, d)" and "packets \<noteq> []"
    and "num \<noteq> 0" and "unat num \<le> length (work_queues off)"
    and "bulk_ring (rte_ring_dequeue_bulk dp) contents" and "contents (write_queue off) = p # q # rest"
    and "mbuf_pool (rte_pktmbuf_alloc_bulk dp) available" and "2 \<le> available d"
    and "length (write_buffers off) = MAX_PKT_BURST"
    and "out_at s p = Inr out1" and "sendable room out1" and "out_at s q = Inr out2" and "sendable room out2"
  shows "\<exists>off'. offloader_round dp room port num s off = Inr off' \<and>
    tx_requests off' = tx_requests off @ [[frame_of out1, frame_of out2]] \<and> contents (write_queue off') = rest"
proof -
  obtain queues where dist: "distribute dp num 0 packets (work_queues off) = Inr queues"
    using distribute_total [OF assms(3,4)] by blast
  obtain wq where deq: "rte_ring_dequeue_bulk dp 2 (write_queue off) = ([p, q], wq)" "contents wq = rest"
    using bulk_ring_two(1) [OF assms(5,6)] by blast
  obtain v w d' where alloc: "rte_pktmbuf_alloc_bulk dp 2 d = (Some [v, w], d')" "v \<noteq> w"
    using mbuf_pool_two [OF assms(7,8)] by blast
  obtain sent d'' where tx: "rte_eth_tx_burst dp port [(v, frame_of out1), (w, frame_of out2)] d' = (sent, d'')"
    by fastforce
  show ?thesis
    using assms(1,2,10,12) dist deq alloc tx sendable_bytes [OF assms(11)] sendable_bytes [OF assms(13)]
    by (simp add: offloader_round_def take_buffers_def burst_def Let_def)
qed

theorem two_frames_sent_witness:
  "\<exists>off'. offloader_round example_dpdk 2048 0 2 example_frames (example_offloader [0, 1]) = Inr off' \<and>
    tx_requests off' = [[[7, 7], [8, 8]]] \<and> write_queue off' = []"
proof -
  let ?out = "\<lambda>i. \<lparr>out_handlers = [], out_args = [],
        out_buffer = \<lparr>buffer = (\<lambda>_. i), ob_size = 100, ob_offset = 98\<rparr>, out_stack_idx = 0\<rparr>"
  have out: "out_at example_frames 0 = Inr (?out 7)" "out_at example_frames 1 = Inr (?out 8)"
    by (simp_all add: example_frames_def out_at_def)
  have frame: "frame_of (?out i) = [i, i]" for i by (simp add: frame_of_def read_bytes_def upt_rec)
  then have send: "sendable 2048 (?out i)" for i by (simp add: sendable_def)
  have rx: "rte_eth_rx_burst example_dpdk 0 MAX_PKT_BURST (device (example_offloader [0, 1])) =
      (map (\<lambda>i. \<lparr>mb_data = (\<lambda>_. i), mb_port = 0\<rparr>) [1, 2, 3], 10)"
    by (simp add: example_dpdk_def example_offloader_def)
  have off: "unat (2 :: u8) \<le> length (work_queues (example_offloader [0, 1]))"
    "write_queue (example_offloader [0, 1]) = [0, 1]" "length (write_buffers (example_offloader [0, 1])) = MAX_PKT_BURST"
    "tx_requests (example_offloader [0, 1]) = []"
    by (simp_all add: example_offloader_def MAX_PKT_BURST_def)
  from two_frames_sent [OF rx _ _ off(1) example_dpdk_laws(2) off(2) example_dpdk_laws(3) _ off(3) out(1) send out(2) send]
  show ?thesis by (simp add: frame) (simp add: example_offloader_def)
qed

lemma idle_round:
  assumes "num \<noteq> 0" and "unat num \<le> length (work_queues off)"
    and "bulk_ring (rte_ring_dequeue_bulk dp) contents" and "length (contents (write_queue off)) < 2"
    and "rte_eth_rx_burst dp port MAX_PKT_BURST (device off) = (packets, d)"
  shows "\<exists>off'. offloader_round dp room port num s off = Inr off' \<and>
    tx_requests off' = tx_requests off \<and> contents (write_queue off') = contents (write_queue off) \<and>
    length (work_queues off') = length (work_queues off) \<and>
    device off' = (if packets = [] then d else snd (rte_pktmbuf_alloc_bulk dp 2 d))"
proof (cases "packets = []")
  case True
  with assms(5) show ?thesis by (simp add: offloader_round_def)
next
  case False
  obtain queues where "distribute dp num 0 packets (work_queues off) = Inr queues" "length queues = length (work_queues off)"
    using distribute_total [OF assms(1,2)] by blast
  moreover obtain wq where "rte_ring_dequeue_bulk dp 2 (write_queue off) = ([], wq)"
    "contents wq = contents (write_queue off)"
    using bulk_ring_two(2) [OF assms(3,4)] by blast
  ultimately show ?thesis
    using False assms(5) by (cases "rte_pktmbuf_alloc_bulk dp 2 d") (simp add: offloader_round_def)
qed

text \<open>A packet that is alone in the write queue is never sent: as long as no second one is queued,
  however many rounds the loop makes and whatever the card receives, nothing is given to the
  card and the queue stays as it is.\<close>

theorem lone_frame_never_sent:
  assumes "num \<noteq> 0" and "unat num \<le> length (work_queues off)"
    and "bulk_ring (rte_ring_dequeue_bulk dp) contents" and "length (contents (write_queue off)) < 2"
  shows "\<exists>off'. offloader_loop dp room port num ss off = Inr off' \<and>
    tx_requests off' = tx_requests off \<and> contents (write_queue off') = contents (write_queue off)"
  using assms(2,4)
proof (induction ss arbitrary: off)
  case (Cons s ss)
  obtain packets d where rx: "rte_eth_rx_burst dp port MAX_PKT_BURST (device off) = (packets, d)" by fastforce
  obtain off1 where step: "offloader_round dp room port num s off = Inr off1" "tx_requests off1 = tx_requests off"
    "contents (write_queue off1) = contents (write_queue off)" "length (work_queues off1) = length (work_queues off)"
    using idle_round [OF assms(1) Cons.prems(1) assms(3) Cons.prems(2) rx] by blast
  with Cons.IH [of off1] Cons.prems show ?case by simp
qed simp

theorem lone_frame_never_sent_witness:
  "\<exists>off'. offloader_loop example_dpdk 2048 0 2 (replicate 4 example_frames) (example_offloader [0]) = Inr off' \<and>
    tx_requests off' = [] \<and> write_queue off' = [0]"
  using lone_frame_never_sent [where dp = example_dpdk and num = 2 and port = 0 and room = 2048 and
      ss = "replicate 4 example_frames" and off = "example_offloader [0]", OF _ _ example_dpdk_laws(2)]
  by (simp add: example_offloader_def del: offloader_loop.simps)

text \<open>The loop allocates two buffers in every round in which the card received something, also when
  it has nothing to send, and never returns them: with fewer than two packets queued, after
  \<open>k\<close> receiving rounds at most \<open>a - 2 * k\<close> of the \<open>a\<close> buffers are left in the pool, until
  fewer than two are left. (Receiving does not return buffers to the pool.)\<close>

theorem idle_loop_drains_pool:
  assumes "num \<noteq> 0" and "unat num \<le> length (work_queues off)"
    and "bulk_ring (rte_ring_dequeue_bulk dp) contents" and "length (contents (write_queue off)) < 2"
    and "mbuf_pool (rte_pktmbuf_alloc_bulk dp) available"
    and "\<forall>d. fst (rte_eth_rx_burst dp port MAX_PKT_BURST d) \<noteq> [] \<and>
      available (snd (rte_eth_rx_burst dp port MAX_PKT_BURST d)) \<le> available d"
  shows "\<exists>off'. offloader_loop dp room port num ss off = Inr off' \<and>
    available (device off') \<le> max 1 (available (device off) - 2 * length ss)"
  using assms(2,4)
proof (induction ss arbitrary: off)
  case (Cons s ss)
  obtain packets d where rx: "rte_eth_rx_burst dp port MAX_PKT_BURST (device off) = (packets, d)" by fastforce
  then have d: "packets \<noteq> []" "available d \<le> available (device off)"
    using assms(6) [rule_format, of "device off"] by simp_all
  obtain off1 where step: "offloader_round dp room port num s off = Inr off1"
    "contents (write_queue off1) = contents (write_queue off)" "length (work_queues off1) = length (work_queues off)"
    "device off1 = snd (rte_pktmbuf_alloc_bulk dp 2 d)"
    using idle_round [OF assms(1) Cons.prems(1) assms(3) Cons.prems(2) rx] d(1) by auto
  have "available (device off1) \<le> max 1 (available (device off) - 2)"
  proof (cases "2 \<le> available d")
    case True
    then have "available (device off1) = available d - 2" using mbuf_pool_two [OF assms(5) True] step(4) by auto
    with d(2) show ?thesis by simp
  next
    case False
    then have "available (device off1) = available d"
      using assms(5) [unfolded mbuf_pool_def, rule_format, of 2 d] step(4) by simp
    with False show ?thesis by simp
  qed
  moreover obtain off' where "offloader_loop dp room port num ss off1 = Inr off'"
    "available (device off') \<le> max 1 (available (device off1) - 2 * length ss)"
    using Cons.IH [of off1] Cons.prems step(2,3) by auto
  ultimately show ?case using step(1) by (auto simp: max_def split: if_split_asm)
qed simp

theorem idle_loop_drains_pool_witness:
  "\<exists>off'. offloader_loop example_dpdk 2048 0 2 (replicate 4 example_frames) (example_offloader []) = Inr off' \<and>
    device off' \<le> 2"
  using idle_loop_drains_pool [where dp = example_dpdk and num = 2 and port = 0 and room = 2048 and
      ss = "replicate 4 example_frames" and off = "example_offloader []", OF _ _ example_dpdk_laws(2) _ example_dpdk_laws(3)]
  by (simp add: example_offloader_def example_dpdk_def numeral_2_eq_2 del: offloader_loop.simps)

end
