(* ===== verification/Handler_Objects.thy ===== *)
theory Handler_Objects
  imports Net_Prelude
begin

text \<open>
  The handler objects themselves (\<^verbatim>\<open>struct handler_t\<close> in \<^verbatim>\<open>handlers/handler.h\<close>): how the \<^verbatim>\<open>create\<close>
  functions allocate them and set their function pointers, how \<^verbatim>\<open>init\<close> and \<^verbatim>\<open>close\<close> allocate and
  free the private data, and what \<^verbatim>\<open>net_stack_init\<close> allocates. The other theories model what the
  fields of the private data mean; here they are blocks of a heap.

  Any call of \<^verbatim>\<open>malloc\<close> may return the null pointer: \<open>granted\<close> says for the number of a call whether it
  gets a block, independently for each call. The address of the block is the number of the call,
  so that addresses are not used again and a pointer to a freed block is told from every other one. A pointer that was
  never set is \<open>None\<close>; a null pointer is \<open>Some None\<close>. A function pointer is the name of the protocol
  whose function it points to. Freeing a freed or unset pointer is the fault \<open>Dangling\<close>.
\<close>

section \<open>The heap\<close>

datatype protocol =
    P_ethernet
  | P_arp
  | P_ipv4
  | P_tcp
  | P_custom
  | P_llc
  | P_dhcp
  | P_tls
  | P_http

record handler_obj =
  hd_init :: "protocol option"
  hd_close :: "protocol option"
  hd_write :: "protocol option"
  hd_read :: "protocol option"
  hd_config :: "nat option"
  hd_priv :: "nat option option"

definition raw_handler :: handler_obj where
  "raw_handler = \<lparr>hd_init = None, hd_close = None, hd_write = None, hd_read = None, hd_config = None, hd_priv = None\<rparr>"

datatype net_stack_state_t = NET_STACK_STOPPED | NET_STACK_RUNNING

record net_stack_app =
  root_handlers :: nat
  app_arp :: nat
  app_ipv4 :: nat
  app_tcp :: nat
  app_ethernet :: nat
  app_interface :: "nat option"
  app_state :: "net_stack_state_t option"

datatype block =
    Handler_block handler_obj
  | Priv_block protocol
  | Arp_priv "nat option"
  | Resolution_list
  | Config_block
  | Root_handlers nat
  | App_block net_stack_app
  | Interface_array
  | Interface_block
  | Worker_array
  | Context_block

record heap =
  granted :: "nat \<Rightarrow> bool"
  fresh :: nat
  blocks :: "nat \<rightharpoonup> block"

definition malloc :: "block \<Rightarrow> heap \<Rightarrow> nat option \<times> heap" where
  "malloc b h =
     (if granted h (fresh h) then (Some (fresh h), h\<lparr>fresh := fresh h + 1, blocks := (blocks h)(fresh h \<mapsto> b)\<rparr>)
      else (None, h\<lparr>fresh := fresh h + 1\<rparr>))"

definition free_block :: "nat option \<Rightarrow> heap \<Rightarrow> fault + heap" where
  "free_block p h =
     (case p of
        None \<Rightarrow> Inr h
      | Some a \<Rightarrow>
          if blocks h a = None then Inl Dangling
          else Inr (h\<lparr>blocks := (blocks h)(a := None)\<rparr>))"

definition handler_at :: "heap \<Rightarrow> nat \<Rightarrow> fault + handler_obj" where
  "handler_at h a =
     (case blocks h a of
        None \<Rightarrow> Inl Dangling
      | Some (Handler_block o1) \<Rightarrow> Inr o1
      | Some _ \<Rightarrow> Inl Bad_cast)"

definition put_handler :: "nat \<Rightarrow> handler_obj \<Rightarrow> heap \<Rightarrow> heap" where
  "put_handler a o1 h = h\<lparr>blocks := (blocks h)(a \<mapsto> Handler_block o1)\<rparr>"

text \<open>\<^verbatim>\<open>malloc\<close> whose result is written through at once, as every caller but some \<^verbatim>\<open>init\<close> functions
  does it: there is no test for the null pointer.\<close>

definition malloc_used :: "block \<Rightarrow> heap \<Rightarrow> fault + (nat \<times> heap)" where
  "malloc_used b h = (case malloc b h of (None, _) \<Rightarrow> Inl Null_deref | (Some a, h) \<Rightarrow> Inr (a, h))"

definition set_priv :: "nat \<Rightarrow> nat option \<Rightarrow> heap \<Rightarrow> fault + heap" where
  "set_priv a p h = sbind (handler_at h a) (\<lambda>o1. Inr (put_handler a (o1\<lparr>hd_priv := Some p\<rparr>) h))"

definition free_priv :: "nat \<Rightarrow> heap \<Rightarrow> fault + heap" where
  "free_priv a h =
     sbind (handler_at h a) (\<lambda>o1. case hd_priv o1 of None \<Rightarrow> Inl Dangling | Some p \<Rightarrow> free_block p h)"

section \<open>The functions of the handlers\<close>

text \<open>
  \<^verbatim>\<open>create\<close> takes the configuration, \<^verbatim>\<open>init\<close> the handler and the address of a private
  configuration, of which only TCP reads something. \<^verbatim>\<open>arp_init_handler\<close> makes two allocations,
  and the loop behind the second writes through it.
\<close>

definition ethernet_close_object :: "nat \<Rightarrow> heap \<Rightarrow> fault + heap" where
  "ethernet_close_object a h = free_priv a h"

definition ethernet_init_object :: "nat \<Rightarrow> u16 option \<Rightarrow> heap \<Rightarrow> fault + heap" where
  "ethernet_init_object a priv_config h = (case malloc (Priv_block P_ethernet) h of (p, h) \<Rightarrow> set_priv a p h)"

definition ethernet_create_object :: "nat \<Rightarrow> heap \<Rightarrow> fault + (nat \<times> heap)" where
  "ethernet_create_object config h =
     malloc_used (Handler_block (raw_handler\<lparr>hd_config := Some config, hd_init := Some P_ethernet,
       hd_close := Some P_ethernet, hd_read := Some P_ethernet, hd_write := Some P_ethernet\<rparr>)) h"

definition arp_close_object :: "nat \<Rightarrow> heap \<Rightarrow> fault + heap" where
  "arp_close_object a h = free_priv a h"

definition arp_init_object :: "nat \<Rightarrow> u16 option \<Rightarrow> heap \<Rightarrow> fault + heap" where
  "arp_init_object a priv_config h =
     sbind (malloc_used (Arp_priv None) h) (\<lambda>(p, h).
     sbind (malloc_used Resolution_list h) (\<lambda>(l, h).
       set_priv a (Some p) (h\<lparr>blocks := (blocks h)(p \<mapsto> Arp_priv (Some l))\<rparr>)))"

definition arp_create_object :: "nat \<Rightarrow> heap \<Rightarrow> fault + (nat \<times> heap)" where
  "arp_create_object config h =
     malloc_used (Handler_block (raw_handler\<lparr>hd_config := Some config, hd_init := Some P_arp,
       hd_close := Some P_arp, hd_read := Some P_arp, hd_write := Some P_arp\<rparr>)) h"

definition ipv4_close_object :: "nat \<Rightarrow> heap \<Rightarrow> fault + heap" where
  "ipv4_close_object a h = free_priv a h"

definition ipv4_init_object :: "nat \<Rightarrow> u16 option \<Rightarrow> heap \<Rightarrow> fault + heap" where
  "ipv4_init_object a priv_config h = (case malloc (Priv_block P_ipv4) h of (p, h) \<Rightarrow> set_priv a p h)"

definition ipv4_create_object :: "nat \<Rightarrow> heap \<Rightarrow> fault + (nat \<times> heap)" where
  "ipv4_create_object config h =
     malloc_used (Handler_block (raw_handler\<lparr>hd_config := Some config, hd_init := Some P_ipv4,
       hd_close := Some P_ipv4, hd_read := Some P_ipv4, hd_write := Some P_ipv4\<rparr>)) h"

definition tcp_close_object :: "nat \<Rightarrow> heap \<Rightarrow> fault + heap" where
  "tcp_close_object a h = free_priv a h"

definition tcp_init_object :: "nat \<Rightarrow> u16 option \<Rightarrow> heap \<Rightarrow> fault + heap" where
  "tcp_init_object a priv_config h =
     (case priv_config of
        None \<Rightarrow> Inl Null_deref
      | Some window \<Rightarrow> sbind (malloc_used (Priv_block P_tcp) h) (\<lambda>(p, h). set_priv a (Some p) h))"

definition tcp_create_object :: "nat \<Rightarrow> heap \<Rightarrow> fault + (nat \<times> heap)" where
  "tcp_create_object config h =
     malloc_used (Handler_block (raw_handler\<lparr>hd_config := Some config, hd_init := Some P_tcp,
       hd_close := Some P_tcp, hd_read := Some P_tcp, hd_write := Some P_tcp\<rparr>)) h"

definition custom_close_object :: "nat \<Rightarrow> heap \<Rightarrow> fault + heap" where
  "custom_close_object a h = free_priv a h"

definition custom_init_object :: "nat \<Rightarrow> u16 option \<Rightarrow> heap \<Rightarrow> fault + heap" where
  "custom_init_object a priv_config h =
     sbind (malloc_used (Priv_block P_custom) h) (\<lambda>(p, h). set_priv a (Some p) h)"

definition custom_create_object :: "nat \<Rightarrow> heap \<Rightarrow> fault + (nat \<times> heap)" where
  "custom_create_object config h =
     malloc_used (Handler_block (raw_handler\<lparr>hd_config := Some config, hd_init := Some P_custom,
       hd_close := Some P_custom, hd_read := Some P_custom, hd_write := Some P_custom\<rparr>)) h"

definition llc_close_object :: "nat \<Rightarrow> heap \<Rightarrow> fault + heap" where
  "llc_close_object a h = free_priv a h"

definition llc_init_object :: "nat \<Rightarrow> u16 option \<Rightarrow> heap \<Rightarrow> fault + heap" where
  "llc_init_object a priv_config h = (case malloc (Priv_block P_llc) h of (p, h) \<Rightarrow> set_priv a p h)"

definition llc_create_object :: "nat \<Rightarrow> heap \<Rightarrow> fault + (nat \<times> heap)" where
  "llc_create_object config h =
     malloc_used (Handler_block (raw_handler\<lparr>hd_config := Some config, hd_init := Some P_llc,
       hd_close := Some P_llc, hd_read := Some P_llc, hd_write := Some P_llc\<rparr>)) h"

definition dhcp_close_object :: "nat \<Rightarrow> heap \<Rightarrow> fault + heap" where
  "dhcp_close_object a h = free_priv a h"

definition dhcp_init_object :: "nat \<Rightarrow> u16 option \<Rightarrow> heap \<Rightarrow> fault + heap" where
  "dhcp_init_object a priv_config h = (case malloc (Priv_block P_dhcp) h of (p, h) \<Rightarrow> set_priv a p h)"

definition dhcp_create_object :: "nat \<Rightarrow> heap \<Rightarrow> fault + (nat \<times> heap)" where
  "dhcp_create_object config h =
     malloc_used (Handler_block (raw_handler\<lparr>hd_config := Some config, hd_init := Some P_dhcp,
       hd_close := Some P_dhcp, hd_read := Some P_dhcp, hd_write := Some P_dhcp\<rparr>)) h"

definition tls_close_object :: "nat \<Rightarrow> heap \<Rightarrow> fault + heap" where
  "tls_close_object a h = free_priv a h"

definition tls_init_object :: "nat \<Rightarrow> u16 option \<Rightarrow> heap \<Rightarrow> fault + heap" where
  "tls_init_object a priv_config h = (case malloc (Priv_block P_tls) h of (p, h) \<Rightarrow> set_priv a p h)"

definition tls_create_object :: "nat \<Rightarrow> heap \<Rightarrow> fault + (nat \<times> heap)" where
  "tls_create_object config h =
     malloc_used (Handler_block (raw_handler\<lparr>hd_config := Some config, hd_init := Some P_tls,
       hd_close := Some P_tls, hd_read := Some P_tls, hd_write := Some P_tls\<rparr>)) h"

definition http_close_object :: "nat \<Rightarrow> heap \<Rightarrow> fault + heap" where
  "http_close_object a h = free_priv a h"

definition http_init_object :: "nat \<Rightarrow> u16 option \<Rightarrow> heap \<Rightarrow> fault + heap" where
  "http_init_object a priv_config h = (case malloc (Priv_block P_http) h of (p, h) \<Rightarrow> set_priv a p h)"

definition http_create_object :: "nat \<Rightarrow> heap \<Rightarrow> fault + (nat \<times> heap)" where
  "http_create_object config h =
     malloc_used (Handler_block (raw_handler\<lparr>hd_config := Some config, hd_init := Some P_http,
       hd_close := Some P_http, hd_read := Some P_http, hd_write := Some P_http\<rparr>)) h"

section \<open>Calls through the pointers\<close>

fun create_object :: "protocol \<Rightarrow> nat \<Rightarrow> heap \<Rightarrow> fault + (nat \<times> heap)" where
  "create_object P_ethernet = ethernet_create_object"
| "create_object P_arp = arp_create_object"
| "create_object P_ipv4 = ipv4_create_object"
| "create_object P_tcp = tcp_create_object"
| "create_object P_custom = custom_create_object"
| "create_object P_llc = llc_create_object"
| "create_object P_dhcp = dhcp_create_object"
| "create_object P_tls = tls_create_object"
| "create_object P_http = http_create_object"

fun init_function :: "protocol \<Rightarrow> nat \<Rightarrow> u16 option \<Rightarrow> heap \<Rightarrow> fault + heap" where
  "init_function P_ethernet = ethernet_init_object"
| "init_function P_arp = arp_init_object"
| "init_function P_ipv4 = ipv4_init_object"
| "init_function P_tcp = tcp_init_object"
| "init_function P_custom = custom_init_object"
| "init_function P_llc = llc_init_object"
| "init_function P_dhcp = dhcp_init_object"
| "init_function P_tls = tls_init_object"
| "init_function P_http = http_init_object"

fun close_function :: "protocol \<Rightarrow> nat \<Rightarrow> heap \<Rightarrow> fault + heap" where
  "close_function P_ethernet = ethernet_close_object"
| "close_function P_arp = arp_close_object"
| "close_function P_ipv4 = ipv4_close_object"
| "close_function P_tcp = tcp_close_object"
| "close_function P_custom = custom_close_object"
| "close_function P_llc = llc_close_object"
| "close_function P_dhcp = dhcp_close_object"
| "close_function P_tls = tls_close_object"
| "close_function P_http = http_close_object"

definition handler_init :: "nat \<Rightarrow> u16 option \<Rightarrow> heap \<Rightarrow> fault + heap" where
  "handler_init a priv_config h =
     sbind (handler_at h a) (\<lambda>o1.
       case hd_init o1 of None \<Rightarrow> Inl Dangling | Some f \<Rightarrow> init_function f a priv_config h)"

definition handler_close :: "nat \<Rightarrow> heap \<Rightarrow> fault + heap" where
  "handler_close a h =
     sbind (handler_at h a) (\<lambda>o1.
       case hd_close o1 of None \<Rightarrow> Inl Dangling | Some f \<Rightarrow> close_function f a h)"

section \<open>What \<^verbatim>\<open>net_stack_init\<close> allocates\<close>

definition net_stack_init_objects :: "nat option \<Rightarrow> heap \<Rightarrow> fault + (net_stack_app \<times> nat \<times> heap)" where
  "net_stack_init_objects interface h =
     sbind (malloc_used Config_block h) (\<lambda>(config, h).
     sbind (malloc_used (Root_handlers 0) h) (\<lambda>(roots, h).
     sbind (ethernet_create_object config h) (\<lambda>(ethernet, h).
     let h = h\<lparr>blocks := (blocks h)(roots \<mapsto> Root_handlers ethernet)\<rparr> in
     sbind (arp_create_object config h) (\<lambda>(arp, h).
     sbind (handler_init arp None h) (\<lambda>h.
     sbind (ipv4_create_object config h) (\<lambda>(ipv4, h).
     sbind (handler_init ipv4 None h) (\<lambda>h.
     sbind (tcp_create_object config h) (\<lambda>(tcp, h).
     sbind (handler_init tcp (Some 4096) h) (\<lambda>h.
     let app = \<lparr>root_handlers = roots, app_arp = arp, app_ipv4 = ipv4, app_tcp = tcp, app_ethernet = ethernet,
        app_interface = interface, app_state = None\<rparr> in
     sbind (malloc_used (App_block app) h) (\<lambda>(p, h). Inr (app, p, h)))))))))))"

section \<open>Life cycle\<close>

text \<open>A program that calls \<^verbatim>\<open>init\<close> and \<^verbatim>\<open>close\<close> of a handler in some order.\<close>

datatype life = Do_init | Do_close

fun run_life :: "('h \<Rightarrow> fault + 'h) \<Rightarrow> ('h \<Rightarrow> fault + 'h) \<Rightarrow> life list \<Rightarrow> 'h \<Rightarrow> fault + 'h" where
  "run_life ini clo [] h = Inr h"
| "run_life ini clo (Do_init # os) h = sbind (ini h) (run_life ini clo os)"
| "run_life ini clo (Do_close # os) h = sbind (clo h) (run_life ini clo os)"

text \<open>Every \<^verbatim>\<open>close\<close> comes after an \<^verbatim>\<open>init\<close> that no other \<^verbatim>\<open>close\<close> has followed yet. The flag says
  whether there is private data to free.\<close>

fun closes_follow_inits :: "bool \<Rightarrow> life list \<Rightarrow> bool" where
  "closes_follow_inits r [] \<longleftrightarrow> True"
| "closes_follow_inits r (Do_init # os) \<longleftrightarrow> closes_follow_inits True os"
| "closes_follow_inits r (Do_close # os) \<longleftrightarrow> r \<and> closes_follow_inits False os"

text \<open>
  What a handler promises of its two operations: \<^verbatim>\<open>init\<close> succeeds when its \<open>cost\<close> allocations do, takes
  that many blocks and leaves private data to free; \<^verbatim>\<open>close\<close> frees one block when there is private data,
  and otherwise is undefined. \<open>space n\<close> says that the next \<open>n\<close> allocations succeed.
\<close>

locale life_cycle =
  fixes ready :: "bool \<Rightarrow> 'h \<Rightarrow> bool" and ini :: "'h \<Rightarrow> fault + 'h" and clo :: "'h \<Rightarrow> fault + 'h"
    and cost :: nat and space :: "nat \<Rightarrow> 'h \<Rightarrow> bool" and taken :: "'h \<Rightarrow> nat"
  assumes init_law: "ready r h \<Longrightarrow> space (cost + n) h \<Longrightarrow>
      \<exists>h'. ini h = Inr h' \<and> ready True h' \<and> space n h' \<and> taken h' = taken h + cost"
    and close_law: "ready True h \<Longrightarrow>
      \<exists>h'. clo h = Inr h' \<and> ready False h' \<and> (\<forall>n. space n h \<longrightarrow> space n h') \<and> Suc (taken h') = taken h"
    and close_fault: "ready False h \<Longrightarrow> clo h = Inl Dangling"
begin

lemma life_runs:
  assumes "ready r h" and "space (cost * count_list os Do_init) h"
  shows "if closes_follow_inits r os
    then \<exists>h'. run_life ini clo os h = Inr h' \<and>
      taken h' + count_list os Do_close = taken h + cost * count_list os Do_init
    else run_life ini clo os h = Inl Dangling"
  using assms
proof (induction os arbitrary: r h)
  case (Cons step os)
  show ?case
  proof (cases step)
    case Do_init
    obtain h' where h': "ini h = Inr h'" "ready True h'" "space (cost * count_list os Do_init) h'"
      "taken h' = taken h + cost"
      using init_law [OF Cons.prems(1), of "cost * count_list os Do_init"] Cons.prems(2) Do_init by auto
    show ?thesis using Cons.IH [OF h'(2)] Cons.prems(2) h' Do_init
      by (auto simp: sbind_def add.assoc)
  next
    case Do_close
    show ?thesis
    proof (cases r)
      case True
      then obtain h' where h': "clo h = Inr h'" "ready False h'" "space (cost * count_list os Do_init) h'"
        "Suc (taken h') = taken h"
        using close_law [of h] Cons.prems Do_close by auto
      show ?thesis using Cons.IH [OF h'(2)] Cons.prems(2) h' Do_close True by (auto simp: sbind_def)
    next
      case False
      then show ?thesis using close_fault Cons.prems(1) Do_close by (simp add: sbind_def)
    qed
  qed
qed simp

end

text \<open>The blocks that one \<^verbatim>\<open>init\<close> takes.\<close>

definition init_blocks :: "protocol \<Rightarrow> nat" where
  "init_blocks p = (if p = P_arp then 2 else 1)"

definition heap_ok :: "heap \<Rightarrow> bool" where
  "heap_ok h \<longleftrightarrow> (\<forall>x\<ge>fresh h. blocks h x = None)"

definition blocks_used :: "heap \<Rightarrow> nat" where
  "blocks_used h = card (dom (blocks h))"

definition grants :: "nat \<Rightarrow> heap \<Rightarrow> bool" where
  "grants n h \<longleftrightarrow> (\<forall>k<n. granted h (fresh h + k))"

definition handler_of :: "protocol \<Rightarrow> nat \<Rightarrow> bool \<Rightarrow> heap \<Rightarrow> bool" where
  "handler_of p a r h \<longleftrightarrow> heap_ok h \<and>
     (\<exists>o1. blocks h a = Some (Handler_block o1) \<and> hd_init o1 = Some p \<and> hd_close o1 = Some p \<and>
        (case hd_priv o1 of
           None \<Rightarrow> \<not> r
         | Some None \<Rightarrow> False
         | Some (Some q) \<Rightarrow> q \<noteq> a \<and> q < fresh h \<and> (blocks h q \<noteq> None) = r))"

lemma heap_ok_finite: "heap_ok h \<Longrightarrow> finite (dom (blocks h))"
  by (rule finite_subset [of _ "{..<fresh h}"]) (auto simp: heap_ok_def dom_def not_less [symmetric])

lemma used_new: "heap_ok h \<Longrightarrow> card (insert (fresh h) (dom (blocks h))) = Suc (blocks_used h)"
  by (simp add: heap_ok_finite blocks_used_def card_insert_if) (simp add: heap_ok_def domIff)

lemma handler_of_below: "handler_of p a r h \<Longrightarrow> a < fresh h"
  by (auto simp: handler_of_def heap_ok_def not_less [symmetric])

lemmas object_defs = malloc_used_def malloc_def set_priv_def handler_at_def put_handler_def sbind_def

lemma grants_Suc:
  assumes "grants (Suc n) h"
  shows "granted h (fresh h)" "k < n \<Longrightarrow> granted h (Suc (fresh h + k))"
proof -
  have *: "granted h (fresh h + j)" if "j < Suc n" for j using assms that by (simp add: grants_def)
  from * [of 0] show "granted h (fresh h)" by simp
  from * [of "Suc k"] show "k < n \<Longrightarrow> granted h (Suc (fresh h + k))" by simp
qed

lemma created:
  assumes "heap_ok h" and "grants (Suc n) h"
  shows "\<exists>h'. create_object p config h = Inr (fresh h, h') \<and> handler_of p (fresh h) False h' \<and>
    grants n h' \<and> blocks_used h' = Suc (blocks_used h)"
  using assms used_new [OF assms(1)] grants_Suc [OF assms(2)]
  by (cases p) (auto simp: object_defs raw_handler_def handler_of_def heap_ok_def blocks_used_def grants_def
      ethernet_create_object_def arp_create_object_def ipv4_create_object_def tcp_create_object_def
      custom_create_object_def llc_create_object_def dhcp_create_object_def tls_create_object_def
      http_create_object_def)

text \<open>\<^verbatim>\<open>init\<close> through one allocation, and the two of ARP.\<close>

definition allocated :: "block \<Rightarrow> heap \<Rightarrow> heap" where
  "allocated b h = h\<lparr>fresh := fresh h + 1, blocks := (blocks h)(fresh h \<mapsto> b)\<rparr>"

lemma malloc_succeeds:
  assumes "granted h (fresh h)"
  shows "malloc b h = (Some (fresh h), allocated b h)" "malloc_used b h = Inr (fresh h, allocated b h)"
  using assms by (simp_all add: malloc_def malloc_used_def allocated_def)

lemma allocated_grants: "grants (Suc n) h \<Longrightarrow> grants n (allocated b h)"
  by (simp add: grants_def [of n] allocated_def grants_Suc(2))

lemma allocated_ok:
  assumes "heap_ok h"
  shows "heap_ok (allocated b h)" "blocks_used (allocated b h) = Suc (blocks_used h)"
  using assms used_new [OF assms] by (simp_all add: allocated_def heap_ok_def blocks_used_def)

lemma set_priv_new:
  assumes "handler_of p a r h" and "heap_ok h1" and "fresh h \<le> q" and "q < fresh h1"
    and "blocks h1 a = blocks h a" and "blocks h1 q \<noteq> None"
  shows "\<exists>h'. set_priv a (Some q) h1 = Inr h' \<and> handler_of p a True h' \<and>
    granted h' = granted h1 \<and> fresh h' = fresh h1 \<and> blocks_used h' = blocks_used h1"
proof -
  have a: "a < fresh h" by (rule handler_of_below [OF assms(1)])
  obtain o1 where o1: "blocks h a = Some (Handler_block o1)" "hd_init o1 = Some p" "hd_close o1 = Some p"
    using assms(1) by (auto simp: handler_of_def)
  have "dom ((blocks h1)(a \<mapsto> b)) = dom (blocks h1)" for b using o1 assms(5) by auto
  then show ?thesis
    using o1 a assms(2-6) by (auto simp: object_defs handler_of_def heap_ok_def blocks_used_def)
qed

lemma init_one_block:
  assumes "handler_of p a r h" and "grants (Suc n) h"
  shows "\<exists>h'. set_priv a (Some (fresh h)) (allocated b h) = Inr h' \<and> handler_of p a True h' \<and>
    grants n h' \<and> blocks_used h' = Suc (blocks_used h)"
proof -
  have ok: "heap_ok h" using assms(1) by (simp add: handler_of_def)
  have "\<exists>h'. set_priv a (Some (fresh h)) (allocated b h) = Inr h' \<and> handler_of p a True h' \<and>
      granted h' = granted (allocated b h) \<and> fresh h' = fresh (allocated b h) \<and> blocks_used h' = blocks_used (allocated b h)"
    using handler_of_below [OF assms(1)]
    by (intro set_priv_new [OF assms(1) allocated_ok(1) [OF ok]]) (simp_all add: allocated_def)
  with allocated_ok [OF ok] allocated_grants [OF assms(2), of b] show ?thesis by (auto simp: grants_def)
qed

lemma init_two_blocks:
  assumes "handler_of p a r h" and "grants (Suc (Suc n)) h"
  shows "\<exists>h'. arp_init_object a c h = Inr h' \<and> handler_of p a True h' \<and>
    grants n h' \<and> blocks_used h' = Suc (Suc (blocks_used h))"
proof -
  let ?h1 = "allocated (Arp_priv None) h"
  let ?h2 = "allocated Resolution_list ?h1"
  let ?h3 = "?h2\<lparr>blocks := (blocks ?h2)(fresh h \<mapsto> Arp_priv (Some (fresh ?h1)))\<rparr>"
  have ok: "heap_ok ?h1" using assms(1) by (simp add: handler_of_def allocated_ok)
  have a: "a < fresh h" by (rule handler_of_below [OF assms(1)])
  have dom3: "dom (blocks ?h3) = dom (blocks ?h2)" by (auto simp: allocated_def)
  have ok3: "heap_ok ?h3" using allocated_ok(1) [OF ok] by (auto simp: heap_ok_def allocated_def)
  have g1: "grants (Suc n) ?h1" by (rule allocated_grants [OF assms(2)])
  have init: "arp_init_object a c h = set_priv a (Some (fresh h)) ?h3"
    using grants_Suc(1) [OF assms(2)] grants_Suc(1) [OF g1]
    by (simp add: arp_init_object_def malloc_succeeds sbind_def)
  have "\<exists>h'. set_priv a (Some (fresh h)) ?h3 = Inr h' \<and> handler_of p a True h' \<and>
      granted h' = granted ?h3 \<and> fresh h' = fresh ?h3 \<and> blocks_used h' = blocks_used ?h3"
    using a by (intro set_priv_new [OF assms(1) ok3]) (simp_all add: allocated_def)
  moreover have "blocks_used ?h3 = Suc (Suc (blocks_used h))"
    using allocated_ok(2) [OF ok] allocated_ok(2) [of h "Arp_priv None"] dom3 assms(1)
    by (simp add: blocks_used_def handler_of_def)
  ultimately show ?thesis
    using init allocated_grants [OF g1, of Resolution_list] by (auto simp: grants_def)
qed

lemma initialised:
  assumes "handler_of p a r h" and "grants (init_blocks p + n) h"
  shows "\<exists>h'. handler_init a (Some w) h = Inr h' \<and> handler_of p a True h' \<and>
    grants n h' \<and> blocks_used h' = blocks_used h + init_blocks p"
proof -
  have "handler_init a (Some w) h = init_function p a (Some w) h"
    using assms(1) by (auto simp: handler_of_def handler_init_def handler_at_def)
  then show ?thesis
    using assms init_one_block [OF assms(1), of n "Priv_block p"] init_two_blocks [OF assms(1), of n "Some w"]
      grants_Suc(1) [of n h]
    by (cases p) (auto simp: init_blocks_def malloc_succeeds ethernet_init_object_def
        ipv4_init_object_def tcp_init_object_def custom_init_object_def llc_init_object_def
        dhcp_init_object_def tls_init_object_def http_init_object_def)
qed

lemma closed:
  assumes "handler_of p a r h"
  shows "if r then \<exists>h'. handler_close a h = Inr h' \<and> handler_of p a False h' \<and>
       granted h' = granted h \<and> fresh h' = fresh h \<and> Suc (blocks_used h') = blocks_used h
     else handler_close a h = Inl Dangling"
proof -
  have close: "handler_close a h = free_priv a h"
    using assms by (cases p) (auto simp: handler_of_def handler_close_def handler_at_def
        ethernet_close_object_def arp_close_object_def ipv4_close_object_def tcp_close_object_def
        custom_close_object_def llc_close_object_def dhcp_close_object_def tls_close_object_def
        http_close_object_def)
  obtain o1 where o1: "blocks h a = Some (Handler_block o1)"
    and priv: "case hd_priv o1 of None \<Rightarrow> \<not> r | Some None \<Rightarrow> False
      | Some (Some q) \<Rightarrow> q \<noteq> a \<and> q < fresh h \<and> (blocks h q \<noteq> None) = r"
    and fs: "hd_init o1 = Some p" "hd_close o1 = Some p" and ok: "heap_ok h"
    using assms by (auto simp: handler_of_def)
  show ?thesis
  proof (cases r)
    case True
    with priv obtain q b where q: "hd_priv o1 = Some (Some q)" "q \<noteq> a" "q < fresh h" "blocks h q = Some b"
      by (auto split: option.splits)
    have "Suc (card (dom (blocks h) - {q})) = card (dom (blocks h))"
      using q(4) heap_ok_finite [OF ok] by (intro card_Suc_Diff1) auto
    then show ?thesis
      using True o1 q fs ok unfolding close
      by (simp add: handler_of_def free_priv_def handler_at_def free_block_def heap_ok_def blocks_used_def)
  next
    case False
    with priv o1 show ?thesis unfolding close
      by (auto simp: free_priv_def handler_at_def free_block_def split: option.splits)
  qed
qed

text \<open>All nine handlers keep the promise.\<close>

interpretation object_life: life_cycle "handler_of p a" "handler_init a (Some w)" "handler_close a" "init_blocks p"
  grants blocks_used for p a w
proof
  show "\<exists>h'. handler_init a (Some w) h = Inr h' \<and> handler_of p a True h' \<and>
      grants n h' \<and> blocks_used h' = blocks_used h + init_blocks p"
    if "handler_of p a r h" "grants (init_blocks p + n) h" for r h n
    using initialised [OF that] .
  show "\<exists>h'. handler_close a h = Inr h' \<and> handler_of p a False h' \<and> (\<forall>n. grants n h \<longrightarrow> grants n h') \<and>
      Suc (blocks_used h') = blocks_used h"
    if "handler_of p a True h" for h
    using closed [OF that] by (auto simp: grants_def)
  show "handler_close a h = Inl Dangling" if "handler_of p a False h" for h
    using closed [OF that] by simp
qed

lemmas object_functions =
  ethernet_create_object_def arp_create_object_def ipv4_create_object_def tcp_create_object_def
  handler_init_def arp_init_object_def ipv4_init_object_def tcp_init_object_def raw_handler_def

text \<open>C24: \<^verbatim>\<open>create\<close> of any of the nine handlers, followed by any sequence of \<^verbatim>\<open>init\<close> and \<^verbatim>\<open>close\<close>. When its
  allocations succeed, whatever later ones do, the sequence runs exactly when every \<^verbatim>\<open>close\<close> follows an \<^verbatim>\<open>init\<close> that was not closed yet; otherwise
  it frees a pointer that was never set or was freed before. Afterwards the handler itself is still
  allocated (nothing frees it), every \<^verbatim>\<open>init\<close> has added a block, or two for ARP, and every \<^verbatim>\<open>close\<close>
  has freed one: each round of ARP leaves its resolution list behind.\<close>

theorem handler_life_cycle:
  assumes "heap_ok h" and "\<forall>k \<le> init_blocks p * count_list os Do_init. granted h (fresh h + k)"
  shows "\<exists>a h1. create_object p config h = Inr (a, h1) \<and>
    (if closes_follow_inits False os
     then \<exists>h2. run_life (handler_init a (Some w)) (handler_close a) os h1 = Inr h2 \<and>
       blocks_used h2 + count_list os Do_close = Suc (blocks_used h) + init_blocks p * count_list os Do_init
     else run_life (handler_init a (Some w)) (handler_close a) os h1 = Inl Dangling)"
proof -
  obtain h1 where h1: "create_object p config h = Inr (fresh h, h1)" "handler_of p (fresh h) False h1"
    "grants (init_blocks p * count_list os Do_init) h1" "blocks_used h1 = Suc (blocks_used h)"
    using created [OF assms(1), of "init_blocks p * count_list os Do_init" p config] assms(2)
    by (auto simp: grants_def less_Suc_eq_le)
  with object_life.life_runs [OF h1(2,3), of w] show ?thesis by auto
qed

definition example_heap :: heap where
  "example_heap = \<lparr>granted = (\<lambda>n. n \<noteq> 7 \<and> n < 16), fresh = 0, blocks = Map.empty\<rparr>"

lemma example_heap_ok: "heap_ok example_heap"
  by (simp add: example_heap_def heap_ok_def)

theorem handler_life_cycle_witness:
  "\<exists>a h1. create_object P_arp 7 example_heap = Inr (a, h1) \<and>
    (\<exists>h2. run_life (handler_init a (Some 4096)) (handler_close a)
       [Do_init, Do_close, Do_init, Do_close] h1 = Inr h2 \<and> blocks_used h2 = 3)"
  using handler_life_cycle [OF example_heap_ok, of P_arp "[Do_init, Do_close, Do_init, Do_close]" 7 4096]
  by (simp add: example_heap_def init_blocks_def blocks_used_def)

text \<open>The eleven allocations of \<^verbatim>\<open>net_stack_init\<close>.\<close>

definition starved :: "heap \<Rightarrow> bool" where
  "starved h \<longleftrightarrow> (\<exists>k<11. k \<noteq> 7 \<and> \<not> granted h (fresh h + k))"

lemma starved_iff: "starved h \<longleftrightarrow> \<not> (\<forall>k \<in> {0, 1, 2, 3, 4, 5, 6, 8, 9, 10}. granted h (fresh h + k))"
proof -
  have "k < 11 \<and> k \<noteq> 7 \<longleftrightarrow> k \<in> {0, 1, 2, 3, 4, 5, 6, 8, 9, 10}" for k :: nat by simp arith
  then show ?thesis unfolding starved_def by blast
qed

lemma net_stack_refused: "starved h \<Longrightarrow> net_stack_init_objects interface h = Inl Null_deref"
  unfolding starved_iff by (auto simp: net_stack_init_objects_def object_functions object_defs Let_def numeral_eq_Suc)

lemma net_stack_granted:
  assumes "\<not> starved h"
  shows "\<exists>app p h'. net_stack_init_objects interface h = Inr (app, p, h') \<and>
    granted h' = granted h \<and> fresh h' = fresh h + 11"
  using assms unfolding starved_iff
  by (cases "granted h (fresh h + 7)")
    (simp_all add: net_stack_init_objects_def object_functions object_defs Let_def numeral_eq_Suc)

text \<open>C31: \<^verbatim>\<open>net_stack_init\<close> makes eleven allocations and tests none. It returns exactly when all succeed
  but possibly the eighth, the private data of IPv4, which nothing writes through; otherwise it writes
  through a null pointer. Then the ARP, IPv4 and TCP handlers it leaves can be closed. The Ethernet handler cannot: it
  is never initialised, and closing it frees a pointer that was never set. The field \<^verbatim>\<open>state\<close> of the
  application is not set either.\<close>

theorem net_stack_objects:
  assumes "heap_ok h"
  shows "if \<exists>k<11. k \<noteq> 7 \<and> \<not> granted h (fresh h + k) then net_stack_init_objects interface h = Inl Null_deref
    else \<exists>app p h'. net_stack_init_objects interface h = Inr (app, p, h') \<and>
      blocks_used h' = blocks_used h + (if granted h (fresh h + 7) then 11 else 10) \<and>
      blocks h' p = Some (App_block app) \<and> app_state app = None \<and>
      blocks h' (root_handlers app) = Some (Root_handlers (app_ethernet app)) \<and>
      (\<forall>a \<in> {app_arp app, app_ipv4 app, app_tcp app}. \<exists>h2. handler_close a h' = Inr h2) \<and>
      handler_close (app_ethernet app) h' = Inl Dangling"
proof (cases "starved h")
  case True
  then show ?thesis using net_stack_refused by (simp add: starved_def)
next
  case False
  then have "\<forall>k \<in> {0, 1, 2, 3, 4, 5, 6, 8, 9, 10}. granted h (fresh h + k)" by (simp add: starved_iff)
  then show ?thesis
    using False assms heap_ok_finite [OF assms] unfolding starved_def
    by (cases "granted h (fresh h + 7)")
      (simp_all add: net_stack_init_objects_def object_functions object_defs handler_close_def free_priv_def free_block_def
        arp_close_object_def ipv4_close_object_def tcp_close_object_def ethernet_close_object_def blocks_used_def Let_def
        card_insert_if domIff heap_ok_def numeral_eq_Suc)
qed

theorem net_stack_objects_witness:
  "\<exists>app p h'. net_stack_init_objects (Some 1) example_heap = Inr (app, p, h') \<and> blocks_used h' = 10 \<and>
    handler_close (app_ethernet app) h' = Inl Dangling"
proof -
  have "\<not> (\<exists>k<11. k \<noteq> 7 \<and> \<not> granted example_heap (fresh example_heap + k))"
    "\<not> granted example_heap (fresh example_heap + 7)" "blocks_used example_heap = 0"
    by (simp_all add: example_heap_def blocks_used_def)
  with net_stack_objects [OF example_heap_ok, of "Some 1"] show ?thesis by (simp split: if_splits) blast
qed

end
