(* ===== verification/Main_Program.thy ===== *)
theory Main_Program
  imports Offloader Handler_Objects
begin

text \<open>
  \<^verbatim>\<open>main.c\<close> up to the start of the offloader loop, and \<^verbatim>\<open>check_all_ports_link_status\<close>.

  What the DPDK functions return is given by a record \<open>dpdk_env\<close>, and whether an allocation
  succeeds by the heap of \<open>Handler_Objects\<close>; the model has the order of the calls, the tests of
  their results, the results that are not tested, and the data the program builds from them.
  \<^verbatim>\<open>rte_ring_create\<close> of a work queue is the parameter \<open>ring_create\<close>. Command line handling and
  logging have no counterpart; what follows the loop is in \<open>Shutdown\<close>.
\<close>

section \<open>Link status\<close>

datatype link = Link_error | Link_down | Link_up

datatype printed = Dot | Status_complete | Port_failed u16 | Port_status u16 link

definition MAX_CHECK_TIME :: nat where "MAX_CHECK_TIME = 90"

text \<open>
  One pass over the ports: \<open>quit k\<close> is \<^verbatim>\<open>force_quit\<close> when the k-th port is reached, \<open>status\<close> what
  \<^verbatim>\<open>rte_eth_link_get_nowait\<close> gives. The result is \<open>None\<close> for the return, or \<^verbatim>\<open>all_ports_up\<close>.
\<close>

primrec check_ports ::
  "(nat \<Rightarrow> bool) \<Rightarrow> (u16 \<Rightarrow> link) \<Rightarrow> bool \<Rightarrow> nat \<Rightarrow> u16 list \<Rightarrow> bool \<Rightarrow> bool option \<times> printed list" where
  "check_ports quit status print_flag k [] up = (Some up, [])"
| "check_ports quit status print_flag k (p # ps) up =
     (if quit k then (None, [])
      else if status p = Link_error then
        (let (r, out) = check_ports quit status print_flag (Suc k) ps False
         in (r, (if print_flag then [Port_failed p] else []) @ out))
      else if print_flag then
        (let (r, out) = check_ports quit status print_flag (Suc k) ps up in (r, Port_status p (status p) # out))
      else if status p = Link_down \<and> p \<noteq> 1 then (Some False, [])
      else check_ports quit status print_flag (Suc k) ps up)"

function check_rounds ::
  "(nat \<Rightarrow> nat \<Rightarrow> bool) \<Rightarrow> (nat \<Rightarrow> u16 \<Rightarrow> link) \<Rightarrow> u16 list \<Rightarrow> bool \<Rightarrow> nat \<Rightarrow> printed list" where
  "check_rounds quit status ports print_flag cnt =
     (if MAX_CHECK_TIME < cnt \<or> quit cnt 0 then []
      else
        let (r, out) = check_ports (\<lambda>k. quit cnt (Suc k)) (status cnt) print_flag 0 ports True in
        case r of
          None \<Rightarrow> out
        | Some up \<Rightarrow>
            if print_flag then out
            else
              let ready = up \<or> cnt = MAX_CHECK_TIME - 1 in
              out @ (if up then [] else [Dot]) @ (if ready then [Status_complete] else []) @
              check_rounds quit status ports ready (Suc cnt))"
  by pat_completeness auto

termination
  by (relation "measure (\<lambda>(quit, status, ports, print_flag, cnt). Suc MAX_CHECK_TIME - cnt)") auto

declare check_rounds.simps [simp del]

definition check_all_ports_link_status :: "(nat \<Rightarrow> nat \<Rightarrow> bool) \<Rightarrow> (nat \<Rightarrow> u16 \<Rightarrow> link) \<Rightarrow> u16 list \<Rightarrow> printed list" where
  "check_all_ports_link_status quit status ports = check_rounds quit status ports False 0"

text \<open>What the last pass prints.\<close>

definition report :: "(u16 \<Rightarrow> link) \<Rightarrow> u16 list \<Rightarrow> printed list" where
  "report status ports = map (\<lambda>p. if status p = Link_error then Port_failed p else Port_status p (status p)) ports"

definition links_up :: "(u16 \<Rightarrow> link) \<Rightarrow> u16 list \<Rightarrow> bool" where
  "links_up status ports \<longleftrightarrow> (\<forall>p \<in> set ports. status p = Link_up \<or> status p = Link_down \<and> p = 1)"

abbreviation no_signal :: "nat \<Rightarrow> nat \<Rightarrow> bool" where "no_signal \<equiv> \<lambda>_ _. False"

lemma check_ports_report:
  "\<exists>r. check_ports (\<lambda>_. False) status True k ports up = (Some r, report status ports)"
proof (induction ports arbitrary: k up)
  case (Cons p ps)
  obtain r1 where "check_ports (\<lambda>_. False) status True (Suc k) ps False = (Some r1, report status ps)"
    using Cons.IH by blast
  moreover obtain r2 where "check_ports (\<lambda>_. False) status True (Suc k) ps up = (Some r2, report status ps)"
    using Cons.IH by blast
  ultimately show ?case by (simp add: report_def)
qed (simp add: report_def)

lemma check_ports_scan:
  "check_ports (\<lambda>_. False) status False k ports up = (Some (up \<and> links_up status ports), [])"
proof (induction ports arbitrary: k up)
  case (Cons p ps)
  then show ?case by (cases "status p") (auto simp: links_up_def)
qed (simp add: links_up_def)

lemma check_rounds_report:
  assumes "cnt \<le> 90"
  shows "check_rounds no_signal status ports True cnt = report (status cnt) ports"
  using check_ports_report [of "status cnt" 0 ports True] assms
  by (subst check_rounds.simps) (auto simp: MAX_CHECK_TIME_def)

lemma check_rounds_scan:
  assumes "cnt \<le> 89"
  shows "check_rounds no_signal status ports False cnt =
    (let up = links_up (status cnt) ports; ready = up \<or> cnt = 89 in
     (if up then [] else [Dot]) @ (if ready then [Status_complete] else []) @
     check_rounds no_signal status ports ready (Suc cnt))"
  using assms check_ports_scan [of "status cnt" 0 ports True]
  by (subst check_rounds.simps) (simp add: MAX_CHECK_TIME_def)

lemma check_rounds_wait:
  assumes "\<And>j. cnt \<le> j \<Longrightarrow> j < k \<Longrightarrow> \<not> links_up (status j) ports"
    and "k = 90 \<or> k < 90 \<and> links_up (status k) ports" and "cnt \<le> k" and "cnt \<le> 89"
  shows "check_rounds no_signal status ports False cnt =
    replicate (k - cnt) Dot @ [Status_complete] @ report (status (min (Suc k) 90)) ports"
  using assms(1,3,4)
proof (induction "k - cnt" arbitrary: cnt)
  case 0
  then have "cnt = k" "k < 90" "links_up (status k) ports" using assms(2) by auto
  with check_rounds_scan [of cnt status ports] check_rounds_report [of "Suc k" status ports]
  show ?case by (simp add: Let_def)
next
  case (Suc d)
  then have down: "\<not> links_up (status cnt) ports" and less: "cnt < k" by auto
  then have split: "replicate (k - cnt) Dot = Dot # replicate (k - Suc cnt) Dot"
    by (metis Suc_diff_Suc replicate_Suc)
  show ?case
  proof (cases "cnt = 89")
    case True
    then have "k = 90" using less assms(2) by auto
    with True down check_rounds_scan [of cnt status ports] check_rounds_report [of 90 status ports]
    show ?thesis by (simp add: Let_def)
  next
    case False
    with Suc.hyps(1) [of "Suc cnt"] Suc.hyps(2) Suc.prems less
    have "check_rounds no_signal status ports False (Suc cnt) =
      replicate (k - Suc cnt) Dot @ [Status_complete] @ report (status (min (Suc k) 90)) ports" by simp
    with False down Suc.prems(3) check_rounds_scan [of cnt status ports] split
    show ?thesis by (simp add: Let_def)
  qed
qed

text \<open>The link check always ends, after at most 90 waits of 100 milliseconds: if no signal arrives, it
  waits as long as some link is down (port 1 excepted), for \<open>k\<close> rounds or until the time is
  over, and then reports the status of every port exactly once.\<close>

theorem link_check_reports_once:
  assumes "\<And>j. j < k \<Longrightarrow> \<not> links_up (status j) ports"
    and "k = 90 \<or> k < 90 \<and> links_up (status k) ports"
  shows "check_all_ports_link_status (\<lambda>_ _. False) status ports =
    replicate k Dot @ [Status_complete] @ report (status (min (Suc k) 90)) ports"
  using check_rounds_wait [of 0 k status ports] assms by (simp add: check_all_ports_link_status_def)

theorem link_check_reports_once_witness:
  "check_all_ports_link_status (\<lambda>_ _. False) (\<lambda>cnt p. if p = 0 \<and> cnt < 2 then Link_down else Link_up) [0, 1] =
     [Dot, Dot, Status_complete, Port_status 0 Link_up, Port_status 1 Link_up]"
proof -
  let ?status = "\<lambda>cnt p. if p = (0 :: u16) \<and> cnt < (2 :: nat) then Link_down else Link_up"
  have "check_all_ports_link_status (\<lambda>_ _. False) ?status [0, 1] =
      replicate 2 Dot @ [Status_complete] @ report (?status (min (Suc 2) 90)) [0, 1]"
    by (rule link_check_reports_once) (auto simp: links_up_def)
  then show ?thesis by (simp add: report_def numeral_2_eq_2)
qed

section \<open>Initialisation\<close>

text \<open>The calls for one port, in order. A call is tested as the code tests it.\<close>

datatype eth_call =
    Dev_info_get
  | Dev_configure
  | Dev_adjust_nb_rx_tx_desc
  | Rx_queue_setup
  | Tx_queue_setup
  | Zmalloc_tx_buffer
  | Set_err_callback
  | Set_ptypes
  | Dev_start
  | Promiscuous_enable

definition port_calls :: "eth_call list" where
  "port_calls = [Dev_info_get, Dev_configure, Dev_adjust_nb_rx_tx_desc, Rx_queue_setup, Tx_queue_setup,
     Zmalloc_tx_buffer, Set_err_callback, Set_ptypes, Dev_start, Promiscuous_enable]"

text \<open>Which results end the program: \<^verbatim>\<open>rte_zmalloc_socket\<close> returns the pointer, here 0 for \<^verbatim>\<open>NULL\<close>.\<close>

fun fatal :: "eth_call \<Rightarrow> int \<Rightarrow> bool" where
  "fatal Dev_info_get r = (r \<noteq> 0)"
| "fatal Promiscuous_enable r = (r \<noteq> 0)"
| "fatal Zmalloc_tx_buffer r = (r = 0)"
| "fatal Set_ptypes r = False"
| "fatal _ r = (r < 0)"

datatype exit_reason =
    Eal_arguments
  | Mbuf_pool
  | Port_call u16 eth_call
  | Port_not_zero u16
  | Write_ring

datatype 'r main_result = Exit exit_reason | Crash fault | Run 'r

record dpdk_env =
  eal_init :: int
  pool_created :: bool
  eth_devs :: "u16 list"
  eth_ret :: "u16 \<Rightarrow> eth_call \<Rightarrow> int"
  eth_mac :: "u16 \<Rightarrow> u8 list"
  worker_lcores :: "u8 list"
  remote_launch :: int
  ring_created :: bool

primrec init_port :: "(eth_call \<Rightarrow> int) \<Rightarrow> eth_call list \<Rightarrow> eth_call option" where
  "init_port ret [] = None"
| "init_port ret (c # cs) = (if fatal c (ret c) then Some c else init_port ret cs)"

text \<open>
  The loop over the ports. The first one becomes the interface, and must have number 0. The array
  \<^verbatim>\<open>interfaces\<close> is allocated before the interface and written after the test of the number.
\<close>

primrec init_ports ::
  "dpdk_env \<Rightarrow> u16 list \<Rightarrow> interface_t option \<Rightarrow> heap \<Rightarrow> (interface_t option \<times> heap) main_result" where
  "init_ports e [] ifc h = Run (ifc, h)"
| "init_ports e (p # ps) ifc h =
     (case init_port (eth_ret e p) port_calls of
        Some c \<Rightarrow> Exit (Port_call p c)
      | None \<Rightarrow>
          (case ifc of
             Some ifc \<Rightarrow> init_ports e ps (Some ifc) h
           | None \<Rightarrow>
               (case malloc Interface_array h of
                  (array, h) \<Rightarrow>
                    (case malloc_used Interface_block h of
                       Inl f \<Rightarrow> Crash f
                     | Inr (_, h) \<Rightarrow>
                         if p \<noteq> 0 then Exit (Port_not_zero p)
                         else if array = None then Crash Null_deref
                         else init_ports e ps (Some \<lparr>if_port = p, ipv4_addr = 0xEE00A8C0, mac = eth_mac e p\<rparr>) h))))"

text \<open>
  The array \<^verbatim>\<open>workers\<close> when the offloader loop is entered: the null pointer, an array whose entry was
  never set, or one that holds the worker. The memory of the stack belongs to the worker's runtime,
  if there is one.
\<close>

datatype ('q, 's) workers_array = Null_array 's | Unset_entry 's | Worker_entry "('q, 's) runtime"

text \<open>
  What follows the ports, up to the call of the offloader loop: the handlers are set up, and one
  worker is created and started on the first worker core, if there is one. \<^verbatim>\<open>start\<close> sets the state
  and does not look at the result of \<^verbatim>\<open>rte_eal_remote_launch\<close>. The program does not test whether
  there was a worker core. The ARP program that is started here is a thread of its own
  (\<open>Arp_Program\<close>), and the link check before it only prints.
\<close>

definition main_worker :: "dpdk_env \<Rightarrow> (nat \<Rightarrow> 'q) \<Rightarrow> u8 \<Rightarrow> 's \<Rightarrow> ('q, 's) runtime" where
  "main_worker e ring_create lcore s =
     \<lparr>ctx = (create_netstack_execution_context ring_create lcore [H_ethernet] 1)
        \<lparr>ec_state := Some NET_STACK_EXECUTION_RUNNING\<rparr>,
      control = [], worker = (if remote_launch e = 0 then W_test else W_none), rt_mem = s\<rparr>"

definition main_workers ::
  "dpdk_env \<Rightarrow> (nat \<Rightarrow> 'q) \<Rightarrow> 's \<Rightarrow> heap \<Rightarrow> fault + ('q, 's) workers_array" where
  "main_workers e ring_create s h =
     (case malloc Worker_array h of
        (array, h) \<Rightarrow>
          (case worker_lcores e of
             [] \<Rightarrow> Inr (if array = None then Null_array s else Unset_entry s)
           | lcore # _ \<Rightarrow>
               sbind (malloc_used Context_block h) (\<lambda>_.
                 if array = None then Inl Null_deref
                 else Inr (Worker_entry (main_worker e ring_create lcore s)))))"

definition main_launch ::
  "dpdk_env \<Rightarrow> (nat \<Rightarrow> 'q) \<Rightarrow> u16 \<Rightarrow> nat option list \<Rightarrow> interface_t \<Rightarrow> 'a stack_mem_scheme \<Rightarrow> heap \<Rightarrow>
   (interface_t \<times> ('q, 'a stack_mem_scheme) workers_array) main_result" where
  "main_launch e ring_create raw_insert_idx raw_sockets ifc s h =
     (case net_stack_init_objects (Some 0) h of
        Inl f \<Rightarrow> Crash f
      | Inr (app, _, h) \<Rightarrow>
          (case net_stack_init raw_insert_idx raw_sockets s of
             Inl f \<Rightarrow> Crash f
           | Inr s \<Rightarrow>
               (case main_workers e ring_create s h of
                  Inl f \<Rightarrow> Crash f
                | Inr w \<Rightarrow> if ring_created e then Run (ifc, w) else Exit Write_ring)))"

text \<open>The whole: without a port \<^verbatim>\<open>interfaces\<close> is still null when it is indexed.\<close>

definition main_start ::
  "dpdk_env \<Rightarrow> (nat \<Rightarrow> 'q) \<Rightarrow> u16 \<Rightarrow> nat option list \<Rightarrow> 'a stack_mem_scheme \<Rightarrow> heap \<Rightarrow>
   (interface_t \<times> ('q, 'a stack_mem_scheme) workers_array) main_result" where
  "main_start e ring_create raw_insert_idx raw_sockets s h =
     (if eal_init e < 0 then Exit Eal_arguments
      else if \<not> pool_created e then Exit Mbuf_pool
      else case init_ports e (eth_devs e) None h of
        Exit r \<Rightarrow> Exit r
      | Crash f \<Rightarrow> Crash f
      | Run (None, _) \<Rightarrow> Crash Null_deref
      | Run (Some ifc, h) \<Rightarrow> main_launch e ring_create raw_insert_idx raw_sockets ifc s h)"

definition passes :: "dpdk_env \<Rightarrow> u16 \<Rightarrow> bool" where
  "passes e p \<longleftrightarrow> (\<forall>c. \<not> fatal c (eth_ret e p c))"

lemma init_port_ok: "init_port (eth_ret e p) port_calls = None \<longleftrightarrow> passes e p"
proof -
  have "c \<in> set port_calls" for c by (cases c) (simp_all add: port_calls_def)
  moreover have "init_port (eth_ret e p) cs = None \<longleftrightarrow> (\<forall>c \<in> set cs. \<not> fatal c (eth_ret e p c))" for cs
    by (induction cs) auto
  ultimately show ?thesis by (auto simp: passes_def)
qed

lemma init_ports_later:
  "init_ports e ps (Some ifc) h = Run x \<longleftrightarrow> x = (Some ifc, h) \<and> (\<forall>p \<in> set ps. passes e p)"
proof (induction ps)
  case (Cons p ps)
  then show ?case using init_port_ok [of e p] by (auto split: option.split)
qed auto

text \<open>The number of allocations that an interface takes.\<close>

lemma init_ports_first:
  "init_ports e ps None h = Run (Some ifc, h') \<longleftrightarrow> (\<exists>ps'. ps = 0 # ps') \<and> (\<forall>p \<in> set ps. passes e p) \<and>
     granted h (fresh h) \<and> granted h (fresh h + 1) \<and>
     h' = allocated Interface_block (allocated Interface_array h) \<and>
     ifc = \<lparr>if_port = 0, ipv4_addr = 0xEE00A8C0, mac = eth_mac e 0\<rparr>"
proof (cases ps)
  case (Cons p ps')
  then show ?thesis
    using init_port_ok [of e p] init_ports_later [of e ps']
    by (auto simp: malloc_used_def malloc_def allocated_def split: option.split)
qed simp

lemma main_workers_iff:
  "main_workers e ring_create s h = Inr w \<longleftrightarrow>
     (case worker_lcores e of
        [] \<Rightarrow> w = (if granted h (fresh h) then Unset_entry s else Null_array s)
      | lcore # _ \<Rightarrow> granted h (fresh h) \<and> granted h (fresh h + 1) \<and>
          w = Worker_entry (main_worker e ring_create lcore s))"
  by (auto simp: main_workers_def malloc_used_def malloc_def sbind_def split: list.split)

lemma main_launch_iff:
  assumes "net_stack_init raw_idx raw_sockets s = Inr s'"
  shows "main_launch e ring_create raw_idx raw_sockets ifc s h = Run (ifc', w) \<longleftrightarrow>
     \<not> starved h \<and> ring_created e \<and> ifc' = ifc \<and>
     (case worker_lcores e of
        [] \<Rightarrow> w = (if granted h (fresh h + 11) then Unset_entry s' else Null_array s')
      | lcore # _ \<Rightarrow> granted h (fresh h + 11) \<and> granted h (fresh h + 12) \<and>
          w = Worker_entry (main_worker e ring_create lcore s'))"
proof (cases "starved h")
  case True
  then show ?thesis by (simp add: main_launch_def net_stack_refused)
next
  case False
  then obtain app p h1 where init: "net_stack_init_objects (Some 0) h = Inr (app, p, h1)"
    and h1: "granted h1 = granted h" "fresh h1 = fresh h + 11"
    using net_stack_granted by blast
  have launch: "main_launch e ring_create raw_idx raw_sockets ifc s h = Run (ifc', w) \<longleftrightarrow>
      main_workers e ring_create s' h1 = Inr w \<and> ring_created e \<and> ifc' = ifc"
    using init assms by (auto simp: main_launch_def split: sum.split)
  have "fresh h + 11 + 1 = fresh h + 12" by simp
  with False show ?thesis unfolding launch main_workers_iff h1 by (simp only: not_False_eq_True simp_thms) blast
qed

lemma two_more:
  "(\<forall>k < n + 2. k \<noteq> m + 2 \<longrightarrow> P k) \<longleftrightarrow> P 0 \<and> P (1 :: nat) \<and> (\<forall>j<n. j \<noteq> m \<longrightarrow> P (2 + j))"
  unfolding add_2_eq_Suc' add_2_eq_Suc by (simp add: All_less_Suc2 numeral_2_eq_2)

lemma main_start_iff:
  assumes "net_stack_init raw_idx raw_sockets s = Inr s'"
  shows "main_start e ring_create raw_idx raw_sockets s h = Run (ifc, w) \<longleftrightarrow>
     0 \<le> eal_init e \<and> pool_created e \<and> ring_created e \<and> (\<exists>ps. eth_devs e = 0 # ps) \<and>
     (\<forall>p \<in> set (eth_devs e). passes e p) \<and> (\<forall>k<13. k \<noteq> 9 \<longrightarrow> granted h (fresh h + k)) \<and>
     ifc = \<lparr>if_port = 0, ipv4_addr = 0xEE00A8C0, mac = eth_mac e 0\<rparr> \<and>
     (case worker_lcores e of
        [] \<Rightarrow> w = (if granted h (fresh h + 13) then Unset_entry s' else Null_array s')
      | lcore # _ \<Rightarrow> granted h (fresh h + 13) \<and> granted h (fresh h + 14) \<and>
          w = Worker_entry (main_worker e ring_create lcore s'))"
proof -
  let ?h = "allocated Interface_block (allocated Interface_array h)"
  have sums: "fresh h + 2 + 11 = fresh h + 13" "fresh h + 2 + 12 = fresh h + 14" by simp_all
  have h: "granted ?h = granted h" "fresh ?h = fresh h + 2" by (simp_all add: allocated_def)
  have calls: "granted h (fresh h) \<and> granted h (fresh h + 1) \<and> \<not> starved ?h \<longleftrightarrow>
      (\<forall>k<13. k \<noteq> 9 \<longrightarrow> granted h (fresh h + k))"
    using two_more [of 11 7 "\<lambda>k. granted h (fresh h + k)"] by (simp add: starved_def h add.assoc) blast
  have "main_start e ring_create raw_idx raw_sockets s h = Run (ifc, w) \<longleftrightarrow>
      0 \<le> eal_init e \<and> pool_created e \<and> (\<exists>i h'. init_ports e (eth_devs e) None h = Run (Some i, h') \<and>
        main_launch e ring_create raw_idx raw_sockets i s h' = Run (ifc, w))"
    by (auto simp: main_start_def split: main_result.split option.split)
  also have "\<dots> \<longleftrightarrow> 0 \<le> eal_init e \<and> pool_created e \<and> (\<exists>ps. eth_devs e = 0 # ps) \<and>
      (\<forall>p \<in> set (eth_devs e). passes e p) \<and> granted h (fresh h) \<and> granted h (fresh h + 1) \<and>
      main_launch e ring_create raw_idx raw_sockets \<lparr>if_port = 0, ipv4_addr = 0xEE00A8C0, mac = eth_mac e 0\<rparr> s ?h =
        Run (ifc, w)"
    unfolding init_ports_first by blast
  also have "\<dots> \<longleftrightarrow> 0 \<le> eal_init e \<and> pool_created e \<and> ring_created e \<and> (\<exists>ps. eth_devs e = 0 # ps) \<and>
      (\<forall>p \<in> set (eth_devs e). passes e p) \<and> (granted h (fresh h) \<and> granted h (fresh h + 1) \<and> \<not> starved ?h) \<and>
      ifc = \<lparr>if_port = 0, ipv4_addr = 0xEE00A8C0, mac = eth_mac e 0\<rparr> \<and>
      (case worker_lcores e of
         [] \<Rightarrow> w = (if granted h (fresh h + 13) then Unset_entry s' else Null_array s')
       | lcore # _ \<Rightarrow> granted h (fresh h + 13) \<and> granted h (fresh h + 14) \<and>
           w = Worker_entry (main_worker e ring_create lcore s'))"
    unfolding main_launch_iff [OF assms] h sums by blast
  finally show ?thesis unfolding calls .
qed

text \<open>C29: the program reaches its offloader loop exactly when the environment, the buffer pool and the
  write ring can be created, every port passes every tested call, port 0 is the first port, and the
  thirteen allocations up to the handlers succeed but possibly that of IPv4's private data, and,
  if there is a worker core, also the array of workers and the execution context. No worker core is
  needed. Then port 0 is the interface with its card's address and 192.168.0.238, the handlers are
  registered, and with a worker core one worker with Ethernet as its only root handler has the state
  set, and runs if it could be launched; without one the entry that the loop uses is not set.\<close>

theorem main_runs_iff:
  "main_start e ring_create raw_idx raw_sockets (static_tables s) h = Run (ifc, w) \<longleftrightarrow>
     0 \<le> eal_init e \<and> pool_created e \<and> ring_created e \<and> (\<exists>ps. eth_devs e = 0 # ps) \<and>
     (\<forall>p \<in> set (eth_devs e). \<forall>c. \<not> fatal c (eth_ret e p c)) \<and>
     (\<forall>k<13. k \<noteq> 9 \<longrightarrow> granted h (fresh h + k)) \<and>
     ifc = \<lparr>if_port = 0, ipv4_addr = 0xEE00A8C0, mac = eth_mac e 0\<rparr> \<and>
     (let s' = (arp_init_handler raw_idx (static_tables s))
           \<lparr>ethernet_type_to_handler := table 512 [eth_entry 0x0608 0 H_arp, eth_entry 0x0008 0 H_ipv4],
            ip_type_to_handler := table 64 [eth_entry 6 0 H_tcp],
            tcp_window := 4096, tcp_sockets := raw_sockets\<rparr>
      in case worker_lcores e of
           [] \<Rightarrow> w = (if granted h (fresh h + 13) then Unset_entry s' else Null_array s')
         | lcore # _ \<Rightarrow> granted h (fresh h + 13) \<and> granted h (fresh h + 14) \<and>
             w = Worker_entry
               \<lparr>ctx = (create_netstack_execution_context ring_create lcore [H_ethernet] 1)
                  \<lparr>ec_state := Some NET_STACK_EXECUTION_RUNNING\<rparr>,
                control = [], worker = (if remote_launch e = 0 then W_test else W_none), rt_mem = s'\<rparr>)"
  unfolding main_start_iff [OF net_stack_init_state] passes_def main_worker_def Let_def by (rule refl)

definition example_env :: dpdk_env where
  "example_env =
     \<lparr>eal_init = 4, pool_created = True, eth_devs = [0, 1],
      eth_ret = (\<lambda>p c. if c = Zmalloc_tx_buffer then 4096 else if c = Set_ptypes then - 95 else 0),
      eth_mac = (\<lambda>p. [2, 0, 0, 0, 0, ucast p]), worker_lcores = [1, 2], remote_launch = 0, ring_created = True\<rparr>"

definition example_allocator :: heap where
  "example_allocator = \<lparr>granted = (\<lambda>n. n \<noteq> 9), fresh = 0, blocks = Map.empty\<rparr>"

lemma example_env_passes: "\<not> fatal c (eth_ret example_env p c)" "passes (example_env\<lparr>worker_lcores := ls\<rparr>) p"
proof -
  show *: "\<not> fatal c (eth_ret example_env p c)" for c by (cases c) (simp_all add: example_env_def)
  from * show "passes (example_env\<lparr>worker_lcores := ls\<rparr>) p" by (simp add: passes_def)
qed

lemma example_starts:
  "\<exists>r ifc. main_start example_env (\<lambda>n. [] :: rte_mbuf list) 0 (replicate 64 None) (static_tables example_blank)
      example_allocator = Run (ifc, Worker_entry r)"
  "\<exists>s ifc. main_start (example_env\<lparr>worker_lcores := []\<rparr>) (\<lambda>n. [] :: rte_mbuf list) 0 (replicate 64 None)
      (static_tables example_blank) example_allocator = Run (ifc, Unset_entry s)"
  unfolding main_start_iff [OF net_stack_init_state] using example_env_passes(2) [of "worker_lcores example_env"]
  by (simp_all add: example_env_passes(2)) (simp_all add: example_env_def example_allocator_def)

text \<open>The example: with two worker cores, and the same machine with none.\<close>

theorem main_runs_iff_witness:
  "(\<exists>r. main_start example_env (\<lambda>n. [] :: rte_mbuf list) 0 (replicate 64 None) (static_tables example_blank)
        example_allocator =
      Run (\<lparr>if_port = 0, ipv4_addr = 0xEE00A8C0, mac = [2, 0, 0, 0, 0, 0]\<rparr>, Worker_entry r) \<and>
      worker_id (ctx r) = 1 \<and> worker r = W_test) \<and>
   (\<exists>s. main_start (example_env\<lparr>worker_lcores := []\<rparr>) (\<lambda>n. [] :: rte_mbuf list) 0 (replicate 64 None)
        (static_tables example_blank) example_allocator =
      Run (\<lparr>if_port = 0, ipv4_addr = 0xEE00A8C0, mac = [2, 0, 0, 0, 0, 0]\<rparr>, Unset_entry s))"
  unfolding main_runs_iff
  by (simp add: example_env_passes create_netstack_execution_context_def Let_def)
    (simp add: example_env_def example_allocator_def create_netstack_execution_context_def)

end
