(* ===== verification/Shutdown.thy ===== *)
theory Shutdown
  imports Main_Program
begin

text \<open>
  The end of \<^verbatim>\<open>main.c\<close>: the signal handler, the way out of the offloader loop, the wait for the worker
  cores, the closing of the ports and the value that \<^verbatim>\<open>main\<close> returns.

  The thread of \<^verbatim>\<open>main\<close> is at one of the places of \<open>main_at\<close>; its steps interleave with those of the
  worker thread of \<open>Worker\<close>, with packets that the offloader loop receives, and with signals.
  \<^verbatim>\<open>rte_eal_wait_lcore\<close> blocks while a function that was launched on the core has not returned;
  \<open>lcore_result\<close> is what it returns then (\<^verbatim>\<open>consume_tasks\<close> has no \<^verbatim>\<open>return\<close> statement), and
  \<open>dev_stop\<close> what \<^verbatim>\<open>rte_eth_dev_stop\<close> returns for a port. A received packet goes to the work queue
  of the entry of \<^verbatim>\<open>workers\<close>, which without a worker core is a pointer that was never set.
\<close>

section \<open>The thread of \<^verbatim>\<open>main\<close>\<close>

definition signal_handler :: "int \<Rightarrow> bool \<Rightarrow> bool" where
  "signal_handler signum force_quit = (if signum = 2 \<or> signum = 15 then True else force_quit)"

text \<open>The second component of a place is the variable \<^verbatim>\<open>ret\<close>.\<close>

datatype main_at =
    M_loop
  | M_wait "u8 list" int
  | M_close "u16 list" int
  | M_returned int
  | M_fault fault

text \<open>Whether a function that was launched on the core has not returned yet.\<close>

fun running_on :: "('q, 's) workers_array \<Rightarrow> u8 \<Rightarrow> bool" where
  "running_on (Worker_entry r) lcore \<longleftrightarrow> lcore = worker_id (ctx r) \<and> worker r \<noteq> W_none \<and> worker r \<noteq> W_exit"
| "running_on _ lcore \<longleftrightarrow> False"

fun main_step ::
  "dpdk_env \<Rightarrow> (u8 \<Rightarrow> int) \<Rightarrow> (u16 \<Rightarrow> int) \<Rightarrow> ('q, 's) workers_array \<Rightarrow> bool \<Rightarrow> main_at \<Rightarrow> main_at option" where
  "main_step e lcore_result dev_stop w quit M_loop =
     Some (if quit then M_wait (worker_lcores e) 0 else M_loop)"
| "main_step e lcore_result dev_stop w quit (M_wait [] ret) = Some (M_close (eth_devs e) ret)"
| "main_step e lcore_result dev_stop w quit (M_wait (lcore # lcores) ret) =
     (if running_on w lcore then None
      else if lcore_result lcore < 0 then Some (M_close (eth_devs e) (- 1))
      else Some (M_wait lcores ret))"
| "main_step e lcore_result dev_stop w quit (M_close [] ret) = Some (M_returned ret)"
| "main_step e lcore_result dev_stop w quit (M_close (port # ports) ret) = Some (M_close ports (dev_stop port))"
| "main_step e lcore_result dev_stop w quit (M_returned ret) = None"
| "main_step e lcore_result dev_stop w quit (M_fault f) = None"

record ('q, 's) program =
  prog_workers :: "('q, 's) workers_array"
  force_quit :: bool
  main_thread :: main_at

text \<open>The offloader loop hands a packet to \<^verbatim>\<open>workers[0]->work_queue\<close>.\<close>

definition offload :: "('q \<Rightarrow> rte_mbuf \<Rightarrow> 'q) \<Rightarrow> rte_mbuf \<Rightarrow> ('q, 's) program \<Rightarrow> ('q, 's) program" where
  "offload enq packet x =
     (case prog_workers x of
        Worker_entry r \<Rightarrow>
          x\<lparr>prog_workers := Worker_entry (r\<lparr>ctx := (ctx r)\<lparr>work_queue := enq (work_queue (ctx r)) packet\<rparr>\<rparr>)\<rparr>
      | Unset_entry _ \<Rightarrow> x\<lparr>main_thread := M_fault Dangling\<rparr>
      | Null_array _ \<Rightarrow> x\<lparr>main_thread := M_fault Null_deref\<rparr>)"

inductive program_step ::
  "dpdk_env \<Rightarrow> (u8 \<Rightarrow> int) \<Rightarrow> (u16 \<Rightarrow> int) \<Rightarrow> ('q \<Rightarrow> rte_mbuf option \<times> 'q) \<Rightarrow> ('q \<Rightarrow> rte_mbuf \<Rightarrow> 'q) \<Rightarrow>
   interface_t list \<Rightarrow> nat \<Rightarrow> nat \<Rightarrow>
   ('q, 'a stack_mem_scheme) program \<Rightarrow> ('q, 'a stack_mem_scheme) program \<Rightarrow> bool"
  for e lcore_result dev_stop deq enq interfaces n p where
  by_signal: "program_step e lcore_result dev_stop deq enq interfaces n p x
    (x\<lparr>force_quit := signal_handler signum (force_quit x)\<rparr>)"
| by_main: "main_step e lcore_result dev_stop (prog_workers x) (force_quit x) (main_thread x) = Some m \<Longrightarrow>
    program_step e lcore_result dev_stop deq enq interfaces n p x (x\<lparr>main_thread := m\<rparr>)"
| by_packet: "main_thread x = M_loop \<Longrightarrow>
    program_step e lcore_result dev_stop deq enq interfaces n p x (offload enq packet x)"
| by_core: "prog_workers x = Worker_entry r \<Longrightarrow> worker_step deq interfaces n p r = Some r' \<Longrightarrow>
    program_step e lcore_result dev_stop deq enq interfaces n p x (x\<lparr>prog_workers := Worker_entry r'\<rparr>)"

inductive_cases program_stepE: "program_step e lcore_result dev_stop deq enq interfaces n p x y"

section \<open>With a worker the program does not end\<close>

definition waiting :: "dpdk_env \<Rightarrow> ('q, 's) program \<Rightarrow> bool" where
  "waiting e x \<longleftrightarrow> (\<exists>r lcores. prog_workers x = Worker_entry r \<and>
     ec_state (ctx r) = Some NET_STACK_EXECUTION_RUNNING \<and> worker r \<noteq> W_none \<and> worker r \<noteq> W_exit \<and>
     worker_lcores e = worker_id (ctx r) # lcores \<and>
     main_thread x \<in> {M_loop, M_wait (worker_lcores e) 0})"

lemma worker_step_id: "worker_step deq interfaces n p r = Some r' \<Longrightarrow> worker_id (ctx r') = worker_id (ctx r)"
  by (auto split: worker_at.splits option.splits prod.splits sum.splits)

lemma waiting_step:
  assumes "program_step e lcore_result dev_stop deq enq interfaces n p x y" and "waiting e x"
  shows "waiting e y"
  using assms(1)
proof (cases rule: program_step.cases)
  case (by_main m)
  then show ?thesis using assms(2) by (auto simp: waiting_def split: if_splits)
next
  case (by_packet packet)
  then show ?thesis using assms(2) by (auto simp: waiting_def offload_def)
next
  case (by_core r r')
  have run: "ec_state (ctx r) = Some NET_STACK_EXECUTION_RUNNING" using by_core(2) assms(2) by (auto simp: waiting_def)
  from worker_step_stays [OF by_core(3) run] worker_step_id [OF by_core(3)] assms(2) by_core(1,2) show ?thesis
    by (auto simp: waiting_def)
qed (use assms(2) in \<open>simp_all add: waiting_def\<close>)

lemma waiting_reachable:
  "(program_step e lcore_result dev_stop deq enq interfaces n p)\<^sup>*\<^sup>* x y \<Longrightarrow> waiting e x \<Longrightarrow> waiting e y"
  by (induction rule: rtranclp_induct) (auto intro: waiting_step)

lemma running_worker_steps:
  assumes "worker r \<noteq> W_none" and "worker r \<noteq> W_exit" and "\<forall>f. worker r \<noteq> W_fault f"
  shows "\<exists>r'. worker_step deq interfaces n p r = Some r'"
  using assms
  by (cases "worker r") (auto split: option.splits prod.splits sum.splits)

text \<open>What holds in every state that \<open>waiting\<close> describes.\<close>

lemma waiting_stuck:
  assumes "waiting e x"
  shows "(main_thread x = M_loop \<or> main_thread x = M_wait (worker_lcores e) 0 \<and>
      main_step e lcore_result dev_stop (prog_workers x) (force_quit x) (main_thread x) = None) \<and>
    (\<exists>r. prog_workers x = Worker_entry r \<and>
      ((\<exists>f. worker r = W_fault f) \<or> (\<exists>r'. worker_step deq interfaces n p r = Some r')))"
proof -
  obtain r lcores where r: "prog_workers x = Worker_entry r" "worker r \<noteq> W_none" "worker r \<noteq> W_exit"
    "worker_lcores e = worker_id (ctx r) # lcores" "main_thread x \<in> {M_loop, M_wait (worker_lcores e) 0}"
    using assms by (auto simp: waiting_def)
  from r(1-3) running_worker_steps [of r deq interfaces n p]
  have "\<exists>r. prog_workers x = Worker_entry r \<and>
      ((\<exists>f. worker r = W_fault f) \<or> (\<exists>r'. worker_step deq interfaces n p r = Some r'))" by blast
  moreover have "main_step e lcore_result dev_stop (prog_workers x) (force_quit x) (M_wait (worker_lcores e) 0) = None"
    using r(1-4) by simp
  ultimately show ?thesis using r(5) by auto
qed

section \<open>Without one a signal ends it\<close>

text \<open>The thread of \<^verbatim>\<open>main\<close> alone. What it returns once past the wait is the result of the last port,
  whatever \<^verbatim>\<open>ret\<close> was.\<close>

definition idle :: "('q, 's) workers_array \<Rightarrow> bool" where
  "idle w \<longleftrightarrow> (\<forall>lcore. \<not> running_on w lcore)"

lemma ports_closed:
  "(program_step e lcore_result dev_stop deq enq interfaces n p)\<^sup>*\<^sup>*
     \<lparr>prog_workers = w, force_quit = q, main_thread = M_close ports ret\<rparr>
     \<lparr>prog_workers = w, force_quit = q, main_thread = M_returned (if ports = [] then ret else dev_stop (last ports))\<rparr>"
proof (induction ports arbitrary: ret)
  case Nil
  then show ?case
    using by_main [of e lcore_result dev_stop "\<lparr>prog_workers = w, force_quit = q, main_thread = M_close [] ret\<rparr>"] by auto
next
  case (Cons port ports)
  let ?x = "\<lparr>prog_workers = w, force_quit = q, main_thread = M_close (port # ports) ret\<rparr>"
  have "program_step e lcore_result dev_stop deq enq interfaces n p ?x (?x\<lparr>main_thread := M_close ports (dev_stop port)\<rparr>)"
    by (rule by_main) simp
  with Cons.IH [of "dev_stop port"] show ?case
    by (auto intro: converse_rtranclp_into_rtranclp split: if_splits)
qed

lemma cores_waited:
  assumes "idle w"
  shows "\<exists>ret'. (program_step e lcore_result dev_stop deq enq interfaces n p)\<^sup>*\<^sup>*
     \<lparr>prog_workers = w, force_quit = q, main_thread = M_wait lcores ret\<rparr>
     \<lparr>prog_workers = w, force_quit = q, main_thread = M_close (eth_devs e) ret'\<rparr>"
proof (induction lcores arbitrary: ret)
  case Nil
  let ?x = "\<lparr>prog_workers = w, force_quit = q, main_thread = M_wait [] ret\<rparr>"
  have "program_step e lcore_result dev_stop deq enq interfaces n p ?x (?x\<lparr>main_thread := M_close (eth_devs e) ret\<rparr>)"
    by (rule by_main) simp
  then show ?case by auto
next
  case (Cons lcore lcores)
  let ?x = "\<lparr>prog_workers = w, force_quit = q, main_thread = M_wait (lcore # lcores) ret\<rparr>"
  let ?m = "if lcore_result lcore < 0 then M_close (eth_devs e) (- 1) else M_wait lcores ret"
  have "program_step e lcore_result dev_stop deq enq interfaces n p ?x (?x\<lparr>main_thread := ?m\<rparr>)"
    using assms by (intro by_main) (simp add: idle_def)
  with Cons.IH [of ret] show ?case
    by (cases "lcore_result lcore < 0") (auto intro: converse_rtranclp_into_rtranclp)
qed

lemma idle_returns:
  assumes "idle w" and "eth_devs e \<noteq> []"
  shows "(program_step e lcore_result dev_stop deq enq interfaces n p)\<^sup>*\<^sup>*
     \<lparr>prog_workers = w, force_quit = False, main_thread = M_loop\<rparr>
     \<lparr>prog_workers = w, force_quit = True, main_thread = M_returned (dev_stop (last (eth_devs e)))\<rparr>"
proof -
  let ?step = "program_step e lcore_result dev_stop deq enq interfaces n p"
  let ?x = "\<lambda>q m. \<lparr>prog_workers = w, force_quit = q, main_thread = m\<rparr>"
  obtain ret where wait: "?step\<^sup>*\<^sup>* (?x True (M_wait (worker_lcores e) 0)) (?x True (M_close (eth_devs e) ret))"
    using cores_waited [OF assms(1)] by blast
  have "?step (?x False M_loop) ((?x False M_loop)\<lparr>force_quit := signal_handler 2 (force_quit (?x False M_loop))\<rparr>)"
    by (rule by_signal)
  then have "?step (?x False M_loop) (?x True M_loop)" by (simp add: signal_handler_def)
  moreover have "?step (?x True M_loop) ((?x True M_loop)\<lparr>main_thread := M_wait (worker_lcores e) 0\<rparr>)"
    by (rule by_main) simp
  ultimately have "?step\<^sup>*\<^sup>* (?x False M_loop) (?x True (M_wait (worker_lcores e) 0))" by simp
  from rtranclp_trans [OF rtranclp_trans [OF this wait] ports_closed] assms(2) show ?thesis by simp
qed

text \<open>C30: whether the program can end. From the moment \<^verbatim>\<open>main\<close> enters the offloader loop:
  if a worker was launched, then in every interleaving of \<^verbatim>\<open>main\<close>, the worker, received packets and
  signals \<^verbatim>\<open>main\<close> is in the loop or, once a signal has arrived, waits for the first worker core and cannot
  go on, because nothing sets the worker's state, so that the worker does not return and, unless a
  handler has failed, has a next step. If there is no worker core or the launch failed, a signal
  that comes before any packet lets \<^verbatim>\<open>main\<close> close the ports and return what the last port gave; and
  without a worker core the first packet is undefined behaviour instead.\<close>

theorem main_ends_iff_no_worker:
  fixes s :: "'a stack_mem_scheme"
  assumes "main_start e ring_create raw_idx raw_sockets (static_tables s) h = Run (ifc, w)"
  defines "x0 \<equiv> \<lparr>prog_workers = w, force_quit = False, main_thread = M_loop\<rparr>"
  shows "if worker_lcores e \<noteq> [] \<and> remote_launch e = 0
    then \<forall>x. (program_step e lcore_result dev_stop deq enq interfaces n p)\<^sup>*\<^sup>* x0 x \<longrightarrow>
      (main_thread x = M_loop \<or> main_thread x = M_wait (worker_lcores e) 0 \<and>
        main_step e lcore_result dev_stop (prog_workers x) (force_quit x) (main_thread x) = None) \<and>
      (\<exists>r. prog_workers x = Worker_entry r \<and>
        ((\<exists>f. worker r = W_fault f) \<or> (\<exists>r'. worker_step deq interfaces n p r = Some r')))
    else (program_step e lcore_result dev_stop deq enq interfaces n p)\<^sup>*\<^sup>* x0
        (x0\<lparr>force_quit := True, main_thread := M_returned (dev_stop (last (eth_devs e)))\<rparr>) \<and>
      (worker_lcores e = [] \<longrightarrow> main_thread (offload enq packet x0) =
        M_fault (if granted h (fresh h + 13) then Dangling else Null_deref))"
proof -
  note start = main_start_iff [THEN iffD1, OF net_stack_init_state assms(1)]
  show ?thesis
  proof (cases "worker_lcores e \<noteq> [] \<and> remote_launch e = 0")
    case True
    with start have w: "waiting e x0"
      by (auto simp: waiting_def x0_def main_worker_def create_netstack_execution_context_def split: list.splits)
    show ?thesis unfolding if_P [OF True]
      by (intro allI impI waiting_stuck) (rule waiting_reachable [OF _ w])
  next
    case False
    with start have "idle w" "eth_devs e \<noteq> []"
      by (auto simp: idle_def main_worker_def split: list.splits)
    note returns = idle_returns [OF this, of lcore_result dev_stop deq enq interfaces n p]
    have "main_thread (offload enq packet x0) = M_fault (if granted h (fresh h + 13) then Dangling else Null_deref)"
      if "worker_lcores e = []"
      using start that by (simp add: x0_def offload_def)
    with returns show ?thesis unfolding if_not_P [OF False] by (simp add: x0_def)
  qed
qed

text \<open>The example: the program starts with two worker cores, a signal arrives, and the loop is left
  for good; with no worker core the same signal lets it return 0.\<close>

theorem main_ends_iff_no_worker_witness:
  "(\<exists>r ifc x. main_start example_env (\<lambda>n. [] :: rte_mbuf list) 0 (replicate 64 None) (static_tables example_blank)
        example_allocator = Run (ifc, Worker_entry r) \<and>
     (program_step example_env (\<lambda>_. 0) (\<lambda>_. 0) list_deq (\<lambda>q y. q @ [y]) [ifc] 6 0)\<^sup>*\<^sup>*
       \<lparr>prog_workers = Worker_entry r, force_quit = False, main_thread = M_loop\<rparr> x \<and>
     main_thread x = M_wait [1, 2] 0 \<and>
     main_step example_env (\<lambda>_. 0) (\<lambda>_. 0) (prog_workers x) (force_quit x) (main_thread x) = None) \<and>
   (\<exists>s ifc. main_start (example_env\<lparr>worker_lcores := []\<rparr>) (\<lambda>n. [] :: rte_mbuf list) 0 (replicate 64 None)
        (static_tables example_blank) example_allocator = Run (ifc, Unset_entry s) \<and>
     (program_step (example_env\<lparr>worker_lcores := []\<rparr>) (\<lambda>_. 0) (\<lambda>_. 0) list_deq (\<lambda>q y. q @ [y]) [ifc] 6 0)\<^sup>*\<^sup>*
       \<lparr>prog_workers = Unset_entry s, force_quit = False, main_thread = M_loop\<rparr>
       \<lparr>prog_workers = Unset_entry s, force_quit = True, main_thread = M_returned 0\<rparr>)"
proof (rule conjI, goal_cases)
  case 1
  let ?step = "\<lambda>ifc. program_step example_env (\<lambda>_. 0) (\<lambda>_. 0) list_deq (\<lambda>q y. q @ [y]) [ifc] 6 0"
  have env: "worker_lcores example_env = [1, 2]" "remote_launch example_env = 0" by (simp_all add: example_env_def)
  obtain r ifc where run: "main_start example_env (\<lambda>n. [] :: rte_mbuf list) 0 (replicate 64 None)
      (static_tables example_blank) example_allocator = Run (ifc, Worker_entry r)"
    using example_starts(1) by blast
  let ?x0 = "\<lparr>prog_workers = Worker_entry r, force_quit = False, main_thread = M_loop\<rparr>"
  let ?x1 = "?x0\<lparr>force_quit := signal_handler 2 (force_quit ?x0)\<rparr>"
  let ?x2 = "?x1\<lparr>main_thread := M_wait [1, 2] 0\<rparr>"
  have "main_step example_env (\<lambda>_. 0) (\<lambda>_. 0) (prog_workers ?x1) (force_quit ?x1) (main_thread ?x1) = Some (M_wait [1, 2] 0)"
    by (simp add: signal_handler_def env)
  from by_main [OF this] have "?step ifc ?x1 ?x2" .
  moreover have "?step ifc ?x0 ?x1" by (rule by_signal)
  ultimately have reach: "(?step ifc)\<^sup>*\<^sup>* ?x0 ?x2" by simp
  have "\<forall>x. (?step ifc)\<^sup>*\<^sup>* ?x0 x \<longrightarrow>
      (main_thread x = M_loop \<or> main_thread x = M_wait (worker_lcores example_env) 0 \<and>
        main_step example_env (\<lambda>_. 0) (\<lambda>_. 0) (prog_workers x) (force_quit x) (main_thread x) = None)"
    using main_ends_iff_no_worker [OF run, of "\<lambda>_. 0" "\<lambda>_. 0" list_deq "\<lambda>q y. q @ [y]" "[ifc]" 6 0] env by auto
  with reach have "main_step example_env (\<lambda>_. 0) (\<lambda>_. 0) (prog_workers ?x2) (force_quit ?x2) (main_thread ?x2) = None"
    by fastforce
  with run reach show ?case by (intro exI [of _ r] exI [of _ ifc] exI [of _ ?x2]) simp
next
  case 2
  let ?e = "example_env\<lparr>worker_lcores := []\<rparr>"
  obtain s ifc where run: "main_start ?e (\<lambda>n. [] :: rte_mbuf list) 0 (replicate 64 None)
      (static_tables example_blank) example_allocator = Run (ifc, Unset_entry s)"
    using example_starts(2) by blast
  with main_ends_iff_no_worker [OF run, of "\<lambda>_. 0" "\<lambda>_. 0" list_deq "\<lambda>q y. q @ [y]" "[ifc]" 6 0] show ?case by auto
qed

end
