(* ===== verification/Execution_Pool.thy ===== *)
theory Execution_Pool
  imports Worker
begin

text \<open>
  \<^verbatim>\<open>execution_pool.c\<close> and \<^verbatim>\<open>execution_pool.h\<close>: a set of execution contexts that are started and
  stopped together. The thread that calls \<^verbatim>\<open>open\<close> and \<^verbatim>\<open>close\<close> executes, context after context, the
  statements of \<^verbatim>\<open>start\<close> and \<^verbatim>\<open>stop\<close> of \<open>Worker\<close>; its steps interleave with those of every worker and
  of the network side. The workers share the memory of the handlers, and one worker handles one
  packet in one step, with its packet stack at an address of its own (\<open>stk i\<close>).

  \<^verbatim>\<open>create_netstack_thread\<close>, which fills the array of contexts, is not part of the repository and is a
  parameter. \<^verbatim>\<open>get_execution_context\<close> and \<^verbatim>\<open>get_any_execution_context\<close> have empty bodies.
\<close>

section \<open>Data\<close>

record 'c execution_pool_t =
  execution_contexts :: "'c list"
  num_executions :: u8

fun create_contexts :: "('w \<Rightarrow> 'c \<times> 'w) \<Rightarrow> nat \<Rightarrow> 'w \<Rightarrow> 'c list \<times> 'w" where
  "create_contexts create_netstack_thread 0 w = ([], w)"
| "create_contexts create_netstack_thread (Suc i) w =
     (let (cs, w) = create_contexts create_netstack_thread i w; (c, w) = create_netstack_thread w
      in (cs @ [c], w))"

text \<open>\<open>array\<close> says whether the allocation of the array of contexts succeeds.\<close>

definition create_execution_pool ::
  "bool \<Rightarrow> ('w \<Rightarrow> 'c \<times> 'w) \<Rightarrow> u8 \<Rightarrow> 'w \<Rightarrow> fault + ('c execution_pool_t \<times> 'w)" where
  "create_execution_pool array create_netstack_thread n w =
     (if \<not> array \<and> n \<noteq> 0 then Inl Null_deref
      else
        let (cs, w) = create_contexts create_netstack_thread (unat n) w
        in Inr (\<lparr>execution_contexts = cs, num_executions = n\<rparr>, w))"

section \<open>Opening and closing\<close>

text \<open>The statements that \<^verbatim>\<open>open\<close> and \<^verbatim>\<open>close\<close> execute, each with the number of its context.\<close>

definition open_code :: "nat \<Rightarrow> (nat \<times> action) list" where
  "open_code n = concat (map (\<lambda>i. map (Pair i) start_code) [0..<n])"

definition close_code :: "nat \<Rightarrow> (nat \<times> action) list" where
  "close_code n = concat (map (\<lambda>i. map (Pair i) stop_code) [0..<n])"

text \<open>What \<^verbatim>\<open>open\<close> returns. \<^verbatim>\<open>start\<close> has no \<^verbatim>\<open>return\<close> statement: \<open>left i\<close> is the value that its call for
  context \<open>i\<close> happens to leave.\<close>

definition open_result :: "(nat \<Rightarrow> int) \<Rightarrow> nat \<Rightarrow> bool" where
  "open_result left n = foldl (\<lambda>allStarted i. if left i \<noteq> 0 then False else allStarted) True [0..<n]"

record ('q, 's) pool_runtime =
  members :: "('q execution_context_t \<times> worker_at) list"
  pool_control :: "(nat \<times> action) list"
  pool_mem :: 's

definition member_runtime :: "('q, 's) pool_runtime \<Rightarrow> nat \<Rightarrow> action list \<Rightarrow> ('q, 's) runtime" where
  "member_runtime r i as =
     \<lparr>ctx = fst (members r ! i), control = as, worker = snd (members r ! i), rt_mem = pool_mem r\<rparr>"

definition put_member :: "nat \<Rightarrow> ('q, 's) runtime \<Rightarrow> ('q, 's) pool_runtime \<Rightarrow> ('q, 's) pool_runtime" where
  "put_member i x r = r\<lparr>members := (members r)[i := (ctx x, worker x)], pool_mem := rt_mem x\<rparr>"

inductive pool_step ::
  "('q \<Rightarrow> rte_mbuf option \<times> 'q) \<Rightarrow> ('q \<Rightarrow> rte_mbuf \<Rightarrow> 'q) \<Rightarrow> interface_t list \<Rightarrow> nat \<Rightarrow> (nat \<Rightarrow> nat) \<Rightarrow>
   ('q, 'a stack_mem_scheme) pool_runtime \<Rightarrow> ('q, 'a stack_mem_scheme) pool_runtime \<Rightarrow> bool"
  for deq enq interfaces n stk where
  by_caller: "pool_control r = (i, act) # as \<Longrightarrow> i < length (members r) \<Longrightarrow>
    control_step (member_runtime r i [act]) = Some x \<Longrightarrow>
    pool_step deq enq interfaces n stk r (put_member i x r\<lparr>pool_control := as\<rparr>)"
| by_member: "i < length (members r) \<Longrightarrow>
    worker_step deq interfaces n (stk i) (member_runtime r i []) = Some x \<Longrightarrow>
    pool_step deq enq interfaces n stk r (put_member i x r)"
| by_card: "i < length (members r) \<Longrightarrow> c = fst (members r ! i) \<Longrightarrow>
    pool_step deq enq interfaces n stk r
      (r\<lparr>members := (members r)[i := (c\<lparr>work_queue := enq (work_queue c) packet\<rparr>, snd (members r ! i))]\<rparr>)"

inductive_cases pool_stepE: "pool_step deq enq interfaces n stk r r'"

section \<open>The state of every member\<close>

lemma length_start_code [simp]: "length start_code = 4"
  by (simp add: start_code_def)

lemma length_open_code [simp]: "length (open_code n) = 4 * n"
  by (induction n) (simp_all add: open_code_def)

lemma open_code_nth: "k < 4 * n \<Longrightarrow> open_code n ! k = (k div 4, start_code ! (k mod 4))"
proof (induction n)
  case (Suc n)
  have split: "open_code (Suc n) = open_code n @ map (Pair n) start_code" by (simp add: open_code_def)
  show ?case
  proof (cases "k < 4 * n")
    case True
    then show ?thesis using Suc.IH by (simp add: split nth_append)
  next
    case False
    then obtain j where "k = 4 * n + j" "j < 4"
      using Suc.prems by (metis add_less_cancel_left le_Suc_ex mult_Suc_right add.commute not_less)
    then show ?thesis by (simp add: split nth_append)
  qed
qed simp

lemma close_code_Suc:
  "close_code (Suc n) = map (Pair 0) stop_code @ concat (map (\<lambda>i. map (Pair i) stop_code) [1..<Suc n])"
  by (simp add: close_code_def upt_conv_Cons del: upt_Suc)

text \<open>The caller has executed \<open>k\<close> statements, four for each context.\<close>

definition member_at :: "nat \<Rightarrow> nat \<Rightarrow> nat \<Rightarrow> 'q execution_context_t \<times> worker_at \<Rightarrow> bool" where
  "member_at n k i m \<longleftrightarrow>
     (k \<le> 4 * n \<longrightarrow> (state_locked (fst m) \<longleftrightarrow> 4 * i < k \<and> k \<le> 4 * i + 3)) \<and>
     (if k \<le> 4 * i + 2 then snd m = W_none else snd m \<noteq> W_none \<and> snd m \<noteq> W_exit) \<and>
     (4 * i + 2 \<le> k \<longrightarrow> ec_state (fst m) = Some NET_STACK_EXECUTION_RUNNING)"

definition pool_at :: "nat \<Rightarrow> nat \<Rightarrow> ('q, 's) pool_runtime \<Rightarrow> bool" where
  "pool_at n k r \<longleftrightarrow> k \<le> 4 * n + 1 \<and> length (members r) = n \<and>
     pool_control r = drop k (open_code n @ close_code n) \<and> (\<forall>i < n. member_at n k i (members r ! i))"

lemma pool_caller_action:
  assumes "k < 4 * n"
  shows "drop k (open_code n @ close_code n) =
    (k div 4, start_code ! (k mod 4)) # drop (Suc k) (open_code n @ close_code n)"
  using assms open_code_nth [OF assms] Cons_nth_drop_Suc [of k "open_code n"] by simp

text \<open>One statement of \<^verbatim>\<open>start\<close> on its own context, and what it means for the others.\<close>

lemma start_statement:
  assumes "member_at n (4 * i + j) i (c, w)" and "j < 4" and "4 * i + j < 4 * n"
  shows "\<exists>c' w'. control_step \<lparr>ctx = c, control = [start_code ! j], worker = w, rt_mem = s\<rparr> =
      Some \<lparr>ctx = c', control = [], worker = w', rt_mem = s\<rparr> \<and> member_at n (Suc (4 * i + j)) i (c', w')"
proof -
  have "j = 0 \<or> j = 1 \<or> j = 2 \<or> j = 3" using assms(2) by arith
  then show ?thesis
    using assms(1,3) by (elim disjE) (auto simp: member_at_def start_code_def)
qed

lemma other_member:
  assumes "member_at n k i m" and "i \<noteq> k div 4" and "k < 4 * n"
  shows "member_at n (Suc k) i m"
proof -
  have "k < 4 * i \<or> 4 * i + 3 < k" using assms(2) by presburger
  with assms(1,3) show ?thesis by (auto simp: member_at_def split: if_splits)
qed

lemma caller_opens:
  assumes "pool_at n k r" and "k < 4 * n" and "pool_control r = (i, act) # as"
  shows "\<exists>x. control_step (member_runtime r i [act]) = Some x \<and>
    pool_at n (Suc k) (put_member i x r\<lparr>pool_control := as\<rparr>)"
proof -
  have act: "i = k div 4" "act = start_code ! (k mod 4)" "as = drop (Suc k) (open_code n @ close_code n)"
    using assms pool_caller_action [OF assms(2)] by (auto simp: pool_at_def)
  have i: "i < n" "length (members r) = n" using assms(1,2) act by (simp_all add: pool_at_def less_mult_imp_div_less mult.commute)
  obtain c w where m: "members r ! i = (c, w)" by fastforce
  have k: "k = 4 * i + k mod 4" "k mod 4 < 4" using act(1) by simp_all
  have "member_at n (4 * i + k mod 4) i (c, w)" using assms(1) i m k(1) by (auto simp: pool_at_def)
  from start_statement [OF this k(2), of "pool_mem r"] assms(2) k(1) obtain c' w' where
    step: "control_step (member_runtime r i [act]) = Some \<lparr>ctx = c', control = [], worker = w', rt_mem = pool_mem r\<rparr>"
    and at: "member_at n (Suc k) i (c', w')" using act(2) m by (auto simp: member_runtime_def)
  have "member_at n (Suc k) i' ((members r)[i := (c', w')] ! i')" if "i' < n" for i'
    using other_member [of n k i' "members r ! i'"] that assms(1,2) act(1) i at
    by (cases "i' = i") (simp_all add: pool_at_def)
  with step show ?thesis using assms(1,2) act(3) i by (simp add: pool_at_def put_member_def)
qed

lemma caller_steps:
  assumes "pool_at n k r" and "pool_control r = (i, act) # as" and "control_step (member_runtime r i [act]) = Some x"
  shows "pool_at n (Suc k) (put_member i x r\<lparr>pool_control := as\<rparr>)"
proof (cases "k < 4 * n")
  case True
  then show ?thesis using caller_opens [OF assms(1) True assms(2)] assms(3) by auto
next
  case False
  obtain m where n: "n = Suc m"
    using assms(1,2) False by (cases n) (auto simp: pool_at_def open_code_def close_code_def)
  have k: "k = 4 * n \<or> k = 4 * n + 1" using False assms(1) by (auto simp: pool_at_def)
  have at: "member_at n k 0 (members r ! 0)" "length (members r) = n" using assms(1) n by (simp_all add: pool_at_def)
  from k show ?thesis
  proof
    assume k: "k = 4 * n"
    then have act: "i = 0" "act = Mutex_lock" "as = drop (Suc k) (open_code n @ close_code n)"
      using assms(1,2) by (auto simp: pool_at_def n close_code_Suc stop_code_def)
    have x: "ctx x = (fst (members r ! 0))\<lparr>state_locked := True\<rparr>" "worker x = snd (members r ! 0)"
      using assms(3) act(2) at(1) k n by (auto simp: member_runtime_def act(1) member_at_def split: if_splits)
    have "member_at n (Suc k) i' ((members r)[0 := (ctx x, worker x)] ! i')" if "i' < n" for i'
      using that assms(1) x k n by (cases i') (auto simp: pool_at_def member_at_def split: if_splits)
    then show ?thesis using assms(1) act k by (simp add: pool_at_def put_member_def)
  next
    assume k: "k = 4 * n + 1"
    then have "i = 0" "act = Thread_join"
      using assms(1,2) by (auto simp: pool_at_def n close_code_Suc stop_code_def)
    then show ?thesis using assms(3) at(1) k n by (simp add: member_runtime_def member_at_def split: if_splits)
  qed
qed

lemma pool_at_update:
  assumes "pool_at n k r" and "i < n" and "member_at n k i m" and "members r' = (members r)[i := m]"
    and "pool_control r' = pool_control r"
  shows "pool_at n k r'"
proof -
  have "member_at n k i' (members r' ! i')" if "i' < n" for i'
    using assms that by (cases "i' = i") (auto simp: pool_at_def)
  with assms show ?thesis by (simp add: pool_at_def)
qed

lemma member_worker:
  assumes "member_at n k i (members r ! i)" and "worker_step deq interfaces f p (member_runtime r i []) = Some x"
  shows "member_at n k i (ctx x, worker x)"
proof -
  have "k > 4 * i + 2" using assms by (auto simp: member_at_def member_runtime_def split: if_splits)
  then have run: "ec_state (ctx (member_runtime r i [])) = Some NET_STACK_EXECUTION_RUNNING"
    using assms(1) by (simp add: member_at_def member_runtime_def)
  from worker_step_stays [OF assms(2) run] assms(1) \<open>k > 4 * i + 2\<close> run show ?thesis
    by (simp add: member_at_def member_runtime_def)
qed

lemma pool_at_step:
  assumes "pool_step deq enq interfaces f stk r r'" and "pool_at n k r"
  shows "\<exists>k'. pool_at n k' r'"
  using assms(1)
proof (cases rule: pool_step.cases)
  case (by_caller i act as x)
  then show ?thesis using caller_steps [OF assms(2)] by blast
next
  case (by_member i x)
  have "i < n" using by_member assms(2) by (simp add: pool_at_def)
  moreover from this have "member_at n k i (ctx x, worker x)"
    using assms(2) by (intro member_worker [OF _ by_member(3)]) (simp add: pool_at_def)
  ultimately have "pool_at n k r'"
    by (rule pool_at_update [OF assms(2)]) (simp_all add: by_member(1) put_member_def)
  then show ?thesis by blast
next
  case (by_card i c packet)
  have "i < n" using by_card assms(2) by (simp add: pool_at_def)
  moreover from this have "member_at n k i (c\<lparr>work_queue := enq (work_queue c) packet\<rparr>, snd (members r ! i))"
    using by_card assms(2) by (simp add: pool_at_def member_at_def)
  ultimately have "pool_at n k r'"
    by (rule pool_at_update [OF assms(2)]) (simp_all add: by_card(1))
  then show ?thesis by blast
qed

lemma pool_at_reachable:
  "(pool_step deq enq interfaces f stk)\<^sup>*\<^sup>* r r' \<Longrightarrow> \<exists>k. pool_at n k r \<Longrightarrow> \<exists>k. pool_at n k r'"
  by (induction rule: rtranclp_induct) (auto dest: pool_at_step)

lemma create_contexts_all:
  "length (fst (create_contexts mk n w)) = n \<and> (\<forall>c \<in> set (fst (create_contexts mk n w)). \<exists>w'. c = fst (mk w'))"
  by (induction n) (auto simp: Let_def case_prod_unfold)

lemma open_result_all: "open_result left n \<longleftrightarrow> (\<forall>i < n. left i = 0)"
  by (induction n) (auto simp: open_result_def less_Suc_eq)

text \<open>C25: a pool of at least one context is created and one thread calls \<^verbatim>\<open>open\<close> and then \<^verbatim>\<open>close\<close>. In
  every interleaving with the workers and the network: while statements of \<^verbatim>\<open>open\<close> are left, the next
  one can be executed; once \<^verbatim>\<open>open\<close> is through, every context is in the state running and its thread
  exists and has not ended; and \<^verbatim>\<open>close\<close> never gets past the join of the first worker.
  \<^verbatim>\<open>create_netstack_thread\<close> is assumed to return contexts whose mutex is free.\<close>

theorem pool_opens_and_never_closes:
  fixes r :: "('q, 'a stack_mem_scheme) pool_runtime"
  assumes "\<And>w. \<not> state_locked (fst (mk w))" and "create_execution_pool True mk num w = Inr (pool, w')" and "num \<noteq> 0"
    and "members r = map (\<lambda>c. (c, W_none)) (execution_contexts pool)"
    and "pool_control r = open_code (unat (num_executions pool)) @ close_code (unat (num_executions pool))"
    and "(pool_step deq enq interfaces f stk)\<^sup>*\<^sup>* r r'"
  shows "(0, Thread_join) \<in> set (pool_control r') \<and>
    (if length (close_code (unat num)) < length (pool_control r')
     then \<exists>r''. pool_step deq enq interfaces f stk r' r'' \<and> Suc (length (pool_control r'')) = length (pool_control r')
     else \<forall>m \<in> set (members r'). ec_state (fst m) = Some NET_STACK_EXECUTION_RUNNING \<and>
       snd m \<noteq> W_none \<and> snd m \<noteq> W_exit)"
proof -
  let ?n = "unat num" and ?code = "open_code (unat num) @ close_code (unat num)"
  obtain m where n: "?n = Suc m" using assms(3) by (cases ?n) (auto simp: unat_eq_0)
  have pool: "num_executions pool = num" "length (execution_contexts pool) = ?n"
    "\<forall>c \<in> set (execution_contexts pool). \<not> state_locked c"
    using assms(2) create_contexts_all [of mk ?n w] assms(1)
    by (force simp: create_execution_pool_def Let_def case_prod_unfold)+
  then have "pool_at ?n 0 r" using assms(4,5) by (simp add: pool_at_def member_at_def)
  then obtain k where at: "pool_at ?n k r'" using pool_at_reachable [OF assms(6)] by blast
  then have k: "k \<le> 4 * ?n + 1" "pool_control r' = drop k ?code" "length (members r') = ?n" by (simp_all add: pool_at_def)
  have "close_code ?n ! 1 = (0, Thread_join)" "1 < length (close_code ?n)"
    by (simp_all add: n close_code_Suc stop_code_def)
  then have "?code ! (4 * ?n + 1) = (0, Thread_join)" "4 * ?n + 1 < length ?code" by (simp_all add: nth_append)
  then have "(0, Thread_join) = drop k ?code ! (4 * ?n + 1 - k)" "4 * ?n + 1 - k < length (drop k ?code)"
    using k(1) by (simp_all only: nth_drop le_add_diff_inverse length_drop diff_less_mono less_imp_le_nat)
  then have join: "(0, Thread_join) \<in> set (pool_control r')" unfolding k(2) by (metis nth_mem)
  show ?thesis
  proof (cases "length (close_code ?n) < length (pool_control r')")
    case True
    then have less: "k < 4 * ?n" using k(2) by simp
    then have c: "pool_control r' = (k div 4, start_code ! (k mod 4)) # drop (Suc k) ?code"
      using k(2) pool_caller_action by simp
    have "k div 4 < length (members r')" using less k(3) by (simp add: less_mult_imp_div_less mult.commute)
    with caller_opens [OF at less c] by_caller [OF c] have
      "\<exists>x. pool_step deq enq interfaces f stk r' (put_member (k div 4) x r'\<lparr>pool_control := drop (Suc k) ?code\<rparr>)" by blast
    with c join True show ?thesis by fastforce
  next
    case False
    then have "4 * ?n \<le> k" using k(2) by simp
    with at have "\<forall>i < ?n. ec_state (fst (members r' ! i)) = Some NET_STACK_EXECUTION_RUNNING \<and>
        snd (members r' ! i) \<noteq> W_none \<and> snd (members r' ! i) \<noteq> W_exit"
      by (auto simp: pool_at_def member_at_def split: if_splits)
    then have "\<forall>m \<in> set (members r'). ec_state (fst m) = Some NET_STACK_EXECUTION_RUNNING \<and>
        snd m \<noteq> W_none \<and> snd m \<noteq> W_exit"
      by (metis in_set_conv_nth k(3))
    with False join show ?thesis by simp
  qed
qed

definition example_pool :: "rte_mbuf list execution_context_t execution_pool_t" where
  "example_pool = \<lparr>execution_contexts = [create_netstack_execution_context (\<lambda>_. []) 0 [H_ethernet] 1,
     create_netstack_execution_context (\<lambda>_. []) 1 [H_ethernet] 1], num_executions = 2\<rparr>"

definition example_pool_runtime :: "(rte_mbuf list, stack_mem) pool_runtime" where
  "example_pool_runtime = \<lparr>members = map (\<lambda>c. (c, W_none)) (execution_contexts example_pool),
     pool_control = open_code 2 @ close_code 2, pool_mem = example_started\<rparr>"

theorem pool_opens_and_never_closes_witness:
  "(0, Thread_join) \<in> set (pool_control example_pool_runtime) \<and>
   (\<exists>r''. pool_step list_deq (\<lambda>q x. q @ [x]) [example_interface] 6 id example_pool_runtime r'' \<and>
     length (pool_control r'') = 15)"
proof -
  have codes: "length (close_code 2) = 8" by (simp add: close_code_def stop_code_def numeral_2_eq_2)
  let ?mk = "\<lambda>w. (create_netstack_execution_context (\<lambda>_. [] :: rte_mbuf list) w [H_ethernet] 1, w + 1)"
  have two: "unat (2 :: u8) = Suc (Suc 0)" by simp
  have made: "create_execution_pool True ?mk 2 0 = Inr (example_pool, 2)"
    unfolding create_execution_pool_def two by (simp add: example_pool_def)
  have "num_executions example_pool = 2" by (simp add: example_pool_def)
  then show ?thesis
    using pool_opens_and_never_closes [OF _ made, of example_pool_runtime list_deq "\<lambda>q x. q @ [x]"
        "[example_interface]" 6 id example_pool_runtime] codes
    by (simp add: example_pool_runtime_def create_netstack_execution_context_def)
qed

end
