(* ===== verification/Tls.thy ===== *)
theory Tls
  imports Packet_Stack
begin

text \<open>
  \<^verbatim>\<open>handlers/tls\<close>: the record loop of \<^verbatim>\<open>tls_read\<close> and the functions that write handshake
  messages and their extensions (\<^verbatim>\<open>handshake.c\<close>, \<^verbatim>\<open>extensions.c\<close>, \<^verbatim>\<open>certificate.c\<close>,
  \<^verbatim>\<open>certificate_verify.c\<close>, \<^verbatim>\<open>finished.c\<close>).

  A writer takes the memory it writes to and the address \<open>at\<close>, and returns what the function
  returns with the new memory. All structures are packed and aligned to two bytes, so the
  sizes are even: a record header, whose fields take 5 bytes, has size 6, and a three-byte
  length has size 4.

  The record loop takes the function that handles a handshake record as the parameter \<open>handle\<close>
  and calls it with the address of the record and the handler's private data;
  \<^verbatim>\<open>tls_handle_handshake\<close> is what the code has there. The server's answer to a ClientHello in it
  is unfinished (functions are called with placeholder arguments, structures are declared
  twice) and does not compile; it is the parameter \<open>flight\<close>. \<^verbatim>\<open>tls_generate_key_share\<close> has an empty
  body and is the parameter \<open>generator\<close>.
\<close>

section \<open>Data\<close>

definition TLS_RECORD_CONTENT_TYPE_HANDSHAKE :: u8 where "TLS_RECORD_CONTENT_TYPE_HANDSHAKE = 22"

definition TLS_EXTENSION_KEY_SHARE :: u16 where "TLS_EXTENSION_KEY_SHARE = 51"
definition TLS_EXTENSION_SUPPORTED_VERSIONS :: u16 where "TLS_EXTENSION_SUPPORTED_VERSIONS = 43"

record tls_record_t =
  rec_content_type :: u8
  rec_protocol_version :: u16
  rec_length :: u16

definition sizeof_tls_record :: nat where "sizeof_tls_record = 6"

definition load_tls_record :: "mem8 \<Rightarrow> nat \<Rightarrow> tls_record_t" where
  "load_tls_record m a =
     \<lparr>rec_content_type = m a, rec_protocol_version = load16 m (a + 1), rec_length = load16 m (a + 3)\<rparr>"

record tls_key_share_entry_t =
  ks_group :: u16
  ks_key_share_length :: u16

definition tls_key_share_entry_bytes :: "tls_key_share_entry_t \<Rightarrow> u8 list" where
  "tls_key_share_entry_bytes k = bytes16 (ks_group k) @ bytes16 (ks_key_share_length k)"

definition sizeof_tls_handshake_msg :: nat where "sizeof_tls_handshake_msg = 4"
definition sizeof_tls_extensions_msg :: nat where "sizeof_tls_extensions_msg = 2"
definition sizeof_tls_extensions :: nat where "sizeof_tls_extensions = 4"
definition sizeof_certificate_request_context :: nat where "sizeof_certificate_request_context = 2"
definition sizeof_tls_certificate_list :: nat where "sizeof_tls_certificate_list = 4"
definition sizeof_tls_certificate_entry :: nat where "sizeof_tls_certificate_entry = 4"
definition sizeof_tls_certificate_verify_msg :: nat where "sizeof_tls_certificate_verify_msg = 4"

text \<open>The three bytes of a length, most significant first.\<close>

definition length24 :: "u32 \<Rightarrow> u8 list" where
  "length24 n = [ucast (drop_bit 16 n AND 0xFF), ucast (drop_bit 8 n AND 0xFF), ucast (n AND 0xFF)]"

section \<open>Extensions\<close>

definition start_extensions :: "nat \<Rightarrow> nat" where
  "start_extensions at = at + sizeof_tls_extensions_msg"

definition end_extensions :: "u16 \<Rightarrow> mem8 \<Rightarrow> nat \<Rightarrow> fault + (u16 \<times> mem8)" where
  "end_extensions extension_length m at =
     (if at < sizeof_tls_extensions_msg then Inl Out_of_bounds
      else Inr (of_nat sizeof_tls_extensions_msg + extension_length,
        store_bytes m (at - sizeof_tls_extensions_msg) (bytes16 (htons extension_length))))"

definition tls_write_extension :: "u16 \<Rightarrow> u16 \<Rightarrow> u8 list \<Rightarrow> mem8 \<Rightarrow> nat \<Rightarrow> fault + (u16 \<times> mem8)" where
  "tls_write_extension extension_type extension_length extension_data m at =
     (if length extension_data < unat extension_length then Inl Out_of_bounds
      else Inr (of_nat sizeof_tls_extensions + extension_length,
        store_bytes (store_bytes m at (bytes16 extension_type @ bytes16 (htons extension_length)))
          (at + sizeof_tls_extensions) (take (unat extension_length) extension_data)))"

definition tls_write_server_hello_key_share ::
  "tls_key_share_entry_t \<Rightarrow> (mem8 \<Rightarrow> nat \<Rightarrow> u16 \<times> mem8) \<Rightarrow> mem8 \<Rightarrow> nat \<Rightarrow> fault + (u16 \<times> mem8)" where
  "tls_write_server_hello_key_share server_key_share generator m at =
     sbind (tls_write_extension TLS_EXTENSION_KEY_SHARE 4 (tls_key_share_entry_bytes server_key_share) m at)
       (\<lambda>(num_written, m). let (k, m) = generator m (at + unat num_written) in Inr (num_written + k, m))"

definition tls_write_server_hello_supported_version :: "u16 \<Rightarrow> mem8 \<Rightarrow> nat \<Rightarrow> fault + (u16 \<times> mem8)" where
  "tls_write_server_hello_supported_version version m at =
     tls_write_extension TLS_EXTENSION_SUPPORTED_VERSIONS 2 (bytes16 version) m at"

section \<open>Handshake messages\<close>

definition start_handshake :: "u8 \<Rightarrow> mem8 \<Rightarrow> nat \<Rightarrow> nat \<times> mem8" where
  "start_handshake handshake_type m at = (at + sizeof_tls_handshake_msg, m(at := handshake_type))"

text \<open>\<^verbatim>\<open>to_write\<close> is moved back by the size of the header twice. A length that is too large is only logged.\<close>

definition end_handshake :: "u32 \<Rightarrow> mem8 \<Rightarrow> nat \<Rightarrow> fault + (u32 \<times> mem8)" where
  "end_handshake handshake_length m at =
     (if at < 2 * sizeof_tls_handshake_msg then Inl Out_of_bounds
      else
        let header = at - sizeof_tls_handshake_msg - sizeof_tls_handshake_msg in
        Inr (of_nat sizeof_tls_handshake_msg + handshake_length,
          store_bytes m (header + 1) (length24 handshake_length)))"

text \<open>
  The loop over the certificates: \<open>entry\<close> is the address of the first entry, which the code
  keeps for all of them, and the length bytes are added to.
\<close>

definition add_bytes :: "mem8 \<Rightarrow> nat \<Rightarrow> u8 list \<Rightarrow> mem8" where
  "add_bytes m a bs = store_bytes m a (map2 (+) (read_bytes m a (length bs)) bs)"

primrec write_certificate_entries :: "u8 list list \<Rightarrow> u32 \<Rightarrow> mem8 \<Rightarrow> nat \<Rightarrow> u32 \<times> mem8" where
  "write_certificate_entries [] total_size m entry = (total_size, m)"
| "write_certificate_entries (c # cs) total_size m entry =
     (let n = of_nat (length c) :: u32;
          m = add_bytes m entry (length24 n);
          m = store_bytes m (entry + sizeof_tls_certificate_entry + unat total_size) c;
          m = store_bytes m (entry + sizeof_tls_certificate_entry + length c) (bytes16 0)
      in write_certificate_entries cs (total_size + (n + of_nat sizeof_tls_certificate_list + 2)) m entry)"

definition tls_write_certificates :: "u8 list list \<Rightarrow> mem8 \<Rightarrow> nat \<Rightarrow> u32 \<times> mem8" where
  "tls_write_certificates certificates m at =
     (let m = m(at := 0);
          cert_list = at + sizeof_certificate_request_context;
          (total_size, m) = write_certificate_entries certificates 0 m (cert_list + sizeof_tls_certificate_list)
      in (of_nat (sizeof_certificate_request_context + sizeof_tls_certificate_list) + total_size,
          store_bytes m cert_list (length24 total_size)))"

definition tls_write_certificate_verify :: "u16 \<Rightarrow> u16 \<Rightarrow> u8 list \<Rightarrow> mem8 \<Rightarrow> nat \<Rightarrow> fault + (u32 \<times> mem8)" where
  "tls_write_certificate_verify signature_scheme signature_length signature m at =
     (if length signature < unat signature_length then Inl Out_of_bounds
      else Inr (of_nat sizeof_tls_certificate_verify_msg + ucast signature_length,
        store_bytes (store_bytes m at (bytes16 (htons signature_scheme) @ bytes16 (htons signature_length)))
          (at + sizeof_tls_certificate_verify_msg) (take (unat signature_length) signature)))"

definition tls_write_finished :: "u8 list \<Rightarrow> u16 \<Rightarrow> mem8 \<Rightarrow> nat \<Rightarrow> fault + (u32 \<times> mem8)" where
  "tls_write_finished verify_data n m at =
     (if length verify_data < unat n then Inl Out_of_bounds
      else Inr (ucast n, store_bytes m at (take (unat n) verify_data)))"

section \<open>Reading records\<close>

definition TLS_MSG_CLIENT_HELLO :: u8 where "TLS_MSG_CLIENT_HELLO = 1"

definition TLS_SERVER_START :: u32 where "TLS_SERVER_START = 0"
definition TLS_SERVER_RECEIVED_CLIENT_HELLO :: u32 where "TLS_SERVER_RECEIVED_CLIENT_HELLO = 1"

text \<open>\<^verbatim>\<open>tls_write_alert\<close> has an empty body.\<close>

definition tls_write_alert :: "'p \<Rightarrow> 'p" where
  "tls_write_alert priv = priv"

text \<open>
  \<open>state\<close> and \<open>set_state\<close> read and write the field \<^verbatim>\<open>control_block.state\<close> at the address that is
  passed as private data.
\<close>

definition tls_handle_handshake ::
  "('p \<Rightarrow> u32) \<Rightarrow> (u32 \<Rightarrow> 'p \<Rightarrow> 'p) \<Rightarrow> (mem8 \<Rightarrow> nat \<Rightarrow> 'p \<Rightarrow> 'p) \<Rightarrow> mem8 \<Rightarrow> nat \<Rightarrow> 'p \<Rightarrow> 'p" where
  "tls_handle_handshake state set_state flight m handshake priv =
     (if state priv = TLS_SERVER_START then
        if m handshake \<noteq> TLS_MSG_CLIENT_HELLO then tls_write_alert priv
        else set_state TLS_SERVER_RECEIVED_CLIENT_HELLO (flight m (handshake + sizeof_tls_handshake_msg) priv)
      else priv)"

definition tls_handle_record :: "(mem8 \<Rightarrow> nat \<Rightarrow> 's \<Rightarrow> 's) \<Rightarrow> mem8 \<Rightarrow> nat \<Rightarrow> 's \<Rightarrow> u8 \<times> 's" where
  "tls_handle_record handle m pos priv =
     (if rec_content_type (load_tls_record m pos) = TLS_RECORD_CONTENT_TYPE_HANDSHAKE
      then (0, handle m pos priv) else (1, priv))"

text \<open>The full length of a record is cut to 16 bits.\<close>

definition full_record_length :: "mem8 \<Rightarrow> nat \<Rightarrow> u16" where
  "full_record_length m pos = of_nat sizeof_tls_record + ntohs (rec_length (load_tls_record m pos))"

partial_function (option) tls_read_loop ::
  "(mem8 \<Rightarrow> nat \<Rightarrow> 's \<Rightarrow> 's) \<Rightarrow> mem8 \<Rightarrow> nat \<Rightarrow> u16 \<Rightarrow> 's \<Rightarrow> (u16 \<times> 's) option" where
  "tls_read_loop handle m pos bytes_left priv =
     (if unat bytes_left < sizeof_tls_record then Some (0, priv)
      else if bytes_left < full_record_length m pos then Some (1, priv)
      else
        let (fail, priv) = tls_handle_record handle m pos priv in
        if fail \<noteq> 0 then Some (2, priv)
        else tls_read_loop handle m (pos + unat (full_record_length m pos))
          (bytes_left - full_record_length m pos) priv)"

definition tls_read ::
  "(mem8 \<Rightarrow> nat \<Rightarrow> 'p \<Rightarrow> 'p) \<Rightarrow> handler \<Rightarrow> nat \<Rightarrow> 'p \<Rightarrow> 'a net_mem_scheme \<Rightarrow>
   fault + (u16 \<times> 'p \<times> 'a net_mem_scheme)" where
  "tls_read handle h p priv s =
     sbind (in_at s p) (\<lambda>ps.
     sbind (upd (in_handlers ps) (unat (in_stack_idx ps)) (Some h)) (\<lambda>hs.
     sbind (idx (packet_pointers ps) (unat (in_stack_idx ps))) (\<lambda>ptr.
     let s = put_in p (ps\<lparr>in_handlers := hs, in_stack_idx := in_stack_idx ps + 1\<rparr>) s in
     sbind (deref ptr) (\<lambda>header.
     case tls_read_loop handle (in_frame ps) header (11111 - 2222) priv of
       None \<Rightarrow> Inl No_return
     | Some (r, priv) \<Rightarrow> Inr (r, priv, s)))))"

section \<open>What becomes of a ClientHello\<close>

text \<open>The loop depends on \<open>handle\<close> only through \<^verbatim>\<open>tls_handle_record\<close>.\<close>

lemma tls_read_loop_mono:
  assumes same: "tls_handle_record h = tls_handle_record h'" and run: "tls_read_loop h m pos left priv = Some r"
  shows "tls_read_loop h' m pos left priv = Some r"
proof -
  have "h = handle \<longrightarrow> tls_read_loop h' m pos left priv = Some r" if "tls_read_loop handle m pos left priv = Some r" for handle
  proof (rule tls_read_loop.raw_induct
      [where P = "\<lambda>handle m pos left priv r. h = handle \<longrightarrow> tls_read_loop h' m pos left priv = Some r", OF _ that])
    fix loop handle m pos left priv r
    assume IH: "\<And>handle m pos left priv r. loop handle m pos left priv = Some r \<Longrightarrow>
        h = handle \<longrightarrow> tls_read_loop h' m pos left priv = Some r"
      and body: "(if unat left < sizeof_tls_record then Some (0, priv)
        else if left < full_record_length m pos then Some (1, priv)
        else let (fail, priv) = tls_handle_record handle m pos priv in
          if fail \<noteq> 0 then Some (2, priv)
          else loop handle m (pos + unat (full_record_length m pos)) (left - full_record_length m pos) priv) = Some r"
    show "h = handle \<longrightarrow> tls_read_loop h' m pos left priv = Some r"
      using body IH [where handle = h] same
      by (subst tls_read_loop.simps) (cases r, auto simp: Let_def split: prod.splits if_splits)
  qed
  with run show ?thesis by blast
qed

lemma tls_read_loop_cong:
  assumes "tls_handle_record h = tls_handle_record h'"
  shows "tls_read_loop h m pos left priv = tls_read_loop h' m pos left priv"
  using tls_read_loop_mono [OF assms] tls_read_loop_mono [OF assms [symmetric]]
  by (metis option.exhaust)

text \<open>C27: no handshake is ever started. \<^verbatim>\<open>tls_read\<close> hands the start of the record to
  \<^verbatim>\<open>tls_handle_handshake\<close>, not the message in it, so the content type of a handshake record, 22, is
  taken for the type of the message and is never that of a ClientHello: whatever the packet,
  the private data and the server's answer are, \<^verbatim>\<open>tls_read\<close> does what it does when handshake
  records are skipped.\<close>

theorem client_hello_never_handled:
  "tls_read (tls_handle_handshake state set_state flight) h p priv s = tls_read (\<lambda>m handshake priv. priv) h p priv s"
proof -
  have "tls_handle_record (tls_handle_handshake state set_state flight) = tls_handle_record (\<lambda>m handshake priv. priv)"
    by (simp add: fun_eq_iff tls_handle_record_def tls_handle_handshake_def tls_write_alert_def load_tls_record_def
        TLS_RECORD_CONTENT_TYPE_HANDSHAKE_def TLS_MSG_CLIENT_HELLO_def)
  from tls_read_loop_cong [OF this] show ?thesis by (simp add: tls_read_def)
qed

section \<open>Which record streams end\<close>

text \<open>
  Where the loop is before its k-th round: the address of the record and the bytes left,
  \<open>None\<close> when it has returned before.
\<close>

definition more_records :: "mem8 \<Rightarrow> nat \<Rightarrow> u16 \<Rightarrow> bool" where
  "more_records m pos bytes_left \<longleftrightarrow> sizeof_tls_record \<le> unat bytes_left \<and>
     full_record_length m pos \<le> bytes_left \<and> m pos = TLS_RECORD_CONTENT_TYPE_HANDSHAKE"

primrec nth_record :: "nat \<Rightarrow> mem8 \<Rightarrow> nat \<Rightarrow> u16 \<Rightarrow> (nat \<times> u16) option" where
  "nth_record 0 m pos bytes_left = Some (pos, bytes_left)"
| "nth_record (Suc k) m pos bytes_left =
     (if more_records m pos bytes_left
      then nth_record k m (pos + unat (full_record_length m pos)) (bytes_left - full_record_length m pos)
      else None)"

lemma tls_read_loop_more:
  "more_records m pos left \<Longrightarrow> tls_read_loop handle m pos left priv =
     tls_read_loop handle m (pos + unat (full_record_length m pos)) (left - full_record_length m pos)
       (handle m pos priv)"
  by (subst tls_read_loop.simps)
    (auto simp: more_records_def tls_handle_record_def load_tls_record_def)

lemma tls_read_loop_last:
  "\<not> more_records m pos left \<Longrightarrow> \<exists>r. tls_read_loop handle m pos left priv = Some r"
  by (subst tls_read_loop.simps)
    (auto simp: more_records_def tls_handle_record_def load_tls_record_def not_le)

text \<open>A record that announces 65530 bytes is taken for one of length zero.\<close>

lemma returned_not_stuck:
  assumes "tls_read_loop handle m pos left priv = Some r"
  shows "\<not> (more_records m pos left \<and> full_record_length m pos = 0)"
proof (rule tls_read_loop.raw_induct
    [where P = "\<lambda>handle m pos left priv r. \<not> (more_records m pos left \<and> full_record_length m pos = 0)",
     OF _ assms])
  fix loop handle m pos left priv r
  assume IH: "\<And>handle m pos left priv r. loop handle m pos left priv = Some r \<Longrightarrow>
      \<not> (more_records m pos left \<and> full_record_length m pos = 0)"
    and body: "(if unat left < sizeof_tls_record then Some (0, priv)
      else if left < full_record_length m pos then Some (1, priv)
      else let (fail, priv) = tls_handle_record handle m pos priv in
        if fail \<noteq> 0 then Some (2, priv)
        else loop handle m (pos + unat (full_record_length m pos)) (left - full_record_length m pos) priv) = Some r"
  show "\<not> (more_records m pos left \<and> full_record_length m pos = 0)"
  proof
    assume stuck: "more_records m pos left \<and> full_record_length m pos = 0"
    with body have "loop handle m pos left (handle m pos priv) = Some r"
      by (auto simp: more_records_def tls_handle_record_def load_tls_record_def)
    from IH [OF this] stuck show False by simp
  qed
qed

lemma full_record_length_zero:
  "full_record_length m pos = 0 \<longleftrightarrow> ntohs (rec_length (load_tls_record m pos)) = 65530"
proof -
  have "full_record_length m pos = 0 \<longleftrightarrow> ntohs (rec_length (load_tls_record m pos)) = - 6"
    by (simp add: full_record_length_def sizeof_tls_record_def add_eq_0_iff)
  moreover have "(- 6 :: u16) = 65530" by simp
  ultimately show ?thesis by (simp only:)
qed

lemma tls_read_loop_returns_iff:
  "(\<exists>r. tls_read_loop handle m pos left priv = Some r) \<longleftrightarrow>
     \<not> (\<exists>k q l. nth_record k m pos left = Some (q, l) \<and> more_records m q l \<and> full_record_length m q = 0)"
proof (induction "unat left" arbitrary: pos left priv rule: less_induct)
  case less
  let ?n = "full_record_length m pos" and ?stuck = "\<lambda>k pos left. \<exists>q l. nth_record k m pos left = Some (q, l) \<and>
      more_records m q l \<and> full_record_length m q = 0"
  show ?case
  proof (cases "more_records m pos left \<and> ?n \<noteq> 0")
    case True
    have "unat (left - ?n) < unat left"
      using True by (simp add: more_records_def unat_sub word_le_nat_alt unat_gt_0 [symmetric] word_gt_0 [symmetric])
    note IH = less [OF this, of "pos + unat ?n" "handle m pos priv"]
    have "(\<exists>k. ?stuck k pos left) \<longleftrightarrow> (\<exists>k. ?stuck k (pos + unat ?n) (left - ?n))"
    proof
      assume "\<exists>k. ?stuck k pos left"
      then obtain k where k: "?stuck k pos left" ..
      then obtain j where "k = Suc j" using True by (cases k) auto
      with k True show "\<exists>k. ?stuck k (pos + unat ?n) (left - ?n)" by auto
    next
      assume "\<exists>k. ?stuck k (pos + unat ?n) (left - ?n)"
      then obtain k where "?stuck k (pos + unat ?n) (left - ?n)" ..
      with True have "?stuck (Suc k) pos left" by simp
      then show "\<exists>k. ?stuck k pos left" ..
    qed
    with IH True tls_read_loop_more [of m pos left handle priv] show ?thesis by simp
  next
    case False
    show ?thesis
    proof (cases "more_records m pos left")
      case True
      with False have "?stuck 0 pos left" by simp
      moreover have "\<not> (\<exists>r. tls_read_loop handle m pos left priv = Some r)"
        using returned_not_stuck [of handle m pos left priv] True False by auto
      ultimately show ?thesis by blast
    next
      case no: False
      have "\<not> ?stuck k pos left" for k using no by (cases k) auto
      with tls_read_loop_last [OF no, of handle priv] show ?thesis by blast
    qed
  qed
qed

text \<open>C26: \<^verbatim>\<open>tls_read\<close> returns unless the stream of records leads to a handshake record that announces
  65530 bytes: then the sum with the size of the header wraps to zero in 16 bits, the loop
  handles the same record again and again and never returns. Every other stream, well formed
  or not, is read to its end.\<close>

theorem tls_read_hangs_iff:
  assumes "in_at s p = Inr ps" and "unat (in_stack_idx ps) < length (in_handlers ps)"
    and "unat (in_stack_idx ps) < length (packet_pointers ps)"
    and "packet_pointers ps ! unat (in_stack_idx ps) = Some header"
  shows "tls_read handle h p priv s = Inl No_return \<longleftrightarrow>
    (\<exists>k pos left. nth_record k (in_frame ps) header 8889 = Some (pos, left) \<and>
      more_records (in_frame ps) pos left \<and> ntohs (rec_length (load_tls_record (in_frame ps) pos)) = 65530)"
proof -
  have "tls_read handle h p priv s = Inl No_return \<longleftrightarrow>
      \<not> (\<exists>r. tls_read_loop handle (in_frame ps) header 8889 priv = Some r)"
    using assms by (cases "tls_read_loop handle (in_frame ps) header 8889 priv") (auto simp: tls_read_def)
  then show ?thesis by (simp only: tls_read_loop_returns_iff full_record_length_zero not_not)
qed

section \<open>What the extension writer writes\<close>

text \<open>
  The reference: RFC 8446 encodes extensions as a two-byte length of the whole, and for each a
  two-byte type, a two-byte length and the data, all numbers most significant byte first.
\<close>

fun parse_extension_list :: "u8 list \<Rightarrow> (u16 \<times> u8 list) list option" where
  "parse_extension_list [] = Some []"
| "parse_extension_list (t1 # t0 # n1 # n0 # bs) =
     (let n = unat (join16 n1 n0) in
      if length bs < n then None
      else map_option (\<lambda>es. (join16 t1 t0, take n bs) # es) (parse_extension_list (drop n bs)))"
| "parse_extension_list _ = None"

definition parse_extensions :: "u8 list \<Rightarrow> (u16 \<times> u8 list) list option" where
  "parse_extensions bs =
     (case bs of
        n1 # n0 # bs \<Rightarrow> if unat (join16 n1 n0) = length bs then parse_extension_list bs else None
      | _ \<Rightarrow> None)"

text \<open>
  A caller of the three writers, for the statement of their round trip: a block of extensions, written one
  after the other between \<^verbatim>\<open>start_extensions\<close> and \<^verbatim>\<open>end_extensions\<close>. The repository has no such
  function; only the writers that it calls are code.
\<close>

primrec write_extension_list :: "(u16 \<times> u8 list) list \<Rightarrow> mem8 \<Rightarrow> nat \<Rightarrow> fault + (u16 \<times> mem8)" where
  "write_extension_list [] m at = Inr (0, m)"
| "write_extension_list (e # es) m at =
     sbind (tls_write_extension (fst e) (of_nat (length (snd e))) (snd e) m at) (\<lambda>(n, m).
     sbind (write_extension_list es m (at + unat n)) (\<lambda>(k, m). Inr (n + k, m)))"

definition write_extensions :: "(u16 \<times> u8 list) list \<Rightarrow> mem8 \<Rightarrow> nat \<Rightarrow> fault + (u16 \<times> mem8)" where
  "write_extensions es m at =
     sbind (write_extension_list es m (start_extensions at)) (\<lambda>(n, m). end_extensions n m (start_extensions at))"

definition extension_bytes :: "u16 \<times> u8 list \<Rightarrow> u8 list" where
  "extension_bytes e = bytes16 (fst e) @ bytes16 (htons (of_nat (length (snd e)))) @ snd e"

abbreviation encoded :: "(u16 \<times> u8 list) list \<Rightarrow> u8 list" where
  "encoded es \<equiv> concat (map extension_bytes es)"

lemma unat_of_nat_u16: "n < 65536 \<Longrightarrow> unat (of_nat n :: u16) = n"
  by (simp add: unsigned_of_nat take_bit_nat_eq_self)

lemma store_bytes_append: "store_bytes (store_bytes m a xs) (a + length xs) ys = store_bytes m a (xs @ ys)"
  by (auto simp: store_bytes_def nth_append fun_eq_iff)

lemma tls_write_extension_bytes:
  assumes "length (snd e) < 65532"
  shows "tls_write_extension (fst e) (of_nat (length (snd e))) (snd e) m at =
    Inr (of_nat (length (extension_bytes e)), store_bytes m at (extension_bytes e))"
  using assms store_bytes_append [of m at "bytes16 (fst e) @ bytes16 (htons (of_nat (length (snd e))))" "snd e"]
  by (simp add: tls_write_extension_def sizeof_tls_extensions_def extension_bytes_def unat_of_nat_u16 add.assoc)

lemma write_extension_list_bytes:
  assumes "length (encoded es) < 65536"
  shows "write_extension_list es m at = Inr (of_nat (length (encoded es)), store_bytes m at (encoded es))"
  using assms
proof (induction es arbitrary: m at)
  case Nil
  then show ?case by (auto simp: store_bytes_def fun_eq_iff)
next
  case (Cons e es)
  have "length (snd e) < 65532" using Cons.prems by (simp add: extension_bytes_def)
  from tls_write_extension_bytes [OF this] Cons.IH Cons.prems
    store_bytes_append [of m at "extension_bytes e" "encoded es"]
  show ?case by (simp add: unat_of_nat_u16)
qed

lemma parse_encoded:
  assumes "length (encoded es) < 65536"
  shows "parse_extension_list (encoded es) = Some (map (\<lambda>e. (bswap16 (fst e), snd e)) es)"
  using assms
proof (induction es)
  case (Cons e es)
  have "unat (of_nat (length (snd e)) :: u16) = length (snd e)"
    using Cons.prems by (simp add: extension_bytes_def unat_of_nat_u16)
  with Cons.IH Cons.prems show ?case
    by (simp add: extension_bytes_def bytes16_def bswap16_def Let_def)
qed simp

text \<open>C37: a block of extensions that the writers produce is a correct RFC 8446 block with the same data,
  but every extension type comes out with its two bytes exchanged: the type is stored as the
  host has it, while the lengths are converted. The block has the returned length, and what
  stands before it is untouched.\<close>

theorem extensions_roundtrip_types_swapped:
  assumes "length (concat (map extension_bytes es)) < 65534"
  shows "\<exists>n m'. write_extensions es m at = Inr (n, m') \<and> unat n = 2 + length (concat (map extension_bytes es)) \<and>
    parse_extensions (read_bytes m' at (unat n)) = Some (map (\<lambda>e. (bswap16 (fst e), snd e)) es) \<and>
    (\<forall>a < at. m' a = m a)"
proof -
  let ?n = "of_nat (length (encoded es)) :: u16"
  let ?m = "store_bytes (store_bytes m (at + 2) (encoded es)) at (bytes16 (htons ?n))"
  have n: "unat ?n = length (encoded es)" using assms by (simp add: unat_of_nat_u16)
  have wrote: "write_extensions es m at = Inr (2 + ?n, ?m)"
    using write_extension_list_bytes [of es m "at + 2"] assms
    by (simp add: write_extensions_def start_extensions_def end_extensions_def sizeof_tls_extensions_msg_def)
  have total: "unat (2 + ?n) = 2 + length (encoded es)" using assms n by (simp add: unat_word_ariths)
  have "read_bytes ?m at (2 + length (encoded es)) = bytes16 (htons ?n) @ encoded es"
    unfolding read_bytes_add by (rule arg_cong2 [where f = append])
      (simp, rule nth_equalityI, simp_all add: store_bytes_def)
  then have "parse_extensions (read_bytes ?m at (unat (2 + ?n))) = parse_extension_list (encoded es)"
    using n total by (simp add: parse_extensions_def bytes16_def bswap16_def)
  with wrote total parse_encoded [of es] assms show ?thesis
    by (intro exI [of _ "2 + ?n"] exI [of _ ?m]) (auto simp: store_bytes_def)
qed

section \<open>What the handshake writers write\<close>

text \<open>A handshake message is left without its length. After \<^verbatim>\<open>start_handshake\<close> at an address and
  any writes behind the header, \<^verbatim>\<open>end_handshake\<close> returns the right total but moves back by the
  size of the header twice: the three length bytes of the message keep what the buffer held,
  and the length goes to the three bytes in front of the message (or, when the message stands
  within the first four bytes of the buffer, in front of the buffer).\<close>

theorem handshake_length_misplaced:
  assumes "start_handshake t m at = (body, m1)" and "\<forall>a < body. m2 a = m1 a"
  shows "if at < 4 then end_handshake n m2 body = Inl Out_of_bounds
    else \<exists>m3. end_handshake n m2 body = Inr (4 + n, m3) \<and> m3 at = t \<and>
      read_bytes m3 (at + 1) 3 = read_bytes m (at + 1) 3 \<and> read_bytes m3 (at - 3) 3 = length24 n"
proof (cases "at < 4")
  case True
  with assms show ?thesis
    by (auto simp: start_handshake_def end_handshake_def sizeof_tls_handshake_msg_def)
next
  case False
  let ?m = "store_bytes m2 (at - 3) (length24 n)"
  have body: "body = at + 4" "m1 = m(at := t)"
    using assms(1) by (auto simp: start_handshake_def sizeof_tls_handshake_msg_def)
  have len: "length (length24 n) = 3" by (simp add: length24_def)
  have "at - 4 + 1 = at - 3" using False by simp
  with body False have run: "end_handshake n m2 body = Inr (4 + n, ?m)"
    by (simp add: end_handshake_def sizeof_tls_handshake_msg_def Let_def)
  have same: "?m (at + i) = m1 (at + i)" if "i < 4" for i
    using that False assms(2) body(1) len by (simp add: store_bytes_outside)
  have "?m at = t" using same [of 0] body(2) by simp
  moreover have "read_bytes ?m (at + 1) 3 = read_bytes m (at + 1) 3"
  proof (rule read_bytes_cong)
    fix i :: nat
    assume "i < 3"
    with same [of "1 + i"] body(2) show "?m (at + 1 + i) = m (at + 1 + i)" by simp
  qed
  ultimately show ?thesis using run len False by simp
qed

lemma read_store_below [simp]: "b + n \<le> a \<Longrightarrow> read_bytes (store_bytes m a bs) b n = read_bytes m b n"
  by (rule nth_equalityI) (auto simp: store_bytes_def)

lemma read_upd_other: "a < b \<or> b + n \<le> a \<Longrightarrow> read_bytes (m(a := x)) b n = read_bytes m b n"
  by (rule nth_equalityI) auto

lemma length24_length [simp]: "length (length24 n) = 3"
  by (simp add: length24_def)

text \<open>The certificate message for one certificate, byte for byte: an empty request context with a
  padding byte, the 24-bit length of the list with a padding byte, the 24-bit length of the
  certificate added to what the buffer held there with a padding byte, the certificate, and
  no extensions. The padding bytes, which RFC 8446 does not have, keep what the buffer held;
  the returned size covers exactly these bytes.\<close>

theorem certificate_message_bytes:
  assumes "length c < 2 ^ 24 - 12" and "tls_write_certificates [c] m at = (n, m')"
  shows "unat n = 12 + length c \<and> read_bytes m' at (unat n) =
    [0, m (at + 1)] @ length24 (of_nat (length c + 6)) @ [m (at + 5)] @
    map2 (+) (read_bytes m (at + 6) 3) (length24 (of_nat (length c))) @ [m (at + 9)] @ c @ [0, 0]"
proof -
  let ?k = "length c"
  define m1 where "m1 = add_bytes (m(at := 0)) (at + 6) (length24 (of_nat ?k))"
  define m2 where "m2 = store_bytes (store_bytes m1 (at + 10) c) (at + 10 + ?k) (bytes16 0)"
  have m': "m' = store_bytes m2 (at + 2) (length24 (of_nat (?k + 6)))" and n: "n = of_nat (?k + 12)"
    using assms(2)
    by (simp_all add: tls_write_certificates_def m1_def m2_def sizeof_certificate_request_context_def
        sizeof_tls_certificate_list_def sizeof_tls_certificate_entry_def Let_def add.commute)
  have un: "unat n = ?k + 12"
    unfolding n unsigned_of_nat using assms(1) by (simp add: take_bit_nat_eq_self)
  have e: "read_bytes m1 (at + 6) 3 = map2 (+) (read_bytes m (at + 6) 3) (length24 (of_nat ?k))"
    by (simp add: m1_def add_bytes_def read_upd_other)
  have one: "read_bytes m1 a 1 = [(m(at := 0)) a]" if "a < at + 6 \<or> at + 9 \<le> a" for a
    using that by (auto simp: m1_def add_bytes_def read_bytes_def store_bytes_def)
  have pads: "read_bytes m1 at 1 = [0]" "read_bytes m1 (at + 1) 1 = [m (at + 1)]"
    "read_bytes m1 (at + 5) 1 = [m (at + 5)]" "read_bytes m1 (at + 9) 1 = [m (at + 9)]"
    using one [of at] one [of "at + 1"] one [of "at + 5"] one [of "at + 9"] by simp_all
  have "read_bytes m' at (1 + 1 + 3 + 1 + 3 + 1 + ?k + 2) =
      [0] @ [m (at + 1)] @ length24 (of_nat (?k + 6)) @ [m (at + 5)] @ read_bytes m1 (at + 6) 3 @
      [m (at + 9)] @ c @ bytes16 0"
    unfolding read_bytes_add
    using pads by (simp add: m' m2_def add.assoc)
  then show ?thesis by (simp add: un e bytes16_def add.commute)
qed

text \<open>Concrete inputs.\<close>

theorem certificate_message_bytes_witness:
  "\<exists>n m'. tls_write_certificates [[9, 8]] (\<lambda>_. 100) 0 = (n, m') \<and> unat n = 14 \<and>
    read_bytes m' 0 14 = [0, 100, 0, 0, 8, 100, 100, 100, 102, 100, 9, 8, 0, 0]"
proof -
  obtain n m' where run: "tls_write_certificates [[9, 8]] (\<lambda>_. 100) 0 = (n, m')" by fastforce
  have "read_bytes (\<lambda>_. 100 :: u8) 6 3 = [100, 100, 100]" by (simp add: read_bytes_def numeral_3_eq_3)
  then show ?thesis using certificate_message_bytes [OF _ run] run by (auto simp: length24_def)
qed

theorem handshake_length_misplaced_witness:
  "end_handshake 7 ((\<lambda>_. 0)(2 := 11)) 6 = Inl Out_of_bounds \<and>
   (\<exists>m3. end_handshake 7 ((\<lambda>_. 0)(6 := 11)) 10 = Inr (11, m3) \<and> m3 6 = 11 \<and>
     read_bytes m3 7 3 = [0, 0, 0] \<and> read_bytes m3 3 3 = [0, 0, 7])"
proof -
  have start: "start_handshake 11 (\<lambda>_. 0) at = (at + 4, (\<lambda>_. 0)(at := 11))" for at
    by (simp add: start_handshake_def sizeof_tls_handshake_msg_def)
  have "read_bytes (\<lambda>_. 0 :: u8) 7 3 = [0, 0, 0]" by (simp add: read_bytes_def numeral_3_eq_3)
  with handshake_length_misplaced [OF start, of 2 "(\<lambda>_. 0)(2 := 11)" 7]
    handshake_length_misplaced [OF start, of 6 "(\<lambda>_. 0)(6 := 11)" 7]
  show ?thesis by (simp add: length24_def)
qed

theorem extensions_roundtrip_types_swapped_witness:
  "\<exists>n m'. write_extensions [(TLS_EXTENSION_SUPPORTED_VERSIONS, [3, 4])] (\<lambda>_. 0) 5 = Inr (n, m') \<and>
    parse_extensions (read_bytes m' 5 8) = Some [(0x2B00, [3, 4])]"
proof -
  have len: "length (concat (map extension_bytes [(TLS_EXTENSION_SUPPORTED_VERSIONS, [3, 4])])) = 6"
    by (simp add: extension_bytes_def)
  have swap: "bswap16 TLS_EXTENSION_SUPPORTED_VERSIONS = 0x2B00"
    by (simp add: TLS_EXTENSION_SUPPORTED_VERSIONS_def bswap16_def join16_def)
  show ?thesis
    using extensions_roundtrip_types_swapped [of "[(TLS_EXTENSION_SUPPORTED_VERSIONS, [3, 4])]" "\<lambda>_. 0" 5]
    unfolding len by (auto simp: swap)
qed

text \<open>A packet that starts with a handshake record of 65530 bytes.\<close>

definition example_tls_packet :: in_packet_stack_t where
  "example_tls_packet =
     \<lparr>in_handlers = replicate 10 None, return_args = replicate 10 None,
      packet_pointers = (replicate 10 None)[0 := Some 0],
      in_frame = mem_of [22, 3, 3, 255, 250], in_stack_idx = 0\<rparr>"

theorem tls_read_hangs_iff_witness:
  "tls_read (\<lambda>m pos priv. priv + 1) (H_custom 0) 0 (0 :: nat)
     \<lparr>in_stacks = (\<lambda>_. Some example_tls_packet), out_stacks = [], malloc_bytes = (\<lambda>_ _. 0)\<rparr> = Inl No_return"
proof -
  let ?s = "\<lparr>in_stacks = (\<lambda>_. Some example_tls_packet), out_stacks = [], malloc_bytes = (\<lambda>_ _. 0)\<rparr> :: net_mem"
  have ps: "in_at ?s 0 = Inr example_tls_packet" "packet_pointers example_tls_packet ! unat (in_stack_idx example_tls_packet) = Some 0"
    "unat (in_stack_idx example_tls_packet) < length (in_handlers example_tls_packet)"
    "unat (in_stack_idx example_tls_packet) < length (packet_pointers example_tls_packet)"
    by (simp_all add: in_at_def example_tls_packet_def)
  have len: "rec_length (load_tls_record (in_frame example_tls_packet) 0) = 0xFAFF"
    by (simp add: load_tls_record_def example_tls_packet_def load16_def join16_def mem_of_def)
  then have full: "full_record_length (in_frame example_tls_packet) 0 = 0" "ntohs 0xFAFF = (65530 :: u16)"
    by (simp_all add: full_record_length_zero bswap16_def join16_def)
  have "more_records (in_frame example_tls_packet) 0 8889"
    using full(1) by (simp add: more_records_def sizeof_tls_record_def example_tls_packet_def
        TLS_RECORD_CONTENT_TYPE_HANDSHAKE_def mem_of_def)
  then have "\<exists>k pos left. nth_record k (in_frame example_tls_packet) 0 8889 = Some (pos, left) \<and>
      more_records (in_frame example_tls_packet) pos left \<and>
      ntohs (rec_length (load_tls_record (in_frame example_tls_packet) pos)) = 65530"
    using len full(2) by (intro exI [of _ 0] exI [of _ 0] exI [of _ 8889]) simp
  then show ?thesis using tls_read_hangs_iff [OF ps(1,3,4,2), of "\<lambda>m pos priv. priv + 1" "H_custom 0" 0] by blast
qed

end
