(* ===== verification/Dhcp.thy ===== *)
theory Dhcp
  imports Packet_Stack
begin

text \<open>
  \<^verbatim>\<open>handlers/dhcp/dhcp.c\<close>: the parser of DHCP options and the reception of a message.

  \<^verbatim>\<open>handle_reply\<close> has no body that compiles; it is the parameter \<open>handle_reply\<close> of \<open>dhcp_read\<close>.
  The options are the array of 312 bytes at the end of the message; a pointer to an option
  is its index. An access behind the array is a fault.
\<close>

section \<open>Data\<close>

definition DHCP_OPCODE_BOOTREQUEST :: u8 where "DHCP_OPCODE_BOOTREQUEST = 1"
definition DHCP_OPCODE_BOOTREPLY :: u8 where "DHCP_OPCODE_BOOTREPLY = 2"
definition DHCP_HTYPE_ETHERNET :: u8 where "DHCP_HTYPE_ETHERNET = 1"
definition DHCP_HLEN_ETHERNET :: u8 where "DHCP_HLEN_ETHERNET = 6"
definition DHCP_OPTION_MESSAGE_TYPE :: u8 where "DHCP_OPTION_MESSAGE_TYPE = 53"
definition DHCP_OPTION_REQUESTED_IP :: u8 where "DHCP_OPTION_REQUESTED_IP = 50"
definition DHCP_OPTION_SERVER_IDENTIFIER :: u8 where "DHCP_OPTION_SERVER_IDENTIFIER = 54"
definition DHCP_OPTION_PARAMETER_REQUEST_LIST :: u8 where "DHCP_OPTION_PARAMETER_REQUEST_LIST = 55"
definition DHCP_OPTION_END :: u8 where "DHCP_OPTION_END = 255"
definition DHCP_MAX_OPTIONS_SIZE :: nat where "DHCP_MAX_OPTIONS_SIZE = 312"

lemmas dhcp_constants = DHCP_OPTION_MESSAGE_TYPE_def DHCP_OPTION_REQUESTED_IP_def DHCP_OPTION_SERVER_IDENTIFIER_def
  DHCP_OPTION_PARAMETER_REQUEST_LIST_def DHCP_OPTION_END_def DHCP_MAX_OPTIONS_SIZE_def

record dhcp_options =
  dhcp_message_type :: "nat option"
  requested_ip :: "nat option"
  server_identifier :: "nat option"
  parameter_request_list :: "nat option"
  ip_address_lease_time :: "nat option"
  renewal_time :: "nat option"
  rebinding_time :: "nat option"
  subnet_mask :: "nat option"
  router :: "nat option"
  broadcast_address :: "nat option"
  dns_servers :: "nat option"
  domain_name :: "nat option"
  end_option :: "nat option"

record dhcp_header_t =
  dh_op :: u8
  dh_htype :: u8
  dh_hlen :: u8
  dh_hops :: u8
  dh_xid :: u32
  dh_secs :: u16
  dh_flags :: u16
  dh_ciaddr :: u32
  dh_yiaddr :: u32
  dh_siaddr :: u32
  dh_giaddr :: u32
  dh_chaddr :: "u8 list"
  dh_sname :: "u8 list"
  dh_file :: "u8 list"
  dh_options :: "u8 list"

definition load_dhcp_header :: "mem8 \<Rightarrow> nat \<Rightarrow> dhcp_header_t" where
  "load_dhcp_header m a =
     \<lparr>dh_op = m a, dh_htype = m (a + 1), dh_hlen = m (a + 2), dh_hops = m (a + 3),
      dh_xid = load32 m (a + 4), dh_secs = load16 m (a + 8), dh_flags = load16 m (a + 10),
      dh_ciaddr = load32 m (a + 12), dh_yiaddr = load32 m (a + 16), dh_siaddr = load32 m (a + 20),
      dh_giaddr = load32 m (a + 24), dh_chaddr = read_bytes m (a + 28) 16, dh_sname = read_bytes m (a + 44) 64,
      dh_file = read_bytes m (a + 108) 128, dh_options = read_bytes m (a + 236) 312\<rparr>"

section \<open>The option parser\<close>

definition record_option :: "u8 \<Rightarrow> nat \<Rightarrow> dhcp_options \<Rightarrow> dhcp_options" where
  "record_option option_type tlv_option d =
     (if option_type = DHCP_OPTION_MESSAGE_TYPE then d\<lparr>dhcp_message_type := Some tlv_option\<rparr>
      else if option_type = DHCP_OPTION_REQUESTED_IP then d\<lparr>requested_ip := Some tlv_option\<rparr>
      else if option_type = DHCP_OPTION_SERVER_IDENTIFIER then d\<lparr>server_identifier := Some tlv_option\<rparr>
      else if option_type = DHCP_OPTION_PARAMETER_REQUEST_LIST then d\<lparr>parameter_request_list := Some tlv_option\<rparr>
      else d)"

text \<open>
  The loop. The index is a \<^verbatim>\<open>uint16_t\<close> below 570 in every round, so it does not wrap. It
  grows in every round but the last.
\<close>

function parse_options_loop :: "u8 list \<Rightarrow> nat \<Rightarrow> dhcp_options \<Rightarrow> fault + dhcp_options" where
  "parse_options_loop options i d =
     (if DHCP_MAX_OPTIONS_SIZE \<le> i then Inr d
      else sbind (idx options i) (\<lambda>option_type.
        if option_type = DHCP_OPTION_END then Inr (d\<lparr>end_option := Some i\<rparr>)
        else
          sbind (idx options (i + 1)) (\<lambda>len.
          let d = record_option option_type i d in
          if len = 0 then Inr d
          else parse_options_loop options (i + 2 + unat len) d)))"
  by pat_completeness auto

termination
  by (relation "measure (\<lambda>(options, i, d). DHCP_MAX_OPTIONS_SIZE - i)") auto

declare parse_options_loop.simps [simp del]

definition parse_options :: "u8 list \<Rightarrow> dhcp_options \<Rightarrow> fault + dhcp_options" where
  "parse_options options d = parse_options_loop options 4 d"

section \<open>Reception\<close>

definition dhcp_read ::
  "(dhcp_header_t \<Rightarrow> 'a net_mem_scheme \<Rightarrow> u16 \<times> 'a net_mem_scheme) \<Rightarrow> handler \<Rightarrow> nat \<Rightarrow> 'a net_mem_scheme \<Rightarrow>
   fault + (u16 \<times> 'a net_mem_scheme)" where
  "dhcp_read handle_reply h p s =
     sbind (in_at s p) (\<lambda>ps.
     sbind (upd (in_handlers ps) (unat (in_stack_idx ps)) (Some h)) (\<lambda>hs.
     sbind (idx (packet_pointers ps) (unat (in_stack_idx ps))) (\<lambda>ptr.
     sbind (deref ptr) (\<lambda>a.
     let s = put_in p (ps\<lparr>in_handlers := hs, in_stack_idx := in_stack_idx ps + 1\<rparr>) s;
         packet = load_dhcp_header (in_frame ps) a in
     if dh_htype packet \<noteq> DHCP_HTYPE_ETHERNET then Inr (1, s)
     else if dh_hlen packet \<noteq> DHCP_HLEN_ETHERNET then Inr (2, s)
     else if dh_op packet \<noteq> DHCP_OPCODE_BOOTREQUEST then Inr (0, s)
     else if dh_op packet \<noteq> DHCP_OPCODE_BOOTREPLY then Inr (handle_reply packet s)
     else Inr (3, s)))))"

section \<open>Well-formed options\<close>

text \<open>The bytes of options: a type, the length of the value, the value.\<close>

definition option_bytes :: "u8 \<times> u8 list \<Rightarrow> u8 list" where
  "option_bytes e = fst e # of_nat (length (snd e)) # snd e"

definition wf_option :: "u8 \<times> u8 list \<Rightarrow> bool" where
  "wf_option e \<longleftrightarrow> fst e \<noteq> DHCP_OPTION_END \<and> 0 < length (snd e) \<and> length (snd e) < 256"

text \<open>What a sequence of options that starts at an index leaves in the structure.\<close>

primrec record_all :: "(u8 \<times> u8 list) list \<Rightarrow> nat \<Rightarrow> dhcp_options \<Rightarrow> dhcp_options" where
  "record_all [] i d = d"
| "record_all (e # es) i d = record_all es (i + length (option_bytes e)) (record_option (fst e) i d)"

text \<open>The index of the last option of a type.\<close>

primrec last_of :: "u8 \<Rightarrow> (u8 \<times> u8 list) list \<Rightarrow> nat \<Rightarrow> nat option" where
  "last_of t [] i = None"
| "last_of t (e # es) i =
     (case last_of t es (i + length (option_bytes e)) of
        Some a \<Rightarrow> Some a
      | None \<Rightarrow> if fst e = t then Some i else None)"

definition or_else :: "'b option \<Rightarrow> 'b option \<Rightarrow> 'b option" where
  "or_else x y = (case x of None \<Rightarrow> y | Some _ \<Rightarrow> x)"

lemma or_else_simps [simp]: "or_else None y = y" "or_else (Some a) y = Some a"
  by (simp_all add: or_else_def)

lemma record_all_fields:
  "dhcp_message_type (record_all es i d) = or_else (last_of DHCP_OPTION_MESSAGE_TYPE es i) (dhcp_message_type d)"
  "requested_ip (record_all es i d) = or_else (last_of DHCP_OPTION_REQUESTED_IP es i) (requested_ip d)"
  "server_identifier (record_all es i d) = or_else (last_of DHCP_OPTION_SERVER_IDENTIFIER es i) (server_identifier d)"
  "parameter_request_list (record_all es i d) =
     or_else (last_of DHCP_OPTION_PARAMETER_REQUEST_LIST es i) (parameter_request_list d)"
  by (induction es arbitrary: i d)
    (auto simp: record_option_def dhcp_constants split: option.split)

lemma length_option_bytes [simp]: "length (option_bytes e) = length (snd e) + 2"
  by (simp add: option_bytes_def)

lemma unat_of_nat_length: "length v < 256 \<Longrightarrow> unat (of_nat (length v) :: u8) = length v"
  by (simp add: unsigned_of_nat take_bit_nat_eq_self)

text \<open>The parser walks over well-formed options and records each.\<close>

lemma parse_well_formed:
  assumes "list_all wf_option es" and "options = pre @ concat (map option_bytes es) @ post"
    and "length options = DHCP_MAX_OPTIONS_SIZE"
  shows "parse_options_loop options (length pre) d =
    parse_options_loop options (length pre + length (concat (map option_bytes es))) (record_all es (length pre) d)"
  using assms
proof (induction es arbitrary: pre d)
  case (Cons e es)
  have wf: "wf_option e" and wfs: "list_all wf_option es" using Cons.prems(1) by simp_all
  have n: "unat (of_nat (length (snd e)) :: u8) = length (snd e)"
    using wf unat_of_nat_length [of "snd e"] by (simp add: wf_option_def)
  with wf have n0: "(of_nat (length (snd e)) :: u8) \<noteq> 0" by (auto simp: wf_option_def simp flip: unat_eq_0)
  have opts: "options = (pre @ option_bytes e) @ concat (map option_bytes es) @ post"
    using Cons.prems(2) by simp
  have len: "length pre + 1 < length options" using Cons.prems(2) by (simp add: option_bytes_def)
  have "options ! length pre = fst e" "options ! (length pre + 1) = of_nat (length (snd e))"
    unfolding opts by (simp_all add: nth_append option_bytes_def)
  with len n n0 wf Cons.prems(3)
  have "parse_options_loop options (length pre) d =
      parse_options_loop options (length (pre @ option_bytes e)) (record_option (fst e) (length pre) d)"
    by (subst parse_options_loop.simps) (simp add: wf_option_def Let_def add.commute)
  also have "\<dots> = parse_options_loop options (length (pre @ option_bytes e) + length (concat (map option_bytes es)))
      (record_all es (length (pre @ option_bytes e)) (record_option (fst e) (length pre) d))"
    by (rule Cons.IH [OF wfs opts Cons.prems(3)])
  finally show ?case by (simp add: add.assoc)
qed simp

text \<open>C28: on options that are well formed up to an End option, the parser returns, and each pointer it
  sets is to the last option of its type; the end pointer is to the End option. Pointers of
  types that do not occur are as before.\<close>

theorem parse_options_finds_last:
  assumes "list_all wf_option es" and "length magic = 4"
    and "options = magic @ concat (map option_bytes es) @ DHCP_OPTION_END # rest"
    and "length options = DHCP_MAX_OPTIONS_SIZE"
  shows "\<exists>d'. parse_options options d = Inr d' \<and>
    dhcp_message_type d' = or_else (last_of DHCP_OPTION_MESSAGE_TYPE es 4) (dhcp_message_type d) \<and>
    requested_ip d' = or_else (last_of DHCP_OPTION_REQUESTED_IP es 4) (requested_ip d) \<and>
    server_identifier d' = or_else (last_of DHCP_OPTION_SERVER_IDENTIFIER es 4) (server_identifier d) \<and>
    parameter_request_list d' =
      or_else (last_of DHCP_OPTION_PARAMETER_REQUEST_LIST es 4) (parameter_request_list d) \<and>
    end_option d' = Some (4 + length (concat (map option_bytes es)))"
proof -
  let ?j = "4 + length (concat (map option_bytes es))"
  have "?j < length options" "options ! ?j = DHCP_OPTION_END" using assms(2) by (simp_all add: assms(3) nth_append)
  then have "parse_options_loop options ?j (record_all es 4 d) =
      Inr ((record_all es 4 d)\<lparr>end_option := Some ?j\<rparr>)"
    using assms(4) by (subst parse_options_loop.simps) simp
  with parse_well_formed [OF assms(1,3,4), of d] assms(2)
  have "parse_options options d = Inr ((record_all es 4 d)\<lparr>end_option := Some ?j\<rparr>)"
    by (simp add: parse_options_def)
  then show ?thesis by (simp add: record_all_fields)
qed

text \<open>A Pad option hides everything behind it: RFC 2132 gives Pad no length byte, but the parser
  reads the next byte as its length, and a length of zero ends the loop. Two Pad options in a
  row after well-formed options leave exactly what those options set, whatever follows, and
  the End option is not found.\<close>

theorem pad_hides_options:
  assumes "list_all wf_option es" and "length magic = 4"
    and "options = magic @ concat (map option_bytes es) @ 0 # 0 # rest"
    and "length options = DHCP_MAX_OPTIONS_SIZE"
  shows "parse_options options d = Inr (record_all es 4 d)"
proof -
  let ?j = "4 + length (concat (map option_bytes es))"
  have "?j + 1 < length options" "options ! ?j = 0" "options ! (?j + 1) = 0"
    using assms(2) by (simp_all add: assms(3) nth_append)
  then have "parse_options_loop options ?j (record_all es 4 d) = Inr (record_all es 4 d)"
    using assms(4) by (subst parse_options_loop.simps) (simp add: record_option_def dhcp_constants)
  with parse_well_formed [OF assms(1,3,4), of d] assms(2) show ?thesis by (simp add: parse_options_def)
qed

section \<open>Bounds\<close>

text \<open>The indices at which the parser looks for an option.\<close>

inductive looks_at :: "u8 list \<Rightarrow> nat \<Rightarrow> bool" for options where
  looks_first: "looks_at options 4"
| looks_next: "looks_at options i \<Longrightarrow> i + 1 < DHCP_MAX_OPTIONS_SIZE \<Longrightarrow> options ! i \<noteq> DHCP_OPTION_END \<Longrightarrow>
    options ! (i + 1) \<noteq> 0 \<Longrightarrow> looks_at options (i + 2 + unat (options ! (i + 1)))"

lemma parse_fault_iff:
  assumes "length options = DHCP_MAX_OPTIONS_SIZE" and "looks_at options i"
  shows "(\<exists>e. parse_options_loop options i d = Inl e) \<longrightarrow> looks_at options 311 \<and> options ! 311 \<noteq> DHCP_OPTION_END"
  using assms
proof (induction options i d rule: parse_options_loop.induct)
  case (1 options i d)
  let ?len = "options ! (i + 1)"
  show ?case
  proof (cases "i + 1 < DHCP_MAX_OPTIONS_SIZE \<and> options ! i \<noteq> DHCP_OPTION_END \<and> ?len \<noteq> 0")
    case True
    with "1.prems" have "looks_at options (i + 2 + unat ?len)" by (blast intro: looks_next)
    with True "1.IH" [OF _ _ _ _ refl] "1.prems"(1) show ?thesis
      by (subst parse_options_loop.simps) (simp add: Let_def)
  next
    case False
    then have "i = 311" if "parse_options_loop options i d = Inl e" for e
      using that "1.prems"(1)
      by (subst (asm) parse_options_loop.simps)
        (auto simp: idx_def Let_def DHCP_MAX_OPTIONS_SIZE_def split: if_split_asm)
    moreover have "options ! 311 \<noteq> DHCP_OPTION_END" if "parse_options_loop options 311 d = Inl e" for e
      using that "1.prems"(1)
      by (subst (asm) parse_options_loop.simps) (auto simp: DHCP_MAX_OPTIONS_SIZE_def)
    ultimately show ?thesis using "1.prems"(2) by blast
  qed
qed

lemma looks_at_parsed:
  assumes "length options = DHCP_MAX_OPTIONS_SIZE" and "looks_at options i"
  shows "\<exists>d'. parse_options_loop options 4 d = parse_options_loop options i d'"
  using assms(2)
proof (induction rule: looks_at.induct)
  case (looks_next i)
  then obtain d' where "parse_options_loop options 4 d = parse_options_loop options i d'" by blast
  also have "\<dots> = parse_options_loop options (i + 2 + unat (options ! (i + 1))) (record_option (options ! i) i d')"
    using looks_next.hyps assms(1) by (subst parse_options_loop.simps) (simp add: Let_def)
  finally show ?case by blast
qed blast

text \<open>C38: the parser always returns, and it stays inside the 312 bytes of options except in one case: when
  an option that is not End starts at the last byte, it reads that option's length behind the
  array.\<close>

theorem parse_options_overread_iff:
  assumes "length options = DHCP_MAX_OPTIONS_SIZE"
  shows "if looks_at options 311 \<and> options ! 311 \<noteq> DHCP_OPTION_END
    then parse_options options d = Inl Out_of_bounds else \<exists>d'. parse_options options d = Inr d'"
proof (cases "looks_at options 311 \<and> options ! 311 \<noteq> DHCP_OPTION_END")
  case True
  then obtain d' where "parse_options options d = parse_options_loop options 311 d'"
    using looks_at_parsed [OF assms] unfolding parse_options_def by blast
  also have "\<dots> = Inl Out_of_bounds"
    using True assms by (subst parse_options_loop.simps) (simp add: DHCP_MAX_OPTIONS_SIZE_def)
  finally show ?thesis using True by simp
next
  case False
  with parse_fault_iff [OF assms looks_first, of d] show ?thesis
    by (cases "parse_options options d") (auto simp: parse_options_def)
qed

section \<open>Examples\<close>

definition no_options :: dhcp_options where
  "no_options =
     \<lparr>dhcp_message_type = None, requested_ip = None, server_identifier = None, parameter_request_list = None,
      ip_address_lease_time = None, renewal_time = None, rebinding_time = None, subnet_mask = None, router = None,
      broadcast_address = None, dns_servers = None, domain_name = None, end_option = None\<rparr>"

theorem parse_options_finds_last_witness:
  "\<exists>d'. parse_options ([99, 130, 83, 99] @ [53, 1, 5, 54, 4, 10, 0, 0, 1, 53, 1, 6] @ 255 # replicate 295 0) no_options = Inr d' \<and>
    dhcp_message_type d' = Some 13 \<and> server_identifier d' = Some 7 \<and> requested_ip d' = None \<and> end_option d' = Some 16"
  using parse_options_finds_last [of "[(53, [5]), (54, [10, 0, 0, 1]), (53, [6])]" "[99, 130, 83, 99]" _ "replicate 295 0" no_options]
  by (simp add: wf_option_def option_bytes_def dhcp_constants no_options_def) blast

theorem pad_hides_options_witness:
  "parse_options ([99, 130, 83, 99] @ [53, 1, 5] @ 0 # 0 # [54, 4, 10, 0, 0, 1, 255] @ replicate 296 0) no_options =
    Inr (no_options\<lparr>dhcp_message_type := Some 4\<rparr>)"
  using pad_hides_options [of "[(53, [5])]" "[99, 130, 83, 99]" _ "[54, 4, 10, 0, 0, 1, 255] @ replicate 296 0" no_options]
  by (simp add: wf_option_def option_bytes_def dhcp_constants record_option_def)

text \<open>Two options of 255 and 52 bytes, and one that starts at the last byte.\<close>

definition example_options :: "u8 list" where
  "example_options = [99, 130, 83, 99] @ [7, 253] @ replicate 253 0 @ [7, 50] @ replicate 50 0 @ [7]"

theorem parse_options_overread_iff_witness:
  "length example_options = 312 \<and> parse_options example_options no_options = Inl Out_of_bounds"
proof -
  have len: "length example_options = DHCP_MAX_OPTIONS_SIZE"
    by (simp add: example_options_def DHCP_MAX_OPTIONS_SIZE_def)
  have nths: "example_options ! 4 = 7" "example_options ! (4 + 1) = 253" "example_options ! 259 = 7"
    "example_options ! (259 + 1) = 50" "example_options ! 311 = 7"
    by (simp_all add: example_options_def nth_append)
  have "looks_at example_options (4 + 2 + unat (example_options ! (4 + 1)))"
    by (rule looks_next [OF looks_first]) (use nths in \<open>simp_all add: dhcp_constants\<close>)
  then have "looks_at example_options 259" using nths by simp
  from looks_next [OF this] nths have "looks_at example_options 311" by (simp add: dhcp_constants)
  with parse_options_overread_iff [OF len, of no_options] nths len show ?thesis by (simp add: dhcp_constants)
qed

end
