(* ===== verification/Arp_Program.thy ===== *)
theory Arp_Program
  imports Net_Stack
begin

text \<open>
  \<^verbatim>\<open>programs/arp/arp.c\<close>: the program that watches ARP and prints the resolution list, with its
  function \<^verbatim>\<open>arp_spoof\<close>, which announces this host's own address.

  A line that \<^verbatim>\<open>arp_status\<close> prints is the index, the address handed to \<^verbatim>\<open>inet_ntoa\<close> and the
  hardware address. When the resolution list is full the count of entries is what the
  allocation held, the parameter \<open>raw\<close>.
\<close>

section \<open>Operations\<close>

definition ARP_PRO_TYPE_IPV4 :: u16 where "ARP_PRO_TYPE_IPV4 = 2048"
definition IPV4_ADDR_SIZE :: u8 where "IPV4_ADDR_SIZE = 4"

definition arp_spoof_header :: "interface_t \<Rightarrow> arp_header_t" where
  "arp_spoof_header ifc =
     \<lparr>hdw_type = ARP_HDW_TYPE_ETHERNET, pro_type = ARP_PRO_TYPE_IPV4,
      hdw_addr_length = of_nat ETHERNET_MAC_SIZE, pro_addr_length = IPV4_ADDR_SIZE,
      operation = ARP_OPERATION_REQUEST,
      sender_hardware_addr = mac ifc, sender_protocol_addr = ipv4_addr ifc,
      target_hardware_addr = replicate 6 0, target_protocol_addr = ipv4_addr ifc\<rparr>"

definition arp_spoof ::
  "'a net_mem_scheme writer \<Rightarrow> interface_t \<Rightarrow> arp_socket_t \<Rightarrow> 'a net_mem_scheme \<Rightarrow>
   fault + (bool \<times> 'a net_mem_scheme)" where
  "arp_spoof wr ifc socket s =
     arp_socket_send wr H_arp socket
       \<lparr>ca_handlers = [Some H_ethernet, Some H_arp] @ replicate 8 None,
        ca_handler_args = [Some (Ethernet_args \<lparr>ea_destination = mac ifc, ea_ethernet_type = ETHERNET_TYPE_ARP\<rparr>),
          Some (Arp_args (arp_spoof_header ifc))] @ replicate 8 None,
        ca_depth = 2\<rparr> s"

primrec print_entries :: "arp_entry_t list \<Rightarrow> nat \<Rightarrow> nat \<Rightarrow> fault + (nat \<times> u32 \<times> u8 list) list" where
  "print_entries entries i 0 = Inr []"
| "print_entries entries i (Suc n) =
     sbind (idx entries i) (\<lambda>entry.
     sbind (print_entries entries (Suc i) n) (\<lambda>lines.
       Inr ((i, htonl (ae_ipv4 entry), ae_mac entry) # lines)))"

definition arp_status :: "u16 \<Rightarrow> 'a arp_mem_scheme \<Rightarrow> fault + (nat \<times> u32 \<times> u8 list) list" where
  "arp_status raw s =
     (let status = arp_socket_status s;
          n = (case st_num_arp_entries status of Some n \<Rightarrow> n | None \<Rightarrow> raw)
      in print_entries (st_entries status) 0 (unat n))"

text \<open>
  The thread: it installs a watching socket and prints the list once per round; the elements
  are the states it finds, the first when it starts.
\<close>

definition arp_thread_start :: "interface_t \<Rightarrow> 'a arp_mem_scheme \<Rightarrow> 'a arp_mem_scheme" where
  "arp_thread_start ifc s = arp_set_socket (Some (arp_create_socket None ifc True)) s"

primrec arp_thread_rounds :: "u16 \<Rightarrow> 'a arp_mem_scheme list \<Rightarrow> fault + (nat \<times> u32 \<times> u8 list) list list" where
  "arp_thread_rounds raw [] = Inr []"
| "arp_thread_rounds raw (s # ss) =
     sbind (arp_status raw s) (\<lambda>lines. sbind (arp_thread_rounds raw ss) (\<lambda>rest. Inr (lines # rest)))"

section \<open>What the program prints\<close>

lemma status_scan_entries:
  "length es + unat i < 65536 \<Longrightarrow> arp_status_scan (map Some es @ replicate n None) i =
     \<lparr>st_entries = es, st_num_arp_entries = (if n = 0 then None else Some (i + of_nat (length es)))\<rparr>"
proof (induction es arbitrary: i)
  case Nil
  then show ?case by (cases n) simp_all
next
  case (Cons e es)
  have "unat (i + 1) = unat i + 1" using Cons.prems by (simp add: unat_word_ariths)
  with Cons show ?case by (simp add: Let_def add.assoc)
qed

lemma print_entries_all:
  "i + n \<le> length es \<Longrightarrow> print_entries es i n =
     Inr (map (\<lambda>j. (j, htonl (ae_ipv4 (es ! j)), ae_mac (es ! j))) [i..<i + n])"
  by (induction n arbitrary: i) (simp_all add: upt_rec)

lemma print_entries_over: "length es < i + n \<Longrightarrow> i \<le> length es \<Longrightarrow> print_entries es i n = Inl Out_of_bounds"
proof (induction n arbitrary: i)
  case (Suc n)
  show ?case
  proof (cases "i < length es")
    case True
    with Suc.IH [of "Suc i"] Suc.prems show ?thesis by simp
  next
    case False
    with Suc.prems show ?thesis by simp
  qed
qed simp

text \<open>The program prints the whole table of learnt addresses, one line per host and in the order they
  were learnt, but every address with its bytes reversed (it is converted although it is kept
  in network order). When the table has all 256 slots in use the number of lines is whatever
  the allocation held, and a value above 256 makes it read behind the entries.\<close>

theorem arp_status_prints_table:
  fixes s :: "'a arp_mem_scheme"
  defines "l \<equiv> resolution_list s"
  assumes "arp_invar l"
  shows "if card (dom (arp_table l)) < 256
    then arp_status raw s = Inr (map (\<lambda>j. (j, htonl (ae_ipv4 (arp_entries l ! j)), ae_mac (arp_entries l ! j)))
        [0..<card (dom (arp_table l))]) \<and>
      (\<forall>ip a. arp_table l ip = Some a \<longleftrightarrow> (\<exists>j < card (dom (arp_table l)).
        ae_ipv4 (arp_entries l ! j) = ip \<and> ae_mac (arp_entries l ! j) = a))
    else 256 < unat raw \<longrightarrow> arp_status raw s = Inl Out_of_bounds"
proof -
  let ?es = "arp_entries l"
  have rep: "rl_list l = map Some ?es @ replicate (256 - length ?es) None" and le: "length ?es \<le> 256"
    and dist: "distinct (map ae_ipv4 ?es)" using assms(2) by (auto simp: arp_invar_def)
  have card: "card (dom (arp_table l)) = length ?es" using card_dom_arp_table [OF assms(2)] .
  have "arp_status_scan (map Some ?es @ replicate (256 - length ?es) None) 0 = \<lparr>st_entries = ?es,
      st_num_arp_entries = (if 256 - length ?es = 0 then None else Some (0 + of_nat (length ?es)))\<rparr>"
    by (rule status_scan_entries) (use le in simp)
  then have st: "arp_socket_status s = \<lparr>st_entries = ?es,
      st_num_arp_entries = (if length ?es < 256 then Some (of_nat (length ?es)) else None)\<rparr>"
    unfolding arp_socket_status_def l_def [symmetric] using rep by simp
  have tab: "arp_table l ip = Some a \<longleftrightarrow> (\<exists>j < length ?es. ae_ipv4 (?es ! j) = ip \<and> ae_mac (?es ! j) = a)" for ip a
  proof -
    have "distinct (map fst (map entry_pair ?es))" using dist by (simp add: o_def entry_pair_def)
    then have "arp_table l ip = Some a \<longleftrightarrow> (\<exists>e \<in> set ?es. ae_ipv4 e = ip \<and> ae_mac e = a)"
      by (auto simp: arp_table_def entry_pair_def image_iff)
    then show ?thesis by (metis in_set_conv_nth)
  qed
  show ?thesis
  proof (cases "length ?es < 256")
    case True
    then have "unat (of_nat (length ?es) :: u16) = length ?es" by (simp add: unsigned_of_nat take_bit_nat_eq_self)
    with True st card tab print_entries_all [of 0 "length ?es" ?es] show ?thesis by (simp add: arp_status_def)
  next
    case False
    with le st card print_entries_over [of ?es 0 "unat raw"] show ?thesis by (simp add: arp_status_def)
  qed
qed

section \<open>The announcement\<close>

text \<open>\<^verbatim>\<open>arp_spoof\<close> sends exactly one frame, to this host's own address, and the two type fields in it
  are in host order: the EtherType is sent as 0x0608 and the protocol type as 0x0008, which no
  receiver takes for ARP over IPv4.\<close>

theorem arp_spoof_frame:
  fixes s :: "'a stack_mem_scheme"
  assumes "length (mac ifc) = 6" and "as_interface socket = ifc" and "2 \<le> n"
  shows "\<exists>s'. arp_spoof (op_write n) ifc socket s = Inr (True, s') \<and>
    wire s' = wire s @ [mac ifc @ mac ifc @ [6, 8] @ [0, 1, 0, 8, 6, 4, 0, 1] @ mac ifc @ bytes32 (ipv4_addr ifc) @
      replicate 6 0 @ bytes32 (ipv4_addr ifc)]"
proof -
  let ?e = "\<lparr>ea_destination = mac ifc, ea_ethernet_type = ETHERNET_TYPE_ARP\<rparr>"
  let ?hs = "[Some H_ethernet, Some H_arp] @ replicate 8 None"
  let ?as = "[Some (Ethernet_args ?e), Some (Arp_args (arp_spoof_header ifc))] @ replicate 8 None"
  obtain k where n: "n = Suc (Suc k)" using assms(3) by (auto simp: numeral_eq_Suc Suc_le_eq less_iff_Suc_add)
  obtain out s2 where new: "new_out_stack ?hs ?as DEFAULT_PACKAGE_BUFFER_SIZE 1 s = (out, s2)" by (metis surj_pair)
  have lens: "length ?hs = 10" "length ?as = 10" by simp_all
  obtain qs where qs: "out_at s2 out = Inr qs" "wf_out qs" "out_stack_idx qs = 1" "out_args qs = ?as"
    "out_handlers qs = ?hs" "ob_offset (out_buffer qs) = DEFAULT_PACKAGE_BUFFER_SIZE" "frame_of qs = []"
    and s2: "s2 = s\<lparr>out_stacks := out_stacks s2\<rparr>"
    and "ob_size (out_buffer qs) = DEFAULT_PACKAGE_BUFFER_SIZE"
    by (rule new_out_stack_at [OF new lens])
  have w: "wire s2 = wire s" by (subst s2) simp
  have len: "length (sender_hardware_addr (arp_spoof_header ifc)) = 6"
    "length (target_hardware_addr (arp_spoof_header ifc)) = 6"
    using assms(1) by (simp_all add: arp_spoof_header_def)
  have "op_write n H_arp out ifc s2 = Inr (True, (put_out out (push_bytes (eth_bytes ?e ifc)
      (push_layer (arp_header_bytes (arp_spoof_header ifc)) qs)) s2)
      \<lparr>wire := wire s2 @ [eth_bytes ?e ifc @ arp_header_bytes (arp_spoof_header ifc)]\<rparr>)"
    using arp_sends [OF qs(1-3), of "arp_spoof_header ifc" ?e ifc k] qs(4-7) assms(1) len n
    by (simp add: DEFAULT_PACKAGE_BUFFER_SIZE_def)
  moreover have "eth_bytes ?e ifc @ arp_header_bytes (arp_spoof_header ifc) =
      mac ifc @ mac ifc @ [6, 8] @ [0, 1, 0, 8, 6, 4, 0, 1] @ mac ifc @ bytes32 (ipv4_addr ifc) @
      replicate 6 0 @ bytes32 (ipv4_addr ifc)"
    by (simp add: eth_bytes_def ethernet_header_bytes_def arp_header_bytes_def arp_spoof_header_def
        bytes16_def ETHERNET_TYPE_ARP_def ARP_HDW_TYPE_ETHERNET_def ARP_PRO_TYPE_IPV4_def
        ARP_OPERATION_REQUEST_def ETHERNET_MAC_SIZE_def IPV4_ADDR_SIZE_def)
  ultimately show ?thesis
    using new w assms(2) by (simp add: arp_spoof_def arp_socket_send_def del: op_write.simps)
qed

theorem arp_spoof_frame_witness:
  "\<exists>s'. arp_spoof (op_write 2) example_interface (arp_create_socket None example_interface True) example_started =
      Inr (True, s') \<and>
    wire s' = [[2, 0, 0, 0, 0, 1, 2, 0, 0, 0, 0, 1, 6, 8, 0, 1, 0, 8, 6, 4, 0, 1,
      2, 0, 0, 0, 0, 1, 10, 0, 0, 2, 0, 0, 0, 0, 0, 0, 10, 0, 0, 2]]"
proof -
  have start: "wire example_started = []"
    by (simp add: example_started_state arp_init_handler_def static_tables_def example_blank_def)
  have ifc: "length (mac example_interface) = 6" "mac example_interface = [2, 0, 0, 0, 0, 1]"
    "as_interface (arp_create_socket None example_interface True) = example_interface"
    by (simp_all add: example_interface_def arp_create_socket_def)
  have ip: "bytes32 (ipv4_addr example_interface) = [10, 0, 0, 2]" by code_simp
  show ?thesis
    using arp_spoof_frame [OF ifc(1,3), of 2 example_started]
    by (simp add: start ifc(2) ip replicate_numeral del: op_write.simps)
qed

theorem arp_status_prints_table_witness:
  "arp_status 0 (example_started\<lparr>resolution_list := \<lparr>rl_list = Some \<lparr>ae_ipv4 = 0x0900000A, ae_mac = [2, 0, 0, 0, 0, 9]\<rparr> #
      replicate 255 None, rl_insert_idx = 1\<rparr>\<rparr>) = Inr [(0, 0x0A000009, [2, 0, 0, 0, 0, 9])]"
proof -
  let ?e = "\<lparr>ae_ipv4 = 0x0900000A, ae_mac = [2, 0, 0, 0, 0, 9]\<rparr>"
  let ?l = "\<lparr>rl_list = Some ?e # replicate 255 None, rl_insert_idx = 1\<rparr>"
  let ?s = "example_started\<lparr>resolution_list := ?l\<rparr>"
  have es: "arp_entries ?l = [?e]" by (rule entries_rep [of _ _ 255]) simp
  then have inv: "arp_invar (resolution_list ?s)" by (simp add: arp_invar_def)
  have card: "card (dom (arp_table ?l)) = 1" using card_dom_arp_table [of ?l] inv es by simp
  have "htonl 0x0900000A = (0x0A000009 :: u32)" by (simp add: bswap32_def join32_def)
  with arp_status_prints_table [OF inv, of 0] show ?thesis by (simp add: es card)
qed

end
