(* ===== verification/Pcapng.thy ===== *)
theory Pcapng
  imports Packet_Stack
begin

text \<open>
  \<^verbatim>\<open>handlers/pcapng/pcapng.c\<close>: a handler that writes every packet it reads to a capture file.
  The file is written by DPDK, whose functions, together with \<^verbatim>\<open>open\<close>, are the fields of \<open>pcap_lib\<close>;
  \<open>'d\<close> is the state of the library and the file system. A null pointer is \<open>None\<close>.

  The file is not part of the build: it uses members \<^verbatim>\<open>mem_allocate\<close> of the configuration and
  \<^verbatim>\<open>queue\<close> of the interface that the structures no longer have. They are an allocation and an
  argument here. \<^verbatim>\<open>pcapng_create_handler\<close> does not set the read operation: the line is a comment.
\<close>

section \<open>The handler\<close>

record kage_t =
  pcap_fd :: "nat option"
  mem_pool :: "nat option"

record 'd pcap_lib =
  rte_zmalloc_kage :: "'d \<Rightarrow> bool \<times> 'd"
  lib_open :: "string \<Rightarrow> 'd \<Rightarrow> int \<times> 'd"
  rte_pcapng_fdopen :: "int \<Rightarrow> 'd \<Rightarrow> nat option \<times> 'd"
  rte_pcapng_add_interface :: "nat option \<Rightarrow> u16 \<Rightarrow> 'd \<Rightarrow> int \<times> 'd"
  rte_pktmbuf_pool_create :: "nat \<Rightarrow> nat \<Rightarrow> 'd \<Rightarrow> nat option \<times> 'd"
  rte_pcapng_copy :: "u16 \<Rightarrow> u32 \<Rightarrow> u8 list \<Rightarrow> nat option \<Rightarrow> nat \<Rightarrow> 'd \<Rightarrow> nat option \<times> 'd"
  rte_pcapng_write_packets :: "nat option \<Rightarrow> nat option list \<Rightarrow> 'd \<Rightarrow> int \<times> 'd"
  rte_pcapng_close :: "nat option \<Rightarrow> 'd \<Rightarrow> 'd"
  rte_free_kage :: "'d \<Rightarrow> 'd"

text \<open>Every failure is only logged, and the null pointers are passed on.\<close>

definition pcapng_init_handler :: "'d pcap_lib \<Rightarrow> 'd \<Rightarrow> fault + (kage_t \<times> 'd)" where
  "pcapng_init_handler lib d =
     (let (kage, d) = rte_zmalloc_kage lib d;
          (fd, d) = lib_open lib ''kage.pcap'' d;
          (pcap, d) = rte_pcapng_fdopen lib fd d;
          (_, d) = rte_pcapng_add_interface lib pcap 0 d;
          (pool, d) = rte_pktmbuf_pool_create lib 8192 256 d
      in if kage then Inr (\<lparr>pcap_fd = pcap, mem_pool = pool\<rparr>, d) else Inl Null_deref)"

definition pcapng_close_handler :: "'d pcap_lib \<Rightarrow> kage_t \<Rightarrow> 'd \<Rightarrow> 'd" where
  "pcapng_close_handler lib kage d = rte_free_kage lib (rte_pcapng_close lib (pcap_fd kage) d)"

definition pcapng_read :: "'d pcap_lib \<Rightarrow> kage_t \<Rightarrow> interface_t \<Rightarrow> u32 \<Rightarrow> u8 list \<Rightarrow> 'd \<Rightarrow> u16 \<times> 'd" where
  "pcapng_read lib kage ifc queue packet d =
     (let (copy, d) = rte_pcapng_copy lib (if_port ifc) queue packet (mem_pool kage) 8192 d;
          (num_written, d) = rte_pcapng_write_packets lib (pcap_fd kage) [copy] d
      in if num_written < 0 then (-1, d) else (0, d))"

text \<open>The new handler: a function pointer that is not set is \<open>None\<close>.\<close>

datatype pcapng_function = Pcapng_init_handler | Pcapng_close_handler | Pcapng_read

record pcapng_handler_t =
  ph_config :: nat
  ph_init :: "pcapng_function option"
  ph_close :: "pcapng_function option"
  ph_read :: "pcapng_function option"
  ph_write :: "pcapng_function option"

definition pcapng_create_handler :: "bool \<Rightarrow> nat \<Rightarrow> fault + pcapng_handler_t" where
  "pcapng_create_handler allocated handler_config =
     (if allocated then Inr \<lparr>ph_config = handler_config, ph_init = Some Pcapng_init_handler,
        ph_close = Some Pcapng_close_handler, ph_read = None, ph_write = None\<rparr>
      else Inl Null_deref)"

section \<open>The capture file\<close>

text \<open>
  What DPDK documents: a copy holds the first bytes of the packet, up to the given length; writing
  appends the packets to the file, returns the number of bytes, and always frees them.
\<close>

definition copies :: "'d pcap_lib \<Rightarrow> ('d \<Rightarrow> u8 list list) \<Rightarrow> ('d \<Rightarrow> nat \<rightharpoonup> u8 list) \<Rightarrow> nat \<Rightarrow> bool" where
  "copies lib file held pool \<longleftrightarrow>
     (\<forall>port queue packet n d. \<exists>b d'. rte_pcapng_copy lib port queue packet (Some pool) n d = (Some b, d') \<and>
        file d' = file d \<and> held d b = None \<and> held d' = (held d)(b \<mapsto> take n packet))"

definition writes :: "'d pcap_lib \<Rightarrow> ('d \<Rightarrow> u8 list list) \<Rightarrow> ('d \<Rightarrow> nat \<rightharpoonup> u8 list) \<Rightarrow> nat \<Rightarrow> bool" where
  "writes lib file held fd \<longleftrightarrow>
     (\<forall>b bs d. held d b = Some bs \<longrightarrow> (\<exists>k d'. rte_pcapng_write_packets lib (Some fd) [Some b] d = (k, d') \<and>
        0 \<le> k \<and> file d' = file d @ [bs] \<and> held d' = (held d)(b := None)))"

fun capture :: "'d pcap_lib \<Rightarrow> kage_t \<Rightarrow> interface_t \<Rightarrow> u32 \<Rightarrow> u8 list list \<Rightarrow> 'd \<Rightarrow> u16 list \<times> 'd" where
  "capture lib kage ifc queue [] d = ([], d)"
| "capture lib kage ifc queue (p # ps) d =
     (let (r, d) = pcapng_read lib kage ifc queue p d; (rs, d) = capture lib kage ifc queue ps d in (r # rs, d))"

text \<open>Every packet that is read is in the file afterwards, cut at 8192 bytes, in the order of reading;
  every call returns 0 and no copy is left.\<close>

theorem capture_in_order:
  assumes "copies lib file held pool" and "writes lib file held fd"
    and "pcap_fd kage = Some fd" and "mem_pool kage = Some pool"
  shows "\<exists>d'. capture lib kage ifc queue packets d = (replicate (length packets) 0, d') \<and>
    file d' = file d @ map (take 8192) packets \<and> held d' = held d"
proof (induction packets arbitrary: d)
  case (Cons p ps)
  obtain b d1 where d1: "rte_pcapng_copy lib (if_port ifc) queue p (Some pool) 8192 d = (Some b, d1)"
    "file d1 = file d" "held d b = None" "held d1 = (held d)(b \<mapsto> take 8192 p)"
    using assms(1) unfolding copies_def by blast
  obtain k d2 where d2: "rte_pcapng_write_packets lib (Some fd) [Some b] d1 = (k, d2)" "0 \<le> k"
    "file d2 = file d1 @ [take 8192 p]" "held d2 = (held d1)(b := None)"
    using assms(2) d1(4) unfolding writes_def by (metis fun_upd_same)
  have read: "pcapng_read lib kage ifc queue p d = (0, d2)"
    using assms(3,4) d1 d2 by (simp add: pcapng_read_def)
  have "held d2 = held d" using d1(3,4) d2(4) by auto
  with Cons.IH [of d2] read d1(2) d2(3) show ?case by auto
qed simp

text \<open>When the file could not be opened the handler goes on with a null pointer, and when the write
  fails the read returns 65535.\<close>

lemma pcapng_failures:
  assumes "rte_zmalloc_kage lib d = (True, d1)" and "lib_open lib ''kage.pcap'' d1 = (fd, d2)"
    and "rte_pcapng_fdopen lib fd d2 = (None, d3)"
  shows "\<exists>kage d'. pcapng_init_handler lib d = Inr (kage, d') \<and> pcap_fd kage = None"
    and "fst (rte_pcapng_write_packets lib (pcap_fd kage)
      [fst (rte_pcapng_copy lib (if_port ifc) queue p (mem_pool kage) 8192 d)]
      (snd (rte_pcapng_copy lib (if_port ifc) queue p (mem_pool kage) 8192 d))) < 0 \<Longrightarrow>
      fst (pcapng_read lib kage ifc queue p d) = 65535"
  using assms by (simp_all add: pcapng_init_handler_def pcapng_read_def Let_def case_prod_unfold)

end
