(* ===== verification/Utilities.thy ===== *)
theory Utilities
  imports Packet_Stack
begin

text \<open>
  \<^verbatim>\<open>util/array.c\<close>, \<^verbatim>\<open>handlers/interface.c\<close>, and the clean-up paths of \<^verbatim>\<open>create_verify_signature\<close> in
  \<^verbatim>\<open>handlers/tls/handshake/certificate_verify.c\<close>.
\<close>

section \<open>Arrays\<close>

text \<open>The loop runs from the last byte to the first.\<close>

fun array_is_zero :: "u8 list \<Rightarrow> nat \<Rightarrow> fault + bool" where
  "array_is_zero array 0 = Inr True"
| "array_is_zero array (Suc n) =
     sbind (idx array n) (\<lambda>b. if b \<noteq> 0 then Inr False else array_is_zero array n)"

lemma array_is_zero_exact:
  "n \<le> length array \<Longrightarrow> array_is_zero array n = Inr (\<forall>b \<in> set (take n array). b = 0)"
  by (induction n) (auto simp: idx_def take_Suc_conv_app_nth)

lemma array_is_zero_overread: "length array < n \<Longrightarrow> array_is_zero array n = Inl Out_of_bounds"
  by (cases n) (auto simp: idx_def)

section \<open>Interfaces\<close>

text \<open>Only the operations are set; the other fields hold what the allocation held.\<close>

definition interface_create_interface :: "interface_t \<Rightarrow> 'o \<Rightarrow> interface_t \<times> 'o" where
  "interface_create_interface raw interface_operations = (raw, interface_operations)"

section \<open>Signatures\<close>

text \<open>
  OpenSSL's functions are the fields of a record: whether the allocations succeed, and what the
  calls return. The list of what is allocated and freed is the state. The key is never set:
  \<open>pkey\<close> is what the variable holds.
\<close>

datatype ssl_event = New_ctx | Free_ctx | New_sig nat | Free_sig

record ssl_lib =
  EVP_MD_CTX_new :: bool
  EVP_DigestSignInit :: "nat \<Rightarrow> int"
  EVP_DigestSignFinal_length :: "int \<times> nat"
  OPENSSL_malloc :: "nat \<Rightarrow> bool"
  EVP_DigestSignFinal :: int

definition create_verify_signature :: "ssl_lib \<Rightarrow> nat \<Rightarrow> ssl_event list" where
  "create_verify_signature ssl pkey =
     (if \<not> EVP_MD_CTX_new ssl then []
      else if EVP_DigestSignInit ssl pkey \<noteq> 1 then [New_ctx, Free_ctx]
      else
        let (r, siglen) = EVP_DigestSignFinal_length ssl in
        if r \<noteq> 1 then [New_ctx, Free_ctx]
        else if \<not> OPENSSL_malloc ssl siglen then [New_ctx, Free_ctx]
        else if EVP_DigestSignFinal ssl \<noteq> 1 then [New_ctx, New_sig siglen, Free_sig, Free_ctx]
        else [New_ctx, New_sig siglen, Free_sig, Free_ctx])"

text \<open>On every path what was allocated is freed once, the signature before the context.\<close>

fun balanced_events :: "bool \<Rightarrow> bool \<Rightarrow> ssl_event list \<Rightarrow> bool" where
  "balanced_events c s [] \<longleftrightarrow> \<not> c \<and> \<not> s"
| "balanced_events c s (New_ctx # es) \<longleftrightarrow> \<not> c \<and> balanced_events True s es"
| "balanced_events c s (Free_ctx # es) \<longleftrightarrow> c \<and> \<not> s \<and> balanced_events False s es"
| "balanced_events c s (New_sig n # es) \<longleftrightarrow> c \<and> \<not> s \<and> balanced_events c True es"
| "balanced_events c s (Free_sig # es) \<longleftrightarrow> s \<and> balanced_events c False es"

lemma create_verify_signature_frees: "balanced_events False False (create_verify_signature ssl pkey)"
  by (simp add: create_verify_signature_def split: prod.split)

end
