(* ===== verification/Spec2Isabelle.thy ===== *)
theory Spec2Isabelle
  imports Tcp_Reachable Tcp_Window Tcp_Order Tcp_Session Arp_Hosts Arp_Startup Shutdown Execution_Pool Handler_Objects Tls Dhcp Arp_Program
    Pcapng Utilities
begin

text \<open>
  A model of the user space network stack \<^emph>\<open>net_stack\<close> and the proofs of its properties. All
  file names are relative to \<^verbatim>\<open>src/\<close>.

  \<^bold>\<open>The program.\<close> A thread (\<^verbatim>\<open>offloader_loop\<close> in \<^verbatim>\<open>main.c\<close>) takes packets from the network card
  and puts them into the queue of a worker. The worker (\<^verbatim>\<open>worker.c\<close>) hands each packet to the
  root handlers. A handler (\<^verbatim>\<open>handlers/*\<close>) has a \<^verbatim>\<open>read\<close> and a \<^verbatim>\<open>write\<close> operation: \<^verbatim>\<open>read\<close> looks at
  its header, finds the next handler in a table (\<^verbatim>\<open>handlers/protocol_map.c\<close>) and calls its
  \<^verbatim>\<open>read\<close>; \<^verbatim>\<open>write\<close> puts its header in front of the payload and calls the \<^verbatim>\<open>write\<close> of the handler
  below. What a handler leaves for the answer travels with the packet in a packet stack
  (\<^verbatim>\<open>handlers/handler.h\<close>). The lowest \<^verbatim>\<open>write\<close> puts the frame into the write queue of the
  offloader (\<^verbatim>\<open>dpdk/write.c\<close>). Programs use sockets: TCP's (\<^verbatim>\<open>handlers/tcp/socket.c\<close>) and ARP's
  (\<^verbatim>\<open>handlers/arp/socket.c\<close>).

  \<^bold>\<open>Conventions.\<close> Machine integers are words of their width, bytes are \<open>8 word\<close>, memory behind a
  pointer is a function from offsets to bytes; the host is little endian. What C leaves
  undefined is a value \<open>Inl\<close> of the type \<open>fault\<close> (null pointer, access out of bounds, freed
  memory, wrong cast, signed overflow, division by zero), and \<open>sbind\<close> passes it on. A return
  value that a function does not set is \<open>None\<close>. Objects shared by pointer live in stores that
  are fields of one record, extended from theory to theory (\<open>net_mem\<close>, \<open>eth_mem\<close>, \<open>ip_mem\<close>,
  \<open>arp_mem\<close>, \<open>tcp_mem\<close>, \<open>upper_mem\<close>, \<open>stack_mem\<close>), so that each handler is defined on the part it
  knows. What an allocation holds before it is written is a parameter. Locks have no
  counterpart where one thread runs at a time; in \<open>Worker\<close>, where two threads meet, they do.

  \<^bold>\<open>Theories.\<close>

  \<^item> \<open>Net_Prelude\<close>: faults, sequencing, bounds-checked lists, byte order, words.
  \<^item> \<open>Protocol_Map\<close> (\<^verbatim>\<open>protocol_map.c\<close>): \<open>add_value\<close>, \<open>get_value\<close> with its 8-bit index and the
    reordering of entries; when a lookup ends, what it returns, and the locale \<open>registry\<close>.
  \<^item> \<open>Packet_Stack\<close> (\<^verbatim>\<open>handler.c\<close>, \<^verbatim>\<open>handler.h\<close>): packet stacks, their creation, pushing of
    headers, and the locale \<open>header_layer\<close> that Ethernet, IPv4, ARP and the custom handler
    interpret.
  \<^item> \<open>Ones_Complement\<close>: the algebra of the Internet checksum, used by IPv4 and TCP.
  \<^item> \<open>Ethernet\<close>, \<open>Ipv4\<close>, \<open>Arp\<close> (\<^verbatim>\<open>ethernet.c\<close>, \<^verbatim>\<open>ipv4.c\<close>, \<^verbatim>\<open>arp.c\<close>, \<^verbatim>\<open>arp/socket.c\<close>): the round trip of
    a datagram, detection of a corrupted header, the resolution list against the reception
    rule of RFC 826 (locale \<open>address_cache\<close>).
  \<^item> \<open>Tcp_Block_Buffer\<close> (\<^verbatim>\<open>tcp_block_buffer.c\<close>): the linked blocks, their invariant, and the
    abstract queue they implement (locale \<open>segment_queue\<close>). The code asks \<^verbatim>\<open>malloc\<close> for ten blocks and
    links eleven. The parameter \<open>malloc_slack\<close> is the number of further blocks for which there
    happens to be unused memory behind the ten: with none, creating a buffer is a fault, and the
    theorems on opening a connection state both outcomes.
  \<^item> \<open>Tcp_Shared\<close>, \<open>Tcp_Socket\<close>, \<open>Tcp_Output\<close>, \<open>Tcp_States\<close> (\<^verbatim>\<open>tcp_shared.c\<close>, \<^verbatim>\<open>socket.c\<close>, \<^verbatim>\<open>tcp.c\<close>,
    \<^verbatim>\<open>tcp_states.c\<close>): control blocks, sockets, sending, and every state function with all its
    branches; the exact meaning of the window test.
  \<^item> \<open>Custom\<close> (\<^verbatim>\<open>custom.c\<close>, \<^verbatim>\<open>llc.c\<close>): the handler with a preset answer, and LLC.
  \<^item> \<open>Net_Stack\<close> (\<^verbatim>\<open>net_stack.c\<close>, the loop of \<^verbatim>\<open>worker.c\<close>): start-up, the indirect calls \<open>op_read\<close> and
    \<open>op_write\<close>, a packet through all layers, ARP answered end to end.
  \<^item> \<open>Tcp_Stack\<close>, \<open>Tcp_Connection\<close>, \<open>Tcp_Active\<close>, \<open>Tcp_Closing\<close>: the life of a connection frame by
    frame: passive and active open, payload, FIN, RST.
  \<^item> \<open>Tcp_Stream\<close>, \<open>Tcp_Window\<close>, \<open>Tcp_Order\<close>: sequences of frames. A server answers any number of requests
    in order, a program's buffers go out in order; what happens when the receive window is used
    up, at the end of the sequence space, and when segments arrive out of order or twice.
  \<^item> \<open>Tcp_Hosts\<close>, \<open>Tcp_Session\<close>, \<open>Arp_Hosts\<close>: two machines with this stack on one link (\<open>exchange\<close>). They
    learn each other's hardware address; one connects to the other, its program sends requests
    and the custom handler of the other answers; every frame is read by the other machine as it
    was written.
  \<^item> \<open>Arp_Startup\<close>: the first ARP requests after start-up, for every value of the insert index that
    \<^verbatim>\<open>arp_init_handler\<close> leaves uninitialised.
  \<^item> \<open>Tcp_Invariant\<close>, \<open>Tcp_Reachable\<close>: the invariant of every control block and the order of its
    states, kept by every operation of every handler (locale \<open>tcp_layers\<close>, interpreted for
    \<open>op_read\<close> and \<open>op_write\<close> by induction on the depth of calls), and so true in every state
    that packets and calls of programs can lead to.
  \<^item> \<open>Worker\<close> (\<^verbatim>\<open>worker.c\<close>, \<^verbatim>\<open>dpdk/packet.c\<close>): the execution context, the worker thread statement by
    statement and its interleaving with \<^verbatim>\<open>start\<close>, \<^verbatim>\<open>stop\<close> and the network; refinement to the
    sequential loop.
  \<^item> \<open>Execution_Pool\<close> (\<^verbatim>\<open>execution_pool.c\<close>): several workers, started and stopped by one thread.
  \<^item> \<open>Handler_Objects\<close> (the \<^verbatim>\<open>create\<close>, \<^verbatim>\<open>init\<close> and \<^verbatim>\<open>close\<close> functions of all handlers, \<^verbatim>\<open>net_stack.c\<close>): the
    handler objects on a heap in which any allocation can fail; when \<^verbatim>\<open>init\<close> and \<^verbatim>\<open>close\<close> may be called,
    and what they leave allocated (locale \<open>life_cycle\<close>).
  \<^item> \<open>Offloader\<close>, \<open>Main_Program\<close>, \<open>Shutdown\<close> (\<^verbatim>\<open>main.c\<close>, \<^verbatim>\<open>dpdk/write.c\<close>): the offloader loop,
    initialisation with every tested and untested result, allocations included, with and without a
    worker core; the link check; and what follows the loop after a signal.
  \<^item> \<open>Arp_Program\<close> (\<^verbatim>\<open>programs/arp/arp.c\<close>), \<open>Dhcp\<close> (\<^verbatim>\<open>dhcp.c\<close>), \<open>Tls\<close> (\<^verbatim>\<open>tls.c\<close> and \<^verbatim>\<open>tls/handshake\<close>),
    \<open>Pcapng\<close> (\<^verbatim>\<open>pcapng.c\<close>), \<open>Utilities\<close> (\<^verbatim>\<open>util/array.c\<close>, \<^verbatim>\<open>interface.c\<close>, the clean-up of
    \<^verbatim>\<open>create_verify_signature\<close>).

  \<^bold>\<open>Bounds and fuel.\<close> \<open>op_read\<close> and \<open>op_write\<close> take fuel for the depth of nested calls, as nothing in
  the code bounds it; running out is \<open>No_return\<close>, never a result. The theorems on packets hold
  for every fuel from a stated number on, which is the depth of the handlers involved (six
  for a TCP segment and its answer, eight when a handler above TCP answers too). \<open>tcp_send_loop\<close> has
  fuel 12 for at most 11 blocks.
  \<open>get_value_loop\<close> and \<open>tls_read_loop\<close> may not end and are functions to \<open>option\<close>, with theorems
  that say exactly when they do. \<open>exchange\<close> has fuel 3 or 4, one turn more than the machines need to
  fall silent after a call of the program. All other loops are total functions. The invariant of
  \<open>Tcp_Reachable\<close> holds for every fuel.

  \<^bold>\<open>Parameters.\<close> DPDK, the thread library and the programs' callbacks are not part of the
  repository. The functions of DPDK are arguments (\<open>deq\<close>, the record \<open>dpdk\<close>, the results in
  \<open>dpdk_env\<close>), and what DPDK documents of rings and pools are hypotheses (\<open>fifo_ring\<close>,
  \<open>bounded_ring\<close>, \<open>bulk_ring\<close>, \<open>mbuf_pool\<close>), each with an instance in the witnesses.
  \<^verbatim>\<open>create_netstack_thread\<close>, the capture library and OpenSSL are arguments of the definitions that call
  them. How a received frame lies in memory is the argument \<open>place\<close> of \<open>exchange\<close>, with the hypothesis
  \<open>receives\<close> that the frame is at its start.

  \<^bold>\<open>Not modelled.\<close> \<^verbatim>\<open>server.c\<close> has no code outside comments, and \<^verbatim>\<open>main_dev.c\<close> is a sketch that calls
  functions with arguments they do not take. \<^verbatim>\<open>http_read\<close> does not compile and \<^verbatim>\<open>http_write\<close> is empty.
  Of TLS, the answer to a ClientHello in \<^verbatim>\<open>tls_handle_handshake\<close> does not compile, and the writers of
  \<^verbatim>\<open>tls.c\<close> that only it calls use a byte of the buffer as a pointer (\<open>Tls\<close> shows that \<^verbatim>\<open>tls_read\<close> never
  gets there); of DHCP, \<^verbatim>\<open>handle_reply\<close> does not compile; both are parameters.
  On the link of \<open>Tcp_Hosts\<close> every frame that a machine gives to its driver arrives; that the offloader
  keeps back a single frame is in \<open>Offloader\<close>.
  Allocations after start-up (entries of the resolution list, packet stacks, sockets, control blocks) are
  taken to succeed, and so is \<^verbatim>\<open>start\<close>'s creation of a thread in \<open>Worker\<close> and \<open>Execution_Pool\<close>. The nine
  handlers of \<open>Handler_Objects\<close> do not include pcapng, which has its own theory. The checksum of a segment with
  more than 40 bytes of payload reads behind the 60 bytes of \<^verbatim>\<open>out_header\<close>; the model reads the bytes
  that are there.
  Logging has no counterpart. The function pointers that \<^verbatim>\<open>create\<close> sets are in \<open>Handler_Objects\<close>; in
  the other theories the dispatch of \<open>op_read\<close> and \<open>op_write\<close> stands for the calls through them.
\<close>

end
